(* ===== verification/Prelude.thy ===== *)
theory Prelude
  imports Main "HOL-Library.State_Monad"
begin

text \<open>
  Shared vocabulary of the development: Go errors as a datatype with the semantics of
  \<open>errors.Is\<close> and \<open>Error()\<close>, the string functions of the Go standard library that the
  sources call, decimal formatting (\<open>%d\<close>), and a small Hoare logic for the state monad in
  which every database operation is written.
\<close>

named_theorems hoare_rules \<open>structural rules of the Hoare logic for the world monad\<close>
named_theorems run_simps \<open>equations that execute a monadic operation on a state\<close>

section \<open>Errors\<close>

text \<open>
  The named error values the packages compare against with \<open>errors.Is\<close>: queue
  (\<open>queue/queue.go\<close>, \<open>queue/worker.go\<close>, \<open>queue/notify.go\<close>, \<open>queue/retention.go\<close>), pglock,
  workflow (\<open>workflow/errors.go\<close>, \<open>workflow/activation.go\<close>) and the ones of the standard
  library.
\<close>

datatype sentinel =
    ErrNilDB | ErrInvalidQueue | ErrInvalidLimit | ErrJobNotFound | ErrInvalidOffset
  | ErrSearchTooLong | ErrJobBusy | ErrInvalidVisibilityTimeout
  | ErrNilRegistry | ErrInvalidWorkerConfig | ErrHandlerAlreadySet | ErrInvalidHandler
  | ErrWorkerRunning | ErrNotificationsUnsupported | ErrInvalidRetentionPolicy
  | LockErrNilDB | LockErrNilTx
  | ErrNilQueue | ErrRunNotFound | ErrRunFinished | ErrRunNotRetryable | ErrInvalidName
  | ErrNoWorkflows | ErrDuplicateWorkflow | WfErrInvalidWorkerConfig
  | ErrSuspended | ErrCancelled | ErrTimeout | ErrNonDeterministic
  | ErrLeaseLost | ErrAttemptLost | ErrUnstorableNUL
  | SqlErrNoRows | SqlErrTxDone | SqlErrConnDone
  | ContextCanceled | ContextDeadlineExceeded | DriverErrBadConn | NetErrClosed | IoEOF

fun sentinel_text :: "sentinel \<Rightarrow> string" where
  "sentinel_text ErrNilDB = ''pgqueue: db is nil''"
| "sentinel_text ErrInvalidQueue = ''pgqueue: queue name is required''"
| "sentinel_text ErrInvalidLimit = ''pgqueue: limit must be positive''"
| "sentinel_text ErrJobNotFound = ''pgqueue: job not found or not in expected state''"
| "sentinel_text ErrInvalidOffset = ''pgqueue: offset must be non-negative''"
| "sentinel_text ErrSearchTooLong = ''pgqueue: search query is too long''"
| "sentinel_text ErrJobBusy = ''pgqueue: job is currently processing''"
| "sentinel_text ErrInvalidVisibilityTimeout = ''pgqueue: visibility timeout must be positive''"
| "sentinel_text ErrNilRegistry = ''pgqueue: registry is nil''"
| "sentinel_text ErrInvalidWorkerConfig = ''pgqueue: invalid worker config''"
| "sentinel_text ErrHandlerAlreadySet = ''pgqueue: handler already registered for queue''"
| "sentinel_text ErrInvalidHandler = ''pgqueue: handler is nil''"
| "sentinel_text ErrWorkerRunning = ''pgqueue: worker is already running''"
| "sentinel_text ErrNotificationsUnsupported =
     ''pgqueue: OnEnqueue pickup needs the pgx stdlib driver, Client.ListenOn or Client.ListenWith''"
| "sentinel_text ErrInvalidRetentionPolicy = ''pgqueue: invalid retention policy''"
| "sentinel_text LockErrNilDB = ''pglock: db is nil''"
| "sentinel_text LockErrNilTx = ''pglock: tx is nil''"
| "sentinel_text ErrNilQueue = ''workflow: queue client is nil''"
| "sentinel_text ErrRunNotFound = ''workflow: run not found''"
| "sentinel_text ErrRunFinished = ''workflow: run already finished''"
| "sentinel_text ErrRunNotRetryable = ''workflow: only a failed or cancelled run can be retried''"
| "sentinel_text ErrInvalidName =
     ''workflow: names must be non-empty and must not contain '' @ [CHR 39] @ ''#'' @ [CHR 39]"
| "sentinel_text ErrNoWorkflows = ''workflow: worker has no workflows''"
| "sentinel_text ErrDuplicateWorkflow = ''workflow: worker lists a workflow version twice''"
| "sentinel_text WfErrInvalidWorkerConfig = ''workflow: invalid worker config''"
| "sentinel_text ErrSuspended = ''workflow: run suspended''"
| "sentinel_text ErrCancelled = ''workflow: run cancelled''"
| "sentinel_text ErrTimeout = ''workflow: timed out''"
| "sentinel_text ErrNonDeterministic = ''workflow: run no longer matches its recorded steps''"
| "sentinel_text ErrLeaseLost = ''workflow: another worker took over the run''"
| "sentinel_text ErrAttemptLost = ''the attempt did not report back: its worker stopped''"
| "sentinel_text ErrUnstorableNUL =
     ''contains a NUL character, which PostgreSQL cannot store in JSONB''"
| "sentinel_text SqlErrNoRows = ''sql: no rows in result set''"
| "sentinel_text SqlErrTxDone = ''sql: transaction has already been committed or rolled back''"
| "sentinel_text SqlErrConnDone = ''sql: connection is already closed''"
| "sentinel_text ContextCanceled = ''context canceled''"
| "sentinel_text ContextDeadlineExceeded = ''context deadline exceeded''"
| "sentinel_text DriverErrBadConn = ''driver: bad connection''"
| "sentinel_text NetErrClosed = ''use of closed network connection''"
| "sentinel_text IoEOF = ''EOF''"

text \<open>
  An error value. \<open>Errorf\<close> is a leaf made by \<open>errors.New\<close> or by \<open>fmt.Errorf\<close> without
  \<open>%w\<close>; \<open>Wrapf pre e post\<close> is \<open>fmt.Errorf\<close> with one \<open>%w\<close> between two literal texts;
  \<open>Join\<close> is \<open>errors.Join\<close>; \<open>PgError code message\<close> is a \<open>*pgconn.PgError\<close>;
  \<open>HandledError\<close> and \<open>NonRetryableError\<close> are the two marker types of \<open>queue/worker.go\<close>,
  \<open>StepNonRetryable\<close> the one of \<open>workflow/errors.go\<close>; \<open>RunError message cancelled timedOut\<close> is a
  \<open>*workflow.RunError\<close> with its text and what its \<open>Is\<close> method looks at.
\<close>

datatype err =
    Sentinel sentinel
  | Errorf string
  | Wrapf string err string
  | Join "err list"
  | PgError string string
  | HandledError
  | NonRetryableError err
  | StepNonRetryable err
  | RunError string bool bool

abbreviation wrap :: "string \<Rightarrow> err \<Rightarrow> err" where
  "wrap pre e \<equiv> Wrapf pre e []"

fun join_lines :: "string list \<Rightarrow> string" where
  "join_lines [] = []"
| "join_lines [s] = s"
| "join_lines (s # t # ts) = s @ [CHR 10] @ join_lines (t # ts)"

text \<open>\<open>Error()\<close>.\<close>

fun err_text :: "err \<Rightarrow> string" where
  "err_text (Sentinel s) = sentinel_text s"
| "err_text (Errorf s) = s"
| "err_text (Wrapf pre e post) = pre @ err_text e @ post"
| "err_text (Join es) = join_lines (map err_text es)"
| "err_text (PgError code msg) = ''ERROR: '' @ msg @ '' (SQLSTATE '' @ code @ '')''"
| "err_text HandledError = ''pgqueue: job already handled''"
| "err_text (NonRetryableError e) = err_text e"
| "err_text (StepNonRetryable e) = err_text e"
| "err_text (RunError msg cancelled timedOut) = msg"

text \<open>
  The tree \<open>errors.Is\<close> and \<open>errors.As\<close> walk: the error itself, then what its \<open>Unwrap\<close>
  returns, depth first.
\<close>

fun err_chain :: "err \<Rightarrow> err list" where
  "err_chain (Wrapf pre e post) = Wrapf pre e post # err_chain e"
| "err_chain (Join es) = Join es # concat (map err_chain es)"
| "err_chain (NonRetryableError e) = NonRetryableError e # err_chain e"
| "err_chain (StepNonRetryable e) = StepNonRetryable e # err_chain e"
| "err_chain e = [e]"

text \<open>\<open>errors.Is\<close>: equality, or the \<open>Is\<close> method of \<open>*RunError\<close>.\<close>

fun err_matches :: "err \<Rightarrow> sentinel \<Rightarrow> bool" where
  "err_matches (Sentinel t) s \<longleftrightarrow> t = s"
| "err_matches (RunError msg cancelled timedOut) s \<longleftrightarrow>
     s = ErrCancelled \<and> cancelled \<or> s = ErrTimeout \<and> timedOut"
| "err_matches e s \<longleftrightarrow> False"

definition errors_is :: "err \<Rightarrow> sentinel \<Rightarrow> bool" where
  "errors_is e s \<longleftrightarrow> list_ex (\<lambda>x. err_matches x s) (err_chain e)"

lemma errors_is_simps [simp]:
  "errors_is (Sentinel t) s \<longleftrightarrow> t = s"
  "errors_is (Errorf m) s \<longleftrightarrow> False"
  "errors_is (Wrapf pre e post) s \<longleftrightarrow> errors_is e s"
  "errors_is (Join es) s \<longleftrightarrow> (\<exists>e \<in> set es. errors_is e s)"
  "errors_is (PgError code msg) s \<longleftrightarrow> False"
  "errors_is HandledError s \<longleftrightarrow> False"
  "errors_is (NonRetryableError e) s \<longleftrightarrow> errors_is e s"
  "errors_is (StepNonRetryable e) s \<longleftrightarrow> errors_is e s"
  "errors_is (RunError msg cancelled timedOut) s \<longleftrightarrow>
     s = ErrCancelled \<and> cancelled \<or> s = ErrTimeout \<and> timedOut"
  by (auto simp: errors_is_def list_ex_iff)

lemma err_chain_nonempty [simp]: "err_chain e \<noteq> []"
  by (cases e) simp_all

section \<open>Strings\<close>

text \<open>A Go string is a sequence of bytes; so is \<^typ>\<open>string\<close>.\<close>

definition is_space :: "char \<Rightarrow> bool" where
  "is_space c \<longleftrightarrow> of_char c \<in> {9 :: nat, 10, 11, 12, 13, 32}"

definition trim_left :: "string \<Rightarrow> string" where
  "trim_left s = dropWhile is_space s"

text \<open>\<open>strings.TrimSpace\<close> on text whose leading and trailing bytes are ASCII.\<close>

definition trim_space :: "string \<Rightarrow> string" where
  "trim_space s = rev (trim_left (rev (trim_left s)))"

fun has_prefix :: "string \<Rightarrow> string \<Rightarrow> bool" where
  "has_prefix p [] \<longleftrightarrow> p = []"
| "has_prefix [] (c # s) \<longleftrightarrow> True"
| "has_prefix (d # p) (c # s) \<longleftrightarrow> d = c \<and> has_prefix p s"

text \<open>\<open>strings.Contains\<close>.\<close>

fun contains :: "string \<Rightarrow> string \<Rightarrow> bool" where
  "contains [] sub \<longleftrightarrow> sub = []"
| "contains (c # s) sub \<longleftrightarrow> has_prefix sub (c # s) \<or> contains s sub"

text \<open>\<open>strings.ToLower\<close> on ASCII letters; other bytes are kept.\<close>

definition lower_char :: "char \<Rightarrow> char" where
  "lower_char c = (if 65 \<le> (of_char c :: nat) \<and> of_char c \<le> (90 :: nat)
     then char_of ((of_char c :: nat) + 32) else c)"

definition to_lower :: "string \<Rightarrow> string" where
  "to_lower s = map lower_char s"

lemma has_prefix_iff: "has_prefix p s \<longleftrightarrow> (\<exists>t. s = p @ t)"
  by (induction p s rule: has_prefix.induct) (auto simp: Cons_eq_append_conv)

lemma contains_iff: "contains s sub \<longleftrightarrow> (\<exists>u v. s = u @ sub @ v)"
proof (induction s)
  case Nil
  show ?case by auto
next
  case (Cons c s)
  show ?case
  proof
    assume "contains (c # s) sub"
    then consider "has_prefix sub (c # s)" | "contains s sub" by auto
    then show "\<exists>u v. c # s = u @ sub @ v"
    proof cases
      case 1
      then show ?thesis by (metis append_Nil has_prefix_iff)
    next
      case 2
      with Cons.IH obtain u v where "s = u @ sub @ v" by auto
      then have "c # s = (c # u) @ sub @ v" by simp
      then show ?thesis by blast
    qed
  next
    assume "\<exists>u v. c # s = u @ sub @ v"
    then obtain u v where e: "c # s = u @ sub @ v" by blast
    show "contains (c # s) sub"
    proof (cases u)
      case Nil
      with e have "has_prefix sub (c # s)" by (auto simp: has_prefix_iff)
      then show ?thesis by simp
    next
      case (Cons d u')
      with e have "s = u' @ sub @ v" by simp
      with Cons.IH show ?thesis by auto
    qed
  qed
qed

lemma contains_char: "contains s [c] \<longleftrightarrow> c \<in> set s"
  by (auto simp: contains_iff in_set_conv_decomp)

section \<open>Decimal formatting\<close>

definition digit :: "nat \<Rightarrow> char" where
  "digit n = char_of (48 + n)"

fun dec_nat :: "nat \<Rightarrow> string" where
  "dec_nat n = (if n < 10 then [digit n] else dec_nat (n div 10) @ [digit (n mod 10)])"

declare dec_nat.simps [simp del]

text \<open>\<open>%d\<close>.\<close>

definition dec_int :: "int \<Rightarrow> string" where
  "dec_int i = (if i < 0 then CHR ''-'' # dec_nat (nat (- i)) else dec_nat (nat i))"

lemma digit_inj: "m < 10 \<Longrightarrow> n < 10 \<Longrightarrow> digit m = digit n \<Longrightarrow> m = n"
proof -
  assume m: "m < 10" and n: "n < 10" and e: "digit m = digit n"
  from e have "(of_char (char_of (48 + m) :: char) :: nat) = of_char (char_of (48 + n) :: char)"
    by (simp add: digit_def)
  with m n show "m = n" by simp
qed

lemma dec_nat_snoc: "dec_nat n = (if n < 10 then [] else dec_nat (n div 10)) @ [digit (n mod 10)]"
  by (subst dec_nat.simps) simp

lemma dec_nat_inj: "dec_nat m = dec_nat n \<Longrightarrow> m = n"
proof (induction m arbitrary: n rule: less_induct)
  case (less m)
  from less.prems have d: "digit (m mod 10) = digit (n mod 10)"
    and p: "(if m < 10 then [] else dec_nat (m div 10)) = (if n < 10 then [] else dec_nat (n div 10))"
    using dec_nat_snoc [of m] dec_nat_snoc [of n] by simp_all
  from d have md: "m mod 10 = n mod 10" by (intro digit_inj) simp_all
  have ne: "dec_nat k \<noteq> []" for k using dec_nat_snoc [of k] by simp
  from p ne [of "m div 10"] ne [of "n div 10"] have small: "m < 10 \<longleftrightarrow> n < 10"
    by (auto split: if_splits)
  show ?case
  proof (cases "m < 10")
    case True
    with small md show ?thesis by simp
  next
    case False
    with small p have "dec_nat (m div 10) = dec_nat (n div 10)" by simp
    with False less.IH [of "m div 10"] have "m div 10 = n div 10" by simp
    with md show ?thesis by (metis div_mult_mod_eq)
  qed
qed

lemma of_char_digit: "n < 10 \<Longrightarrow> (of_char (digit n) :: nat) = 48 + n"
  by (simp add: digit_def)

lemma dec_nat_chars: "c \<in> set (dec_nat n) \<Longrightarrow> 48 \<le> (of_char c :: nat) \<and> of_char c \<le> (57 :: nat)"
proof (induction n rule: less_induct)
  case (less n)
  have last: "48 \<le> (of_char (digit (n mod 10)) :: nat) \<and> of_char (digit (n mod 10)) \<le> (57 :: nat)"
    by (simp add: of_char_digit)
  from less.prems consider "c = digit (n mod 10)" | "\<not> n < 10" "c \<in> set (dec_nat (n div 10))"
    by (subst (asm) dec_nat_snoc) (auto split: if_splits)
  then show ?case
  proof cases
    case 1
    with last show ?thesis by simp
  next
    case 2
    with less.IH [of "n div 10"] show ?thesis by simp
  qed
qed

lemma dec_int_inj: "dec_int i = dec_int j \<Longrightarrow> i = j"
proof -
  have minus: "CHR ''-'' \<notin> set (dec_nat n)" for n
    using dec_nat_chars [of "CHR ''-''" n] by auto
  assume e: "dec_int i = dec_int j"
  show "i = j"
  proof (cases "i < 0 \<longleftrightarrow> j < 0")
    case True
    with e have "nat (if i < 0 then - i else i) = nat (if j < 0 then - j else j)"
      by (auto simp: dec_int_def dest: dec_nat_inj split: if_splits)
    with True show ?thesis by (auto split: if_splits)
  next
    case False
    with e minus show ?thesis
      by (auto simp: dec_int_def split: if_splits) (metis list.set_intros(1))+
  qed
qed

section \<open>Lists of rows\<close>

text \<open>
  A table is a list of rows. \<open>upd_where P f\<close> is \<open>UPDATE \<dots> SET f WHERE P\<close>, \<open>del_where\<close>
  is \<open>DELETE \<dots> WHERE P\<close>.
\<close>

definition upd_where :: "('r \<Rightarrow> bool) \<Rightarrow> ('r \<Rightarrow> 'r) \<Rightarrow> 'r list \<Rightarrow> 'r list" where
  "upd_where P f rows = map (\<lambda>r. if P r then f r else r) rows"

definition del_where :: "('r \<Rightarrow> bool) \<Rightarrow> 'r list \<Rightarrow> 'r list" where
  "del_where P rows = filter (\<lambda>r. \<not> P r) rows"

definition count_where :: "('r \<Rightarrow> bool) \<Rightarrow> 'r list \<Rightarrow> int" where
  "count_where P rows = int (length (filter P rows))"

lemma length_upd_where [simp]: "length (upd_where P f rows) = length rows"
  by (simp add: upd_where_def)

lemma set_upd_where: "set (upd_where P f rows) = {r \<in> set rows. \<not> P r} \<union> f ` {r \<in> set rows. P r}"
  by (auto simp: upd_where_def)

lemma upd_where_none: "(\<And>r. r \<in> set rows \<Longrightarrow> \<not> P r) \<Longrightarrow> upd_where P f rows = rows"
  by (simp add: upd_where_def map_idI)

lemma map_upd_where: "(\<And>r. g (f r) = g r) \<Longrightarrow> map g (upd_where P f rows) = map g rows"
  by (simp add: upd_where_def)

lemma set_del_where [simp]: "set (del_where P rows) = {r \<in> set rows. \<not> P r}"
  by (simp add: del_where_def)

lemma distinct_map_del_where: "distinct (map g rows) \<Longrightarrow> distinct (map g (del_where P rows))"
  by (simp add: del_where_def distinct_map_filter)

lemma length_del_where: "int (length (del_where P rows)) = int (length rows) - count_where P rows"
  by (induction rows) (simp_all add: del_where_def count_where_def)

lemma count_where_nonneg [simp]: "0 \<le> count_where P rows"
  by (simp add: count_where_def)

lemma count_where_0: "count_where P rows = 0 \<longleftrightarrow> (\<forall>r \<in> set rows. \<not> P r)"
  by (simp add: count_where_def filter_empty_conv)

lemma count_where_le: "count_where P rows \<le> int (length rows)"
  by (simp add: count_where_def)

section \<open>A Hoare logic for the state monad\<close>

definition hoare :: "('s \<Rightarrow> bool) \<Rightarrow> ('s, 'a) state \<Rightarrow> ('a \<Rightarrow> 's \<Rightarrow> bool) \<Rightarrow> bool" where
  "hoare P m Q \<longleftrightarrow> (\<forall>s. P s \<longrightarrow> (case run_state m s of (a, t) \<Rightarrow> Q a t))"

text \<open>
  \<open>attempt m h k\<close>: run \<open>m\<close>; on an error return \<open>h\<close> of it, otherwise go on with \<open>k\<close>.
  It is Go's \<^verbatim>\<open>x, err := m(); if err != nil { return h(err) }; k(x)\<close>.
\<close>

definition attempt ::
  "('s, 'e + 'a) state \<Rightarrow> ('e \<Rightarrow> 'b) \<Rightarrow> ('a \<Rightarrow> ('s, 'b) state) \<Rightarrow> ('s, 'b) state" where
  "attempt m h k = do { r \<leftarrow> m; (case r of Inl e \<Rightarrow> State_Monad.return (h e) | Inr a \<Rightarrow> k a) }"

lemma hoareI: "(\<And>s a t. P s \<Longrightarrow> run_state m s = (a, t) \<Longrightarrow> Q a t) \<Longrightarrow> hoare P m Q"
  by (auto simp: hoare_def split: prod.splits)

lemma hoareD: "hoare P m Q \<Longrightarrow> P s \<Longrightarrow> run_state m s = (a, t) \<Longrightarrow> Q a t"
  by (auto simp: hoare_def split: prod.splits)

lemma hoare_conseq:
  "hoare P' m Q' \<Longrightarrow> (\<And>s. P s \<Longrightarrow> P' s) \<Longrightarrow> (\<And>a t. Q' a t \<Longrightarrow> Q a t) \<Longrightarrow> hoare P m Q"
  by (fastforce simp: hoare_def split: prod.splits)

lemma hoare_return [hoare_rules]: "(\<And>s. P s \<Longrightarrow> Q a s) \<Longrightarrow> hoare P (State_Monad.return a) Q"
  by (simp add: hoare_def)

lemma hoare_bind: "hoare P m R \<Longrightarrow> (\<And>a. hoare (R a) (f a) Q) \<Longrightarrow> hoare P (m \<bind> f) Q"
  by (fastforce simp: hoare_def split: prod.splits)

text \<open>The rules for an invariant: \<open>hoare I m (\<lambda>_. I)\<close>.\<close>

abbreviation keeps :: "('s \<Rightarrow> bool) \<Rightarrow> ('s, 'a) state \<Rightarrow> bool" where
  "keeps I m \<equiv> hoare I m (\<lambda>_. I)"

lemma keeps_bind [hoare_rules]: "keeps I m \<Longrightarrow> (\<And>a. keeps I (f a)) \<Longrightarrow> keeps I (m \<bind> f)"
  by (rule hoare_bind)

lemma keeps_attempt [hoare_rules]: "keeps I m \<Longrightarrow> (\<And>a. keeps I (k a)) \<Longrightarrow> keeps I (attempt m h k)"
  unfolding attempt_def by (rule hoare_bind) (auto split: sum.split intro: hoare_rules)

lemma keeps_if [hoare_rules]: "(b \<Longrightarrow> keeps I m) \<Longrightarrow> (\<not> b \<Longrightarrow> keeps I n) \<Longrightarrow> keeps I (if b then m else n)"
  by simp

lemma keeps_case_option [hoare_rules]:
  "keeps I m \<Longrightarrow> (\<And>x. keeps I (f x)) \<Longrightarrow> keeps I (case r of None \<Rightarrow> m | Some x \<Rightarrow> f x)"
  by (cases r) simp_all

lemma keeps_case_sum [hoare_rules]:
  "(\<And>e. keeps I (m e)) \<Longrightarrow> (\<And>x. keeps I (f x)) \<Longrightarrow> keeps I (case r of Inl e \<Rightarrow> m e | Inr x \<Rightarrow> f x)"
  by (cases r) simp_all

lemma keeps_Let [hoare_rules]: "(\<And>x. x = e \<Longrightarrow> keeps I (m x)) \<Longrightarrow> keeps I (let x = e in m x)"
  by simp

lemma keeps_run: "keeps I m \<Longrightarrow> I s \<Longrightarrow> I (snd (run_state m s))"
  by (cases "run_state m s") (auto dest: hoareD)

lemma run_attempt [run_simps]:
  "run_state (attempt m h k) s =
     (case run_state m s of (Inl e, t) \<Rightarrow> (h e, t) | (Inr a, t) \<Rightarrow> run_state (k a) t)"
  by (simp add: attempt_def split: prod.splits sum.splits)

end
