(* ===== verification/Utf8.thy ===== *)
theory Utf8
  imports Prelude
begin

text \<open>
  UTF-8 as the Go runtime decodes it (\<open>unicode/utf8\<close> and the conversion \<open>[]rune(s)\<close>):
  an ill-formed byte decodes to the replacement rune and consumes one byte. PostgreSQL text
  is well-formed UTF-8, and \<open>left(text, n)\<close> counts its characters.
\<close>

abbreviation rune_error :: nat where
  "rune_error \<equiv> 65533"

abbreviation byte :: "char \<Rightarrow> nat" where
  "byte c \<equiv> of_char c"

definition cont :: "char \<Rightarrow> bool" where
  "cont c \<longleftrightarrow> 128 \<le> byte c \<and> byte c \<le> 191"

text \<open>
  The number of bytes of a sequence that starts with \<open>b0\<close> and the range its second byte
  must lie in, as the tables \<open>first\<close> and \<open>acceptRanges\<close> give them.
\<close>

definition lead :: "nat \<Rightarrow> nat \<times> nat \<times> nat" where
  "lead b0 =
     (if b0 < 128 then (1, 0, 0)
      else if 194 \<le> b0 \<and> b0 \<le> 223 then (2, 128, 191)
      else if b0 = 224 then (3, 160, 191)
      else if b0 = 237 then (3, 128, 159)
      else if 225 \<le> b0 \<and> b0 \<le> 239 then (3, 128, 191)
      else if b0 = 240 then (4, 144, 191)
      else if 241 \<le> b0 \<and> b0 \<le> 243 then (4, 128, 191)
      else if b0 = 244 then (4, 128, 143)
      else (0, 0, 0))"

text \<open>\<open>utf8.DecodeRuneInString\<close> on a non-empty string: the rune and its width.\<close>

fun decode_rune :: "string \<Rightarrow> nat \<times> nat" where
  "decode_rune [] = (rune_error, 0)"
| "decode_rune (c # s) =
     (case lead (byte c) of (n, lo, hi) \<Rightarrow>
        if n = 1 then (byte c, 1)
        else if n = 2 then
          (case s of c1 # _ \<Rightarrow>
             if lo \<le> byte c1 \<and> byte c1 \<le> hi then ((byte c mod 32) * 64 + byte c1 mod 64, 2)
             else (rune_error, 1)
           | _ \<Rightarrow> (rune_error, 1))
        else if n = 3 then
          (case s of c1 # c2 # _ \<Rightarrow>
             if lo \<le> byte c1 \<and> byte c1 \<le> hi \<and> cont c2
             then ((byte c mod 16) * 4096 + (byte c1 mod 64) * 64 + byte c2 mod 64, 3)
             else (rune_error, 1)
           | _ \<Rightarrow> (rune_error, 1))
        else if n = 4 then
          (case s of c1 # c2 # c3 # _ \<Rightarrow>
             if lo \<le> byte c1 \<and> byte c1 \<le> hi \<and> cont c2 \<and> cont c3
             then ((byte c mod 8) * 262144 + (byte c1 mod 64) * 4096 + (byte c2 mod 64) * 64
                   + byte c3 mod 64, 4)
             else (rune_error, 1)
           | _ \<Rightarrow> (rune_error, 1))
        else (rune_error, 1))"

lemma decode_rune_width_pos: "s \<noteq> [] \<Longrightarrow> 0 < snd (decode_rune s)"
  by (cases s) (auto simp: lead_def split: list.splits)

lemma decode_rune_width_le: "snd (decode_rune s) \<le> length s"
  by (cases s) (auto simp: lead_def split: list.splits)

text \<open>
  \<open>[]rune(s)\<close>, each rune with the bytes it was decoded from.
\<close>

function rune_parts :: "string \<Rightarrow> (nat \<times> string) list" where
  "rune_parts s = (if s = [] then []
     else let (r, n) = decode_rune s in (r, take n s) # rune_parts (drop n s))"
  by pat_completeness auto
termination
proof (relation "measure length")
  fix s :: string and x r n
  assume "s \<noteq> []" and "x = decode_rune s" and "(r, n) = x"
  then show "(drop n s, s) \<in> measure length"
    using decode_rune_width_pos [of s] by (cases "decode_rune s") auto
qed simp

declare rune_parts.simps [simp del]

definition rune_count :: "string \<Rightarrow> nat" where
  "rune_count s = length (rune_parts s)"

text \<open>\<open>utf8.EncodeRune\<close> for the code points \<open>[]rune\<close> can produce.\<close>

definition encode_rune :: "nat \<Rightarrow> string" where
  "encode_rune r =
     (if r < 128 then [char_of r]
      else if r < 2048 then [char_of (192 + r div 64), char_of (128 + r mod 64)]
      else if r < 65536 then
        [char_of (224 + r div 4096), char_of (128 + r div 64 mod 64), char_of (128 + r mod 64)]
      else [char_of (240 + r div 262144), char_of (128 + r div 4096 mod 64),
            char_of (128 + r div 64 mod 64), char_of (128 + r mod 64)])"

text \<open>\<open>utf8.ValidString\<close>: every byte belongs to a well-formed sequence.\<close>

definition bad_part :: "nat \<times> string \<Rightarrow> bool" where
  "bad_part p \<longleftrightarrow> fst p = rune_error \<and> length (snd p) = 1"

definition valid_utf8 :: "string \<Rightarrow> bool" where
  "valid_utf8 s \<longleftrightarrow> (\<forall>p \<in> set (rune_parts s). \<not> bad_part p)"

text \<open>PostgreSQL's \<open>left(s, n)\<close> on well-formed text: its first \<open>n\<close> characters.\<close>

definition pg_left :: "nat \<Rightarrow> string \<Rightarrow> string" where
  "pg_left n s = concat (map snd (take n (rune_parts s)))"

lemma rune_parts_concat: "concat (map snd (rune_parts s)) = s"
proof (induction s rule: rune_parts.induct)
  case (1 s)
  show ?case
  proof (cases "s = []")
    case True
    then show ?thesis by (simp add: rune_parts.simps)
  next
    case False
    obtain r n where d: "decode_rune s = (r, n)" by (cases "decode_rune s")
    from "1.IH" [OF False d [symmetric] refl] False d show ?thesis
      by (subst rune_parts.simps) simp
  qed
qed

lemma pg_left_all: "rune_count s \<le> n \<Longrightarrow> pg_left n s = s"
  by (simp add: pg_left_def rune_count_def rune_parts_concat)

lemma byte_char_of: "n < 256 \<Longrightarrow> byte (char_of n) = n"
  by simp

lemma char_of_byte: "char_of (byte c) = c"
  by simp

lemma byte_less: "byte c < 256"
  by (metis byte_char_of char_of_byte mod_less_divisor of_char_of zero_less_numeral)

lemma base64_digits:
  fixes a z :: nat
  shows "z < 64 \<Longrightarrow> (a * 64 + z) div 64 = a" and "z < 64 \<Longrightarrow> (a * 64 + z) mod 64 = z"
  by simp_all

lemma encode_rune_2:
  assumes "2 \<le> x" "x < 32" "y < 64"
  shows "encode_rune (x * 64 + y) = [char_of (192 + x), char_of (128 + y)]"
proof -
  have "128 \<le> x * 64 + y" "x * 64 + y < 2048" using assms by simp_all
  then show ?thesis using assms by (simp add: encode_rune_def)
qed

lemma encode_rune_3:
  assumes "2048 \<le> x * 4096 + y * 64 + z" "x < 16" "y < 64" "z < 64"
  shows "encode_rune (x * 4096 + y * 64 + z) =
    [char_of (224 + x), char_of (128 + y), char_of (128 + z)]"
proof -
  let ?r = "x * 4096 + y * 64 + z"
  have r: "?r = (x * 64 + y) * 64 + z" by simp
  have d: "?r div 64 = x * 64 + y" and m: "?r mod 64 = z"
    unfolding r using assms(4) by (rule base64_digits)+
  have "?r div 4096 = ?r div 64 div 64" by (simp flip: div_mult2_eq)
  with d assms(3) have q: "?r div 4096 = x" by simp
  from d assms(3) have dm: "?r div 64 mod 64 = y" by simp
  have "?r < 65536" using assms(2-) by simp
  with assms(1) show ?thesis unfolding encode_rune_def by (simp only: q dm m) simp
qed

lemma encode_rune_4:
  assumes "65536 \<le> w * 262144 + x * 4096 + y * 64 + z" "w < 8" "x < 64" "y < 64" "z < 64"
  shows "encode_rune (w * 262144 + x * 4096 + y * 64 + z) =
    [char_of (240 + w), char_of (128 + x), char_of (128 + y), char_of (128 + z)]"
proof -
  let ?r = "w * 262144 + x * 4096 + y * 64 + z"
  have r: "?r = ((w * 64 + x) * 64 + y) * 64 + z" by simp
  have d: "?r div 64 = (w * 64 + x) * 64 + y" and m: "?r mod 64 = z"
    unfolding r using assms(5) by (rule base64_digits)+
  have "?r div 4096 = ?r div 64 div 64" by (simp flip: div_mult2_eq)
  with d assms(4) have d2: "?r div 4096 = w * 64 + x" by simp
  have "?r div 262144 = ?r div 4096 div 64" by (simp flip: div_mult2_eq)
  with d2 assms(3) have d3: "?r div 262144 = w" by simp
  have dm: "?r div 64 mod 64 = y" by (simp only: d base64_digits(2) [OF assms(4)])
  from d2 assms(3) have dm2: "?r div 4096 mod 64 = x" by simp
  from assms(1) show ?thesis unfolding encode_rune_def by (simp only: d3 dm2 dm m) simp
qed

lemma byte_offset:
  assumes "k \<le> byte c" "byte c < k + m" "k mod m = 0"
  shows "byte c = k + byte c mod m" and "c = char_of (k + byte c mod m)"
proof -
  have l: "byte c - k < m" using assms by simp
  have "(k + (byte c - k)) mod m = (byte c - k) mod m"
    using assms(3) by (metis add_0 mod_add_left_eq)
  with l assms(1) show e: "byte c = k + byte c mod m" by simp
  show "c = char_of (k + byte c mod m)" unfolding e [symmetric] by simp
qed

lemma cont_offset:
  assumes "cont c"
  shows "byte c = 128 + byte c mod 64" and "c = char_of (128 + byte c mod 64)"
  using byte_offset [of 128 c 64] assms by (auto simp: cont_def)

text \<open>Encoding a well-formed part gives back the bytes it was decoded from.\<close>

lemma encode_decode:
  assumes "s \<noteq> []" and d: "decode_rune s = (r, n)" and ok: "\<not> (r = rune_error \<and> n = 1)"
  shows "encode_rune r = take n s"
proof (cases s)
  case Nil
  with assms show ?thesis by simp
next
  case (Cons c t)
  obtain k lo hi where l: "lead (byte c) = (k, lo, hi)" by (cases "lead (byte c)") auto
  have k: "k \<in> {0, 1, 2, 3, 4}" using l by (auto simp: lead_def split: if_splits)
  have range: "cont c1" if "lo \<le> byte c1" "byte c1 \<le> hi" "1 < k" for c1
    using that l by (auto simp: lead_def cont_def split: if_splits)
  from k consider "k = 0" | "k = 1" | "k = 2" | "k = 3" | "k = 4" by blast
  then show ?thesis
  proof cases
    case 1
    with d ok l Cons show ?thesis by simp
  next
    case 2
    with d l Cons show ?thesis by (auto simp: encode_rune_def lead_def split: if_splits)
  next
    case 3
    with d ok l Cons obtain c1 u where t: "t = c1 # u" "lo \<le> byte c1" "byte c1 \<le> hi"
      and r: "r = (byte c mod 32) * 64 + byte c1 mod 64" "n = 2"
      by (auto split: list.splits if_splits)
    have "cont c1" using range t 3 by simp
    note y = cont_offset [OF this]
    have b: "194 \<le> byte c" "byte c \<le> 223" using l 3 by (auto simp: lead_def split: if_splits)
    then have x: "byte c = 192 + byte c mod 32" "c = char_of (192 + byte c mod 32)"
      using byte_offset [of 192 c 32] by simp_all
    have "2 \<le> byte c mod 32" using x b by linarith
    then have "encode_rune r = [char_of (192 + byte c mod 32), char_of (128 + byte c1 mod 64)]"
      unfolding r by (intro encode_rune_2) simp_all
    then show ?thesis using r(2) t Cons by (simp flip: x(2) y(2))
  next
    case 4
    with d ok l Cons obtain c1 c2 u where t: "t = c1 # c2 # u" "lo \<le> byte c1" "byte c1 \<le> hi" "cont c2"
      and r: "r = (byte c mod 16) * 4096 + (byte c1 mod 64) * 64 + byte c2 mod 64" "n = 3"
      by (auto split: list.splits if_splits)
    have "cont c1" using range t 4 by simp
    note y = cont_offset [OF this]
    note z = cont_offset [OF t(4)]
    have b: "224 \<le> byte c" "byte c \<le> 239" using l 4 by (auto simp: lead_def split: if_splits)
    then have x: "byte c = 224 + byte c mod 16" "c = char_of (224 + byte c mod 16)"
      using byte_offset [of 224 c 16] by simp_all
    have "2048 \<le> (byte c mod 16) * 4096 + (byte c1 mod 64) * 64 + byte c2 mod 64"
    proof (cases "byte c mod 16 = 0")
      case True
      with x have "byte c = 224" by simp
      with l 4 t have "160 \<le> byte c1" by (auto simp: lead_def)
      with y(1) have "32 \<le> byte c1 mod 64" by linarith
      then show ?thesis by simp
    qed simp
    then have "encode_rune r =
      [char_of (224 + byte c mod 16), char_of (128 + byte c1 mod 64), char_of (128 + byte c2 mod 64)]"
      unfolding r by (intro encode_rune_3) simp_all
    then show ?thesis using r(2) t Cons by (simp flip: x(2) y(2) z(2))
  next
    case 5
    with d ok l Cons obtain c1 c2 c3 u where
      t: "t = c1 # c2 # c3 # u" "lo \<le> byte c1" "byte c1 \<le> hi" "cont c2" "cont c3"
      and r: "r = (byte c mod 8) * 262144 + (byte c1 mod 64) * 4096 + (byte c2 mod 64) * 64
                + byte c3 mod 64" "n = 4"
      by (auto split: list.splits if_splits)
    have "cont c1" using range t 5 by simp
    note x = cont_offset [OF this]
    note y = cont_offset [OF t(4)]
    note z = cont_offset [OF t(5)]
    have b: "240 \<le> byte c" "byte c \<le> 244" using l 5 by (auto simp: lead_def split: if_splits)
    then have w: "byte c = 240 + byte c mod 8" "c = char_of (240 + byte c mod 8)"
      using byte_offset [of 240 c 8] by simp_all
    have "65536 \<le> (byte c mod 8) * 262144 + (byte c1 mod 64) * 4096 + (byte c2 mod 64) * 64
                + byte c3 mod 64"
    proof (cases "byte c mod 8 = 0")
      case True
      with w have "byte c = 240" by simp
      with l 5 t have "144 \<le> byte c1" by (auto simp: lead_def)
      with x(1) have "16 \<le> byte c1 mod 64" by linarith
      then show ?thesis by simp
    qed simp
    then have "encode_rune r = [char_of (240 + byte c mod 8), char_of (128 + byte c1 mod 64),
        char_of (128 + byte c2 mod 64), char_of (128 + byte c3 mod 64)]"
      unfolding r by (intro encode_rune_4) simp_all
    then show ?thesis using r(2) t Cons by (simp flip: w(2) x(2) y(2) z(2))
  qed
qed

lemma encode_parts:
  "\<forall>p \<in> set (rune_parts s). \<not> bad_part p \<Longrightarrow> map (encode_rune \<circ> fst) (rune_parts s) = map snd (rune_parts s)"
proof (induction s rule: rune_parts.induct)
  case (1 s)
  show ?case
  proof (cases "s = []")
    case True
    then show ?thesis by (simp add: rune_parts.simps)
  next
    case False
    obtain r n where d: "decode_rune s = (r, n)" by (cases "decode_rune s")
    have n: "n \<le> length s" using decode_rune_width_le [of s] d by simp
    have parts: "rune_parts s = (r, take n s) # rune_parts (drop n s)"
      using False d by (subst rune_parts.simps) simp
    with "1.prems" have "\<not> bad_part (r, take n s)"
      and rest: "\<forall>p \<in> set (rune_parts (drop n s)). \<not> bad_part p" by simp_all
    with n have "\<not> (r = rune_error \<and> n = 1)" by (auto simp: bad_part_def)
    with False d have "encode_rune r = take n s" by (rule encode_decode)
    moreover from "1.IH" [OF False d [symmetric] refl rest]
    have "map (encode_rune \<circ> fst) (rune_parts (drop n s)) = map snd (rune_parts (drop n s))" .
    ultimately show ?thesis by (simp add: parts)
  qed
qed

lemma rune_parts_ascii:
  "\<forall>c \<in> set s. byte c < 128 \<Longrightarrow> rune_parts s = map (\<lambda>c. (byte c, [c])) s"
proof (induction s)
  case Nil
  show ?case by (simp add: rune_parts.simps)
next
  case (Cons c s)
  then have "decode_rune (c # s) = (byte c, 1)" by (simp add: lead_def)
  with Cons show ?case by (subst rune_parts.simps) simp
qed

lemma valid_utf8_ascii: "\<forall>c \<in> set s. byte c < 128 \<Longrightarrow> valid_utf8 s"
  by (auto simp: valid_utf8_def rune_parts_ascii bad_part_def)

end
