(* ===== verification/Database.thy ===== *)
theory Database
  imports Utf8
begin

text \<open>
  The PostgreSQL database the packages share, and the \<open>database/sql\<close> calls on it. The tables
  are those of \<open>queue.EnsureSchema\<close>, \<open>workflow.EnsureSchema\<close> and \<open>pgcron/schema.sql\<close>.

  A \<open>world\<close> is the database with its open transaction, its clock, what it has delivered to
  listeners, what the hooks saw, and the \<open>script\<close>: for every round trip to the server the time
  that passes before it and whether it succeeds, fails without effect, or takes effect although
  the client sees an error (a connection lost after the server committed). Theorems quantify
  over all scripts, so they hold under any pattern of failures and delays. An exhausted script
  means no further failures.

  Each statement runs atomically at the point where it takes its row locks; transactions of
  other clients come between the calls of the step relations built on this theory, and the rows
  they hold locked at that moment are \<open>row_locks\<close>, which only \<open>SKIP LOCKED\<close> queries read.
  Times are in microseconds, the resolution of \<open>timestamptz\<close>; Go durations are in nanoseconds.
\<close>

section \<open>Tables\<close>

datatype job_status = StatusPending | StatusProcessing | StatusDone | StatusFailed

fun status_text :: "job_status \<Rightarrow> string" where
  "status_text StatusPending = ''pending''"
| "status_text StatusProcessing = ''processing''"
| "status_text StatusDone = ''done''"
| "status_text StatusFailed = ''failed''"

record job =
  ID :: int
  QueueName :: string
  Payload :: string
  Status :: job_status
  Attempts :: int
  MaxAttempts :: int
  Claims :: int
  AvailableAt :: int
  ClaimedBy :: "string option"
  ClaimedAt :: "int option"
  DoneAt :: "int option"
  LastError :: "string option"
  CreatedAt :: int
  UpdatedAt :: int
  traceContext :: "string option"

datatype run_status =
  RunPending | RunRunning | RunWaiting | RunSucceeded | RunFailed | RunCancelled

datatype step_kind = KindStep | KindSleep | KindSignal | KindChild

datatype step_status =
  StepRunning | StepWaiting | StepRetrying | StepSucceeded | StepFailed | StepTimedOut

record run =
  r_id :: string
  r_workflow :: string
  r_version :: int
  r_key :: "string option"
  r_status :: run_status
  r_input :: string
  r_output :: "string option"
  r_error :: "string option"
  r_timed_out :: bool
  r_parent_run_id :: "string option"
  r_parent_step :: "string option"
  r_job_id :: "int option"
  r_lease :: int
  r_deadline_at :: "int option"
  r_wake_at :: "int option"
  r_created_at :: int
  r_started_at :: "int option"
  r_completed_at :: "int option"
  r_updated_at :: int

record step =
  s_run_id :: string
  s_name :: string
  s_kind :: step_kind
  s_status :: step_status
  s_attempts :: int
  s_output :: "string option"
  s_error :: "string option"
  s_wake_at :: "int option"
  s_child_run_id :: "string option"
  s_signal :: "string option"
  s_created_at :: int
  s_completed_at :: "int option"
  s_updated_at :: int

record signal_row =
  g_id :: int
  g_run_id :: string
  g_name :: string
  g_payload :: string
  g_received_by :: "string option"
  g_created_at :: int

record schedule =
  c_name :: string
  c_next_run_at :: int

record database =
  jobs :: "job list"
  runs :: "run list"
  steps :: "step list"
  signals :: "signal_row list"
  schedules :: "schedule list"
  outbox :: "string list"

text \<open>
  The catalog: the tables with their columns, the indexes, and the version of the schema each package has
  recorded in its meta table. The value of that row is read as the number it spells.
\<close>

record catalog =
  ct_tables :: "(string \<times> string list) list"
  ct_indexes :: "string list"
  ct_versions :: "(string \<times> int) list"

section \<open>The world\<close>

text \<open>What a failing round trip reports: a server error, or a lost or cancelled connection.\<close>

datatype fault =
  ServerError string string | Canceled | DeadlineExceeded | BadConn | ConnDone | NetClosed | EOF
  | DriverMessage string

fun fault_err :: "fault \<Rightarrow> err" where
  "fault_err (ServerError code msg) = PgError code msg"
| "fault_err Canceled = Sentinel ContextCanceled"
| "fault_err DeadlineExceeded = Sentinel ContextDeadlineExceeded"
| "fault_err BadConn = Sentinel DriverErrBadConn"
| "fault_err ConnDone = Sentinel SqlErrConnDone"
| "fault_err NetClosed = Sentinel NetErrClosed"
| "fault_err EOF = Sentinel IoEOF"
| "fault_err (DriverMessage m) = Errorf m"

datatype outcome = Succeeds | FailsBefore fault | FailsAfter fault

text \<open>
  What the hooks see: the kind of event with its metadata. \<open>EventReplay\<close> and \<open>EventSnooze\<close> are the
  kind \<open>EventRetry\<close> with the metadata \<open>replay\<close> and \<open>snooze\<close>, \<open>EventDelete\<close> is \<open>EventPurge\<close> with
  \<open>delete\<close>.
\<close>

datatype event =
    EventEnqueue int string
  | EventClaim int string string
  | EventAck int
  | EventRetry int
  | EventReplay int
  | EventSnooze int
  | EventFail int
  | EventReap int int
  | EventDelete int
  | EventPurge string int

text \<open>Who holds an advisory lock: the open transaction, a session of the pool, or another client.\<close>

datatype lock_owner = ThisTx | PoolSession nat | Foreign nat

datatype log_level = LevelDebug | LevelInfo | LevelWarn | LevelError

record world =
  db :: database
  snapshot :: "database option"
  tx_start :: int
  tx_aborted :: bool
  clock :: int
  script :: "(nat \<times> outcome) list"
  job_seq :: int
  signal_seq :: int
  row_locks :: "int list"
  advisory :: "(int \<times> lock_owner) list"
  delivered :: "string list"
  events :: "event list"
  logs :: "(log_level \<times> string) list"
  catalog :: catalog

text \<open>\<open>NOW()\<close>: the start of the open transaction, or of the statement when there is none.\<close>

definition now :: "world \<Rightarrow> int" where
  "now w = (case snapshot w of None \<Rightarrow> clock w | Some _ \<Rightarrow> tx_start w)"

text \<open>
  \<open>make_interval(secs => d.Seconds())\<close> in microseconds, rounded to the nearest.
\<close>

definition interval :: "int \<Rightarrow> int" where
  "interval d = (d + 500) div 1000"

text \<open>Notifications of one transaction are delivered at its commit, duplicates collapsed.\<close>

definition first_occurrences :: "'a list \<Rightarrow> 'a list" where
  "first_occurrences xs = rev (remdups (rev xs))"

definition publish :: "world \<Rightarrow> world" where
  "publish w = w\<lparr>db := (db w)\<lparr>outbox := []\<rparr>,
                 delivered := delivered w @ first_occurrences (outbox (db w))\<rparr>"

definition end_statement :: "world \<Rightarrow> world" where
  "end_statement w = (if snapshot w = None then publish w else w)"

text \<open>The end of a transaction releases its advisory locks.\<close>

definition end_tx :: "world \<Rightarrow> world" where
  "end_tx w = w\<lparr>snapshot := None, advisory := filter (\<lambda>l. snd l \<noteq> ThisTx) (advisory w)\<rparr>"

definition restore :: "world \<Rightarrow> world" where
  "restore w = (case snapshot w of None \<Rightarrow> w
     | Some d \<Rightarrow> end_tx (w\<lparr>db := d, tx_aborted := False\<rparr>))"

definition round_trip :: "world \<Rightarrow> outcome \<times> world" where
  "round_trip w = (case script w of [] \<Rightarrow> (Succeeds, w)
     | (dt, oc) # rest \<Rightarrow> (oc, w\<lparr>script := rest, clock := clock w + int dt\<rparr>))"

section \<open>Calls\<close>

type_synonym 'a io = "(world, 'a) state"
type_synonym 'a result = "err + 'a"
type_synonym 'a statement = "world \<Rightarrow> 'a \<times> world"

definition tx_aborted_error :: err where
  "tx_aborted_error = PgError ''25P02''
     ''current transaction is aborted, commands ignored until end of transaction block''"

text \<open>
  \<open>ExecContext\<close>, \<open>QueryContext\<close> or \<open>QueryRowContext\<close> of one statement. Outside a
  transaction the statement commits by itself. A failure inside a transaction aborts it, and
  every later statement of it fails.
\<close>

definition query :: "'a statement \<Rightarrow> 'a result io" where
  "query st = State (\<lambda>w. case round_trip w of
       (Succeeds, w1) \<Rightarrow>
         (if tx_aborted w1 then (Inl tx_aborted_error, w1)
          else (case st w1 of (a, w2) \<Rightarrow> (Inr a, end_statement w2)))
     | (FailsBefore f, w1) \<Rightarrow>
         (Inl (fault_err f), if snapshot w1 = None then w1 else w1\<lparr>tx_aborted := True\<rparr>)
     | (FailsAfter f, w1) \<Rightarrow>
         (Inl (fault_err f),
          if snapshot w1 = None then end_statement (snd (st w1)) else w1\<lparr>tx_aborted := True\<rparr>))"

text \<open>\<open>QueryRowContext(\<dots>).Scan\<close>: \<open>sql.ErrNoRows\<close> when the statement yields no row.\<close>

definition query_row :: "'a option statement \<Rightarrow> 'a result io" where
  "query_row st = do { r \<leftarrow> query st;
     State_Monad.return (case r of Inl e \<Rightarrow> Inl e
       | Inr None \<Rightarrow> Inl (Sentinel SqlErrNoRows) | Inr (Some a) \<Rightarrow> Inr a) }"

definition begin_tx :: "unit result io" where
  "begin_tx = State (\<lambda>w. case round_trip w of
       (Succeeds, w1) \<Rightarrow>
         (Inr (), w1\<lparr>snapshot := Some (db w1), tx_start := clock w1, tx_aborted := False\<rparr>)
     | (FailsBefore f, w1) \<Rightarrow> (Inl (fault_err f), w1)
     | (FailsAfter f, w1) \<Rightarrow> (Inl (fault_err f), w1))"

definition commit_tx :: "unit result io" where
  "commit_tx = State (\<lambda>w. if snapshot w = None then (Inl (Sentinel SqlErrTxDone), w)
     else (case round_trip w of
       (Succeeds, w1) \<Rightarrow>
         (if tx_aborted w1 then (Inl tx_aborted_error, restore w1)
          else (Inr (), publish (end_tx w1)))
     | (FailsBefore f, w1) \<Rightarrow> (Inl (fault_err f), restore w1)
     | (FailsAfter f, w1) \<Rightarrow>
         (Inl (fault_err f),
          if tx_aborted w1 then restore w1 else publish (end_tx w1))))"

text \<open>\<open>defer func() { _ = tx.Rollback() }()\<close>: a no-op after a commit.\<close>

definition deferring_rollback :: "'a io \<Rightarrow> 'a io" where
  "deferring_rollback m = do { r \<leftarrow> m; State_Monad.update restore; State_Monad.return r }"

text \<open>\<open>emit\<close>: the hooks see the event, and the debug log has a line for it.\<close>

definition emit :: "event \<Rightarrow> unit io" where
  "emit e = State_Monad.update (\<lambda>w. w\<lparr>events := events w @ [e],
     logs := logs w @ [(LevelDebug, ''pgqueue event'')]\<rparr>)"

definition log_msg :: "log_level \<Rightarrow> string \<Rightarrow> unit io" where
  "log_msg l m = State_Monad.update (\<lambda>w. w\<lparr>logs := logs w @ [(l, m)]\<rparr>)"

text \<open>
  A statement that reads \<open>NOW()\<close> and the tables and writes the tables.
\<close>

definition on_db :: "(int \<Rightarrow> database \<Rightarrow> 'a \<times> database) \<Rightarrow> 'a statement" where
  "on_db f w = (case f (now w) (db w) of (a, d) \<Rightarrow> (a, w\<lparr>db := d\<rparr>))"

section \<open>Executing calls\<close>

lemma run_query [run_simps]:
  "run_state (query st) w = (case round_trip w of
       (Succeeds, w1) \<Rightarrow>
         (if tx_aborted w1 then (Inl tx_aborted_error, w1)
          else (case st w1 of (a, w2) \<Rightarrow> (Inr a, end_statement w2)))
     | (FailsBefore f, w1) \<Rightarrow>
         (Inl (fault_err f), if snapshot w1 = None then w1 else w1\<lparr>tx_aborted := True\<rparr>)
     | (FailsAfter f, w1) \<Rightarrow>
         (Inl (fault_err f),
          if snapshot w1 = None then end_statement (snd (st w1)) else w1\<lparr>tx_aborted := True\<rparr>))"
  by (simp add: query_def)

lemma run_emit [run_simps]: "run_state (emit e) w = ((), w\<lparr>events := events w @ [e],
     logs := logs w @ [(LevelDebug, ''pgqueue event'')]\<rparr>)"
  by (simp add: emit_def State_Monad.update_def)

lemma run_log [run_simps]: "run_state (log_msg l m) w = ((), w\<lparr>logs := logs w @ [(l, m)]\<rparr>)"
  by (simp add: log_msg_def State_Monad.update_def)

lemma run_deferring_rollback [run_simps]:
  "run_state (deferring_rollback m) w = (case run_state m w of (r, w') \<Rightarrow> (r, restore w'))"
  by (simp add: deferring_rollback_def State_Monad.update_def split: prod.splits)

lemma end_tx_fields [simp]:
  "db (end_tx w) = db w" "snapshot (end_tx w) = None" "clock (end_tx w) = clock w"
  "job_seq (end_tx w) = job_seq w" "signal_seq (end_tx w) = signal_seq w" "script (end_tx w) = script w"
  "events (end_tx w) = events w" "tx_aborted (end_tx w) = tx_aborted w" "row_locks (end_tx w) = row_locks w"
  "delivered (end_tx w) = delivered w" "logs (end_tx w) = logs w"
  by (simp_all add: end_tx_def)

text \<open>What a round trip leaves alone.\<close>

lemma round_trip_frame:
  assumes "round_trip w = (oc, w1)"
  shows "db w1 = db w" "snapshot w1 = snapshot w" "job_seq w1 = job_seq w"
    "signal_seq w1 = signal_seq w" "tx_aborted w1 = tx_aborted w" "row_locks w1 = row_locks w"
    "events w1 = events w" "delivered w1 = delivered w" "tx_start w1 = tx_start w"
    "advisory w1 = advisory w" "logs w1 = logs w" "clock w \<le> clock w1"
  using assms by (auto simp: round_trip_def split: list.splits)

lemma fault_err_not_sentinel [simp]:
  "\<not> errors_is (fault_err f) ErrJobNotFound" "\<not> errors_is (fault_err f) SqlErrNoRows"
  "\<not> errors_is (fault_err f) ErrJobBusy" "\<not> errors_is (fault_err f) ErrRunNotFound"
  "\<not> errors_is (fault_err f) ErrRunFinished" "\<not> errors_is (fault_err f) ErrRunNotRetryable"
  "\<not> errors_is (fault_err f) ErrLeaseLost" "\<not> errors_is (fault_err f) SqlErrTxDone"
  by (cases f; simp)+

lemma tx_aborted_error_not_sentinel [simp]: "\<not> errors_is tx_aborted_error s"
  by (simp add: tx_aborted_error_def)

lemma end_statement_fields [simp]:
  "snapshot (end_statement w) = snapshot w" "clock (end_statement w) = clock w"
  "job_seq (end_statement w) = job_seq w" "signal_seq (end_statement w) = signal_seq w"
  "jobs (db (end_statement w)) = jobs (db w)" "runs (db (end_statement w)) = runs (db w)"
  "steps (db (end_statement w)) = steps (db w)" "signals (db (end_statement w)) = signals (db w)"
  "schedules (db (end_statement w)) = schedules (db w)" "script (end_statement w) = script w"
  "events (end_statement w) = events w" "tx_aborted (end_statement w) = tx_aborted w"
  "tx_start (end_statement w) = tx_start w" "row_locks (end_statement w) = row_locks w"
  "logs (end_statement w) = logs w" "advisory (end_statement w) = advisory w"
  by (simp_all add: end_statement_def publish_def)

section \<open>Database invariants\<close>

text \<open>
  A property \<open>I\<close> of the tables holds of a world when it holds of the current tables and of
  those an open transaction would roll back to. \<open>I\<close> also sees the values the two sequences
  give next, which a rollback does not take back.
\<close>

definition holds :: "(int \<Rightarrow> int \<Rightarrow> database \<Rightarrow> bool) \<Rightarrow> world \<Rightarrow> bool" where
  "holds I w \<longleftrightarrow> I (job_seq w) (signal_seq w) (db w)
     \<and> (\<forall>d. snapshot w = Some d \<longrightarrow> I (job_seq w) (signal_seq w) d)"

text \<open>
  The contract between the transaction layer and a component that keeps an invariant: the
  invariant may depend on the sequences only monotonically and not on pending notifications.
  Then a call keeps it as soon as its statement does, whatever the script says.
\<close>

locale db_invariant =
  fixes I :: "int \<Rightarrow> int \<Rightarrow> database \<Rightarrow> bool"
  assumes seq_mono: "I j g d \<Longrightarrow> j \<le> j' \<Longrightarrow> g \<le> g' \<Longrightarrow> I j' g' d"
    and outbox_irrelevant: "I j g (d\<lparr>outbox := out\<rparr>) = I j g d"
begin

definition stable :: "'a statement \<Rightarrow> bool" where
  "stable st \<longleftrightarrow> (\<forall>w. I (job_seq w) (signal_seq w) (db w) \<longrightarrow>
     (let w' = snd (st w) in
        I (job_seq w') (signal_seq w') (db w') \<and> snapshot w' = snapshot w
        \<and> job_seq w \<le> job_seq w' \<and> signal_seq w \<le> signal_seq w'))"

lemma holds_fields:
  "db w' = db w \<Longrightarrow> snapshot w' = snapshot w \<Longrightarrow> job_seq w' = job_seq w \<Longrightarrow>
   signal_seq w' = signal_seq w \<Longrightarrow> holds I w' = holds I w"
  by (simp add: holds_def)

lemma holds_publish: "holds I w \<Longrightarrow> holds I (publish w)"
  by (simp add: holds_def publish_def outbox_irrelevant)

lemma holds_end_statement: "holds I w \<Longrightarrow> holds I (end_statement w)"
  by (simp add: end_statement_def holds_publish)

lemma holds_restore: "holds I w \<Longrightarrow> holds I (restore w)"
  by (auto simp: holds_def restore_def end_tx_def split: option.splits)

lemma holds_statement: "stable st \<Longrightarrow> holds I w \<Longrightarrow> holds I (snd (st w))"
  by (auto simp: stable_def holds_def Let_def intro: seq_mono)

lemma holds_abort: "holds I w \<Longrightarrow> holds I (w\<lparr>tx_aborted := b\<rparr>)"
  by (simp add: holds_def)

lemma holds_round_trip: "round_trip w = (oc, w1) \<Longrightarrow> holds I w \<Longrightarrow> holds I w1"
  using round_trip_frame [of w oc w1] holds_fields [of w1 w] by simp

lemma keeps_query [hoare_rules]:
  assumes st: "stable st"
  shows "keeps (holds I) (query st)"
proof (rule hoareI)
  fix w r w'
  assume w: "holds I w" and run: "run_state (query st) w = (r, w')"
  obtain oc w1 where rt: "round_trip w = (oc, w1)" by (cases "round_trip w")
  with w have w1: "holds I w1" by (blast intro: holds_round_trip)
  have w2: "holds I (end_statement (snd (st w1)))"
    using st w1 by (intro holds_end_statement holds_statement)
  from run rt w1 w2 show "holds I w'"
    by (auto simp: run_simps holds_abort split: outcome.splits if_splits prod.splits)
qed

lemma keeps_query_row [hoare_rules]: "stable st \<Longrightarrow> keeps (holds I) (query_row st)"
  unfolding query_row_def by (intro hoare_rules)

lemma keeps_begin [hoare_rules]: "keeps (holds I) begin_tx"
proof (rule hoareI)
  fix w r w'
  assume w: "holds I w" and run: "run_state begin_tx w = (r, w')"
  obtain oc w1 where rt: "round_trip w = (oc, w1)" by (cases "round_trip w")
  with w have "holds I w1" by (blast intro: holds_round_trip)
  with run rt show "holds I w'"
    by (auto simp: begin_tx_def holds_def split: outcome.splits)
qed

lemma keeps_commit [hoare_rules]: "keeps (holds I) commit_tx"
proof (rule hoareI)
  fix w r w'
  assume w: "holds I w" and run: "run_state commit_tx w = (r, w')"
  obtain oc w1 where rt: "round_trip w = (oc, w1)" by (cases "round_trip w")
  with w have w1: "holds I w1" by (blast intro: holds_round_trip)
  then have "holds I (end_tx w1)" by (simp add: holds_def end_tx_def)
  then have "holds I (publish (end_tx w1))" by (rule holds_publish)
  with run rt w w1 show "holds I w'"
    by (auto simp: commit_tx_def holds_restore split: outcome.splits if_splits)
qed

lemma keeps_deferring_rollback [hoare_rules]:
  "keeps (holds I) m \<Longrightarrow> keeps (holds I) (deferring_rollback m)"
  by (rule hoareI) (auto simp: run_simps split: prod.splits dest: hoareD intro: holds_restore)

lemma keeps_emit [hoare_rules]: "keeps (holds I) (emit e)"
  by (rule hoareI) (auto simp: run_simps holds_def)

lemma keeps_log [hoare_rules]: "keeps (holds I) (log_msg l m)"
  by (rule hoareI) (auto simp: run_simps holds_def)

lemma stable_on_db:
  assumes "\<And>n j g d. I j g d \<Longrightarrow> I j g (snd (f n d))"
  shows "stable (on_db f)"
  using assms by (auto simp: stable_def on_db_def Let_def split: prod.splits) (metis snd_conv)

end

end
