(* ===== verification/Job_Queue.thy ===== *)
theory Job_Queue
  imports Database "HOL-Library.Product_Lexorder"
begin

text \<open>
  The queue client: \<open>queue/queue.go\<close> (enqueue, claim, ack, retry, fail, reap, replay, delete,
  purge) and \<open>queue/park.go\<close> (snooze, wake, lock, heartbeat). Every operation is the Go
  function with its guards, its SQL statement as a function on the tables, and its error
  branches. The rows of \<open>pgqueue_jobs\<close> are the records \<^typ>\<open>job\<close> of theory \<open>Database\<close>.
\<close>

section \<open>Client, contexts, parameters\<close>

text \<open>
  A \<open>*Client\<close> is an option: \<open>None\<close> is the nil pointer. \<open>pgx_driver\<close> says whether the
  driver of its \<open>*sql.DB\<close> is the pgx stdlib driver, \<open>listen_connect\<close> whether \<open>ListenOn\<close> or
  \<open>ListenWith\<close> set a connection function.
\<close>

record client =
  has_db :: bool
  pgx_driver :: bool
  listen_connect :: bool

definition nil_db :: "client option \<Rightarrow> bool" where
  "nil_db c \<longleftrightarrow> (case c of None \<Rightarrow> True | Some cl \<Rightarrow> \<not> has_db cl)"

text \<open>
  A context: when and why it ends, and what \<open>injectTraceContext\<close> derives from its span with
  the installed OpenTelemetry propagator.
\<close>

record ctx =
  ctx_end :: "(int \<times> sentinel) option"
  ctx_trace :: "string option"

definition background :: ctx where
  "background = \<lparr>ctx_end = None, ctx_trace = None\<rparr>"

definition ctx_err :: "ctx \<Rightarrow> world \<Rightarrow> err option" where
  "ctx_err x w = (case ctx_end x of None \<Rightarrow> None
     | Some (t, s) \<Rightarrow> if t \<le> clock w then Some (Sentinel s) else None)"

record enqueue_params =
  ep_QueueName :: string
  ep_Payload :: string
  ep_AvailableAt :: "int option"
  ep_MaxAttempts :: int

record purge_params =
  pp_Status :: string
  pp_OlderThan :: int
  pp_Limit :: int

record reap_params =
  rp_VisibilityTimeout :: int
  rp_QueueNames :: "string list"

record reap_result =
  Requeued :: int
  Failed :: int

definition defaultMaxAttempts :: int where
  "defaultMaxAttempts = 5"

definition NewClient :: "bool \<Rightarrow> bool \<Rightarrow> client option result" where
  "NewClient db_set pgx = (if \<not> db_set then Inl (Sentinel ErrNilDB)
     else Inr (Some \<lparr>has_db = True, pgx_driver = pgx, listen_connect = False\<rparr>))"

section \<open>Notifications\<close>

definition notifyKeyLength :: nat where
  "notifyKeyLength = 200"

text \<open>\<open>notifySQL\<close>: the payload the statements pass to \<open>pg_notify\<close>.\<close>

definition notify_payload :: "string \<Rightarrow> string" where
  "notify_payload queue_name = pg_left notifyKeyLength queue_name"

text \<open>\<open>notifyKey\<close>: the key a subscriber listens for.\<close>

definition notifyKey :: "string \<Rightarrow> string" where
  "notifyKey queueName = (let runes = map fst (rune_parts queueName) in
     if length runes \<le> notifyKeyLength then queueName
     else concat (map encode_rune (take notifyKeyLength runes)))"

section \<open>Statements\<close>

text \<open>
  \<open>UPDATE pgqueue_jobs SET \<dots> WHERE \<dots>\<close> with the number of rows affected, without and with
  one notification per updated row.
\<close>

definition update_jobs :: "(job \<Rightarrow> bool) \<Rightarrow> (job \<Rightarrow> job) \<Rightarrow> database \<Rightarrow> int \<times> database" where
  "update_jobs P f d = (count_where P (jobs d), d\<lparr>jobs := upd_where P f (jobs d)\<rparr>)"

definition update_jobs_notify :: "(job \<Rightarrow> bool) \<Rightarrow> (job \<Rightarrow> job) \<Rightarrow> database \<Rightarrow> int \<times> database" where
  "update_jobs_notify P f d = (count_where P (jobs d),
     d\<lparr>jobs := upd_where P f (jobs d),
       outbox := outbox d @ map (notify_payload \<circ> QueueName) (filter P (jobs d))\<rparr>)"

definition delete_jobs :: "(job \<Rightarrow> bool) \<Rightarrow> database \<Rightarrow> int \<times> database" where
  "delete_jobs P d = (count_where P (jobs d), d\<lparr>jobs := del_where P (jobs d)\<rparr>)"

definition new_job :: "int \<Rightarrow> int \<Rightarrow> string \<Rightarrow> string \<Rightarrow> int \<Rightarrow> int option \<Rightarrow> string option \<Rightarrow> job" where
  "new_job i n q p m avail tr = \<lparr>ID = i, QueueName = q, Payload = p, Status = StatusPending,
     Attempts = 0, MaxAttempts = m, Claims = 0,
     AvailableAt = (case avail of None \<Rightarrow> n | Some t \<Rightarrow> t),
     ClaimedBy = None, ClaimedAt = None, DoneAt = None, LastError = None,
     CreatedAt = n, UpdatedAt = n, traceContext = tr\<rparr>"

definition insert_job :: "string \<Rightarrow> string \<Rightarrow> int \<Rightarrow> int option \<Rightarrow> string option \<Rightarrow> int statement" where
  "insert_job q p m avail tr w =
     (job_seq w,
      w\<lparr>job_seq := job_seq w + 1,
        db := (db w)\<lparr>jobs := jobs (db w) @ [new_job (job_seq w) (now w) q p m avail tr],
                     outbox := outbox (db w) @ [notify_payload q]\<rparr>\<rparr>)"

definition eligible :: "string \<Rightarrow> int \<Rightarrow> int list \<Rightarrow> job \<Rightarrow> bool" where
  "eligible q n locked j \<longleftrightarrow> QueueName j = q \<and> Status j = StatusPending \<and> AvailableAt j \<le> n
     \<and> Attempts j < MaxAttempts j \<and> ID j \<notin> set locked"

definition claim_row :: "string \<Rightarrow> int \<Rightarrow> job \<Rightarrow> job" where
  "claim_row worker n j = j\<lparr>Status := StatusProcessing, Attempts := Attempts j + 1,
     Claims := Claims j + 1, ClaimedBy := Some worker, ClaimedAt := Some n, UpdatedAt := n\<rparr>"

text \<open>The claim query: the eligible row with the least \<open>(available_at, id)\<close>, skipping locked ones.\<close>

definition next_job :: "string \<Rightarrow> int \<Rightarrow> int list \<Rightarrow> job list \<Rightarrow> job option" where
  "next_job q n locked rows = (case filter (eligible q n locked) rows of
       [] \<Rightarrow> None
     | js \<Rightarrow> Some (arg_min_list (\<lambda>j. (AvailableAt j, ID j)) js))"

definition claim_next :: "string \<Rightarrow> string \<Rightarrow> job option statement" where
  "claim_next q worker w = (case next_job q (now w) (row_locks w) (jobs (db w)) of
       None \<Rightarrow> (None, w)
     | Some j \<Rightarrow> (Some (claim_row worker (now w) j),
         w\<lparr>db := (db w)\<lparr>jobs := upd_where (\<lambda>r. ID r = ID j) (claim_row worker (now w)) (jobs (db w))\<rparr>\<rparr>))"

definition is_processing :: "int \<Rightarrow> job \<Rightarrow> bool" where
  "is_processing i j \<longleftrightarrow> ID j = i \<and> Status j = StatusProcessing"

definition holds_claim :: "job \<Rightarrow> job \<Rightarrow> bool" where
  "holds_claim mine j \<longleftrightarrow> ID j = ID mine \<and> Status j = StatusProcessing \<and> Claims j = Claims mine"

definition ack_row :: "int \<Rightarrow> job \<Rightarrow> job" where
  "ack_row n j = j\<lparr>Status := StatusDone, DoneAt := Some n, ClaimedBy := None, ClaimedAt := None,
     UpdatedAt := n\<rparr>"

definition retry_row :: "int \<Rightarrow> int \<Rightarrow> string option \<Rightarrow> job \<Rightarrow> job" where
  "retry_row delay n msg j =
     j\<lparr>Status := (if MaxAttempts j \<le> Attempts j then StatusFailed else StatusPending),
       AvailableAt := (if MaxAttempts j \<le> Attempts j then AvailableAt j else n + interval delay),
       LastError := (case msg of None \<Rightarrow> LastError j | Some m \<Rightarrow> Some m),
       ClaimedBy := None, ClaimedAt := None,
       DoneAt := (if MaxAttempts j \<le> Attempts j then Some n else None),
       UpdatedAt := n\<rparr>"

definition fail_row :: "int \<Rightarrow> string option \<Rightarrow> job \<Rightarrow> job" where
  "fail_row n msg j = j\<lparr>Status := StatusFailed, LastError := msg, DoneAt := Some n, UpdatedAt := n\<rparr>"

definition stuck :: "reap_params \<Rightarrow> int \<Rightarrow> job \<Rightarrow> bool" where
  "stuck p n j \<longleftrightarrow> Status j = StatusProcessing
     \<and> (case ClaimedAt j of None \<Rightarrow> False | Some t \<Rightarrow> t < n - interval (rp_VisibilityTimeout p))
     \<and> (rp_QueueNames p = [] \<or> QueueName j \<in> set (rp_QueueNames p))"

definition requeue_row :: "int \<Rightarrow> job \<Rightarrow> job" where
  "requeue_row n j = j\<lparr>Status := StatusPending, ClaimedBy := None, ClaimedAt := None,
     AvailableAt := n, UpdatedAt := n\<rparr>"

definition reap_fail_row :: "int \<Rightarrow> job \<Rightarrow> job" where
  "reap_fail_row n j = j\<lparr>Status := StatusFailed,
     LastError := (case LastError j of None \<Rightarrow> Some ''reaped: visibility timeout exceeded''
       | Some m \<Rightarrow> Some m),
     ClaimedBy := None, ClaimedAt := None, DoneAt := Some n, UpdatedAt := n\<rparr>"

definition replay_row :: "int \<Rightarrow> job \<Rightarrow> job" where
  "replay_row n j = j\<lparr>Status := StatusPending, Attempts := 0, AvailableAt := n, ClaimedBy := None,
     ClaimedAt := None, DoneAt := None, LastError := None, UpdatedAt := n\<rparr>"

definition snooze_row :: "int \<Rightarrow> int \<Rightarrow> job \<Rightarrow> job" where
  "snooze_row until n j = j\<lparr>Status := StatusPending, Attempts := max (Attempts j - 1) 0,
     AvailableAt := max until n, ClaimedBy := None, ClaimedAt := None, UpdatedAt := n\<rparr>"

definition wake_row :: "int \<Rightarrow> job \<Rightarrow> job" where
  "wake_row n j = j\<lparr>AvailableAt := n, UpdatedAt := n\<rparr>"

definition heartbeat_row :: "int \<Rightarrow> job \<Rightarrow> job" where
  "heartbeat_row n j = j\<lparr>ClaimedAt := Some n, UpdatedAt := n\<rparr>"

section \<open>Operations of queue.go\<close>

definition tx_is_nil :: err where
  "tx_is_nil = Errorf ''pgqueue: tx is nil''"

definition enqueueCore :: "ctx \<Rightarrow> enqueue_params \<Rightarrow> int result io" where
  "enqueueCore x p =
     (if ep_QueueName p = [] then State_Monad.return (Inl (Sentinel ErrInvalidQueue))
      else
        let m = (if ep_MaxAttempts p \<le> 0 then defaultMaxAttempts else ep_MaxAttempts p) in
        attempt (query (insert_job (ep_QueueName p) (ep_Payload p) m (ep_AvailableAt p) (ctx_trace x)))
          (\<lambda>e. Inl (wrap ''pgqueue: enqueue: '' e))
          (\<lambda>i. do { emit (EventEnqueue i (ep_QueueName p)); State_Monad.return (Inr i) }))"

definition Enqueue :: "client option \<Rightarrow> ctx \<Rightarrow> enqueue_params \<Rightarrow> int result io" where
  "Enqueue c x p = (if nil_db c then State_Monad.return (Inl (Sentinel ErrNilDB)) else enqueueCore x p)"

definition EnqueueTx :: "client option \<Rightarrow> ctx \<Rightarrow> bool \<Rightarrow> enqueue_params \<Rightarrow> int result io" where
  "EnqueueTx c x tx p =
     (if nil_db c then State_Monad.return (Inl (Sentinel ErrNilDB))
      else if \<not> tx then State_Monad.return (Inl tx_is_nil)
      else enqueueCore x p)"

definition joinContextErr :: "ctx \<Rightarrow> world \<Rightarrow> err \<Rightarrow> err" where
  "joinContextErr x w e = (case ctx_err x w of None \<Rightarrow> e | Some ce \<Rightarrow> Join [e, ce])"

definition Claim :: "client option \<Rightarrow> ctx \<Rightarrow> string \<Rightarrow> string \<Rightarrow> job option result io" where
  "Claim c x queueName worker =
     (if nil_db c then State_Monad.return (Inl (Sentinel ErrNilDB))
      else if queueName = [] then State_Monad.return (Inl (Sentinel ErrInvalidQueue))
      else attempt begin_tx (\<lambda>e. Inl (wrap ''pgqueue: begin claim tx: '' e)) (\<lambda>_.
        deferring_rollback (do {
          r \<leftarrow> query_row (claim_next queueName worker);
          (case r of
             Inl e \<Rightarrow>
               if errors_is e SqlErrNoRows then do {
                 cr \<leftarrow> commit_tx;
                 w \<leftarrow> State_Monad.get;
                 State_Monad.return (case cr of
                     Inl ce \<Rightarrow> Inl (wrap ''pgqueue: commit empty claim tx: '' (joinContextErr x w ce))
                   | Inr _ \<Rightarrow> Inr None) }
               else State_Monad.return (Inl (wrap ''pgqueue: claim: '' e))
           | Inr j \<Rightarrow> do {
               cr \<leftarrow> commit_tx;
               w \<leftarrow> State_Monad.get;
               (case cr of
                  Inl ce \<Rightarrow> State_Monad.return
                    (Inl (wrap ''pgqueue: commit claim tx: '' (joinContextErr x w ce)))
                | Inr _ \<Rightarrow> do {
                    emit (EventClaim (ID j) queueName worker);
                    State_Monad.return (Inr (Some j)) }) }) })))"

definition ackCore :: "int \<Rightarrow> unit result io" where
  "ackCore i = attempt (query (on_db (\<lambda>n. update_jobs (is_processing i) (ack_row n))))
     (\<lambda>e. Inl (wrap ''pgqueue: ack: '' e))
     (\<lambda>k. if k = 0
        then State_Monad.return
          (Inl (wrap (''pgqueue: ack id='' @ dec_int i @ '': '') (Sentinel ErrJobNotFound)))
        else do { emit (EventAck i); State_Monad.return (Inr ()) })"

definition Ack :: "client option \<Rightarrow> int \<Rightarrow> unit result io" where
  "Ack c i = (if nil_db c then State_Monad.return (Inl (Sentinel ErrNilDB)) else ackCore i)"

definition AckTx :: "client option \<Rightarrow> bool \<Rightarrow> int \<Rightarrow> unit result io" where
  "AckTx c tx i =
     (if nil_db c then State_Monad.return (Inl (Sentinel ErrNilDB))
      else if \<not> tx then State_Monad.return (Inl tx_is_nil)
      else ackCore i)"

definition retryCore :: "int \<Rightarrow> int \<Rightarrow> err option \<Rightarrow> unit result io" where
  "retryCore i delay cause =
     attempt (query (on_db (\<lambda>n. update_jobs (is_processing i)
         (retry_row delay n (map_option err_text cause)))))
       (\<lambda>e. Inl (wrap ''pgqueue: retry: '' e))
       (\<lambda>k. if k = 0
          then State_Monad.return
            (Inl (wrap (''pgqueue: retry id='' @ dec_int i @ '': '') (Sentinel ErrJobNotFound)))
          else do { emit (EventRetry i); State_Monad.return (Inr ()) })"

definition Retry :: "client option \<Rightarrow> int \<Rightarrow> int \<Rightarrow> err option \<Rightarrow> unit result io" where
  "Retry c i delay cause =
     (if nil_db c then State_Monad.return (Inl (Sentinel ErrNilDB)) else retryCore i delay cause)"

definition RetryTx :: "client option \<Rightarrow> bool \<Rightarrow> int \<Rightarrow> int \<Rightarrow> err option \<Rightarrow> unit result io" where
  "RetryTx c tx i delay cause =
     (if nil_db c then State_Monad.return (Inl (Sentinel ErrNilDB))
      else if \<not> tx then State_Monad.return (Inl tx_is_nil)
      else retryCore i delay cause)"

definition failCore :: "int \<Rightarrow> err option \<Rightarrow> unit result io" where
  "failCore i cause =
     attempt (query (on_db (\<lambda>n. update_jobs (is_processing i) (fail_row n (map_option err_text cause)))))
       (\<lambda>e. Inl (wrap ''pgqueue: fail: '' e))
       (\<lambda>k. if k = 0
          then State_Monad.return
            (Inl (wrap (''pgqueue: fail id='' @ dec_int i @ '': '') (Sentinel ErrJobNotFound)))
          else do { emit (EventFail i); State_Monad.return (Inr ()) })"

definition FailJob :: "client option \<Rightarrow> int \<Rightarrow> err option \<Rightarrow> unit result io" where
  "FailJob c i cause =
     (if nil_db c then State_Monad.return (Inl (Sentinel ErrNilDB)) else failCore i cause)"

definition FailTx :: "client option \<Rightarrow> bool \<Rightarrow> int \<Rightarrow> err option \<Rightarrow> unit result io" where
  "FailTx c tx i cause =
     (if nil_db c then State_Monad.return (Inl (Sentinel ErrNilDB))
      else if \<not> tx then State_Monad.return (Inl tx_is_nil)
      else failCore i cause)"

text \<open>\<open>Reap\<close> returns its counts next to an error, so its result is a pair.\<close>

definition reap_requeue :: "reap_params \<Rightarrow> int \<Rightarrow> database \<Rightarrow> int \<times> database" where
  "reap_requeue p n = update_jobs_notify (\<lambda>j. stuck p n j \<and> Attempts j < MaxAttempts j) (requeue_row n)"

definition reap_fail :: "reap_params \<Rightarrow> int \<Rightarrow> database \<Rightarrow> int \<times> database" where
  "reap_fail p n = update_jobs (\<lambda>j. stuck p n j \<and> MaxAttempts j \<le> Attempts j) (reap_fail_row n)"

definition Reap :: "client option \<Rightarrow> reap_params \<Rightarrow> (reap_result \<times> err option) io" where
  "Reap c p =
     (if nil_db c then State_Monad.return (\<lparr>Requeued = 0, Failed = 0\<rparr>, Some (Sentinel ErrNilDB))
      else if rp_VisibilityTimeout p \<le> 0
      then State_Monad.return (\<lparr>Requeued = 0, Failed = 0\<rparr>, Some (Sentinel ErrInvalidVisibilityTimeout))
      else attempt (query (on_db (reap_requeue p)))
        (\<lambda>e. (\<lparr>Requeued = 0, Failed = 0\<rparr>, Some (wrap ''pgqueue: reap requeue: '' e)))
        (\<lambda>requeued. attempt (query (on_db (reap_fail p)))
          (\<lambda>e. (\<lparr>Requeued = requeued, Failed = 0\<rparr>, Some (wrap ''pgqueue: reap fail: '' e)))
          (\<lambda>failed. do {
             emit (EventReap requeued failed);
             State_Monad.return (\<lparr>Requeued = requeued, Failed = failed\<rparr>, None) })))"

definition ReapStuckJobs :: "client option \<Rightarrow> int \<Rightarrow> (reap_result \<times> err option) io" where
  "ReapStuckJobs c visibilityTimeout =
     Reap c \<lparr>rp_VisibilityTimeout = visibilityTimeout, rp_QueueNames = []\<rparr>"

definition select_job :: "int \<Rightarrow> job option statement" where
  "select_job i w = (find (\<lambda>j. ID j = i) (jobs (db w)), w)"

definition GetJob :: "client option \<Rightarrow> int \<Rightarrow> job result io" where
  "GetJob c i =
     (if nil_db c then State_Monad.return (Inl (Sentinel ErrNilDB))
      else attempt (query_row (select_job i))
        (\<lambda>e. Inl (if errors_is e SqlErrNoRows then Sentinel ErrJobNotFound
                 else wrap ''pgqueue: get job: '' e))
        (\<lambda>j. State_Monad.return (Inr (j\<lparr>traceContext := None\<rparr>))))"

definition ReplayJobTx :: "client option \<Rightarrow> int \<Rightarrow> unit result io" where
  "ReplayJobTx c i =
     (if nil_db c then State_Monad.return (Inl (Sentinel ErrNilDB))
      else attempt (query (on_db (\<lambda>n. update_jobs_notify
          (\<lambda>j. ID j = i \<and> (Status j = StatusDone \<or> Status j = StatusFailed)) (replay_row n))))
        (\<lambda>e. Inl (wrap ''pgqueue: replay: '' e))
        (\<lambda>k. if k = 0
           then State_Monad.return
             (Inl (wrap (''pgqueue: replay id='' @ dec_int i @ '': '') (Sentinel ErrJobNotFound)))
           else do { emit (EventReplay i); State_Monad.return (Inr ()) }))"

definition ReplayJob :: "client option \<Rightarrow> int \<Rightarrow> unit result io" where
  "ReplayJob c i =
     (if nil_db c then State_Monad.return (Inl (Sentinel ErrNilDB)) else ReplayJobTx c i)"

definition DeleteJob :: "client option \<Rightarrow> int \<Rightarrow> unit result io" where
  "DeleteJob c i =
     (if nil_db c then State_Monad.return (Inl (Sentinel ErrNilDB))
      else attempt (query (on_db (\<lambda>_. delete_jobs (\<lambda>j. ID j = i \<and> Status j \<noteq> StatusProcessing))))
        (\<lambda>e. Inl (wrap ''pgqueue: delete job: '' e))
        (\<lambda>k. if 0 < k then do { emit (EventDelete i); State_Monad.return (Inr ()) }
           else attempt (query_row (select_job i))
             (\<lambda>e. Inl (if errors_is e SqlErrNoRows
                then wrap (''pgqueue: delete job id='' @ dec_int i @ '': '') (Sentinel ErrJobNotFound)
                else wrap ''pgqueue: delete job status check: '' e))
             (\<lambda>j. State_Monad.return
                (if Status j = StatusProcessing
                 then Inl (wrap (''pgqueue: delete job id='' @ dec_int i @ '': '') (Sentinel ErrJobBusy))
                 else Inl (wrap (''pgqueue: delete job id='' @ dec_int i @ '': '')
                    (Sentinel ErrJobNotFound))))))"

definition purgeable :: "purge_params \<Rightarrow> int \<Rightarrow> job \<Rightarrow> bool" where
  "purgeable p n j \<longleftrightarrow> status_text (Status j) = pp_Status p \<and> UpdatedAt j < n - interval (pp_OlderThan p)"

definition purge_rows :: "purge_params \<Rightarrow> int \<Rightarrow> database \<Rightarrow> int \<times> database" where
  "purge_rows p n d =
     (if 0 < pp_Limit p
      then let ids = take (nat (pp_Limit p)) (sort (map ID (filter (purgeable p n) (jobs d))))
           in delete_jobs (\<lambda>j. ID j \<in> set ids) d
      else delete_jobs (purgeable p n) d)"

definition Purge :: "client option \<Rightarrow> purge_params \<Rightarrow> int result io" where
  "Purge c p =
     (if nil_db c then State_Monad.return (Inl (Sentinel ErrNilDB))
      else if pp_Status p = [] then State_Monad.return (Inl (Errorf ''pgqueue: purge: status is required''))
      else attempt (query (on_db (purge_rows p)))
        (\<lambda>e. Inl (wrap ''pgqueue: purge: '' e))
        (\<lambda>k. do { emit (EventPurge (pp_Status p) k); State_Monad.return (Inr k) }))"

section \<open>Operations of park.go\<close>

text \<open>\<open>ParkedUntil\<close>: 9999-12-31 00:00:00 UTC.\<close>

definition ParkedUntil :: int where
  "ParkedUntil = 253402214400 * 1000000"

text \<open>
  The snooze statement: it notifies when the job is due at once, and returns how many rows it
  changed. A zero \<open>until\<close> of the source is \<open>None\<close>.
\<close>

definition snooze_rows :: "job \<Rightarrow> int \<Rightarrow> int \<Rightarrow> database \<Rightarrow> int \<times> database" where
  "snooze_rows mine until n d =
     (count_where (holds_claim mine) (jobs d),
      d\<lparr>jobs := upd_where (holds_claim mine) (snooze_row until n) (jobs d),
        outbox := outbox d @ (if max until n \<le> n
          then map (notify_payload \<circ> QueueName) (filter (holds_claim mine) (jobs d)) else [])\<rparr>)"

definition SnoozeTx :: "client option \<Rightarrow> bool \<Rightarrow> job \<Rightarrow> int option \<Rightarrow> unit result io" where
  "SnoozeTx c tx mine until =
     (if nil_db c then State_Monad.return (Inl (Sentinel ErrNilDB))
      else if \<not> tx then State_Monad.return (Inl tx_is_nil)
      else attempt (query (on_db (snooze_rows mine (case until of None \<Rightarrow> ParkedUntil | Some t \<Rightarrow> t))))
        (\<lambda>e. Inl (wrap ''pgqueue: snooze: '' e))
        (\<lambda>k. if k = 0
           then State_Monad.return
             (Inl (wrap (''pgqueue: snooze id='' @ dec_int (ID mine) @ '': '') (Sentinel ErrJobNotFound)))
           else do { emit (EventSnooze (ID mine)); State_Monad.return (Inr ()) }))"

definition wake_rows :: "int \<Rightarrow> int \<Rightarrow> database \<Rightarrow> int \<times> database" where
  "wake_rows i n = update_jobs_notify
     (\<lambda>j. ID j = i \<and> Status j = StatusPending \<and> n < AvailableAt j) (wake_row n)"

definition WakeTx :: "client option \<Rightarrow> bool \<Rightarrow> int \<Rightarrow> unit result io" where
  "WakeTx c tx i =
     (if nil_db c then State_Monad.return (Inl (Sentinel ErrNilDB))
      else if \<not> tx then State_Monad.return (Inl tx_is_nil)
      else attempt (query (on_db (wake_rows i)))
        (\<lambda>e. Inl (wrap ''pgqueue: wake: '' e))
        (\<lambda>_. State_Monad.return (Inr ())))"

definition select_claim :: "job \<Rightarrow> unit option statement" where
  "select_claim mine w =
     (if \<exists>j \<in> set (jobs (db w)). holds_claim mine j then (Some (), w) else (None, w))"

definition LockClaimTx :: "client option \<Rightarrow> bool \<Rightarrow> job \<Rightarrow> unit result io" where
  "LockClaimTx c tx mine =
     (if nil_db c then State_Monad.return (Inl (Sentinel ErrNilDB))
      else if \<not> tx then State_Monad.return (Inl tx_is_nil)
      else attempt (query_row (select_claim mine))
        (\<lambda>e. Inl (if errors_is e SqlErrNoRows
           then wrap (''pgqueue: lock claim id='' @ dec_int (ID mine) @ '': '') (Sentinel ErrJobNotFound)
           else wrap ''pgqueue: lock claim: '' e))
        (\<lambda>_. State_Monad.return (Inr ())))"

definition Heartbeat :: "client option \<Rightarrow> job \<Rightarrow> unit result io" where
  "Heartbeat c mine =
     (if nil_db c then State_Monad.return (Inl (Sentinel ErrNilDB))
      else attempt (query (on_db (\<lambda>n. update_jobs (holds_claim mine) (heartbeat_row n))))
        (\<lambda>e. Inl (wrap ''pgqueue: heartbeat: '' e))
        (\<lambda>k. if k = 0
           then State_Monad.return
             (Inl (wrap (''pgqueue: heartbeat id='' @ dec_int (ID mine) @ '': '') (Sentinel ErrJobNotFound)))
           else State_Monad.return (Inr ())))"

end
