(* ===== verification/Notifier.thy ===== *)
theory Notifier
  imports Job_Queue
begin

text \<open>
  The shared LISTEN connection of a client: \<open>queue/notify.go\<close>, \<open>queue/subscribe.go\<close> and
  \<open>queue/pickup.go\<close>. The notifier and its listener goroutines are a step relation: each step is
  one critical section of \<open>n.mu\<close>, or one event of a listener goroutine between two of them, so any
  interleaving of subscribers and listeners is a path of the relation. The connection itself
  (pgx) answers every dial, \<open>LISTEN\<close> and wait nondeterministically.
\<close>

section \<open>Pickup\<close>

record pickup =
  onEnqueue :: bool
  scanEvery :: int

definition defaultRescanInterval :: int where
  "defaultRescanInterval = 5 * 1000000000"

definition PollEvery :: "int \<Rightarrow> pickup" where
  "PollEvery every = \<lparr>onEnqueue = False, scanEvery = every\<rparr>"

definition OnEnqueue :: pickup where
  "OnEnqueue = \<lparr>onEnqueue = True, scanEvery = defaultRescanInterval\<rparr>"

definition RescanEvery :: "pickup \<Rightarrow> int \<Rightarrow> pickup" where
  "RescanEvery p every = p\<lparr>scanEvery := every\<rparr>"

definition isZero :: "pickup \<Rightarrow> bool" where
  "isZero p \<longleftrightarrow> p = \<lparr>onEnqueue = False, scanEvery = 0\<rparr>"

section \<open>State\<close>

text \<open>
  A subscription: its keys, whether its wake channel (of capacity one) holds a value, and its
  \<open>listening\<close> flag. The channel's identity is \<open>sub_id\<close>, the pointer of the source.
\<close>

record subscription =
  sub_id :: nat
  keys :: "string list"
  wake :: bool
  sub_listening :: bool

text \<open>
  The notifier. \<open>stop\<close> is the generation of the running listener when \<open>n.stop\<close> is set; the counter
  \<open>generation\<close> of the source is a \<open>uint64\<close> that would have to wrap once around during the life of
  one listener run to be confused, and is unbounded here.
\<close>

record notifier =
  subs :: "subscription list"
  generation :: nat
  listening :: bool
  stop :: "nat option"

definition newNotifier :: notifier where
  "newNotifier = \<lparr>subs = [], generation = 0, listening = False, stop = None\<rparr>"

definition ListenWith :: "client \<Rightarrow> bool \<Rightarrow> client" where
  "ListenWith c connect = c\<lparr>listen_connect := connect\<rparr>"

text \<open>\<open>ListenOn\<close> with what \<open>pgx.ParseConfig\<close> answers for the connection string.\<close>

definition ListenOn :: "unit result \<Rightarrow> client \<Rightarrow> unit result \<times> client" where
  "ListenOn parsed c = (case parsed of
       Inl e \<Rightarrow> (Inl (wrap ''pgqueue: listener connection string: '' e), c)
     | Inr _ \<Rightarrow> (Inr (), ListenWith c True))"

definition supportsNotifications :: "client \<Rightarrow> bool" where
  "supportsNotifications c \<longleftrightarrow> listen_connect c \<or> pgx_driver c"

section \<open>Operations\<close>

text \<open>\<open>signal\<close>: a non-blocking send on a channel of capacity one.\<close>

definition signal :: "subscription \<Rightarrow> subscription" where
  "signal s = s\<lparr>wake := True\<rparr>"

definition new_sub :: "nat \<Rightarrow> string list \<Rightarrow> subscription" where
  "new_sub i queueNames = \<lparr>sub_id = i, keys = map notifyKey queueNames, wake = False, sub_listening = False\<rparr>"

definition subscribe :: "nat \<Rightarrow> string list \<Rightarrow> notifier \<Rightarrow> notifier" where
  "subscribe i queueNames n = (let s = new_sub i queueNames in
     if stop n = None
     then n\<lparr>subs := subs n @ [s], generation := generation n + 1, stop := Some (generation n + 1)\<rparr>
     else if listening n then n\<lparr>subs := subs n @ [signal (s\<lparr>sub_listening := True\<rparr>)]\<rparr>
     else n\<lparr>subs := subs n @ [s]\<rparr>)"

definition unsubscribe :: "nat \<Rightarrow> notifier \<Rightarrow> notifier" where
  "unsubscribe i n = (let rest = filter (\<lambda>s. sub_id s \<noteq> i) (subs n) in
     if rest \<noteq> [] then n\<lparr>subs := rest\<rparr>
     else n\<lparr>subs := rest, stop := None, listening := False, generation := generation n + 1\<rparr>)"

definition setListening :: "nat \<Rightarrow> bool \<Rightarrow> notifier \<Rightarrow> notifier" where
  "setListening gen on n = (if gen \<noteq> generation n then n
     else n\<lparr>listening := on, subs := map (\<lambda>s. let s' = s\<lparr>sub_listening := on\<rparr> in
        if on then signal s' else s') (subs n)\<rparr>)"

definition dispatch :: "nat \<Rightarrow> string option \<Rightarrow> notifier \<Rightarrow> notifier" where
  "dispatch gen notification n = (if gen \<noteq> generation n then n
     else n\<lparr>subs := map (\<lambda>s. case notification of None \<Rightarrow> signal s
        | Some payload \<Rightarrow> if payload \<in> set (keys s) then signal s else s) (subs n)\<rparr>)"

text \<open>The receive on \<open>sub.wake\<close>.\<close>

definition take_wake :: "nat \<Rightarrow> notifier \<Rightarrow> notifier" where
  "take_wake i n = n\<lparr>subs := map (\<lambda>s. if sub_id s = i then s\<lparr>wake := False\<rparr> else s) (subs n)\<rparr>"

text \<open>The public wrappers. \<open>closed\<close> is the \<open>sync.Once\<close> of \<open>Subscription\<close>.\<close>

definition Subscribe :: "client option \<Rightarrow> nat \<Rightarrow> string list \<Rightarrow> notifier \<Rightarrow> nat result \<times> notifier" where
  "Subscribe c i ks n = (case c of
       None \<Rightarrow> (Inl (Sentinel ErrNilDB), n)
     | Some cl \<Rightarrow>
         if \<not> has_db cl then (Inl (Sentinel ErrNilDB), n)
         else if \<not> supportsNotifications cl then (Inl (Sentinel ErrNotificationsUnsupported), n)
         else (Inr i, subscribe i ks n))"

definition Close :: "nat \<Rightarrow> bool \<Rightarrow> notifier \<Rightarrow> bool \<times> notifier" where
  "Close i closed n = (if closed then (True, n) else (True, unsubscribe i n))"

definition NotifyTx :: "client option \<Rightarrow> bool \<Rightarrow> string \<Rightarrow> unit result io" where
  "NotifyTx c tx key =
     (if nil_db c then State_Monad.return (Inl (Sentinel ErrNilDB))
      else if \<not> tx then State_Monad.return (Inl tx_is_nil)
      else attempt (query (on_db (\<lambda>_ d. ((), d\<lparr>outbox := outbox d @ [notifyKey key]\<rparr>))))
        (\<lambda>e. Inl (wrap ''pgqueue: notify: '' e)) (\<lambda>_. State_Monad.return (Inr ())))"

section \<open>Listener goroutines\<close>

text \<open>
  Where a goroutine of \<open>run\<close> stands: about to dial (\<open>open\<close> and \<open>LISTEN\<close>), listening (\<open>LISTEN\<close>
  acknowledged, before or inside \<open>WaitForNotification\<close>), failed (\<open>listen\<close> returned, before
  \<open>setListening(false)\<close>), waiting for the retry delay, or returned.
\<close>

datatype phase = Dialing | Acknowledged | Waiting | FailedListen | Delaying | Returned

record listener =
  l_gen :: nat
  l_phase :: phase
  l_cancelled :: bool

record hub =
  notifier_of :: notifier
  listeners :: "listener list"
  next_sub :: nat

definition at :: "nat \<Rightarrow> (listener \<Rightarrow> listener) \<Rightarrow> listener list \<Rightarrow> listener list" where
  "at gen f ls = map (\<lambda>l. if l_gen l = gen then f l else l) ls"

text \<open>
  \<open>subscribe\<close> starts a goroutine when it sets \<open>stop\<close>; \<open>unsubscribe\<close> of the last subscription
  cancels its context. \<open>hub_acknowledge\<close>: \<open>LISTEN\<close> succeeded; \<open>hub_listening\<close>:
  \<open>setListening(generation, true)\<close>; \<open>hub_receive\<close>: \<open>WaitForNotification\<close> returned and
  \<open>dispatch\<close> runs; \<open>hub_break\<close>: dialing, \<open>LISTEN\<close> or waiting failed; \<open>hub_down\<close>:
  \<open>setListening(generation, false)\<close> and the check of \<open>ctx.Err()\<close>; \<open>hub_retry\<close> and \<open>hub_return\<close>: the select
  after it.
\<close>

inductive hub_step :: "hub \<Rightarrow> hub \<Rightarrow> bool" where
  hub_subscribe: "hub_step h (h\<lparr>notifier_of := subscribe (next_sub h) ks (notifier_of h),
     next_sub := next_sub h + 1,
     listeners := (if stop (notifier_of h) = None
       then listeners h @ [\<lparr>l_gen = generation (notifier_of h) + 1, l_phase = Dialing, l_cancelled = False\<rparr>]
       else listeners h)\<rparr>)"
| hub_unsubscribe: "s \<in> set (subs (notifier_of h)) \<Longrightarrow>
   hub_step h (h\<lparr>notifier_of := unsubscribe (sub_id s) (notifier_of h),
     listeners := (if filter (\<lambda>r. sub_id r \<noteq> sub_id s) (subs (notifier_of h)) \<noteq> [] then listeners h
       else (case stop (notifier_of h) of None \<Rightarrow> listeners h
         | Some g \<Rightarrow> at g (\<lambda>l. l\<lparr>l_cancelled := True\<rparr>) (listeners h)))\<rparr>)"
| hub_acknowledge: "l \<in> set (listeners h) \<Longrightarrow> l_phase l = Dialing \<Longrightarrow>
   hub_step h (h\<lparr>listeners := at (l_gen l) (\<lambda>l. l\<lparr>l_phase := Acknowledged\<rparr>) (listeners h)\<rparr>)"
| hub_listening: "l \<in> set (listeners h) \<Longrightarrow> l_phase l = Acknowledged \<Longrightarrow>
   hub_step h (h\<lparr>notifier_of := setListening (l_gen l) True (notifier_of h),
     listeners := at (l_gen l) (\<lambda>l. l\<lparr>l_phase := Waiting\<rparr>) (listeners h)\<rparr>)"
| hub_receive: "l \<in> set (listeners h) \<Longrightarrow> l_phase l = Waiting \<Longrightarrow>
   hub_step h (h\<lparr>notifier_of := dispatch (l_gen l) notification (notifier_of h)\<rparr>)"
| hub_break: "l \<in> set (listeners h) \<Longrightarrow> l_phase l = Dialing \<or> l_phase l = Waiting \<Longrightarrow>
   hub_step h (h\<lparr>listeners := at (l_gen l) (\<lambda>l. l\<lparr>l_phase := FailedListen\<rparr>) (listeners h)\<rparr>)"
| hub_down: "l \<in> set (listeners h) \<Longrightarrow> l_phase l = FailedListen \<Longrightarrow>
   hub_step h (h\<lparr>notifier_of := setListening (l_gen l) False (notifier_of h),
     listeners := at (l_gen l) (\<lambda>l. l\<lparr>l_phase := if l_cancelled l then Returned else Delaying\<rparr>) (listeners h)\<rparr>)"
| hub_retry: "l \<in> set (listeners h) \<Longrightarrow> l_phase l = Delaying \<Longrightarrow>
   hub_step h (h\<lparr>listeners := at (l_gen l) (\<lambda>l. l\<lparr>l_phase := Dialing\<rparr>) (listeners h)\<rparr>)"
| hub_return: "l \<in> set (listeners h) \<Longrightarrow> l_phase l = Delaying \<Longrightarrow> l_cancelled l \<Longrightarrow>
   hub_step h (h\<lparr>listeners := at (l_gen l) (\<lambda>l. l\<lparr>l_phase := Returned\<rparr>) (listeners h)\<rparr>)"
| hub_take: "hub_step h (h\<lparr>notifier_of := take_wake i (notifier_of h)\<rparr>)"

definition initial_hub :: hub where
  "initial_hub = \<lparr>notifier_of = newNotifier, listeners = [], next_sub = 0\<rparr>"

inductive hub_reachable :: "hub \<Rightarrow> bool" where
  hub_initial: "hub_reachable initial_hub"
| hub_more: "hub_reachable h \<Longrightarrow> hub_step h h' \<Longrightarrow> hub_reachable h'"

section \<open>Invariant\<close>

definition notifier_inv :: "nat \<Rightarrow> notifier \<Rightarrow> bool" where
  "notifier_inv k n \<longleftrightarrow> distinct (map sub_id (subs n)) \<and> (\<forall>s \<in> set (subs n). sub_id s < k)
     \<and> (stop n = None \<longleftrightarrow> subs n = [])
     \<and> (stop n = None \<or> stop n = Some (generation n))
     \<and> (\<forall>s \<in> set (subs n). sub_listening s = listening n)
     \<and> (stop n = None \<longrightarrow> \<not> listening n)"

definition phase_ok :: "bool \<Rightarrow> phase \<Rightarrow> bool" where
  "phase_ok on p \<longleftrightarrow> p \<noteq> Returned \<and> (on \<longrightarrow> p = Waiting \<or> p = FailedListen) \<and> (p = Waiting \<longrightarrow> on)"

definition listener_ok :: "notifier \<Rightarrow> listener \<Rightarrow> bool" where
  "listener_ok n l \<longleftrightarrow> l_gen l \<le> generation n \<and> (l_cancelled l \<longleftrightarrow> stop n \<noteq> Some (l_gen l))
     \<and> (l_cancelled l \<longrightarrow> l_gen l \<noteq> generation n)
     \<and> (\<not> l_cancelled l \<longrightarrow> phase_ok (listening n) (l_phase l))"

definition hub_inv :: "hub \<Rightarrow> bool" where
  "hub_inv h \<longleftrightarrow> notifier_inv (next_sub h) (notifier_of h) \<and> distinct (map l_gen (listeners h))
     \<and> (\<forall>l \<in> set (listeners h). listener_ok (notifier_of h) l)
     \<and> (stop (notifier_of h) \<noteq> None \<longrightarrow> generation (notifier_of h) \<in> l_gen ` set (listeners h))"

lemma at_map [simp]: "(\<And>l. l_gen (f l) = l_gen l) \<Longrightarrow> map l_gen (at g f ls) = map l_gen ls"
  by (simp add: at_def)

lemma set_at: "set (at g f ls) = (\<lambda>l. if l_gen l = g then f l else l) ` set ls"
  by (simp add: at_def)

lemma ball_at: "(\<forall>l \<in> set (at g f ls). P l) \<longleftrightarrow> (\<forall>l \<in> set ls. P (if l_gen l = g then f l else l))"
  by (auto simp: at_def)

lemma image_at [simp]: "(\<And>l. l_gen (f l) = l_gen l) \<Longrightarrow> l_gen ` set (at g f ls) = l_gen ` set ls"
  by (metis at_map set_map)

lemma same_gen:
  "distinct (map l_gen ls) \<Longrightarrow> l \<in> set ls \<Longrightarrow> l' \<in> set ls \<Longrightarrow> l_gen l = l_gen l' \<Longrightarrow> l = l'"
  by (auto simp: distinct_map inj_on_def)

lemma hub_invD:
  assumes "hub_inv h"
  shows "notifier_inv (next_sub h) (notifier_of h)" "distinct (map l_gen (listeners h))"
    "l \<in> set (listeners h) \<Longrightarrow> listener_ok (notifier_of h) l"
    "stop (notifier_of h) \<noteq> None \<Longrightarrow> generation (notifier_of h) \<in> l_gen ` set (listeners h)"
  using assms by (auto simp: hub_inv_def)

lemma subscribe_notifier_inv: "notifier_inv k n \<Longrightarrow> notifier_inv (k + 1) (subscribe k ks n)"
  by (fastforce simp: notifier_inv_def subscribe_def new_sub_def signal_def Let_def)

lemma subscribe_inv:
  assumes inv: "hub_inv h"
  shows "hub_inv (h\<lparr>notifier_of := subscribe (next_sub h) ks (notifier_of h), next_sub := next_sub h + 1,
     listeners := (if stop (notifier_of h) = None
       then listeners h @ [\<lparr>l_gen = generation (notifier_of h) + 1, l_phase = Dialing, l_cancelled = False\<rparr>]
       else listeners h)\<rparr>)"
proof (cases "stop (notifier_of h) = None")
  case True
  from hub_invD(3) [OF inv] True have old: "l_gen l \<le> generation (notifier_of h) \<and> l_cancelled l"
    if "l \<in> set (listeners h)" for l using that by (auto simp: listener_ok_def)
  have off: "\<not> listening (notifier_of h)" using hub_invD(1) [OF inv] True by (simp add: notifier_inv_def)
  have s: "stop (subscribe k ks (notifier_of h)) = Some (generation (notifier_of h) + 1)"
    "generation (subscribe k ks (notifier_of h)) = generation (notifier_of h) + 1"
    "listening (subscribe k ks (notifier_of h)) = False" for k
    using True off by (simp_all add: subscribe_def Let_def)
  have "distinct (map l_gen (listeners h @ [\<lparr>l_gen = generation (notifier_of h) + 1, l_phase = Dialing, l_cancelled = False\<rparr>]))"
    using hub_invD(2) [OF inv] old by fastforce
  moreover have "listener_ok (subscribe (next_sub h) ks (notifier_of h)) l" if "l \<in> set (listeners h)" for l
    using old [OF that] by (simp add: listener_ok_def s)
  ultimately show ?thesis
    using subscribe_notifier_inv [OF hub_invD(1) [OF inv], of ks] True
    by (simp add: hub_inv_def listener_ok_def phase_ok_def s)
next
  case False
  have s: "stop (subscribe k ks (notifier_of h)) = stop (notifier_of h)"
    "generation (subscribe k ks (notifier_of h)) = generation (notifier_of h)"
    "listening (subscribe k ks (notifier_of h)) = listening (notifier_of h)" for k
    using False by (auto simp: subscribe_def Let_def)
  with inv False subscribe_notifier_inv [OF hub_invD(1) [OF inv], of ks] show ?thesis
    by (simp add: hub_inv_def listener_ok_def)
qed

lemma unsubscribe_notifier_inv: "notifier_inv k n \<Longrightarrow> notifier_inv k (unsubscribe i n)"
  by (auto simp: notifier_inv_def unsubscribe_def Let_def distinct_map_filter)

lemma unsubscribe_inv:
  assumes inv: "hub_inv h" and s: "s \<in> set (subs (notifier_of h))"
  shows "hub_inv (h\<lparr>notifier_of := unsubscribe (sub_id s) (notifier_of h),
     listeners := (if filter (\<lambda>r. sub_id r \<noteq> sub_id s) (subs (notifier_of h)) \<noteq> [] then listeners h
       else (case stop (notifier_of h) of None \<Rightarrow> listeners h
         | Some g \<Rightarrow> at g (\<lambda>l. l\<lparr>l_cancelled := True\<rparr>) (listeners h)))\<rparr>)"
proof (cases "filter (\<lambda>r. sub_id r \<noteq> sub_id s) (subs (notifier_of h)) = []")
  case False
  with inv unsubscribe_notifier_inv [OF hub_invD(1) [OF inv], of "sub_id s"] show ?thesis
    by (simp add: hub_inv_def unsubscribe_def listener_ok_def)
next
  case True
  from hub_invD(1) [OF inv] s have g: "stop (notifier_of h) = Some (generation (notifier_of h))"
    by (auto simp: notifier_inv_def)
  have "listener_ok (unsubscribe (sub_id s) (notifier_of h))
      (if l_gen l = generation (notifier_of h) then l\<lparr>l_cancelled := True\<rparr> else l)"
    if "l \<in> set (listeners h)" for l
    using hub_invD(3) [OF inv that] True g by (auto simp: listener_ok_def unsubscribe_def)
  then show ?thesis
    using unsubscribe_notifier_inv [OF hub_invD(1) [OF inv], of "sub_id s"] hub_invD(2) [OF inv] True
    by (simp add: hub_inv_def g ball_at unsubscribe_def)
qed

text \<open>A step of a listener that leaves the notifier as it is.\<close>

lemma phase_inv:
  assumes inv: "hub_inv h" and l: "l \<in> set (listeners h)"
    and p: "l_cancelled l \<or> phase_ok (listening (notifier_of h)) p"
  shows "hub_inv (h\<lparr>listeners := at (l_gen l) (\<lambda>l. l\<lparr>l_phase := p\<rparr>) (listeners h)\<rparr>)"
proof -
  have "listener_ok (notifier_of h) (if l_gen r = l_gen l then r\<lparr>l_phase := p\<rparr> else r)"
    if "r \<in> set (listeners h)" for r
    using hub_invD(3) [OF inv that] same_gen [OF hub_invD(2) [OF inv] that l] p
    by (auto simp: listener_ok_def)
  with inv show ?thesis by (simp add: hub_inv_def ball_at)
qed

lemma setListening_fields [simp]:
  "stop (setListening g on n) = stop n" "generation (setListening g on n) = generation n"
  "listening (setListening g on n) = (if g = generation n then on else listening n)"
  by (simp_all add: setListening_def)

lemma setListening_notifier_inv:
  "notifier_inv k n \<Longrightarrow> g \<noteq> generation n \<or> stop n \<noteq> None \<or> \<not> on \<Longrightarrow> notifier_inv k (setListening g on n)"
  by (auto simp: notifier_inv_def setListening_def Let_def signal_def comp_def)

text \<open>A step of a listener through \<open>setListening\<close>.\<close>

lemma setListening_inv:
  assumes inv: "hub_inv h" and l: "l \<in> set (listeners h)"
    and p: "\<not> l_cancelled l \<Longrightarrow> phase_ok on (p l)"
    and c: "l_cancelled l \<Longrightarrow> l_gen l \<noteq> generation (notifier_of h) \<or> \<not> on"
  shows "hub_inv (h\<lparr>notifier_of := setListening (l_gen l) on (notifier_of h),
     listeners := at (l_gen l) (\<lambda>l. l\<lparr>l_phase := p l\<rparr>) (listeners h)\<rparr>)"
proof -
  have n: "notifier_inv (next_sub h) (setListening (l_gen l) on (notifier_of h))"
    using hub_invD(1,3) [OF inv] l c
    by (intro setListening_notifier_inv) (auto simp: listener_ok_def)
  have cur: "l_gen l = generation (notifier_of h)" if "\<not> l_cancelled l"
    using hub_invD(3) [OF inv l] hub_invD(1) [OF inv] that by (auto simp: listener_ok_def notifier_inv_def)
  have "listener_ok (setListening (l_gen l) on (notifier_of h))
      (if l_gen r = l_gen l then r\<lparr>l_phase := p r\<rparr> else r)" if r: "r \<in> set (listeners h)" for r
  proof (cases "l_gen r = l_gen l")
    case True
    then have "r = l" using same_gen [OF hub_invD(2) [OF inv] r l] by simp
    with hub_invD(3) [OF inv r] p cur show ?thesis by (auto simp: listener_ok_def)
  next
    case False
    then have "\<not> l_cancelled r \<Longrightarrow> l_gen l \<noteq> generation (notifier_of h)"
      using hub_invD(3) [OF inv r] hub_invD(1) [OF inv] by (auto simp: listener_ok_def notifier_inv_def)
    with False hub_invD(3) [OF inv r] show ?thesis by (auto simp: listener_ok_def)
  qed
  with inv n show ?thesis by (simp add: hub_inv_def ball_at)
qed

lemma subs_map_notifier_inv:
  assumes "notifier_inv k n" "\<And>s. sub_id (f s) = sub_id s" "\<And>s. sub_listening (f s) = sub_listening s"
  shows "notifier_inv k (n\<lparr>subs := map f (subs n)\<rparr>)"
  using assms by (auto simp: notifier_inv_def comp_def)

lemma subs_map_inv:
  assumes "hub_inv h" "\<And>s. sub_id (f s) = sub_id s" "\<And>s. sub_listening (f s) = sub_listening s"
  shows "hub_inv (h\<lparr>notifier_of := (notifier_of h)\<lparr>subs := map f (subs (notifier_of h))\<rparr>\<rparr>)"
  using assms subs_map_notifier_inv [OF hub_invD(1) [OF assms(1)], of f]
  by (simp add: hub_inv_def listener_ok_def)

lemma dispatch_inv: "hub_inv h \<Longrightarrow> hub_inv (h\<lparr>notifier_of := dispatch g notification (notifier_of h)\<rparr>)"
  by (cases "g = generation (notifier_of h)")
     (auto simp: dispatch_def signal_def intro!: subs_map_inv split: option.splits if_splits)

lemma take_inv: "hub_inv h \<Longrightarrow> hub_inv (h\<lparr>notifier_of := take_wake i (notifier_of h)\<rparr>)"
  unfolding take_wake_def by (rule subs_map_inv) auto

lemma hub_step_inv:
  assumes "hub_step h h'" "hub_inv h"
  shows "hub_inv h'"
  using assms
proof (induction rule: hub_step.induct)
  case (hub_acknowledge l h)
  then show ?case
    by (intro phase_inv) (auto simp: phase_ok_def dest: hub_invD(3) simp: listener_ok_def)
next
  case (hub_listening l h)
  then show ?case
    by (intro setListening_inv) (auto simp: phase_ok_def listener_ok_def dest: hub_invD(3))
next
  case (hub_break l h)
  then show ?case
    by (intro phase_inv) (auto simp: phase_ok_def)
next
  case (hub_down l h)
  then show ?case
    by (intro setListening_inv) (auto simp: phase_ok_def)
next
  case (hub_retry l h)
  then show ?case
    by (intro phase_inv) (auto simp: phase_ok_def listener_ok_def dest: hub_invD(3))
next
  case (hub_return l h)
  then show ?case by (intro phase_inv) auto
qed (rule subscribe_inv unsubscribe_inv dispatch_inv take_inv; assumption)+

lemma hub_reachable_inv: "hub_reachable h \<Longrightarrow> hub_inv h"
proof (induction rule: hub_reachable.induct)
  case hub_initial
  show ?case by (simp add: initial_hub_def newNotifier_def hub_inv_def notifier_inv_def)
qed (rule hub_step_inv)

section \<open>Properties\<close>

lemma live_listener_current:
  assumes "hub_inv h" "l \<in> set (listeners h)" "\<not> l_cancelled l"
  shows "l_gen l = generation (notifier_of h)"
  using hub_invD(1,3) [OF assms(1)] assms(2,3) by (auto simp: listener_ok_def notifier_inv_def)

lemma notifyKey_valid: "valid_utf8 q \<Longrightarrow> notifyKey q = notify_payload q"
proof -
  assume "valid_utf8 q"
  then have e: "map (encode_rune \<circ> fst) (rune_parts q) = map snd (rune_parts q)"
    by (intro encode_parts) (simp add: valid_utf8_def)
  have "concat (map encode_rune (take n (map fst (rune_parts q)))) = concat (map snd (take n (rune_parts q)))" for n
    by (metis e list.map_comp take_map)
  then show ?thesis
    by (simp add: notifyKey_def notify_payload_def pg_left_def Let_def rune_parts_concat)
qed

definition sample_hub :: hub where
  "sample_hub = \<lparr>notifier_of = \<lparr>subs = [\<lparr>sub_id = 0, keys = [notifyKey ''mail''], wake = True,
       sub_listening = True\<rparr>], generation = 1, listening = True, stop = Some 1\<rparr>,
     listeners = [\<lparr>l_gen = 1, l_phase = Waiting, l_cancelled = False\<rparr>], next_sub = 1\<rparr>"

lemma sample_hub_reachable: "hub_reachable sample_hub"
proof -
  let ?h1 = "\<lparr>notifier_of = \<lparr>subs = [new_sub 0 [''mail'']], generation = 1, listening = False, stop = Some 1\<rparr>,
     listeners = [\<lparr>l_gen = 1, l_phase = Dialing, l_cancelled = False\<rparr>], next_sub = 1\<rparr>"
  have "hub_reachable ?h1"
    using hub_more [OF hub_initial hub_subscribe [of initial_hub "[''mail'']"]]
    by (simp add: initial_hub_def newNotifier_def subscribe_def)
  from hub_more [OF this hub_acknowledge] have "hub_reachable (?h1\<lparr>listeners := [\<lparr>l_gen = 1, l_phase = Acknowledged, l_cancelled = False\<rparr>]\<rparr>)"
    by (simp add: at_def)
  from hub_more [OF this hub_listening] show ?thesis
    by (simp add: at_def sample_hub_def setListening_def signal_def new_sub_def)
qed





end
