(* ===== verification/Queue_Invariants.thy ===== *)
theory Queue_Invariants
  imports Job_Queue
begin

text \<open>
  What every queue operation keeps true of \<open>pgqueue_jobs\<close>, under any failures: the row
  invariant \<open>job_inv\<close> with unique, never reused ids; the abstract job life cycle that every
  statement follows; and the claim fence, that a claim once lost stays lost.
\<close>

section \<open>The table invariant\<close>

definition job_inv :: "job \<Rightarrow> bool" where
  "job_inv j \<longleftrightarrow> QueueName j \<noteq> [] \<and> 0 \<le> Attempts j \<and> Attempts j \<le> MaxAttempts j
     \<and> 0 < MaxAttempts j \<and> Attempts j \<le> Claims j
     \<and> (case Status j of
          StatusPending \<Rightarrow> ClaimedBy j = None \<and> ClaimedAt j = None \<and> DoneAt j = None
            \<and> Attempts j < MaxAttempts j
        | StatusProcessing \<Rightarrow> ClaimedBy j \<noteq> None \<and> ClaimedAt j \<noteq> None \<and> DoneAt j = None
            \<and> 0 < Attempts j
        | StatusDone \<Rightarrow> ClaimedBy j = None \<and> ClaimedAt j = None \<and> DoneAt j \<noteq> None
        | StatusFailed \<Rightarrow> DoneAt j \<noteq> None)"

definition queue_inv :: "int \<Rightarrow> int \<Rightarrow> database \<Rightarrow> bool" where
  "queue_inv js gs d \<longleftrightarrow> 0 < js \<and> distinct (map ID (jobs d))
     \<and> (\<forall>j \<in> set (jobs d). job_inv j \<and> 0 < ID j \<and> ID j < js)"

interpretation qi: db_invariant queue_inv
  by unfold_locales (auto simp: queue_inv_def)

section \<open>The life cycle\<close>

text \<open>
  The abstract machine: status, attempts and claim number of a job. \<open>m\<close> is its attempt
  budget.
\<close>

type_synonym life = "job_status \<times> int \<times> int"

definition life :: "job \<Rightarrow> life" where
  "life j = (Status j, Attempts j, Claims j)"

inductive life_step :: "int \<Rightarrow> life \<Rightarrow> life \<Rightarrow> bool" for m :: int where
  life_stay: "life_step m l l"
| life_claim: "a < m \<Longrightarrow> life_step m (StatusPending, a, k) (StatusProcessing, a + 1, k + 1)"
| life_ack: "life_step m (StatusProcessing, a, k) (StatusDone, a, k)"
| life_fail: "life_step m (StatusProcessing, a, k) (StatusFailed, a, k)"
| life_requeue: "a < m \<Longrightarrow> life_step m (StatusProcessing, a, k) (StatusPending, a, k)"
| life_snooze: "life_step m (StatusProcessing, a, k) (StatusPending, max (a - 1) 0, k)"
| life_replay: "s = StatusDone \<or> s = StatusFailed \<Longrightarrow> life_step m (s, a, k) (StatusPending, 0, k)"

inductive_simps life_step_to_processing: "life_step m l (StatusProcessing, a, k)"

text \<open>A row keeps its identity and moves along the life cycle.\<close>

definition row_step :: "job \<Rightarrow> job \<Rightarrow> bool" where
  "row_step j j' \<longleftrightarrow> ID j' = ID j \<and> QueueName j' = QueueName j \<and> Payload j' = Payload j
     \<and> MaxAttempts j' = MaxAttempts j \<and> CreatedAt j' = CreatedAt j \<and> traceContext j' = traceContext j
     \<and> life_step (MaxAttempts j) (life j) (life j')"

text \<open>
  The specification of one statement: rows move along the life cycle or disappear, and a row
  that appears is new, with an id no row ever had.
\<close>

definition table_step :: "world \<Rightarrow> world \<Rightarrow> bool" where
  "table_step w w' \<longleftrightarrow> snapshot w' = snapshot w \<and> job_seq w \<le> job_seq w' \<and> signal_seq w' = signal_seq w
     \<and> (\<forall>j' \<in> set (jobs (db w')).
          (\<exists>j \<in> set (jobs (db w)). row_step j j')
          \<or> (job_seq w \<le> ID j' \<and> ID j' < job_seq w' \<and> life j' = (StatusPending, 0, 0)))"

definition follows_life :: "'a statement \<Rightarrow> bool" where
  "follows_life st \<longleftrightarrow> (\<forall>w. queue_inv (job_seq w) (signal_seq w) (db w) \<longrightarrow> table_step w (snd (st w)))"

lemma row_step_refl [simp]: "row_step j j"
  by (simp add: row_step_def life_stay)

lemma table_step_kept:
  assumes "snapshot w' = snapshot w" "job_seq w' = job_seq w" "signal_seq w' = signal_seq w"
    and "\<And>j'. j' \<in> set (jobs (db w')) \<Longrightarrow> \<exists>j \<in> set (jobs (db w)). row_step j j'"
  shows "table_step w w'"
  using assms by (simp add: table_step_def)

lemma table_step_refl [simp]: "table_step w w"
  by (rule table_step_kept) (auto intro: row_step_refl)

lemma follows_life_on_db:
  assumes "\<And>n d j'. j' \<in> set (jobs (snd (f n d))) \<Longrightarrow> \<exists>j \<in> set (jobs d). row_step j j'"
  shows "follows_life (on_db f)"
  unfolding follows_life_def
proof (intro allI impI)
  fix w
  obtain a d' where f: "f (now w) (db w) = (a, d')" by (cases "f (now w) (db w)")
  with assms [of _ "now w" "db w"] show "table_step w (snd (on_db f w))"
    by (auto simp: table_step_def on_db_def)
qed

section \<open>The row functions\<close>

lemma claim_row_inv: "job_inv j \<Longrightarrow> eligible q n l j \<Longrightarrow> job_inv (claim_row worker n' j)"
  by (auto simp: job_inv_def eligible_def claim_row_def)

lemma ack_row_inv: "job_inv j \<Longrightarrow> Status j = StatusProcessing \<Longrightarrow> job_inv (ack_row n j)"
  by (auto simp: job_inv_def ack_row_def)

lemma retry_row_inv: "job_inv j \<Longrightarrow> Status j = StatusProcessing \<Longrightarrow> job_inv (retry_row delay n msg j)"
  by (auto simp: job_inv_def retry_row_def)

lemma fail_row_inv: "job_inv j \<Longrightarrow> Status j = StatusProcessing \<Longrightarrow> job_inv (fail_row n msg j)"
  by (auto simp: job_inv_def fail_row_def)

lemma requeue_row_inv:
  "job_inv j \<Longrightarrow> Status j = StatusProcessing \<Longrightarrow> Attempts j < MaxAttempts j \<Longrightarrow> job_inv (requeue_row n j)"
  by (auto simp: job_inv_def requeue_row_def)

lemma reap_fail_row_inv: "job_inv j \<Longrightarrow> Status j = StatusProcessing \<Longrightarrow> job_inv (reap_fail_row n j)"
  by (auto simp: job_inv_def reap_fail_row_def)

lemma replay_row_inv:
  "job_inv j \<Longrightarrow> Status j = StatusDone \<or> Status j = StatusFailed \<Longrightarrow> job_inv (replay_row n j)"
  by (auto simp: job_inv_def replay_row_def)

lemma snooze_row_inv: "job_inv j \<Longrightarrow> Status j = StatusProcessing \<Longrightarrow> job_inv (snooze_row until n j)"
  by (auto simp: job_inv_def snooze_row_def)

lemma wake_row_inv: "job_inv j \<Longrightarrow> job_inv (wake_row n j)"
  by (auto simp: job_inv_def wake_row_def split: job_status.splits)

lemma heartbeat_row_inv: "job_inv j \<Longrightarrow> Status j = StatusProcessing \<Longrightarrow> job_inv (heartbeat_row n j)"
  by (auto simp: job_inv_def heartbeat_row_def)

lemma new_job_inv: "q \<noteq> [] \<Longrightarrow> 0 < m \<Longrightarrow> job_inv (new_job i n q p m avail tr)"
  by (simp add: job_inv_def new_job_def)

lemmas row_invs = claim_row_inv ack_row_inv retry_row_inv fail_row_inv requeue_row_inv
  reap_fail_row_inv replay_row_inv snooze_row_inv wake_row_inv heartbeat_row_inv

lemmas row_defs = claim_row_def ack_row_def retry_row_def fail_row_def requeue_row_def
  reap_fail_row_def replay_row_def snooze_row_def wake_row_def heartbeat_row_def

lemma row_IDs [simp]:
  "ID (claim_row worker n j) = ID j" "ID (ack_row n j) = ID j" "ID (retry_row delay n msg j) = ID j"
  "ID (fail_row n msg j) = ID j" "ID (requeue_row n j) = ID j" "ID (reap_fail_row n j) = ID j"
  "ID (replay_row n j) = ID j" "ID (snooze_row until n j) = ID j" "ID (wake_row n j) = ID j"
  "ID (heartbeat_row n j) = ID j"
  by (simp_all add: row_defs)

lemma claim_row_step: "eligible q n l j \<Longrightarrow> row_step j (claim_row worker n' j)"
  by (auto simp: row_step_def claim_row_def life_def eligible_def intro: life_claim)

lemma ack_row_step: "Status j = StatusProcessing \<Longrightarrow> row_step j (ack_row n j)"
  by (auto simp: row_step_def ack_row_def life_def intro: life_ack)

lemma retry_row_step: "Status j = StatusProcessing \<Longrightarrow> row_step j (retry_row delay n msg j)"
  by (auto simp: row_step_def retry_row_def life_def intro: life_fail life_requeue)

lemma fail_row_step: "Status j = StatusProcessing \<Longrightarrow> row_step j (fail_row n msg j)"
  by (auto simp: row_step_def fail_row_def life_def intro: life_fail)

lemma requeue_row_step:
  "Status j = StatusProcessing \<Longrightarrow> Attempts j < MaxAttempts j \<Longrightarrow> row_step j (requeue_row n j)"
  by (auto simp: row_step_def requeue_row_def life_def intro: life_requeue)

lemma reap_fail_row_step: "Status j = StatusProcessing \<Longrightarrow> row_step j (reap_fail_row n j)"
  by (auto simp: row_step_def reap_fail_row_def life_def intro: life_fail)

lemma replay_row_step:
  "Status j = StatusDone \<or> Status j = StatusFailed \<Longrightarrow> row_step j (replay_row n j)"
  by (auto simp: row_step_def replay_row_def life_def intro: life_replay)

lemma snooze_row_step: "Status j = StatusProcessing \<Longrightarrow> row_step j (snooze_row until n j)"
  by (auto simp: row_step_def snooze_row_def life_def intro: life_snooze)

lemma wake_row_step: "row_step j (wake_row n j)"
  by (auto simp: row_step_def wake_row_def life_def intro: life_stay)

lemma heartbeat_row_step: "row_step j (heartbeat_row n j)"
  by (auto simp: row_step_def heartbeat_row_def life_def intro: life_stay)

lemmas row_steps = claim_row_step ack_row_step retry_row_step fail_row_step requeue_row_step
  reap_fail_row_step replay_row_step snooze_row_step wake_row_step heartbeat_row_step


section \<open>The statements\<close>

lemma queue_inv_upd:
  assumes "queue_inv js gs d" and "\<And>j. P j \<Longrightarrow> job_inv j \<Longrightarrow> job_inv (f j)" and "\<And>j. ID (f j) = ID j"
  shows "queue_inv js gs (d\<lparr>jobs := upd_where P f (jobs d)\<rparr>)"
  using assms by (auto simp: queue_inv_def map_upd_where set_upd_where)

lemma queue_inv_del: "queue_inv js gs d \<Longrightarrow> queue_inv js gs (d\<lparr>jobs := del_where P (jobs d)\<rparr>)"
  by (auto simp: queue_inv_def distinct_map_del_where)

lemma queue_inv_update_jobs:
  assumes "\<And>n j. P n j \<Longrightarrow> job_inv j \<Longrightarrow> job_inv (f n j)" and "\<And>n j. ID (f n j) = ID j"
  shows "qi.stable (on_db (\<lambda>n. update_jobs (P n) (f n)))"
    and "qi.stable (on_db (\<lambda>n. update_jobs_notify (P n) (f n)))"
  using assms
  by (auto intro!: qi.stable_on_db simp: update_jobs_def update_jobs_notify_def
      queue_inv_upd qi.outbox_irrelevant)

lemma follows_life_update_jobs:
  assumes "\<And>n j. P n j \<Longrightarrow> row_step j (f n j)"
  shows "follows_life (on_db (\<lambda>n. update_jobs (P n) (f n)))"
    and "follows_life (on_db (\<lambda>n. update_jobs_notify (P n) (f n)))"
  using assms
  by (auto intro!: follows_life_on_db simp: update_jobs_def update_jobs_notify_def set_upd_where)
     (meson row_step_refl)+

lemma follows_life_delete_jobs: "follows_life (on_db (\<lambda>n. delete_jobs (P n)))"
  by (rule follows_life_on_db) (auto simp: delete_jobs_def intro: row_step_refl)

lemma snooze_rows_eq: "snooze_rows mine until n d =
  (fst (update_jobs (holds_claim mine) (snooze_row until n) d),
   (snd (update_jobs (holds_claim mine) (snooze_row until n) d))\<lparr>outbox := outbox d @ (if max until n \<le> n
          then map (notify_payload \<circ> QueueName) (filter (holds_claim mine) (jobs d)) else [])\<rparr>)"
  by (simp add: snooze_rows_def update_jobs_def)

lemma purge_rows_del: "\<exists>P. purge_rows p n d = delete_jobs P d"
  by (auto simp: purge_rows_def Let_def)

text \<open>The selected row is eligible and lies in the table.\<close>

lemma next_job_SomeD:
  assumes "next_job q n locked rows = Some j"
  shows "j \<in> set rows" "eligible q n locked j"
    "\<And>i. i \<in> set rows \<Longrightarrow> eligible q n locked i \<Longrightarrow> (AvailableAt j, ID j) \<le> (AvailableAt i, ID i)"
proof -
  let ?js = "filter (eligible q n locked) rows"
  from assms have ne: "?js \<noteq> []" and j: "j = arg_min_list (\<lambda>j. (AvailableAt j, ID j)) ?js"
    by (auto simp: next_job_def split: list.splits)
  from ne have "j \<in> set ?js" unfolding j by (rule arg_min_list_in)
  then show "j \<in> set rows" "eligible q n locked j" by simp_all
  fix i assume "i \<in> set rows" "eligible q n locked i"
  then have i: "i \<in> set ?js" by simp
  have "(AvailableAt j, ID j) = Min ((\<lambda>j. (AvailableAt j, ID j)) ` set ?js)"
    unfolding j using ne by (rule f_arg_min_list_f)
  with i show "(AvailableAt j, ID j) \<le> (AvailableAt i, ID i)" by simp
qed

lemma next_job_None: "next_job q n locked rows = None \<longleftrightarrow> (\<forall>j \<in> set rows. \<not> eligible q n locked j)"
  by (cases "filter (eligible q n locked) rows")
     (auto simp: next_job_def filter_empty_conv filter_eq_Cons_iff)

text \<open>An id names one row.\<close>

lemma queue_inv_ID_eq:
  "queue_inv js gs d \<Longrightarrow> i \<in> set (jobs d) \<Longrightarrow> j \<in> set (jobs d) \<Longrightarrow> ID i = ID j \<Longrightarrow> i = j"
  by (auto simp: queue_inv_def distinct_map inj_on_def)

lemma claim_next_stable: "qi.stable (claim_next q worker)"
proof -
  have "queue_inv (job_seq w) (signal_seq w)
      ((db w)\<lparr>jobs := upd_where (\<lambda>r. ID r = ID j) (claim_row worker (now w)) (jobs (db w))\<rparr>)"
    if inv: "queue_inv (job_seq w) (signal_seq w) (db w)"
      and j: "next_job q (now w) (row_locks w) (jobs (db w)) = Some j" for w j
  proof -
    have "upd_where (\<lambda>r. ID r = ID j) (claim_row worker (now w)) (jobs (db w))
      = upd_where (\<lambda>r. r = j) (claim_row worker (now w)) (jobs (db w))"
      using queue_inv_ID_eq [OF inv _ next_job_SomeD(1) [OF j]]
      by (auto simp: upd_where_def)
    moreover have "job_inv j \<Longrightarrow> job_inv (claim_row worker (now w) j)"
      using next_job_SomeD(2) [OF j] by (blast intro: claim_row_inv)
    ultimately show ?thesis
      using inv by (auto intro!: queue_inv_upd)
  qed
  then show ?thesis
    by (auto simp: qi.stable_def claim_next_def Let_def split: option.splits)
qed

lemma insert_job_stable: "q \<noteq> [] \<Longrightarrow> 0 < m \<Longrightarrow> qi.stable (insert_job q p m avail tr)"
  by (auto simp: qi.stable_def insert_job_def Let_def queue_inv_def new_job_inv)
     (auto simp: new_job_def)

lemma claim_next_follows: "follows_life (claim_next q worker)"
proof -
  have "\<exists>r \<in> set (jobs (db w)). row_step r r'"
    if inv: "queue_inv (job_seq w) (signal_seq w) (db w)"
      and j: "next_job q (now w) (row_locks w) (jobs (db w)) = Some j"
      and r': "r' \<in> set (upd_where (\<lambda>r. ID r = ID j) (claim_row worker (now w)) (jobs (db w)))" for w j r'
  proof -
    from r' consider "r' \<in> set (jobs (db w))"
      | r where "r \<in> set (jobs (db w))" "ID r = ID j" "r' = claim_row worker (now w) r"
      by (auto simp: set_upd_where)
    then show ?thesis
    proof cases
      case 1
      then show ?thesis by (blast intro: row_step_refl)
    next
      case 2
      with queue_inv_ID_eq [OF inv _ next_job_SomeD(1) [OF j]] have "r = j" by blast
      with 2 claim_row_step [OF next_job_SomeD(2) [OF j]] show ?thesis by blast
    qed
  qed
  then have "table_step w (snd (claim_next q worker w))"
    if "queue_inv (job_seq w) (signal_seq w) (db w)" for w
    using that by (auto simp: claim_next_def split: option.splits intro!: table_step_kept)
  then show ?thesis by (simp add: follows_life_def)
qed

lemma insert_job_follows: "follows_life (insert_job q p m avail tr)"
proof -
  have "life (new_job i n q p m avail tr) = (StatusPending, 0, 0)" "ID (new_job i n q p m avail tr) = i"
    for i n by (simp_all add: new_job_def life_def)
  then show ?thesis
    by (auto simp: follows_life_def table_step_def insert_job_def intro: row_step_refl)
qed

section \<open>Invariants of the job table\<close>

text \<open>
  The contract a table invariant meets to survive every queue operation: each statement of
  \<open>queue.go\<close> and \<open>park.go\<close> keeps it. The operations then keep it under any failures.
\<close>

locale jobs_invariant = db_invariant I for I :: "int \<Rightarrow> int \<Rightarrow> database \<Rightarrow> bool" +
  assumes insert_ok: "q \<noteq> [] \<Longrightarrow> 0 < m \<Longrightarrow> stable (insert_job q p m avail tr)"
    and claim_ok: "stable (claim_next q worker)"
    and ack_ok: "stable (on_db (\<lambda>n. update_jobs (is_processing i) (ack_row n)))"
    and retry_ok: "stable (on_db (\<lambda>n. update_jobs (is_processing i) (retry_row delay n msg)))"
    and fail_ok: "stable (on_db (\<lambda>n. update_jobs (is_processing i) (fail_row n msg)))"
    and requeue_ok: "stable (on_db (reap_requeue rp))"
    and reap_fail_ok: "stable (on_db (reap_fail rp))"
    and replay_ok: "stable (on_db (\<lambda>n. update_jobs_notify
       (\<lambda>j. ID j = i \<and> (Status j = StatusDone \<or> Status j = StatusFailed)) (replay_row n)))"
    and snooze_ok: "stable (on_db (snooze_rows mine until))"
    and wake_ok: "stable (on_db (wake_rows i))"
    and heartbeat_ok: "stable (on_db (\<lambda>n. update_jobs (holds_claim mine) (heartbeat_row n)))"
    and delete_ok: "stable (on_db (\<lambda>n. delete_jobs (P n)))"
    and purge_ok: "stable (on_db (purge_rows pp))"
begin

lemma stable_read: "(\<And>w. snd (st w) = w) \<Longrightarrow> stable st"
  by (simp add: stable_def Let_def)

lemma select_ok: "stable (select_job i)" "stable (select_claim mine)"
  by (auto intro!: stable_read simp: select_job_def select_claim_def)

lemma keeps_get: "keeps (holds I) State_Monad.get"
  by (rule hoareI) simp

lemmas statement_ok = insert_ok claim_ok ack_ok retry_ok fail_ok requeue_ok reap_fail_ok replay_ok
  snooze_ok wake_ok heartbeat_ok delete_ok purge_ok select_ok

lemma keeps_enqueueCore: "keeps (holds I) (enqueueCore x p)"
  unfolding enqueueCore_def by (intro hoare_rules statement_ok) (auto simp: defaultMaxAttempts_def)

lemma keeps_Claim: "keeps (holds I) (Claim c x q worker)"
  unfolding Claim_def by (intro hoare_rules statement_ok keeps_get)

lemma keeps_ackCore: "keeps (holds I) (ackCore i)"
  unfolding ackCore_def by (intro hoare_rules statement_ok)

lemma keeps_retryCore: "keeps (holds I) (retryCore i delay cause)"
  unfolding retryCore_def by (intro hoare_rules statement_ok)

lemma keeps_failCore: "keeps (holds I) (failCore i cause)"
  unfolding failCore_def by (intro hoare_rules statement_ok)

lemma keeps_Enqueue: "keeps (holds I) (Enqueue c x p)" "keeps (holds I) (EnqueueTx c x tx p)"
  unfolding Enqueue_def EnqueueTx_def by (intro hoare_rules keeps_enqueueCore; simp)+

lemma keeps_Ack: "keeps (holds I) (Ack c i)" "keeps (holds I) (AckTx c tx i)"
  unfolding Ack_def AckTx_def by (intro hoare_rules keeps_ackCore; simp)+

lemma keeps_Retry: "keeps (holds I) (Retry c i delay cause)" "keeps (holds I) (RetryTx c tx i delay cause)"
  unfolding Retry_def RetryTx_def by (intro hoare_rules keeps_retryCore; simp)+

lemma keeps_Fail: "keeps (holds I) (FailJob c i cause)" "keeps (holds I) (FailTx c tx i cause)"
  unfolding FailJob_def FailTx_def by (intro hoare_rules keeps_failCore; simp)+

lemma keeps_Reap: "keeps (holds I) (Reap c rp)" "keeps (holds I) (ReapStuckJobs c v)"
  unfolding ReapStuckJobs_def Reap_def by (intro hoare_rules statement_ok; simp)+

lemma keeps_GetJob: "keeps (holds I) (GetJob c i)"
  unfolding GetJob_def by (intro hoare_rules statement_ok)

lemma keeps_Replay: "keeps (holds I) (ReplayJobTx c i)" "keeps (holds I) (ReplayJob c i)"
  unfolding ReplayJob_def ReplayJobTx_def by (intro hoare_rules statement_ok; simp)+

lemma keeps_DeleteJob: "keeps (holds I) (DeleteJob c i)"
  unfolding DeleteJob_def by (intro hoare_rules statement_ok)

lemma keeps_Purge: "keeps (holds I) (Purge c pp)"
  unfolding Purge_def by (intro hoare_rules statement_ok)

lemma keeps_Snooze: "keeps (holds I) (SnoozeTx c tx mine until)"
  unfolding SnoozeTx_def by (intro hoare_rules statement_ok)

lemma keeps_Wake: "keeps (holds I) (WakeTx c tx i)"
  unfolding WakeTx_def by (intro hoare_rules statement_ok)

lemma keeps_LockClaim: "keeps (holds I) (LockClaimTx c tx mine)"
  unfolding LockClaimTx_def by (intro hoare_rules statement_ok)

lemma keeps_Heartbeat: "keeps (holds I) (Heartbeat c mine)"
  unfolding Heartbeat_def by (intro hoare_rules statement_ok)

lemmas operations_keep = keeps_Enqueue keeps_Claim keeps_Ack keeps_Retry keeps_Fail keeps_Reap
  keeps_GetJob keeps_Replay keeps_DeleteJob keeps_Purge keeps_Snooze keeps_Wake keeps_LockClaim
  keeps_Heartbeat keeps_begin keeps_commit

end

lemma snooze_stable: "qi.stable (on_db (snooze_rows mine until))"
  by (rule qi.stable_on_db)
     (auto simp: snooze_rows_def holds_claim_def qi.outbox_irrelevant intro!: queue_inv_upd snooze_row_inv)

lemma delete_stable: "qi.stable (on_db (\<lambda>n. delete_jobs (P n)))"
  by (rule qi.stable_on_db) (simp add: delete_jobs_def queue_inv_del)

lemma purge_stable: "qi.stable (on_db (purge_rows pp))"
proof (rule qi.stable_on_db)
  fix n j g d
  assume "queue_inv j g d"
  moreover obtain P where "purge_rows pp n d = delete_jobs P d" using purge_rows_del by blast
  ultimately show "queue_inv j g (snd (purge_rows pp n d))"
    by (simp add: delete_jobs_def queue_inv_del)
qed

interpretation qj: jobs_invariant queue_inv
proof unfold_locales
  show "qi.stable (on_db (reap_requeue rp))" for rp
    unfolding reap_requeue_def
    by (rule queue_inv_update_jobs) (auto simp: stuck_def intro: requeue_row_inv)
  show "qi.stable (on_db (reap_fail rp))" for rp
    unfolding reap_fail_def
    by (rule queue_inv_update_jobs) (auto simp: stuck_def intro: reap_fail_row_inv)
  show "qi.stable (on_db (wake_rows i))" for i
    unfolding wake_rows_def by (rule queue_inv_update_jobs) (auto intro: wake_row_inv)
qed (rule queue_inv_update_jobs insert_job_stable claim_next_stable snooze_stable delete_stable
      purge_stable; (simp add: is_processing_def holds_claim_def row_invs)?)+

lemma snooze_follows: "follows_life (on_db (snooze_rows mine until))"
  by (rule follows_life_on_db)
     (auto simp: snooze_rows_def set_upd_where holds_claim_def intro: row_step_refl snooze_row_step)

lemma purge_follows: "follows_life (on_db (purge_rows pp))"
proof (rule follows_life_on_db)
  fix n d j'
  assume "j' \<in> set (jobs (snd (purge_rows pp n d)))"
  moreover obtain P where "purge_rows pp n d = delete_jobs P d" using purge_rows_del by blast
  ultimately show "\<exists>j \<in> set (jobs d). row_step j j'"
    by (auto simp: delete_jobs_def intro: row_step_refl)
qed

lemma update_follows:
  "follows_life (on_db (\<lambda>n. update_jobs (is_processing i) (ack_row n)))"
  "follows_life (on_db (\<lambda>n. update_jobs (is_processing i) (retry_row delay n msg)))"
  "follows_life (on_db (\<lambda>n. update_jobs (is_processing i) (fail_row n msg)))"
  "follows_life (on_db (\<lambda>n. update_jobs (holds_claim mine) (heartbeat_row n)))"
  "follows_life (on_db (reap_requeue rp))"
  "follows_life (on_db (reap_fail rp))"
  "follows_life (on_db (wake_rows i))"
  "follows_life (on_db (\<lambda>n. update_jobs_notify
     (\<lambda>j. ID j = i \<and> (Status j = StatusDone \<or> Status j = StatusFailed)) (replay_row n)))"
  unfolding reap_requeue_def reap_fail_def wake_rows_def
  by (rule follows_life_update_jobs; simp add: is_processing_def holds_claim_def stuck_def row_steps)+

lemmas statements_follow = update_follows insert_job_follows claim_next_follows snooze_follows
  follows_life_delete_jobs purge_follows

section \<open>Invariants of the life cycle\<close>

text \<open>
  The weaker contract: a property that the abstract life cycle keeps. It is enough for
  \<open>jobs_invariant\<close>, because every statement follows the life cycle.
\<close>

locale life_invariant = db_invariant I for I :: "int \<Rightarrow> int \<Rightarrow> database \<Rightarrow> bool" +
  assumes has_queue_inv: "I j g d \<Longrightarrow> queue_inv j g d"
    and life_kept: "table_step w w' \<Longrightarrow> queue_inv (job_seq w') (signal_seq w') (db w') \<Longrightarrow>
       I (job_seq w) (signal_seq w) (db w) \<Longrightarrow> I (job_seq w') (signal_seq w') (db w')"
begin

lemma stable_life: "follows_life st \<Longrightarrow> qi.stable st \<Longrightarrow> stable st"
  unfolding stable_def qi.stable_def follows_life_def Let_def
  by (blast intro: life_kept has_queue_inv)

end

sublocale life_invariant \<subseteq> jobs_invariant
  by unfold_locales
    (rule stable_life, rule statements_follow, (rule qj.statement_ok; assumption?))+

section \<open>The claim fence\<close>

text \<open>The claim numbered \<open>k\<close> of job \<open>i\<close> is over.\<close>

definition claim_lost :: "int \<Rightarrow> int \<Rightarrow> int \<Rightarrow> int \<Rightarrow> database \<Rightarrow> bool" where
  "claim_lost i k js gs d \<longleftrightarrow> queue_inv js gs d \<and> i < js
     \<and> (\<forall>j \<in> set (jobs d). ID j = i \<longrightarrow>
          k < Claims j \<or> (Claims j = k \<and> Status j \<noteq> StatusProcessing))"

lemma life_step_lost:
  assumes "life_step m (s, a, c) (s', a', c')"
    and "k < c \<or> (c = k \<and> s \<noteq> StatusProcessing)"
  shows "k < c' \<or> (c' = k \<and> s' \<noteq> StatusProcessing)"
  using assms by cases auto

lemma row_step_lost:
  assumes "row_step j j'" and "k < Claims j \<or> (Claims j = k \<and> Status j \<noteq> StatusProcessing)"
  shows "k < Claims j' \<or> (Claims j' = k \<and> Status j' \<noteq> StatusProcessing)"
proof -
  from assms(1) have "life_step (MaxAttempts j) (Status j, Attempts j, Claims j)
      (Status j', Attempts j', Claims j')" by (simp add: row_step_def life_def)
  then show ?thesis using assms(2) by (rule life_step_lost)
qed

interpretation fence: life_invariant "claim_lost i k" for i k
proof unfold_locales
  fix w w'
  assume step: "table_step w w'" and inv: "queue_inv (job_seq w') (signal_seq w') (db w')"
    and lost: "claim_lost i k (job_seq w) (signal_seq w) (db w)"
  have "k < Claims j' \<or> (Claims j' = k \<and> Status j' \<noteq> StatusProcessing)"
    if "j' \<in> set (jobs (db w'))" "ID j' = i" for j'
  proof -
    from step that lost obtain j where "j \<in> set (jobs (db w))" "row_step j j'"
      by (auto simp: table_step_def claim_lost_def)
    with lost that show ?thesis
      by (intro row_step_lost [of j j']) (auto simp: claim_lost_def row_step_def)
  qed
  moreover have "i < job_seq w'" using step lost by (auto simp: table_step_def claim_lost_def)
  ultimately show "claim_lost i k (job_seq w') (signal_seq w') (db w')"
    using inv by (auto simp: claim_lost_def)
qed (auto simp: claim_lost_def queue_inv_def)

text \<open>The claims of job \<open>i\<close> have reached number \<open>k\<close>.\<close>

definition claims_reached :: "int \<Rightarrow> int \<Rightarrow> int \<Rightarrow> int \<Rightarrow> database \<Rightarrow> bool" where
  "claims_reached i k js gs d \<longleftrightarrow> queue_inv js gs d \<and> i < js
     \<and> (\<forall>j \<in> set (jobs d). ID j = i \<longrightarrow> k \<le> Claims j)"

lemma life_step_claims: "life_step m (s, a, c) (s', a', c') \<Longrightarrow> c \<le> c'"
  by (cases rule: life_step.cases) auto

lemma row_step_claims: "row_step j j' \<Longrightarrow> Claims j \<le> Claims j'"
  by (auto simp: row_step_def life_def dest: life_step_claims)

interpretation reached: life_invariant "claims_reached i k" for i k
proof unfold_locales
  fix w w'
  assume step: "table_step w w'" and inv: "queue_inv (job_seq w') (signal_seq w') (db w')"
    and r: "claims_reached i k (job_seq w) (signal_seq w) (db w)"
  have "k \<le> Claims j'" if "j' \<in> set (jobs (db w'))" "ID j' = i" for j'
  proof -
    from step that r obtain j where "j \<in> set (jobs (db w))" "row_step j j'"
      by (auto simp: table_step_def claims_reached_def)
    with r that row_step_claims [of j j'] show ?thesis
      by (fastforce simp: claims_reached_def row_step_def)
  qed
  moreover have "i < job_seq w'" using step r by (auto simp: table_step_def claims_reached_def)
  ultimately show "claims_reached i k (job_seq w') (signal_seq w') (db w')"
    using inv by (auto simp: claims_reached_def)
qed (auto simp: claims_reached_def queue_inv_def)

section \<open>Runs of the queue\<close>

text \<open>
  One call on the queue by any client, or a step of the environment: time passes, the network
  behaves differently, other transactions lock other rows. The operations on a \<open>*sql.Tx\<close> run
  inside the open transaction, the others only when none is open.
\<close>

datatype queue_call =
    DoEnqueue "client option" ctx enqueue_params
  | DoClaim "client option" ctx string string
  | DoAck "client option" int
  | DoRetry "client option" int int "err option"
  | DoFail "client option" int "err option"
  | DoReap "client option" reap_params
  | DoReplay "client option" int
  | DoDelete "client option" int
  | DoPurge "client option" purge_params
  | DoHeartbeat "client option" job
  | DoBegin
  | DoEnqueueTx "client option" ctx enqueue_params
  | DoAckTx "client option" int
  | DoRetryTx "client option" int int "err option"
  | DoFailTx "client option" int "err option"
  | DoReplayTx "client option" int
  | DoSnoozeTx "client option" job "int option"
  | DoWakeTx "client option" int
  | DoLockClaimTx "client option" job
  | DoCommit
  | DoRollback
  | Environment nat "(nat \<times> outcome) list" "int list"

fun in_tx :: "queue_call \<Rightarrow> bool" where
  "in_tx (DoEnqueueTx c x p) = True"
| "in_tx (DoAckTx c i) = True"
| "in_tx (DoRetryTx c i delay cause) = True"
| "in_tx (DoFailTx c i cause) = True"
| "in_tx (DoReplayTx c i) = True"
| "in_tx (DoSnoozeTx c mine until) = True"
| "in_tx (DoWakeTx c i) = True"
| "in_tx (DoLockClaimTx c mine) = True"
| "in_tx DoCommit = True"
| "in_tx DoRollback = True"
| "in_tx _ = False"

fun call_io :: "queue_call \<Rightarrow> unit io" where
  "call_io (DoEnqueue c x p) = do { Enqueue c x p; State_Monad.return () }"
| "call_io (DoClaim c x q worker) = do { Claim c x q worker; State_Monad.return () }"
| "call_io (DoAck c i) = do { Ack c i; State_Monad.return () }"
| "call_io (DoRetry c i delay cause) = do { Retry c i delay cause; State_Monad.return () }"
| "call_io (DoFail c i cause) = do { FailJob c i cause; State_Monad.return () }"
| "call_io (DoReap c p) = do { Reap c p; State_Monad.return () }"
| "call_io (DoReplay c i) = do { ReplayJob c i; State_Monad.return () }"
| "call_io (DoDelete c i) = do { DeleteJob c i; State_Monad.return () }"
| "call_io (DoPurge c p) = do { Purge c p; State_Monad.return () }"
| "call_io (DoHeartbeat c mine) = do { Heartbeat c mine; State_Monad.return () }"
| "call_io DoBegin = do { begin_tx; State_Monad.return () }"
| "call_io (DoEnqueueTx c x p) = do { EnqueueTx c x True p; State_Monad.return () }"
| "call_io (DoAckTx c i) = do { AckTx c True i; State_Monad.return () }"
| "call_io (DoRetryTx c i delay cause) = do { RetryTx c True i delay cause; State_Monad.return () }"
| "call_io (DoFailTx c i cause) = do { FailTx c True i cause; State_Monad.return () }"
| "call_io (DoReplayTx c i) = do { ReplayJobTx c i; State_Monad.return () }"
| "call_io (DoSnoozeTx c mine until) = do { SnoozeTx c True mine until; State_Monad.return () }"
| "call_io (DoWakeTx c i) = do { WakeTx c True i; State_Monad.return () }"
| "call_io (DoLockClaimTx c mine) = do { LockClaimTx c True mine; State_Monad.return () }"
| "call_io DoCommit = do { commit_tx; State_Monad.return () }"
| "call_io DoRollback = State_Monad.update restore"
| "call_io (Environment dt sc locks) =
     State_Monad.update (\<lambda>w. w\<lparr>clock := clock w + int dt, script := sc, row_locks := locks\<rparr>)"

fun is_environment :: "queue_call \<Rightarrow> bool" where
  "is_environment (Environment dt sc locks) = True"
| "is_environment _ = False"

definition perform :: "queue_call \<Rightarrow> world \<Rightarrow> world" where
  "perform k w = (if is_environment k \<or> in_tx k = (snapshot w \<noteq> None)
     then snd (run_state (call_io k) w) else w)"

text \<open>The database after \<open>EnsureSchema\<close> on an empty one.\<close>

definition empty_database :: database where
  "empty_database = \<lparr>jobs = [], runs = [], steps = [], signals = [], schedules = [], outbox = []\<rparr>"

definition initial_world :: world where
  "initial_world = \<lparr>db = empty_database, snapshot = None, tx_start = 0, tx_aborted = False, clock = 0,
     script = [], job_seq = 1, signal_seq = 1, row_locks = [], advisory = [], delivered = [], events = [], logs = [],
     catalog = \<lparr>ct_tables = [], ct_indexes = [], ct_versions = []\<rparr>\<rparr>"

inductive reachable :: "world \<Rightarrow> bool" where
  reachable_initial: "reachable initial_world"
| reachable_step: "reachable w \<Longrightarrow> reachable (perform k w)"

context jobs_invariant
begin

lemma keeps_update:
  "(\<And>w. db (f w) = db w \<and> snapshot (f w) = snapshot w \<and> job_seq (f w) = job_seq w
        \<and> signal_seq (f w) = signal_seq w) \<Longrightarrow> keeps (holds I) (State_Monad.update f)"
  by (rule hoareI) (auto simp: State_Monad.update_def holds_def)

lemma keeps_rollback: "keeps (holds I) (State_Monad.update restore)"
  by (rule hoareI) (auto simp: State_Monad.update_def holds_restore)

lemma keeps_call: "keeps (holds I) (call_io k)"
  by (cases k) (auto intro!: hoare_rules operations_keep keeps_rollback keeps_update)

lemma perform_keeps: "holds I w \<Longrightarrow> holds I (perform k w)"
  unfolding perform_def by (auto intro: keeps_run [OF keeps_call])

lemma performs_keep: "holds I w \<Longrightarrow> holds I (fold perform ks w)"
  by (induction ks arbitrary: w) (auto intro: perform_keeps)

end

lemma reachable_inv: "reachable w \<Longrightarrow> holds queue_inv w"
proof (induction rule: reachable.induct)
  case reachable_initial
  show ?case
    by (simp add: holds_def queue_inv_def initial_world_def empty_database_def)
next
  case (reachable_step w k)
  then show ?case by (blast intro: qj.perform_keeps)
qed

end
