(* ===== verification/Queue_Properties.thy ===== *)
theory Queue_Properties
  imports Queue_Invariants
begin

text \<open>
  What the operations of the queue client do, branch by branch, from any state and under any
  pattern of failures: the contract of the row updates (ack, retry, fail, replay, heartbeat),
  the claim, the reaper, deletion and purge, and the round trip from enqueue to claim.
\<close>

section \<open>One statement\<close>

lemma query_Inr:
  assumes "run_state (query st) w = (Inr a, w')"
  obtains w1 w2 where "round_trip w = (Succeeds, w1)" "\<not> tx_aborted w1" "st w1 = (a, w2)"
    "w' = end_statement w2"
  using assms by (auto simp: run_simps split: prod.splits outcome.splits if_splits)

lemma query_Inl:
  assumes "run_state (query st) w = (Inl e, w')"
  obtains (no_effect) "db w' = db w" "events w' = events w" "\<not> errors_is e ErrJobNotFound"
      "\<not> errors_is e SqlErrNoRows"
  | (lost_reply) w1 oc where "round_trip w = (oc, w1)" "snapshot w = None"
      "w' = end_statement (snd (st w1))" "\<not> errors_is e ErrJobNotFound" "\<not> errors_is e SqlErrNoRows"
proof -
  obtain oc w1 where rt: "round_trip w = (oc, w1)" by (cases "round_trip w")
  note f = round_trip_frame [OF rt]
  show thesis
  proof (cases oc)
    case Succeeds
    with assms rt f show thesis
      by (intro no_effect) (auto simp: run_simps split: prod.splits if_splits)
  next
    case (FailsBefore x)
    with assms rt f show thesis
      by (intro no_effect) (auto simp: run_simps split: if_splits)
  next
    case (FailsAfter x)
    show thesis
    proof (cases "snapshot w = None")
      case True
      with assms rt f FailsAfter show thesis
        by (intro lost_reply [OF rt]) (auto simp: run_simps)
    next
      case False
      with assms rt f FailsAfter show thesis
        by (intro no_effect) (auto simp: run_simps)
    qed
  qed
qed

lemma now_end_statement [simp]: "now (end_statement w) = now w"
  by (simp add: now_def split: option.split)

lemma now_fields [simp]:
  "now (w\<lparr>db := d\<rparr>) = now w" "now (w\<lparr>events := ev\<rparr>) = now w" "now (w\<lparr>logs := l\<rparr>) = now w"
  by (simp_all add: now_def split: option.split)

section \<open>Row updates\<close>

text \<open>
  The contract of an operation that updates the rows satisfying \<open>P\<close> by \<open>f now\<close> and reports
  \<open>ErrJobNotFound\<close> when there is none: on success some row satisfied \<open>P\<close>, exactly those rows
  changed and the hooks saw \<open>ev\<close>; on \<open>ErrJobNotFound\<close> no row satisfied it and no row changed; on
  any other error no hook ran, and the rows are as before, or, outside a transaction only, updated
  although the reply was lost.
\<close>

definition updates_rows ::
  "unit result io \<Rightarrow> (job \<Rightarrow> bool) \<Rightarrow> (int \<Rightarrow> job \<Rightarrow> job) \<Rightarrow> event list \<Rightarrow> bool" where
  "updates_rows m P f ev \<longleftrightarrow> (\<forall>w r w'. run_state m w = (r, w') \<longrightarrow>
     (case r of
        Inr _ \<Rightarrow> (\<exists>j \<in> set (jobs (db w)). P j)
          \<and> jobs (db w') = upd_where P (f (now w')) (jobs (db w)) \<and> events w' = events w @ ev
      | Inl e \<Rightarrow> events w' = events w
          \<and> (if errors_is e ErrJobNotFound
             then (\<forall>j \<in> set (jobs (db w)). \<not> P j) \<and> jobs (db w') = jobs (db w)
             else jobs (db w') = jobs (db w)
               \<or> snapshot w = None \<and> jobs (db w') = upd_where P (f (now w')) (jobs (db w)))))"

lemma update_call:
  assumes st: "\<And>w. fst (st w) = count_where P (jobs (db w))"
      "\<And>w. jobs (db (snd (st w))) = upd_where P (f (now w)) (jobs (db w))"
      "\<And>w. events (snd (st w)) = events w" "\<And>w. now (snd (st w)) = now w"
    and h: "\<And>e. h e = Inl (wrap pre e)" and nf: "errors_is nf ErrJobNotFound"
    and k: "\<And>n u. n \<noteq> 0 \<Longrightarrow> fst (run_state (k n) u) = Inr () \<and> db (snd (run_state (k n) u)) = db u
        \<and> events (snd (run_state (k n) u)) = events u @ ev \<and> now (snd (run_state (k n) u)) = now u"
      "\<And>u. run_state (k 0) u = (Inl nf, u)"
  shows "updates_rows (attempt (query st) h k) P f ev"
  unfolding updates_rows_def
proof (intro allI impI)
  fix w r w'
  assume run: "run_state (attempt (query st) h k) w = (r, w')"
  obtain q w2 where q: "run_state (query st) w = (q, w2)" by (cases "run_state (query st) w")
  show "case r of
        Inr _ \<Rightarrow> (\<exists>j \<in> set (jobs (db w)). P j)
          \<and> jobs (db w') = upd_where P (f (now w')) (jobs (db w)) \<and> events w' = events w @ ev
      | Inl e \<Rightarrow> events w' = events w
          \<and> (if errors_is e ErrJobNotFound
             then (\<forall>j \<in> set (jobs (db w)). \<not> P j) \<and> jobs (db w') = jobs (db w)
             else jobs (db w') = jobs (db w)
               \<or> snapshot w = None \<and> jobs (db w') = upd_where P (f (now w')) (jobs (db w)))"
  proof (cases q)
    case (Inl e)
    with run q h have r: "r = Inl (wrap pre e)" "w' = w2" by (simp_all add: run_attempt)
    from q [unfolded Inl] show ?thesis
    proof (cases rule: query_Inl)
      case no_effect
      with r show ?thesis by simp
    next
      case (lost_reply w1 oc)
      with r st round_trip_frame [OF lost_reply(1)] show ?thesis by simp
    qed
  next
    case (Inr n)
    from q [unfolded Inr] obtain w1 w3 where w1: "round_trip w = (Succeeds, w1)" "st w1 = (n, w3)"
      "w2 = end_statement w3" by (rule query_Inr)
    note f = round_trip_frame [OF w1(1)]
    have n: "n = count_where P (jobs (db w))" and w2: "jobs (db w2) = upd_where P (f (now w2)) (jobs (db w))"
      "events w2 = events w"
      using st [of w1] w1 f by simp_all
    show ?thesis
    proof (cases "n = 0")
      case True
      with run q Inr k(2) nf have "r = Inl nf" "w' = w2" by (simp_all add: run_attempt)
      with True n w2 nf show ?thesis by (auto simp: count_where_0 upd_where_none)
    next
      case False
      with run q Inr k(1) [of n w2] have "r = Inr ()" "jobs (db w') = jobs (db w2)"
        "events w' = events w2 @ ev" "now w' = now w2"
        by (simp_all add: run_attempt)
      with False n w2 show ?thesis by (auto simp: count_where_0)
    qed
  qed
qed

lemma on_db_update_jobs:
  "fst (on_db (\<lambda>n. update_jobs P (f n)) w) = count_where P (jobs (db w))"
  "jobs (db (snd (on_db (\<lambda>n. update_jobs P (f n)) w))) = upd_where P (f (now w)) (jobs (db w))"
  "events (snd (on_db (\<lambda>n. update_jobs P (f n)) w)) = events w"
  "now (snd (on_db (\<lambda>n. update_jobs P (f n)) w)) = now w"
  "fst (on_db (\<lambda>n. update_jobs_notify P (f n)) w) = count_where P (jobs (db w))"
  "jobs (db (snd (on_db (\<lambda>n. update_jobs_notify P (f n)) w))) = upd_where P (f (now w)) (jobs (db w))"
  "events (snd (on_db (\<lambda>n. update_jobs_notify P (f n)) w)) = events w"
  "now (snd (on_db (\<lambda>n. update_jobs_notify P (f n)) w)) = now w"
  "fst (on_db (snooze_rows mine until) w) = count_where (holds_claim mine) (jobs (db w))"
  "jobs (db (snd (on_db (snooze_rows mine until) w)))
     = upd_where (holds_claim mine) (snooze_row until (now w)) (jobs (db w))"
  "events (snd (on_db (snooze_rows mine until) w)) = events w"
  "now (snd (on_db (snooze_rows mine until) w)) = now w"
  by (simp_all add: on_db_def update_jobs_def update_jobs_notify_def snooze_rows_def)

lemma ackCore_updates: "updates_rows (ackCore i) (is_processing i) ack_row [EventAck i]"
  unfolding ackCore_def by (rule update_call) (auto simp: on_db_update_jobs run_simps)

lemma retryCore_updates:
  "updates_rows (retryCore i delay cause) (is_processing i)
     (\<lambda>n. retry_row delay n (map_option err_text cause)) [EventRetry i]"
  unfolding retryCore_def by (rule update_call) (auto simp: on_db_update_jobs run_simps)

lemma failCore_updates:
  "updates_rows (failCore i cause) (is_processing i)
     (\<lambda>n. fail_row n (map_option err_text cause)) [EventFail i]"
  unfolding failCore_def by (rule update_call) (auto simp: on_db_update_jobs run_simps)

lemma replay_updates:
  "has_db c \<Longrightarrow> updates_rows (ReplayJob (Some c) i)
     (\<lambda>j. ID j = i \<and> (Status j = StatusDone \<or> Status j = StatusFailed)) replay_row [EventReplay i]"
  unfolding ReplayJob_def ReplayJobTx_def nil_db_def option.case
  by (simp, rule update_call) (auto simp: on_db_update_jobs run_simps)

lemma snooze_updates:
  "has_db c \<Longrightarrow> updates_rows (SnoozeTx (Some c) True mine until) (holds_claim mine)
     (snooze_row (case until of None \<Rightarrow> ParkedUntil | Some t \<Rightarrow> t)) [EventSnooze (ID mine)]"
  unfolding SnoozeTx_def nil_db_def option.case
  by (simp, rule update_call) (auto simp: on_db_update_jobs run_simps)

lemma heartbeat_updates:
  "has_db c \<Longrightarrow> updates_rows (Heartbeat (Some c) mine) (holds_claim mine) heartbeat_row []"
  unfolding Heartbeat_def nil_db_def option.case
  by (simp, rule update_call) (auto simp: on_db_update_jobs run_simps)


section \<open>Claims\<close>

text \<open>What a claim selects, and the jobs table after it.\<close>

definition claimed :: "string \<Rightarrow> string \<Rightarrow> int \<Rightarrow> int list \<Rightarrow> job list \<Rightarrow> job \<Rightarrow> job list \<Rightarrow> bool" where
  "claimed q worker n locked rows mine rows' \<longleftrightarrow>
     (\<exists>j \<in> set rows. eligible q n locked j \<and> mine = claim_row worker n j
       \<and> (\<forall>i \<in> set rows. eligible q n locked i \<longrightarrow> (AvailableAt j, ID j) \<le> (AvailableAt i, ID i))
       \<and> rows' = upd_where (\<lambda>r. ID r = ID j) (claim_row worker n) rows)"

lemma claim_next_cases:
  assumes "claim_next q worker w = (r, w')"
  obtains "r = None" "w' = w" "\<forall>j \<in> set (jobs (db w)). \<not> eligible q (now w) (row_locks w) j"
  | mine where "r = Some mine"
    "claimed q worker (now w) (row_locks w) (jobs (db w)) mine (jobs (db w'))"
    "w' = w\<lparr>db := (db w)\<lparr>jobs := jobs (db w')\<rparr>\<rparr>"
proof (cases "next_job q (now w) (row_locks w) (jobs (db w))")
  case None
  with assms that(1) show thesis by (auto simp: claim_next_def next_job_None)
next
  case (Some j)
  note s = next_job_SomeD [OF Some]
  from assms Some have "r = Some (claim_row worker (now w) j)"
    "w' = w\<lparr>db := (db w)\<lparr>jobs := upd_where (\<lambda>r. ID r = ID j) (claim_row worker (now w)) (jobs (db w))\<rparr>\<rparr>"
    by (auto simp: claim_next_def)
  with s show thesis by (intro that(2)) (auto simp: claimed_def)
qed

text \<open>Opening and committing a transaction.\<close>

lemma begin_cases:
  assumes "run_state begin_tx w = (r, w1)" "snapshot w = None"
  obtains (opened) "r = Inr ()" "snapshot w1 = Some (db w)" "db w1 = db w" "\<not> tx_aborted w1"
      "events w1 = events w" "row_locks w1 = row_locks w" "clock w \<le> clock w1" "tx_start w1 = clock w1"
      "job_seq w1 = job_seq w" "signal_seq w1 = signal_seq w"
  | (refused) e where "r = Inl e" "snapshot w1 = None" "db w1 = db w" "events w1 = events w"
      "clock w \<le> clock w1" "row_locks w1 = row_locks w" "job_seq w1 = job_seq w" "signal_seq w1 = signal_seq w"
proof -
  obtain oc w0 where rt: "round_trip w = (oc, w0)" by (cases "round_trip w")
  note f = round_trip_frame [OF rt]
  show thesis
  proof (cases oc)
    case Succeeds
    with assms rt f show thesis by (intro opened) (auto simp: begin_tx_def)
  next
    case (FailsBefore x)
    with assms rt f show thesis by (intro refused) (auto simp: begin_tx_def)
  next
    case (FailsAfter x)
    with assms rt f show thesis by (intro refused) (auto simp: begin_tx_def)
  qed
qed

lemma publish_fields [simp]:
  "jobs (db (publish w)) = jobs (db w)" "snapshot (publish w) = snapshot w" "events (publish w) = events w"
  "clock (publish w) = clock w" "row_locks (publish w) = row_locks w" "job_seq (publish w) = job_seq w"
  "runs (db (publish w)) = runs (db w)" "steps (db (publish w)) = steps (db w)"
  "signals (db (publish w)) = signals (db w)" "schedules (db (publish w)) = schedules (db w)"
  "advisory (publish w) = advisory w" "signal_seq (publish w) = signal_seq w" "script (publish w) = script w" "logs (publish w) = logs w"
  by (simp_all add: publish_def)

lemma commit_cases:
  assumes "run_state commit_tx w = (r, w')" "snapshot w = Some d"
  obtains (committed) "r = Inr ()" "snapshot w' = None" "jobs (db w') = jobs (db w)"
      "events w' = events w" "clock w \<le> clock w'" "row_locks w' = row_locks w" "\<not> tx_aborted w"
  | (rolled_back) e where "r = Inl e" "snapshot w' = None" "db w' = d" "events w' = events w"
      "clock w \<le> clock w'" "row_locks w' = row_locks w"
  | (unconfirmed) e where "r = Inl e" "snapshot w' = None" "jobs (db w') = jobs (db w)"
      "events w' = events w" "clock w \<le> clock w'" "row_locks w' = row_locks w" "\<not> tx_aborted w"
proof -
  obtain oc w0 where rt: "round_trip w = (oc, w0)" by (cases "round_trip w")
  note f = round_trip_frame [OF rt]
  show thesis
  proof (cases oc)
    case Succeeds
    show thesis
    proof (cases "tx_aborted w")
      case True
      with Succeeds assms rt f show thesis
        by (intro rolled_back) (auto simp: commit_tx_def restore_def)
    next
      case False
      with Succeeds assms rt f show thesis
        by (intro committed) (auto simp: commit_tx_def)
    qed
  next
    case (FailsBefore x)
    with assms rt f show thesis by (intro rolled_back) (auto simp: commit_tx_def restore_def)
  next
    case (FailsAfter x)
    show thesis
    proof (cases "tx_aborted w")
      case True
      with FailsAfter assms rt f show thesis
        by (intro rolled_back) (auto simp: commit_tx_def restore_def)
    next
      case False
      with FailsAfter assms rt f show thesis by (intro unconfirmed) (auto simp: commit_tx_def)
    qed
  qed
qed

lemma restore_closed [simp]: "snapshot w = None \<Longrightarrow> restore w = w"
  by (simp add: restore_def)

lemma restore_fields [simp]:
  "snapshot (restore w) = None" "events (restore w) = events w" "clock (restore w) = clock w"
  "row_locks (restore w) = row_locks w" "job_seq (restore w) = job_seq w"
  "snapshot w = Some d \<Longrightarrow> db (restore w) = d"
  by (auto simp: restore_def split: option.splits)

text \<open>A query row inside a transaction: an answer, no row, or an abort that changes nothing.\<close>

lemma query_row_in_tx:
  assumes run: "run_state (query_row st) w = (r, w')" and tx: "snapshot w = Some d"
    and st: "\<And>u. snapshot (snd (st u)) = snapshot u"
  obtains (found) a w1 where "r = Inr a" "round_trip w = (Succeeds, w1)" "st w1 = (Some a, w')"
      "\<not> tx_aborted w"
  | (no_rows) w1 where "r = Inl (Sentinel SqlErrNoRows)" "round_trip w = (Succeeds, w1)"
      "st w1 = (None, w')" "\<not> tx_aborted w"
  | (aborted) e where "r = Inl e" "\<not> errors_is e SqlErrNoRows" "db w' = db w" "snapshot w' = snapshot w"
      "events w' = events w" "clock w \<le> clock w'" "row_locks w' = row_locks w"
proof -
  obtain oc w1 where rt: "round_trip w = (oc, w1)" by (cases "round_trip w")
  note f = round_trip_frame [OF rt]
  obtain a w2 where s: "st w1 = (a, w2)" by (cases "st w1")
  with st [of w1] f tx have "end_statement w2 = w2" by (simp add: end_statement_def)
  note w2 = this
  show thesis
  proof (cases "oc = Succeeds \<and> \<not> tx_aborted w1")
    case True
    show thesis
    proof (cases a)
      case None
      with True run rt f s w2 show thesis
        by (intro no_rows [of w1]) (auto simp: query_row_def run_simps)
    next
      case (Some b)
      with True run rt f s w2 show thesis
        by (intro found [of b w1]) (auto simp: query_row_def run_simps)
    qed
  next
    case False
    from run obtain g where "run_state (query st) w = (g, w')"
      and r: "r = (case g of Inl e \<Rightarrow> Inl e | Inr None \<Rightarrow> Inl (Sentinel SqlErrNoRows) | Inr (Some a) \<Rightarrow> Inr a)"
      by (auto simp: query_row_def run_simps split: prod.splits)
    with False rt f tx show thesis
      by (cases oc) (auto simp: run_simps r intro!: aborted)
  qed
qed

lemma claim_next_frame [simp]: "snapshot (snd (claim_next q worker w)) = snapshot w"
  by (simp add: claim_next_def split: option.split)

text \<open>
  The claim as one atomic action: it returns the claimed row, or nothing when no row is eligible,
  or an error; an error may hide a claim that was committed.
\<close>

lemma Claim_run:
  assumes c: "has_db c" and q: "q \<noteq> []" and idle: "snapshot w = None"
    and run: "run_state (Claim (Some c) x q worker) w = (r, w')"
  shows "snapshot w' = None \<and> clock w \<le> clock w' \<and>
    (\<exists>n. clock w \<le> n \<and> n \<le> clock w' \<and>
      (case r of
         Inr (Some mine) \<Rightarrow> claimed q worker n (row_locks w) (jobs (db w)) mine (jobs (db w'))
           \<and> events w' = events w @ [EventClaim (ID mine) q worker]
       | Inr None \<Rightarrow> (\<forall>j \<in> set (jobs (db w)). \<not> eligible q n (row_locks w) j)
           \<and> jobs (db w') = jobs (db w) \<and> events w' = events w
       | Inl _ \<Rightarrow> events w' = events w \<and> (jobs (db w') = jobs (db w)
           \<or> (\<exists>mine. claimed q worker n (row_locks w) (jobs (db w)) mine (jobs (db w'))))))"
proof -
  obtain b w1 where b: "run_state begin_tx w = (b, w1)" by (cases "run_state begin_tx w")
  from b idle show ?thesis
  proof (cases rule: begin_cases)
    case (refused e)
    with run c q b show ?thesis by (auto simp: Claim_def nil_db_def run_simps)
  next
    case opened
    obtain g w2 where g: "run_state (query_row (claim_next q worker)) w1 = (g, w2)"
      by (cases "run_state (query_row (claim_next q worker)) w1")
    obtain m w3 where m: "run_state commit_tx w2 = (m, w3)" by (cases "run_state commit_tx w2")
    from g opened(2) claim_next_frame show ?thesis
    proof (cases rule: query_row_in_tx)
      case (aborted e)
      with run c q b g opened show ?thesis by (auto simp: Claim_def nil_db_def run_simps)
    next
      case (no_rows v)
      note f = round_trip_frame [OF no_rows(2)]
      from no_rows(3) have w2: "w2 = v" "\<forall>j \<in> set (jobs (db v)). \<not> eligible q (now v) (row_locks v) j"
        by (auto elim: claim_next_cases)
      have v: "now v = clock w1" using f opened by (simp add: now_def)
      from w2 f opened have snap: "snapshot w2 = Some (db w)" by simp
      from m snap show ?thesis
        using run c q b g m no_rows w2 f opened v
        by (cases rule: commit_cases) (auto simp: Claim_def nil_db_def run_simps)
    next
      case (found mine v)
      note f = round_trip_frame [OF found(2)]
      from found(3) have w2: "claimed q worker (now v) (row_locks v) (jobs (db v)) mine (jobs (db w2))"
        "w2 = v\<lparr>db := (db v)\<lparr>jobs := jobs (db w2)\<rparr>\<rparr>"
        by (auto elim: claim_next_cases)
      have fr: "snapshot w2 = snapshot v" "events w2 = events v" "clock w2 = clock v"
        "row_locks w2 = row_locks v" by (subst w2(2), simp)+
      have v: "now v = clock w1" using f opened by (simp add: now_def)
      from fr f opened have snap: "snapshot w2 = Some (db w)" by simp
      from m snap show ?thesis
        using run c q b g m found(1) w2(1) f opened v fr
        by (cases rule: commit_cases)
           (auto simp: Claim_def nil_db_def run_simps intro!: exI [of _ "clock w1"])
    qed
  qed
qed

section \<open>Histories\<close>

text \<open>
  Every row descends from a row of an earlier state, or was inserted since, along the abstract
  life cycle.
\<close>

definition descends :: "int \<Rightarrow> job list \<Rightarrow> int \<Rightarrow> int \<Rightarrow> database \<Rightarrow> bool" where
  "descends js0 rows js gs d \<longleftrightarrow> queue_inv js gs d \<and> js0 \<le> js
     \<and> (\<forall>j' \<in> set (jobs d).
          (\<exists>j \<in> set rows. row_step\<^sup>*\<^sup>* j j')
          \<or> (js0 \<le> ID j' \<and> (life_step (MaxAttempts j'))\<^sup>*\<^sup>* (StatusPending, 0, 0) (life j')))"

interpretation history: life_invariant "descends js0 rows" for js0 rows
proof unfold_locales
  fix w w'
  assume step: "table_step w w'" and inv: "queue_inv (job_seq w') (signal_seq w') (db w')"
    and d: "descends js0 rows (job_seq w) (signal_seq w) (db w)"
  have "(\<exists>j \<in> set rows. row_step\<^sup>*\<^sup>* j j')
      \<or> (js0 \<le> ID j' \<and> (life_step (MaxAttempts j'))\<^sup>*\<^sup>* (StatusPending, 0, 0) (life j'))"
    if "j' \<in> set (jobs (db w'))" for j'
  proof -
    from step that consider (old) i where "i \<in> set (jobs (db w))" "row_step i j'"
      | (new) "job_seq w \<le> ID j'" "life j' = (StatusPending, 0, 0)"
      by (auto simp: table_step_def)
    then show ?thesis
    proof cases
      case old
      then have i: "ID j' = ID i" "MaxAttempts j' = MaxAttempts i"
        "life_step (MaxAttempts i) (life i) (life j')" by (simp_all add: row_step_def)
      from d old(1) consider j where "j \<in> set rows" "row_step\<^sup>*\<^sup>* j i"
        | "js0 \<le> ID i" "(life_step (MaxAttempts i))\<^sup>*\<^sup>* (StatusPending, 0, 0) (life i)"
        by (auto simp: descends_def)
      then show ?thesis
      proof cases
        case 1
        with old(2) show ?thesis by (meson rtranclp.rtrancl_into_rtrancl)
      next
        case 2
        with i show ?thesis by (auto intro: rtranclp.rtrancl_into_rtrancl)
      qed
    next
      case new
      with d show ?thesis by (auto simp: descends_def)
    qed
  qed
  moreover have "js0 \<le> job_seq w'" using step d by (auto simp: table_step_def descends_def)
  ultimately show "descends js0 rows (job_seq w') (signal_seq w') (db w')"
    using inv by (simp add: descends_def)
qed (auto simp: descends_def queue_inv_def)

section \<open>Claims and the fence\<close>

lemma updates_rows_none:
  assumes "updates_rows m P f ev" "\<forall>j \<in> set (jobs (db w)). \<not> P j" "run_state m w = (r, w')"
  shows "isl r \<and> jobs (db w') = jobs (db w) \<and> events w' = events w"
  using assms(1) [unfolded updates_rows_def, rule_format, OF assms(3)] assms(2)
    upd_where_none [of "jobs (db w)" P]
  by (cases r) (auto split: if_splits)

lemma select_claim_frame [simp]: "snd (select_claim mine w) = w"
  by (simp add: select_claim_def)

lemma LockClaim_none:
  assumes "\<forall>j \<in> set (jobs (db w)). \<not> holds_claim mine j"
    and "run_state (LockClaimTx (Some c) True mine) w = (r, w')"
  shows "isl r \<and> jobs (db w') = jobs (db w)"
proof -
  obtain oc w1 where rt: "round_trip w = (oc, w1)" by (cases "round_trip w")
  note f = round_trip_frame [OF rt]
  have "select_claim mine w1 = (None, w1)" using assms(1) f by (simp add: select_claim_def)
  with assms(2) rt f show ?thesis
    by (cases oc)
       (auto simp: LockClaimTx_def query_row_def run_simps split: if_splits)
qed

lemma lost_refused:
  assumes lost: "holds (claim_lost (ID mine) (Claims mine)) w" and c: "has_db c"
  shows "run_state (Heartbeat (Some c) mine) w = (r, w') \<Longrightarrow> isl r \<and> jobs (db w') = jobs (db w)"
    and "run_state (SnoozeTx (Some c) True mine until) w = (r, w') \<Longrightarrow> isl r \<and> jobs (db w') = jobs (db w)"
    and "run_state (LockClaimTx (Some c) True mine) w = (r, w') \<Longrightarrow> isl r \<and> jobs (db w') = jobs (db w)"
proof -
  from lost have none: "\<forall>j \<in> set (jobs (db w)). \<not> holds_claim mine j"
    by (auto simp: holds_def claim_lost_def holds_claim_def)
  show "run_state (Heartbeat (Some c) mine) w = (r, w') \<Longrightarrow> isl r \<and> jobs (db w') = jobs (db w)"
    using updates_rows_none [OF heartbeat_updates [OF c] none] by blast
  show "run_state (SnoozeTx (Some c) True mine until) w = (r, w') \<Longrightarrow> isl r \<and> jobs (db w') = jobs (db w)"
    using updates_rows_none [OF snooze_updates [OF c] none] by blast
  show "run_state (LockClaimTx (Some c) True mine) w = (r, w') \<Longrightarrow> isl r \<and> jobs (db w') = jobs (db w)"
    using LockClaim_none [OF none] by blast
qed

text \<open>A successful call of \<open>Claim\<close> had a database, a queue name and a transaction of its own.\<close>

lemma Claim_Some:
  assumes run: "run_state (Claim c x q worker) w = (Inr (Some mine), w')" and idle: "snapshot w = None"
    and inv: "holds queue_inv w"
  obtains j where "j \<in> set (jobs (db w))" "ID mine = ID j" "Claims mine = Claims j + 1"
    "Status mine = StatusProcessing"
    "\<forall>r \<in> set (jobs (db w')). ID r = ID j \<longrightarrow> r = mine" "snapshot w' = None" "holds queue_inv w'"
    "mine \<in> set (jobs (db w'))"
proof -
  from run obtain cl where c: "c = Some cl" "has_db cl"
    by (cases c) (auto simp: Claim_def nil_db_def split: if_splits)
  from run c have q: "q \<noteq> []" by (auto simp: Claim_def nil_db_def)
  from Claim_run [OF c(2) q idle run [unfolded c(1)]] obtain n
    where "claimed q worker n (row_locks w) (jobs (db w)) mine (jobs (db w'))" and s: "snapshot w' = None"
    by auto
  then obtain j where j: "j \<in> set (jobs (db w))" "mine = claim_row worker n j"
    and rows: "jobs (db w') = upd_where (\<lambda>r. ID r = ID j) (claim_row worker n) (jobs (db w))"
    by (auto simp: claimed_def)
  from inv have "queue_inv (job_seq w) (signal_seq w) (db w)" by (simp add: holds_def)
  then have uniq: "\<And>r. r \<in> set (jobs (db w)) \<Longrightarrow> ID r = ID j \<Longrightarrow> r = j"
    using j(1) queue_inv_ID_eq by blast
  have inv': "holds queue_inv w'"
    using hoareD [OF qj.keeps_Claim inv run] .
  show thesis
  proof (rule that [OF j(1)])
    show "\<forall>r \<in> set (jobs (db w')). ID r = ID j \<longrightarrow> r = mine"
      using uniq by (auto simp: rows set_upd_where j(2))
    show "mine \<in> set (jobs (db w'))" using j by (auto simp: rows set_upd_where)
  qed (use j s inv' in \<open>simp_all add: claim_row_def\<close>)
qed

lemma Claim_reached:
  assumes "run_state (Claim c x q worker) w = (Inr (Some mine), w')" "snapshot w = None" "holds queue_inv w"
  shows "holds (claims_reached (ID mine) (Claims mine)) w'"
    and "k < Claims mine \<Longrightarrow> holds (claim_lost (ID mine) k) w'"
proof -
  obtain j where "j \<in> set (jobs (db w))"
    and j: "ID mine = ID j" "\<forall>r \<in> set (jobs (db w')). ID r = ID j \<longrightarrow> r = mine"
    "snapshot w' = None" "holds queue_inv w'" "mine \<in> set (jobs (db w'))"
    using Claim_Some [OF assms] by metis
  from j(4,5) have inv: "queue_inv (job_seq w') (signal_seq w') (db w')" and less: "ID mine < job_seq w'"
    by (auto simp: holds_def queue_inv_def)
  have same: "Claims r = Claims mine" if "r \<in> set (jobs (db w'))" "ID r = ID mine" for r
    using that j(1,2) by metis
  with inv less j(3) show "holds (claims_reached (ID mine) (Claims mine)) w'"
    and "k < Claims mine \<Longrightarrow> holds (claim_lost (ID mine) k) w'"
    by (simp_all add: holds_def claims_reached_def claim_lost_def)
qed

section \<open>Properties of the queue\<close>

definition sample_client :: client where
  "sample_client = \<lparr>has_db = True, pgx_driver = True, listen_connect = False\<rparr>"

definition sample_enqueue :: queue_call where
  "sample_enqueue = DoEnqueue (Some sample_client) background
     \<lparr>ep_QueueName = ''mail'', ep_Payload = ''{}'', ep_AvailableAt = None, ep_MaxAttempts = 2\<rparr>"

definition sample_claim :: queue_call where
  "sample_claim = DoClaim (Some sample_client) background ''mail'' ''w1''"

text \<open>
  A sample history: a job is claimed by \<open>w1\<close>, its visibility timeout passes, the reaper
  requeues it and \<open>w2\<close> claims it.
\<close>

definition sample_w0 :: world where
  "sample_w0 = perform sample_enqueue initial_world"

definition sample_first :: "job option result \<times> world" where
  "sample_first = run_state (Claim (Some sample_client) background ''mail'' ''w1'') sample_w0"

definition sample_reap :: "queue_call list" where
  "sample_reap = [Environment 600000000 [] [],
     DoReap (Some sample_client) \<lparr>rp_VisibilityTimeout = 300000000000, rp_QueueNames = []\<rparr>]"

definition sample_second :: "job option result \<times> world" where
  "sample_second = run_state (Claim (Some sample_client) background ''mail'' ''w2'')
     (fold perform sample_reap (snd sample_first))"

definition claimed_job :: "job option result \<Rightarrow> job" where
  "claimed_job r = (case r of Inr (Some j) \<Rightarrow> j | _ \<Rightarrow> new_job 0 0 [] [] 0 None None)"

text \<open>
  C1. Whatever sequence of queue calls, transactions, failures and delays leads to a state, the
  jobs table is sound there: ids are unique and below the sequence, the columns of each row agree
  with its status, attempts stay within the budget. In particular no pending row is a zombie: as
  soon as it is due and not locked by another transaction, the claim query accepts it.
\<close>

theorem reachable_tables_sound:
  assumes "reachable w"
  shows "holds queue_inv w \<and> (\<forall>j \<in> set (jobs (db w)). \<forall>n locked.
     Status j = StatusPending \<and> AvailableAt j \<le> n \<and> ID j \<notin> set locked \<longrightarrow> eligible (QueueName j) n locked j)"
  using reachable_inv [OF assms]
  by (auto simp: holds_def queue_inv_def eligible_def job_inv_def)

lemmas sample_defs = sample_client_def sample_enqueue_def sample_claim_def perform_def
  initial_world_def empty_database_def Enqueue_def nil_db_def enqueueCore_def run_simps round_trip_def
  insert_job_def end_tx_def new_job_def now_def end_statement_def publish_def background_def Claim_def

lemma sample_reachable:
  "reachable (perform sample_enqueue initial_world)"
  "reachable (perform sample_claim (perform sample_enqueue initial_world))"
  by (intro reachable_step reachable_initial)+

theorem reachable_tables_sound_witness:
  "reachable (perform sample_enqueue initial_world)
   \<and> holds queue_inv (perform sample_enqueue initial_world)
   \<and> map ID (jobs (db (perform sample_enqueue initial_world))) = [1]"
  using reachable_tables_sound [OF sample_reachable(1)] sample_reachable(1)
  by (simp add: sample_defs)

text \<open>
  C2. The claim fence. A worker claims a job and gets \<open>m1\<close>; later, after any calls, another call
  of \<open>Claim\<close> returns the same job as \<open>m2\<close>. Then the claim number has grown, and from that moment,
  whatever happens next, the first holder can no longer heartbeat, snooze or lock the job: each
  call reports an error and changes no row.
\<close>

theorem stale_claim_refused:
  assumes reach: "reachable w" and idle: "snapshot w = None"
    and first: "run_state (Claim c x q worker) w = (Inr (Some m1), w1)"
    and idle2: "snapshot (fold perform ks w1) = None"
    and second: "run_state (Claim c' x' q' worker') (fold perform ks w1) = (Inr (Some m2), w3)"
    and same: "ID m2 = ID m1" and w4: "w4 = fold perform ks' w3" and cl: "has_db cl"
  shows "Claims m1 < Claims m2
     \<and> isl (fst (run_state (Heartbeat (Some cl) m1) w4))
     \<and> isl (fst (run_state (SnoozeTx (Some cl) True m1 until) w4))
     \<and> isl (fst (run_state (LockClaimTx (Some cl) True m1) w4))
     \<and> jobs (db (snd (run_state (Heartbeat (Some cl) m1) w4))) = jobs (db w4)
     \<and> jobs (db (snd (run_state (SnoozeTx (Some cl) True m1 until) w4))) = jobs (db w4)"
proof -
  have inv: "holds queue_inv w" using reach by (rule reachable_inv)
  let ?w2 = "fold perform ks w1"
  have inv2: "holds queue_inv ?w2"
    using hoareD [OF qj.keeps_Claim inv first] by (rule qj.performs_keep)
  have "holds (claims_reached (ID m1) (Claims m1)) ?w2"
    using Claim_reached(1) [OF first idle inv] by (rule reached.performs_keep)
  moreover from second idle2 inv2 obtain j where "j \<in> set (jobs (db ?w2))" "ID m2 = ID j" "Claims m2 = Claims j + 1"
    by (rule Claim_Some) blast
  ultimately have less: "Claims m1 < Claims m2"
    using same by (force simp: holds_def claims_reached_def)
  with Claim_reached(2) [OF second idle2 inv2] same have "holds (claim_lost (ID m1) (Claims m1)) w3" by simp
  then have "holds (claim_lost (ID m1) (Claims m1)) w4" unfolding w4 by (rule fence.performs_keep)
  note refused = lost_refused [OF this cl]
  show ?thesis
    using less refused(1) [OF prod.collapse [symmetric]] refused(2) [OF prod.collapse [symmetric]]
      refused(3) [OF prod.collapse [symmetric]] by simp
qed


lemmas sample_eval = sample_defs query_row_def begin_tx_def commit_tx_def claim_next_def next_job_def
  eligible_def claim_row_def restore_def upd_where_def notify_payload_def Reap_def on_db_def
  reap_requeue_def reap_fail_def update_jobs_def update_jobs_notify_def count_where_def stuck_def
  interval_def requeue_row_def first_occurrences_def State_Monad.update_def

lemma sample_w0_eq: "sample_w0 = initial_world\<lparr>
   db := empty_database\<lparr>jobs := [new_job 1 0 ''mail'' ''{}'' 2 None None]\<rparr>,
   job_seq := 2, delivered := [pg_left notifyKeyLength ''mail''], events := [EventEnqueue 1 ''mail''],
   logs := [(LevelDebug, ''pgqueue event'')]\<rparr>"
  by (simp add: sample_w0_def sample_eval)

lemma sample_first_eq: "sample_first =
   (Inr (Some (claim_row ''w1'' 0 (new_job 1 0 ''mail'' ''{}'' 2 None None))),
    sample_w0\<lparr>db := (db sample_w0)\<lparr>jobs := [claim_row ''w1'' 0 (new_job 1 0 ''mail'' ''{}'' 2 None None)]\<rparr>,
       events := events sample_w0 @ [EventClaim 1 ''mail'' ''w1''],
       logs := logs sample_w0 @ [(LevelDebug, ''pgqueue event'')]\<rparr>)"
  by (simp add: sample_first_def sample_w0_eq sample_eval)

lemma sample_reaped_eq: "fold perform sample_reap (snd sample_first) =
   sample_w0\<lparr>clock := 600000000, db := (db sample_w0)\<lparr>jobs :=
       [requeue_row 600000000 (claim_row ''w1'' 0 (new_job 1 0 ''mail'' ''{}'' 2 None None))]\<rparr>,
     delivered := delivered sample_w0 @ [pg_left notifyKeyLength ''mail''],
     events := events sample_w0 @ [EventClaim 1 ''mail'' ''w1'', EventReap 1 0],
     logs := logs sample_w0 @ [(LevelDebug, ''pgqueue event''), (LevelDebug, ''pgqueue event'')]\<rparr>"
  by (simp add: sample_reap_def sample_first_eq sample_w0_eq sample_eval)

lemma sample_second_eq: "fst sample_second = Inr (Some (claim_row ''w2'' 600000000
     (requeue_row 600000000 (claim_row ''w1'' 0 (new_job 1 0 ''mail'' ''{}'' 2 None None)))))"
  by (simp add: sample_second_def sample_reaped_eq sample_w0_eq sample_eval)

lemma sample_w0_reachable: "reachable sample_w0" "snapshot sample_w0 = None"
  "snapshot (fold perform sample_reap (snd sample_first)) = None"
  by (auto simp: sample_w0_def intro: reachable.intros)
     (auto simp: sample_reaped_eq sample_w0_eq sample_eval)

theorem stale_claim_refused_witness:
  "Claims (claimed_job (fst sample_first)) < Claims (claimed_job (fst sample_second))
   \<and> isl (fst (run_state (Heartbeat (Some sample_client) (claimed_job (fst sample_first))) (snd sample_second)))"
proof -
  have first: "run_state (Claim (Some sample_client) background ''mail'' ''w1'') sample_w0
      = (Inr (Some (claimed_job (fst sample_first))), snd sample_first)"
    unfolding sample_first_def [symmetric] by (simp add: sample_first_eq claimed_job_def)
  have second: "run_state (Claim (Some sample_client) background ''mail'' ''w2'')
        (fold perform sample_reap (snd sample_first))
      = (Inr (Some (claimed_job (fst sample_second))), snd sample_second)"
    unfolding sample_second_def [symmetric]
    by (rule prod_eqI) (simp_all add: sample_second_eq claimed_job_def)
  have same: "ID (claimed_job (fst sample_second)) = ID (claimed_job (fst sample_first))"
    by (simp add: sample_second_eq sample_first_eq claimed_job_def)
  show ?thesis
    using stale_claim_refused [OF sample_w0_reachable(1,2) first sample_w0_reachable(3) second same,
        of "snd sample_second" "[]" sample_client]
    by (simp add: sample_client_def)
qed

end
