(* ===== verification/Queue_Contracts.thy ===== *)
theory Queue_Contracts
  imports Queue_Properties
begin

text \<open>
  The contracts of the single operations of the queue client, over any failures: claim, settle,
  reap, delete, purge, the life cycle of rows over whole histories, and the way from \<open>Enqueue\<close>
  to \<open>Claim\<close>.
\<close>

section \<open>Helpers\<close>

lemma stuck_mono: "stuck p n j \<Longrightarrow> n \<le> n' \<Longrightarrow> stuck p n' j"
  by (auto simp: stuck_def split: option.splits)

lemma upd_where_twice:
  assumes "\<And>j. Q j \<Longrightarrow> \<not> P j" "\<And>j. P j \<Longrightarrow> \<not> Q (f j)"
  shows "upd_where Q g (upd_where P f rows) = map (\<lambda>j. if P j then f j else if Q j then g j else j) rows"
  using assms by (auto simp: upd_where_def)

lemma count_where_upd:
  assumes "\<And>j. P j \<Longrightarrow> \<not> Q (f j)" "\<And>j. Q j \<Longrightarrow> \<not> P j"
  shows "count_where Q (upd_where P f rows) = count_where Q rows"
  using assms by (induction rows) (auto simp: count_where_def upd_where_def)

lemma now_idle: "snapshot w = None \<Longrightarrow> now w = clock w"
  by (simp add: now_def)

lemma on_db_frame [simp]:
  "snapshot (snd (on_db f w)) = snapshot w" "clock (snd (on_db f w)) = clock w"
  "events (snd (on_db f w)) = events w" "db (snd (on_db f w)) = snd (f (now w) (db w))"
  "fst (on_db f w) = fst (f (now w) (db w))"
  by (simp_all add: on_db_def split: prod.split)

text \<open>A successful statement outside a transaction, as a function on the tables.\<close>

lemma on_db_Inr:
  assumes run: "run_state (query (on_db f)) w = (Inr a, w')" and idle: "snapshot w = None"
  shows "clock w \<le> clock w'" "snapshot w' = None" "events w' = events w"
    "a = fst (f (clock w') (db w))" "jobs (db w') = jobs (snd (f (clock w') (db w)))"
proof -
  from run obtain w1 w2 where w: "round_trip w = (Succeeds, w1)" "on_db f w1 = (a, w2)" "w' = end_statement w2"
    by (rule query_Inr)
  note fr = round_trip_frame [OF w(1)]
  from w(2) have w2: "w2 = snd (on_db f w1)" "a = fst (on_db f w1)" by simp_all
  have "now w1 = clock w1" using fr idle by (simp add: now_idle)
  with w2 w(3) fr idle show "clock w \<le> clock w'" "snapshot w' = None" "events w' = events w"
    "a = fst (f (clock w') (db w))" "jobs (db w') = jobs (snd (f (clock w') (db w)))"
    by simp_all
qed

section \<open>Claim\<close>

text \<open>
  C6. \<open>Claim\<close> takes effect atomically at one moment \<open>n\<close> of the call. If it returns a job, that is
  the eligible row of the queue that comes first by \<open>(available_at, id)\<close>, and exactly that row
  became processing with one more attempt and claim. If it returns none, no row was eligible and
  nothing changed. If it returns an error, no hook ran, and either nothing changed or the claim was
  committed and only its confirmation lost.
\<close>

theorem claim_takes_first_eligible:
  assumes "has_db c" "q \<noteq> []" "snapshot w = None"
    and "run_state (Claim (Some c) x q worker) w = (r, w')"
  shows "snapshot w' = None \<and> clock w \<le> clock w' \<and>
    (\<exists>n. clock w \<le> n \<and> n \<le> clock w' \<and>
      (case r of
         Inr (Some mine) \<Rightarrow> claimed q worker n (row_locks w) (jobs (db w)) mine (jobs (db w'))
           \<and> events w' = events w @ [EventClaim (ID mine) q worker]
       | Inr None \<Rightarrow> (\<forall>j \<in> set (jobs (db w)). \<not> eligible q n (row_locks w) j)
           \<and> jobs (db w') = jobs (db w) \<and> events w' = events w
       | Inl _ \<Rightarrow> events w' = events w \<and> (jobs (db w') = jobs (db w)
           \<or> (\<exists>mine. claimed q worker n (row_locks w) (jobs (db w)) mine (jobs (db w'))))))"
  using assms by (rule Claim_run)

theorem claim_takes_first_eligible_witness:
  "\<exists>mine. fst sample_first = Inr (Some mine)
     \<and> claimed ''mail'' ''w1'' 0 [] (jobs (db sample_w0)) mine (jobs (db (snd sample_first)))"
proof -
  have run: "run_state (Claim (Some sample_client) background ''mail'' ''w1'') sample_w0
     = (fst sample_first, snd sample_first)" by (simp add: sample_first_def)
  have "\<exists>n. 0 \<le> n \<and> n \<le> (0 :: int) \<and> claimed ''mail'' ''w1'' n [] (jobs (db sample_w0))
     (claim_row ''w1'' 0 (new_job 1 0 ''mail'' ''{}'' 2 None None)) (jobs (db (snd sample_first)))"
    using claim_takes_first_eligible [OF _ _ sample_w0_reachable(2) run]
    by (auto simp: sample_client_def sample_first_eq sample_w0_eq sample_eval)
  then show ?thesis by (auto simp: sample_first_eq dest: order_antisym)
qed

section \<open>Histories\<close>

text \<open>
  C12. Refinement of the life cycle. From any reachable state between transactions, after any
  further calls, transactions, rollbacks and failures, every row of the jobs table either descends
  from a row of that state by steps of the abstract life cycle (claim, ack, fail, requeue, snooze,
  replay) that never change its queue, payload, budget or trace context, or is new and has run
  through the life cycle from pending with no attempt and no claim.
\<close>

theorem rows_follow_life_cycle:
  assumes "reachable w" "snapshot w = None" "j' \<in> set (jobs (db (fold perform ks w)))"
  shows "(\<exists>j \<in> set (jobs (db w)). row_step\<^sup>*\<^sup>* j j')
     \<or> (job_seq w \<le> ID j' \<and> (life_step (MaxAttempts j'))\<^sup>*\<^sup>* (StatusPending, 0, 0) (life j'))"
proof -
  have "holds (descends (job_seq w) (jobs (db w))) w"
    using reachable_inv [OF assms(1)] assms(2) by (auto simp: holds_def descends_def)
  then have "holds (descends (job_seq w) (jobs (db w))) (fold perform ks w)"
    by (rule history.performs_keep)
  with assms(3) show ?thesis by (auto simp: holds_def descends_def)
qed

theorem rows_follow_life_cycle_witness:
  "\<exists>j \<in> set (jobs (db sample_w0)). row_step\<^sup>*\<^sup>* j (claimed_job (fst sample_first))"
proof -
  have w1: "snd sample_first = fold perform [sample_claim] sample_w0"
    by (simp add: sample_first_def perform_def sample_claim_def sample_w0_reachable split: prod.splits)
  have "claimed_job (fst sample_first) \<in> set (jobs (db (snd sample_first)))"
    by (simp add: sample_first_eq sample_w0_eq claimed_job_def)
  from rows_follow_life_cycle [OF sample_w0_reachable(1,2) this [unfolded w1]] show ?thesis
    by (auto simp: sample_first_eq sample_w0_eq claimed_job_def sample_eval)
qed

section \<open>Settling a job\<close>

text \<open>
  C13. \<open>Ack\<close>, \<open>Retry\<close>, \<open>Fail\<close>, \<open>ReplayJob\<close>, \<open>SnoozeTx\<close> and \<open>Heartbeat\<close> meet the row-update
  contract \<open>updates_rows\<close> in every state and under every failure: success means exactly the rows in
  the expected state were updated and the hooks saw it, \<open>ErrJobNotFound\<close> means there was no such row
  and nothing changed, any other error means no hook ran and the update happened entirely (its reply
  lost, outside a transaction) or not at all.
\<close>

theorem settle_contracts:
  assumes "has_db c"
  shows "updates_rows (Ack (Some c) i) (is_processing i) ack_row [EventAck i]
     \<and> updates_rows (Retry (Some c) i delay cause) (is_processing i)
         (\<lambda>n. retry_row delay n (map_option err_text cause)) [EventRetry i]
     \<and> updates_rows (FailJob (Some c) i cause) (is_processing i)
         (\<lambda>n. fail_row n (map_option err_text cause)) [EventFail i]
     \<and> updates_rows (ReplayJob (Some c) i)
         (\<lambda>j. ID j = i \<and> (Status j = StatusDone \<or> Status j = StatusFailed)) replay_row [EventReplay i]
     \<and> updates_rows (SnoozeTx (Some c) True mine until) (holds_claim mine)
         (snooze_row (case until of None \<Rightarrow> ParkedUntil | Some t \<Rightarrow> t)) [EventSnooze (ID mine)]
     \<and> updates_rows (Heartbeat (Some c) mine) (holds_claim mine) heartbeat_row []"
  using assms ackCore_updates retryCore_updates failCore_updates replay_updates snooze_updates
    heartbeat_updates
  by (simp add: Ack_def Retry_def FailJob_def nil_db_def)

theorem settle_contracts_witness:
  "updates_rows (Ack (Some sample_client) 1) (is_processing 1) ack_row [EventAck 1]"
  using settle_contracts [of sample_client 1] by (simp add: sample_client_def)

section \<open>Reaping\<close>

lemma Reap_success:
  assumes c: "has_db c" and v: "0 < rp_VisibilityTimeout p" and idle: "snapshot w = None"
    and run: "run_state (Reap (Some c) p) w = ((res, None), w')"
  obtains n1 n2 where "clock w \<le> n1" "n1 \<le> n2" "n2 \<le> clock w'"
    "Requeued res = count_where (\<lambda>j. stuck p n1 j \<and> Attempts j < MaxAttempts j) (jobs (db w))"
    "Failed res = count_where (\<lambda>j. stuck p n2 j \<and> MaxAttempts j \<le> Attempts j) (jobs (db w))"
    "jobs (db w') = map (\<lambda>j. if stuck p n1 j \<and> Attempts j < MaxAttempts j then requeue_row n1 j
        else if stuck p n2 j \<and> MaxAttempts j \<le> Attempts j then reap_fail_row n2 j else j) (jobs (db w))"
    "events w' = events w @ [EventReap (Requeued res) (Failed res)]"
proof -
  obtain a w1 where a: "run_state (query (on_db (reap_requeue p))) w = (a, w1)"
    by (cases "run_state (query (on_db (reap_requeue p))) w")
  obtain b w2 where b: "run_state (query (on_db (reap_fail p))) w1 = (b, w2)"
    by (cases "run_state (query (on_db (reap_fail p))) w1")
  from run c v a obtain k1 where k1: "a = Inr k1" by (cases a) (auto simp: Reap_def nil_db_def run_attempt)
  with run c v a b obtain k2 where k2: "b = Inr k2"
    by (cases b) (auto simp: Reap_def nil_db_def run_attempt)
  from run c v a b k1 k2 have r: "res = \<lparr>Requeued = k1, Failed = k2\<rparr>"
    "jobs (db w') = jobs (db w2)" "clock w' = clock w2" "events w' = events w2 @ [EventReap k1 k2]"
    by (auto simp: Reap_def nil_db_def run_attempt run_emit)
  note A = on_db_Inr [OF a [unfolded k1] idle]
  note B = on_db_Inr [OF b [unfolded k2] A(2)]
  let ?P = "\<lambda>j. stuck p (clock w1) j \<and> Attempts j < MaxAttempts j"
  let ?Q = "\<lambda>j. stuck p (clock w2) j \<and> MaxAttempts j \<le> Attempts j"
  have rows: "jobs (db w1) = upd_where ?P (requeue_row (clock w1)) (jobs (db w))"
    using A by (simp add: reap_requeue_def update_jobs_notify_def)
  have dis: "\<And>j. ?Q j \<Longrightarrow> \<not> ?P j" "\<And>j. ?P j \<Longrightarrow> \<not> ?Q (requeue_row (clock w1) j)"
    by (auto simp: requeue_row_def)
  show thesis
  proof (rule that [of "clock w1" "clock w2"])
    show "Failed res = count_where ?Q (jobs (db w))"
      using B(4) r count_where_upd [of ?P ?Q "requeue_row (clock w1)", OF dis(2,1)]
      by (simp add: reap_fail_def update_jobs_def rows)
    show "jobs (db w') = map (\<lambda>j. if ?P j then requeue_row (clock w1) j
        else if ?Q j then reap_fail_row (clock w2) j else j) (jobs (db w))"
      using B(5) r upd_where_twice [of ?Q ?P "requeue_row (clock w1)", OF dis] by (simp add: reap_fail_def update_jobs_def rows)
  qed (use A B r in \<open>simp_all add: reap_requeue_def update_jobs_notify_def\<close>)
qed

text \<open>
  A successful \<open>Reap\<close> is exact: every claim that had outlived the visibility timeout when the
  call began is over afterwards, requeued if attempts are left and failed otherwise; a claim younger
  than the timeout at the end of the call is untouched, like every row of other queues and statuses;
  the counts are the numbers of rows changed.
\<close>

theorem reap_exact:
  assumes "has_db c" "0 < rp_VisibilityTimeout p" "snapshot w = None"
    and "run_state (Reap (Some c) p) w = ((res, None), w')"
  shows "(\<forall>i < length (jobs (db w)). let j = jobs (db w) ! i; j' = jobs (db w') ! i in
       (\<not> stuck p (clock w') j \<longrightarrow> j' = j)
       \<and> (stuck p (clock w) j \<longrightarrow>
           Status j' = (if Attempts j < MaxAttempts j then StatusPending else StatusFailed)
           \<and> ClaimedBy j' = None \<and> Attempts j' = Attempts j \<and> Claims j' = Claims j))
     \<and> length (jobs (db w')) = length (jobs (db w))
     \<and> Requeued res = int (card {i. i < length (jobs (db w)) \<and> Status (jobs (db w) ! i) = StatusProcessing
          \<and> Status (jobs (db w') ! i) = StatusPending})
     \<and> Failed res = int (card {i. i < length (jobs (db w)) \<and> Status (jobs (db w) ! i) = StatusProcessing
          \<and> Status (jobs (db w') ! i) = StatusFailed})"
proof -
  from assms obtain n1 n2 where n: "clock w \<le> n1" "n1 \<le> n2" "n2 \<le> clock w'"
    and k: "Requeued res = count_where (\<lambda>j. stuck p n1 j \<and> Attempts j < MaxAttempts j) (jobs (db w))"
      "Failed res = count_where (\<lambda>j. stuck p n2 j \<and> MaxAttempts j \<le> Attempts j) (jobs (db w))"
    and rows: "jobs (db w') = map (\<lambda>j. if stuck p n1 j \<and> Attempts j < MaxAttempts j then requeue_row n1 j
        else if stuck p n2 j \<and> MaxAttempts j \<le> Attempts j then reap_fail_row n2 j else j) (jobs (db w))"
    by (rule Reap_success)
  have proc: "stuck p m j \<Longrightarrow> Status j = StatusProcessing" for m j by (simp add: stuck_def)
  have "{i. i < length (jobs (db w)) \<and> Status (jobs (db w) ! i) = StatusProcessing
          \<and> Status (jobs (db w') ! i) = StatusPending}
      = {i. i < length (jobs (db w)) \<and> (stuck p n1 (jobs (db w) ! i)
          \<and> Attempts (jobs (db w) ! i) < MaxAttempts (jobs (db w) ! i))}"
    by (auto simp: rows requeue_row_def reap_fail_row_def dest: proc split: if_splits)
  moreover have "{i. i < length (jobs (db w)) \<and> Status (jobs (db w) ! i) = StatusProcessing
          \<and> Status (jobs (db w') ! i) = StatusFailed}
      = {i. i < length (jobs (db w)) \<and> (stuck p n2 (jobs (db w) ! i)
          \<and> MaxAttempts (jobs (db w) ! i) \<le> Attempts (jobs (db w) ! i))}"
    by (auto simp: rows requeue_row_def reap_fail_row_def dest: proc split: if_splits)
  moreover have "let j = jobs (db w) ! i; j' = jobs (db w') ! i in
       (\<not> stuck p (clock w') j \<longrightarrow> j' = j)
       \<and> (stuck p (clock w) j \<longrightarrow>
           Status j' = (if Attempts j < MaxAttempts j then StatusPending else StatusFailed)
           \<and> ClaimedBy j' = None \<and> Attempts j' = Attempts j \<and> Claims j' = Claims j)"
    if "i < length (jobs (db w))" for i
    using that n stuck_mono [of p _ "jobs (db w) ! i"]
    by (fastforce simp: rows Let_def requeue_row_def reap_fail_row_def)
  ultimately show ?thesis using rows k by (simp add: count_where_def length_filter_conv_card)
qed

lemma sample_reap_run:
  "run_state (Reap (Some sample_client) \<lparr>rp_VisibilityTimeout = 300000000000, rp_QueueNames = []\<rparr>)
     ((snd sample_first)\<lparr>clock := 600000000\<rparr>) = ((\<lparr>Requeued = 1, Failed = 0\<rparr>, None),
     fold perform sample_reap (snd sample_first))"
  unfolding sample_reaped_eq by (simp add: sample_first_eq sample_w0_eq sample_eval)

theorem reap_exact_witness:
  "Status (jobs (db (fold perform sample_reap (snd sample_first))) ! 0) = StatusPending"
proof -
  have "stuck \<lparr>rp_VisibilityTimeout = 300000000000, rp_QueueNames = []\<rparr> 600000000
      (jobs (db ((snd sample_first)\<lparr>clock := 600000000\<rparr>)) ! 0)"
    by (simp add: sample_first_eq sample_eval)
  with reap_exact [OF _ _ _ sample_reap_run, THEN conjunct1, THEN spec, of 0] show ?thesis
    by (simp add: sample_first_eq sample_w0_eq sample_eval Let_def)
qed

section \<open>Purging\<close>

lemma count_where_IDs:
  assumes d: "distinct (map ID rows)" and ids: "set ids \<subseteq> ID ` set rows" "distinct ids"
  shows "count_where (\<lambda>j. ID j \<in> set ids) rows = int (length ids)"
proof -
  have "length (filter (\<lambda>j. ID j \<in> set ids) rows) = card (ID ` set (filter (\<lambda>j. ID j \<in> set ids) rows))"
    using d by (metis (no_types, lifting) distinct_card distinct_map_filter length_map set_map)
  also have "ID ` set (filter (\<lambda>j. ID j \<in> set ids) rows) = set ids" using ids by auto
  finally show ?thesis using ids(2) by (simp add: count_where_def distinct_card)
qed

lemma take_sorted_less:
  assumes "sorted xs" "distinct xs" "a \<in> set (take m xs)" "b \<in> set xs" "b \<notin> set (take m xs)"
  shows "a < (b :: int)"
proof -
  from assms(4,5) have "b \<in> set (drop m xs)" by (metis Un_iff append_take_drop_id set_append)
  moreover have "sorted (take m xs @ drop m xs)" using assms(1) by simp
  ultimately have "a \<le> b" using assms(3) by (auto simp only: sorted_append)
  with assms(3,5) show ?thesis by (metis order_le_less)
qed

lemma purge_rows_spec:
  assumes d: "distinct (map ID (jobs t))" and r: "purge_rows pp n t = (k, t')"
  shows "\<exists>gone. jobs t' = del_where gone (jobs t) \<and> k = count_where gone (jobs t)
     \<and> (\<forall>j \<in> set (jobs t). gone j \<longrightarrow> purgeable pp n j)
     \<and> (0 < pp_Limit pp \<longrightarrow> k \<le> pp_Limit pp)
     \<and> (pp_Limit pp \<le> 0 \<or> k < pp_Limit pp \<longrightarrow> (\<forall>j \<in> set (jobs t). purgeable pp n j \<longrightarrow> gone j))
     \<and> (\<forall>j \<in> set (jobs t). \<forall>i \<in> set (jobs t). gone j \<and> \<not> gone i \<and> purgeable pp n i \<longrightarrow> ID j < ID i)"
proof (cases "0 < pp_Limit pp")
  case False
  with r show ?thesis by (intro exI [of _ "purgeable pp n"]) (auto simp: purge_rows_def delete_jobs_def)
next
  case True
  define xs where "xs = sort (map ID (filter (purgeable pp n) (jobs t)))"
  define ids where "ids = take (nat (pp_Limit pp)) xs"
  have xs: "sorted xs" "distinct xs" "set xs = ID ` {j \<in> set (jobs t). purgeable pp n j}"
    using d by (auto simp: xs_def distinct_map_filter)
  have sub: "set ids \<subseteq> set xs" unfolding ids_def by (rule set_take_subset)
  from r True have k: "k = count_where (\<lambda>j. ID j \<in> set ids) (jobs t)"
    "jobs t' = del_where (\<lambda>j. ID j \<in> set ids) (jobs t)"
    by (auto simp: purge_rows_def delete_jobs_def ids_def xs_def Let_def)
  have len: "k = int (length ids)" unfolding k
    using sub xs d by (intro count_where_IDs) (auto simp: ids_def)
  have mem: "ID j \<in> set xs \<longleftrightarrow> purgeable pp n j" if "j \<in> set (jobs t)" for j
    using that d by (auto simp: xs(3) distinct_map inj_on_def)
  show ?thesis
  proof (intro exI [of _ "\<lambda>j. ID j \<in> set ids"] conjI ballI impI)
    show "k \<le> pp_Limit pp" using len True by (simp add: ids_def)
    fix j assume j: "j \<in> set (jobs t)"
    show "purgeable pp n j" if "ID j \<in> set ids" using that sub mem [OF j] by blast
    show "ID j \<in> set ids" if all: "pp_Limit pp \<le> 0 \<or> k < pp_Limit pp" and pj: "purgeable pp n j"
    proof -
      have "ids = xs" using all True len by (auto simp: ids_def)
      then show ?thesis using pj mem [OF j] by simp
    qed
    fix i assume i: "i \<in> set (jobs t)" "ID j \<in> set ids \<and> ID i \<notin> set ids \<and> purgeable pp n i"
    then show "ID j < ID i"
      using take_sorted_less [OF xs(1,2)] mem [of i] unfolding ids_def by blast
  qed (use k in simp_all)
qed

text \<open>
  A successful \<open>Purge\<close> removes only rows of the given status that are older than asked, at most
  \<open>Limit\<close> of them when there is a limit and those with the smallest ids first, all of them when there
  is no limit or it was not reached; every other row stays, and the result is the number removed.
\<close>

theorem purge_exact:
  assumes reach: "reachable w" and idle: "snapshot w = None"
    and run: "run_state (Purge (Some c) pp) w = (Inr k, w')"
  shows "\<exists>gone. jobs (db w') = del_where gone (jobs (db w)) \<and> k = count_where gone (jobs (db w))
     \<and> (\<forall>j \<in> set (jobs (db w)). gone j \<longrightarrow> purgeable pp (clock w') j)
     \<and> (0 < pp_Limit pp \<longrightarrow> k \<le> pp_Limit pp)
     \<and> (pp_Limit pp \<le> 0 \<or> k < pp_Limit pp \<longrightarrow>
          (\<forall>j \<in> set (jobs (db w)). purgeable pp (clock w') j \<longrightarrow> gone j))
     \<and> (\<forall>j \<in> set (jobs (db w)). \<forall>i \<in> set (jobs (db w)).
          gone j \<and> \<not> gone i \<and> purgeable pp (clock w') i \<longrightarrow> ID j < ID i)"
proof -
  from reachable_inv [OF reach] have d: "distinct (map ID (jobs (db w)))"
    by (simp add: holds_def queue_inv_def)
  obtain a w1 where a: "run_state (query (on_db (purge_rows pp))) w = (a, w1)"
    by (cases "run_state (query (on_db (purge_rows pp))) w")
  from run a obtain k' where "a = Inr k'" "k = k'" "jobs (db w') = jobs (db w1)" "clock w' = clock w1"
    by (cases a) (auto simp: Purge_def run_attempt run_emit split: if_splits)
  with on_db_Inr [OF a [unfolded this(1)] idle] purge_rows_spec [OF d prod.collapse [symmetric], of pp "clock w1"]
  show ?thesis by simp
qed

definition sample_purge :: purge_params where
  "sample_purge = \<lparr>pp_Status = ''pending'', pp_OlderThan = 1000, pp_Limit = 5\<rparr>"

theorem purge_exact_witness:
  "jobs (db (snd (run_state (Purge (Some sample_client) sample_purge)
      (perform (Environment 100 [] []) sample_w0)))) = []"
proof -
  let ?w = "perform (Environment 100 [] []) sample_w0"
  have w: "reachable ?w" using sample_w0_reachable(1) by (rule reachable_step)
  have i: "snapshot ?w = None"
    using sample_w0_reachable by (simp add: perform_def State_Monad.update_def)
  have k: "fst (run_state (Purge (Some sample_client) sample_purge) ?w) = Inr 1"
    and t: "clock (snd (run_state (Purge (Some sample_client) sample_purge) ?w)) = 100"
    by (simp_all add: Purge_def purge_rows_def purgeable_def sample_purge_def delete_jobs_def Let_def
        sample_w0_eq sample_eval)
  have j: "jobs (db ?w) = [new_job 1 0 ''mail'' ''{}'' 2 None None]"
    by (simp add: sample_w0_eq sample_eval)
  have "purgeable sample_purge 100 (new_job 1 0 ''mail'' ''{}'' 2 None None)"
    by (simp add: purgeable_def sample_purge_def interval_def new_job_def)
  with purge_exact [OF w i, of sample_client sample_purge 1] j k t show ?thesis
    by (cases "run_state (Purge (Some sample_client) sample_purge) ?w")
       (auto simp: del_where_def sample_purge_def)
qed

section \<open>Deleting\<close>

lemma select_job_frame [simp]: "snd (select_job i w) = w"
  by (simp add: select_job_def)

lemma find_ID:
  "distinct (map ID rows) \<Longrightarrow> j \<in> set rows \<Longrightarrow> find (\<lambda>r. ID r = ID j) rows = Some j"
  by (induction rows) (auto simp: image_iff)

lemma select_job_run:
  assumes "run_state (query_row (select_job i)) w = (g, w')"
  shows "jobs (db w') = jobs (db w)
     \<and> (case g of Inr j \<Rightarrow> find (\<lambda>j. ID j = i) (jobs (db w)) = Some j
          | Inl e \<Rightarrow> \<not> errors_is e ErrJobBusy \<and> \<not> errors_is e ErrJobNotFound
              \<and> (errors_is e SqlErrNoRows \<longrightarrow> find (\<lambda>j. ID j = i) (jobs (db w)) = None))"
proof -
  obtain oc w1 where rt: "round_trip w = (oc, w1)" by (cases "round_trip w")
  have "db w1 = db w" using round_trip_frame [OF rt] by simp
  with assms rt show ?thesis
    by (cases oc; cases "find (\<lambda>j. ID j = i) (jobs (db w))"; cases "tx_aborted w1"; cases "snapshot w1")
       (auto simp: query_row_def run_simps select_job_def)
qed

lemma find_ID_SomeD: "find (\<lambda>j. ID j = i) rows = Some j \<Longrightarrow> j \<in> set rows \<and> ID j = i"
  by (auto simp: find_Some_iff)

lemma find_ID_None: "find (\<lambda>j. ID j = i) rows = None \<longleftrightarrow> (\<forall>j \<in> set rows. ID j \<noteq> i)"
  by (auto simp: find_None_iff)

lemma Delete_kept:
  assumes del: "run_state (query (on_db (\<lambda>_. delete_jobs (\<lambda>j. ID j = i \<and> Status j \<noteq> StatusProcessing)))) w
      = (Inr k, w1)" and k: "\<not> 0 < k"
    and sel: "run_state (query_row (select_job i)) w1 = (g, w2)" and c: "has_db c"
  shows "run_state (DeleteJob (Some c) i) w =
     (case g of Inl e \<Rightarrow> Inl (if errors_is e SqlErrNoRows
          then wrap (''pgqueue: delete job id='' @ dec_int i @ '': '') (Sentinel ErrJobNotFound)
          else wrap ''pgqueue: delete job status check: '' e)
      | Inr j \<Rightarrow> Inl (wrap (''pgqueue: delete job id='' @ dec_int i @ '': '')
          (Sentinel (if Status j = StatusProcessing then ErrJobBusy else ErrJobNotFound))), w2)"
proof -
  have nn: "nil_db (Some c) = False" using c by (simp add: nil_db_def)
  show ?thesis
    unfolding DeleteJob_def nn if_False run_attempt del prod.case sum.case if_not_P [OF k] sel
    by (cases g) simp_all
qed

text \<open>
  \<open>DeleteJob\<close> never removes a job that a worker is processing, whatever it returns. On success it
  removed exactly the job with that id; \<open>ErrJobBusy\<close> means the job is there and processing,
  \<open>ErrJobNotFound\<close> that there is no job with that id, and both leave the table as it was.
\<close>

theorem delete_spares_processing:
  assumes reach: "reachable w" and idle: "snapshot w = None" and c: "has_db c"
    and run: "run_state (DeleteJob (Some c) i) w = (r, w')"
  shows "(\<forall>j \<in> set (jobs (db w)). Status j = StatusProcessing \<or> ID j \<noteq> i \<longrightarrow> j \<in> set (jobs (db w')))
     \<and> (case r of
          Inr _ \<Rightarrow> (\<exists>j \<in> set (jobs (db w)). ID j = i \<and> Status j \<noteq> StatusProcessing)
            \<and> jobs (db w') = del_where (\<lambda>j. ID j = i) (jobs (db w))
        | Inl e \<Rightarrow>
            (errors_is e ErrJobBusy \<longrightarrow> jobs (db w') = jobs (db w)
               \<and> (\<exists>j \<in> set (jobs (db w)). ID j = i \<and> Status j = StatusProcessing))
            \<and> (errors_is e ErrJobNotFound \<longrightarrow> jobs (db w') = jobs (db w)
               \<and> (\<forall>j \<in> set (jobs (db w)). ID j \<noteq> i)))"
proof -
  from reachable_inv [OF reach] have inv: "queue_inv (job_seq w) (signal_seq w) (db w)"
    by (simp add: holds_def)
  let ?P = "\<lambda>j. ID j = i \<and> Status j \<noteq> StatusProcessing"
  let ?st = "on_db (\<lambda>_. delete_jobs ?P)"
  obtain a w1 where a: "run_state (query ?st) w = (a, w1)" by (cases "run_state (query ?st) w")
  show ?thesis
  proof (cases a)
    case (Inl e)
    with run c a have r: "r = Inl (wrap ''pgqueue: delete job: '' e)" "w' = w1"
      by (simp_all add: DeleteJob_def nil_db_def run_attempt)
    from a [unfolded Inl] have e: "\<not> errors_is e ErrJobBusy" "\<not> errors_is e ErrJobNotFound"
      by (auto simp: run_simps split: prod.splits outcome.splits if_splits)
    from a [unfolded Inl] show ?thesis
    proof (cases rule: query_Inl)
      case no_effect
      with r e show ?thesis by simp
    next
      case (lost_reply w2 oc)
      with r e round_trip_frame [OF lost_reply(1)] show ?thesis by (simp add: delete_jobs_def)
    qed
  next
    case (Inr k)
    note A = on_db_Inr [OF a [unfolded Inr] idle]
    have k: "k = count_where ?P (jobs (db w))" and rows: "jobs (db w1) = del_where ?P (jobs (db w))"
      using A by (simp_all add: delete_jobs_def)
    show ?thesis
    proof (cases "0 < k")
      case True
      with run c a Inr have r: "r = Inr ()" "jobs (db w') = jobs (db w1)"
        by (auto simp: DeleteJob_def nil_db_def run_attempt run_emit)
      from True k obtain j where j: "j \<in> set (jobs (db w))" "?P j"
        using count_where_0 [of ?P "jobs (db w)"] by auto
      have one: "x = j" if "x \<in> set (jobs (db w))" "ID x = i" for x
        using queue_inv_ID_eq [OF inv that(1) j(1)] that(2) j(2) by simp
      then have "del_where ?P (jobs (db w)) = del_where (\<lambda>j. ID j = i) (jobs (db w))"
        using j(2) by (auto simp: del_where_def intro!: filter_cong)
      with r rows j one show ?thesis by auto
    next
      case False
      then have "k = 0" using k count_where_nonneg [of ?P "jobs (db w)"] by linarith
      then have none: "\<forall>j \<in> set (jobs (db w)). \<not> ?P j" using k by (simp add: count_where_0)
      then have same: "jobs (db w1) = jobs (db w)" by (simp add: rows del_where_def)
      obtain g w2 where g: "run_state (query_row (select_job i)) w1 = (g, w2)"
        by (cases "run_state (query_row (select_job i)) w1")
      note G = select_job_run [OF g]
      from run Delete_kept [OF a [unfolded Inr] False g c] have r: "w' = w2"
        "r = (case g of Inl e \<Rightarrow> Inl (if errors_is e SqlErrNoRows
                then wrap (''pgqueue: delete job id='' @ dec_int i @ '': '') (Sentinel ErrJobNotFound)
                else wrap ''pgqueue: delete job status check: '' e)
           | Inr j \<Rightarrow> Inl (wrap (''pgqueue: delete job id='' @ dec_int i @ '': '')
               (Sentinel (if Status j = StatusProcessing then ErrJobBusy else ErrJobNotFound))))"
        by (simp_all only: prod.inject)
      show ?thesis
      proof (cases g)
        case (Inl e)
        with G same r show ?thesis by (simp add: find_ID_None)
      next
        case (Inr j)
        with G same have "j \<in> set (jobs (db w))" "ID j = i" by (auto dest: find_ID_SomeD)
        moreover from this none have busy: "Status j = StatusProcessing" by blast
        ultimately have "\<exists>j \<in> set (jobs (db w)). ID j = i \<and> Status j = StatusProcessing" by blast
        moreover have "jobs (db w') = jobs (db w)" using G same r(1) by simp
        moreover have "r = Inl (wrap (''pgqueue: delete job id='' @ dec_int i @ '': '') (Sentinel ErrJobBusy))"
          using r(2) Inr busy by simp
        ultimately show ?thesis by simp
      qed
    qed
  qed
qed

theorem delete_spares_processing_witness:
  "fst (run_state (DeleteJob (Some sample_client) 1) sample_w0) = Inr ()
   \<and> jobs (db (snd (run_state (DeleteJob (Some sample_client) 1) sample_w0))) = []"
proof -
  have r: "fst (run_state (DeleteJob (Some sample_client) 1) sample_w0) = Inr ()"
    by (simp add: DeleteJob_def delete_jobs_def sample_w0_eq sample_eval)
  with delete_spares_processing [OF sample_w0_reachable(1,2), of sample_client 1]
  show ?thesis
    by (cases "run_state (DeleteJob (Some sample_client) 1) sample_w0")
       (auto simp: sample_client_def sample_w0_eq del_where_def new_job_def)
qed

section \<open>From enqueue to claim\<close>

lemma round_trip_clear [simp]: "script w = [] \<Longrightarrow> round_trip w = (Succeeds, w)"
  by (simp add: round_trip_def)

lemma claim_next_script [simp]: "script (snd (claim_next q worker w)) = script w"
  "tx_aborted (snd (claim_next q worker w)) = tx_aborted w"
  by (simp_all add: claim_next_def split: option.split)

lemma Claim_no_fault:
  assumes "script w = []" "has_db c" "q \<noteq> []" "snapshot w = None"
  shows "\<not> isl (fst (run_state (Claim (Some c) x q worker) w))"
proof -
  let ?w1 = "w\<lparr>snapshot := Some (db w), tx_start := clock w, tx_aborted := False\<rparr>"
  obtain a w2 where n: "claim_next q worker ?w1 = (a, w2)" by (cases "claim_next q worker ?w1")
  from n claim_next_script [of q worker ?w1] claim_next_frame [of q worker ?w1] assms(1)
  have "script w2 = []" "\<not> tx_aborted w2" "snapshot w2 = Some (db w)" by simp_all
  with assms n show ?thesis
    by (cases a) (simp_all add: Claim_def nil_db_def begin_tx_def query_row_def run_simps commit_tx_def
        end_statement_def)
qed

lemma Enqueue_Inr:
  assumes run: "run_state (Enqueue (Some c) x p) w = (Inr i, w1)" and idle: "snapshot w = None"
  obtains n where "clock w \<le> n" "n \<le> clock w1" "i = job_seq w" "job_seq w1 = i + 1" "snapshot w1 = None"
    "jobs (db w1) = jobs (db w) @ [new_job i n (ep_QueueName p) (ep_Payload p)
       (if ep_MaxAttempts p \<le> 0 then defaultMaxAttempts else ep_MaxAttempts p) (ep_AvailableAt p) (ctx_trace x)]"
    "ep_QueueName p \<noteq> []" "delivered w1 = delivered w @ [notify_payload (ep_QueueName p)] \<or> outbox (db w) \<noteq> []"
proof -
  let ?m = "if ep_MaxAttempts p \<le> 0 then defaultMaxAttempts else ep_MaxAttempts p"
  let ?st = "insert_job (ep_QueueName p) (ep_Payload p) ?m (ep_AvailableAt p) (ctx_trace x)"
  from run have c: "\<not> nil_db (Some c)" "ep_QueueName p \<noteq> []"
    by (auto simp: Enqueue_def enqueueCore_def split: if_splits)
  obtain a w2 where a: "run_state (query ?st) w = (a, w2)" by (cases "run_state (query ?st) w")
  from run c a have r: "a = Inr i" "w1 = w2\<lparr>events := events w2 @ [EventEnqueue i (ep_QueueName p)],
       logs := logs w2 @ [(LevelDebug, ''pgqueue event'')]\<rparr>"
    by (cases a; auto simp: Enqueue_def enqueueCore_def run_attempt run_emit Let_def)+
  from a [unfolded r(1)] obtain u v where u: "round_trip w = (Succeeds, u)" "?st u = (i, v)" "w2 = end_statement v"
    by (rule query_Inr)
  note f = round_trip_frame [OF u(1)]
  have "now u = clock u" using f idle by (simp add: now_idle)
  with u f idle r c show thesis
    by (intro that [of "clock u"]) (auto simp: insert_job_def end_statement_def publish_def first_occurrences_def)
qed

text \<open>
  Round trip. A job enqueued for immediate delivery on a queue that has no other job is what the
  next \<open>Claim\<close> on that queue returns when no failure and no foreign lock interferes: with the id
  \<open>Enqueue\<close> returned, the payload and trace context it was given, as attempt 1 and claim 1, and with
  the attempt budget asked for, or 5 if none was.
\<close>

theorem enqueue_then_claim:
  assumes idle: "snapshot w = None" and c: "has_db c'"
    and enq: "run_state (Enqueue (Some c) x p) w = (Inr i, w1)"
    and now: "ep_AvailableAt p = None"
    and only: "\<forall>j \<in> set (jobs (db w)). QueueName j \<noteq> ep_QueueName p"
    and clear: "script w1 = []" "row_locks w1 = []"
  shows "\<exists>j. fst (run_state (Claim (Some c') x' (ep_QueueName p) worker) w1) = Inr (Some j)
     \<and> ID j = i \<and> QueueName j = ep_QueueName p \<and> Payload j = ep_Payload p
     \<and> traceContext j = ctx_trace x \<and> Attempts j = 1 \<and> Claims j = 1 \<and> ClaimedBy j = Some worker
     \<and> MaxAttempts j = (if ep_MaxAttempts p \<le> 0 then 5 else ep_MaxAttempts p)"
proof -
  let ?m = "if ep_MaxAttempts p \<le> 0 then defaultMaxAttempts else ep_MaxAttempts p"
  from enq idle obtain n where n: "n \<le> clock w1" "snapshot w1 = None" "ep_QueueName p \<noteq> []"
    and rows: "jobs (db w1) = jobs (db w) @ [new_job i n (ep_QueueName p) (ep_Payload p) ?m None (ctx_trace x)]"
    by (rule Enqueue_Inr) (simp add: now)
  let ?new = "new_job i n (ep_QueueName p) (ep_Payload p) ?m None (ctx_trace x)"
  obtain r w2 where run: "run_state (Claim (Some c') x' (ep_QueueName p) worker) w1 = (r, w2)"
    by (cases "run_state (Claim (Some c') x' (ep_QueueName p) worker) w1")
  have ok: "\<not> isl r" using Claim_no_fault [OF clear(1) c n(3,2)] run by (metis fst_conv)
  have el: "eligible (ep_QueueName p) t [] ?new" if "clock w1 \<le> t" for t
    using that n by (simp add: eligible_def new_job_def defaultMaxAttempts_def)
  have un: "j = ?new" if "j \<in> set (jobs (db w1))" "eligible (ep_QueueName p) t [] j" for j t
    using that only by (auto simp: rows eligible_def)
  from ok obtain o' where o: "r = Inr o'" by (cases r) auto
  from Claim_run [OF c n(3,2) run] clear(2) obtain t where t: "clock w1 \<le> t"
    "case o' of Some mine \<Rightarrow> claimed (ep_QueueName p) worker t [] (jobs (db w1)) mine (jobs (db w2))
       | None \<Rightarrow> \<forall>j \<in> set (jobs (db w1)). \<not> eligible (ep_QueueName p) t [] j"
    unfolding o by (cases o') auto
  with el [of t] rows obtain mine where r: "r = Inr (Some mine)"
    and cl: "claimed (ep_QueueName p) worker t [] (jobs (db w1)) mine (jobs (db w2))"
    by (cases o') (auto simp: o)
  from cl un have "mine = claim_row worker t ?new" by (auto simp: claimed_def)
  with run r show ?thesis by (simp add: claim_row_def new_job_def defaultMaxAttempts_def)
qed

theorem enqueue_then_claim_witness:
  "\<exists>j. fst (run_state (Claim (Some sample_client) background ''mail'' ''w1'') sample_w0) = Inr (Some j)
     \<and> Payload j = ''{}'' \<and> MaxAttempts j = 2"
proof -
  let ?p = "\<lparr>ep_QueueName = ''mail'', ep_Payload = ''{}'', ep_AvailableAt = None, ep_MaxAttempts = 2\<rparr>"
  have enq: "run_state (Enqueue (Some sample_client) background ?p) initial_world = (Inr 1, sample_w0)"
    by (simp add: sample_w0_eq sample_eval)
  have w: "snapshot initial_world = None" "jobs (db initial_world) = []" "script sample_w0 = []"
    "row_locks sample_w0 = []" "has_db sample_client"
    by (simp_all add: sample_w0_eq initial_world_def empty_database_def sample_client_def)
  show ?thesis
    using enqueue_then_claim [OF w(1,5) enq _ _ w(3,4), of background "''w1''"] w(2) by auto
qed

end
