(* ===== verification/Queue_Worker.thy ===== *)
theory Queue_Worker
  imports Notifier Queue_Contracts "HOL-Library.List_Lexorder" "HOL-Library.Char_ord"
begin

text \<open>
  The queue worker: \<open>queue/worker.go\<close> (error classification, handler registry, configuration,
  scan, settle, hand back, reap, the run loop), \<open>queue/typed.go\<close>, \<open>queue/builder.go\<close>, the job span of
  \<open>queue/trace.go\<close> and \<open>ExponentialBackoff\<close> and \<open>logFailure\<close> of \<open>queue/queue.go\<close>.

  Handlers and callbacks are the application's code: functions into the world monad, free to use
  the database. JSON decoding into the application's types, the OpenTelemetry SDK and the random
  number generator are arguments. Log lines carry their message without the fields.
\<close>

section \<open>Error classification\<close>

definition connectivitySQLStates :: "string list" where
  "connectivitySQLStates = [''3D000'', ''08003'', ''08006'', ''57P01'', ''57P03'']"

definition connectivityErrorFragments :: "string list" where
  "connectivityErrorFragments = [''connection reset'', ''connection refused'', ''broken pipe'',
     ''no such host'', ''i/o timeout'', ''server closed the connection'']"

text \<open>\<open>errors.AsType[*pgconn.PgError]\<close>: the SQLSTATE of the first server error of the chain.\<close>

fun first_code :: "err list \<Rightarrow> string option" where
  "first_code [] = None"
| "first_code (PgError code msg # es) = Some code"
| "first_code (e # es) = first_code es"

definition isConnectivityError :: "err option \<Rightarrow> bool" where
  "isConnectivityError eo = (case eo of None \<Rightarrow> False
     | Some e \<Rightarrow>
         if errors_is e ContextCanceled \<or> errors_is e ContextDeadlineExceeded \<or> errors_is e DriverErrBadConn
           \<or> errors_is e SqlErrConnDone \<or> errors_is e NetErrClosed \<or> errors_is e IoEOF then True
         else (case first_code (err_chain e) of
             Some code \<Rightarrow> code \<in> set connectivitySQLStates
           | None \<Rightarrow> (let msg = to_lower (err_text e) in
               list_ex (\<lambda>frag. contains msg frag) connectivityErrorFragments)))"

definition Handled :: err where
  "Handled = HandledError"

definition IsHandled :: "err \<Rightarrow> bool" where
  "IsHandled e \<longleftrightarrow> HandledError \<in> set (err_chain e)"

definition NonRetryable :: "err option \<Rightarrow> err option" where
  "NonRetryable eo = map_option NonRetryableError eo"

fun is_non_retryable :: "err \<Rightarrow> bool" where
  "is_non_retryable (NonRetryableError e) = True"
| "is_non_retryable e = False"

definition IsNonRetryable :: "err \<Rightarrow> bool" where
  "IsNonRetryable e \<longleftrightarrow> list_ex is_non_retryable (err_chain e)"

text \<open>\<open>logFailure\<close>: warn for connectivity failures, error for all others.\<close>

definition logFailure :: "string \<Rightarrow> err \<Rightarrow> unit io" where
  "logFailure msg e = log_msg (if isConnectivityError (Some e) then LevelWarn else LevelError) msg"

section \<open>Backoff\<close>

text \<open>
  \<open>float64(base)\<close>: an integer rounded to 53 significant bits, ties to even. Multiplying by a power
  of two is exact, up to \<open>2^1023\<close>; \<open>math.Pow(2, k)\<close> is infinite above.
\<close>

fun bit_length :: "nat \<Rightarrow> nat" where
  "bit_length n = (if n = 0 then 0 else bit_length (n div 2) + 1)"

declare bit_length.simps [simp del]

definition round53 :: "int \<Rightarrow> int" where
  "round53 x = (let b = bit_length (nat \<bar>x\<bar>); k = b - 53; u = 2 ^ k; q = \<bar>x\<bar> div u; r = \<bar>x\<bar> mod u;
      q' = (if 2 * r > u \<or> (2 * r = u \<and> odd q) then q + 1 else q)
    in sgn x * (q' * u))"

text \<open>
  \<open>time.Duration(f)\<close> is exact in the range of \<open>int64\<close> and implementation-specific outside it and
  for NaN: \<open>outside\<close> is the value the platform gives.
\<close>

definition max_int64 :: int where "max_int64 = 2 ^ 63 - 1"

definition scaled :: "int \<Rightarrow> int \<Rightarrow> nat \<Rightarrow> int" where
  "scaled outside base k = (if 1023 < k then outside
     else let v = round53 base * 2 ^ k in if - (2 ^ 63) \<le> v \<and> v \<le> max_int64 then v else outside)"

text \<open>\<open>rnd n\<close> is the draw of \<open>rand.Int64N(n)\<close>.\<close>

definition ExponentialBackoff :: "int \<Rightarrow> (int \<Rightarrow> int) \<Rightarrow> int \<Rightarrow> int \<Rightarrow> int \<Rightarrow> int" where
  "ExponentialBackoff outside rnd base att cap =
     (let att' = (if att \<le> 0 then 1 else att);
          maxDelay = scaled outside base (nat (att' - 1));
          maxDelay' = (if maxDelay > cap \<or> maxDelay \<le> 0 then cap else maxDelay)
      in if maxDelay' \<le> 0 then 0 else rnd maxDelay')"

section \<open>Handlers and their registry\<close>

type_synonym handler = "ctx \<Rightarrow> job \<Rightarrow> err option io"
type_synonym registry = "(string \<times> handler) list"

definition NewHandlerRegistry :: registry where
  "NewHandlerRegistry = []"

text \<open>A nil registry and a nil handler are \<open>None\<close>.\<close>

definition Register :: "registry option \<Rightarrow> string \<Rightarrow> handler option \<Rightarrow> registry result" where
  "Register r queueName h = (case r of None \<Rightarrow> Inl (Sentinel ErrNilRegistry)
     | Some reg \<Rightarrow>
         if queueName = [] then Inl (Sentinel ErrInvalidQueue)
         else (case h of None \<Rightarrow> Inl (Sentinel ErrInvalidHandler)
           | Some handler \<Rightarrow>
               if \<not> Option.is_none (map_of reg queueName)
               then Inl (Wrapf [] (Sentinel ErrHandlerAlreadySet) ('': '' @ queueName))
               else Inr (reg @ [(queueName, handler)])))"

definition get_handler :: "registry \<Rightarrow> string \<Rightarrow> handler option" where
  "get_handler r queueName = map_of r queueName"

text \<open>\<open>sort.Strings\<close> orders by bytes.\<close>

definition queueNames :: "registry \<Rightarrow> string list" where
  "queueNames r = sort (map fst r)"

text \<open>\<open>decode\<close> is \<open>json.Unmarshal\<close> into the payload type.\<close>

definition RegisterJSONTyped ::
  "(string \<Rightarrow> err + 'p) \<Rightarrow> registry option \<Rightarrow> string \<Rightarrow> (ctx \<Rightarrow> 'p \<Rightarrow> job \<Rightarrow> err option io) option \<Rightarrow> registry result" where
  "RegisterJSONTyped decode r queueName h = (case h of None \<Rightarrow> Inl (Sentinel ErrInvalidHandler)
     | Some handler \<Rightarrow> Register r queueName (Some (\<lambda>x job. case decode (Payload job) of
           Inl e \<Rightarrow> State_Monad.return (NonRetryable (Some (wrap ''decode queue payload: '' e)))
         | Inr payload \<Rightarrow> handler x payload job)))"

definition RegisterJSON ::
  "(string \<Rightarrow> err + 'p) \<Rightarrow> registry option \<Rightarrow> string \<Rightarrow> (ctx \<Rightarrow> 'p \<Rightarrow> err option io) option \<Rightarrow> registry result" where
  "RegisterJSON decode r queueName h = (case h of None \<Rightarrow> Inl (Sentinel ErrInvalidHandler)
     | Some handler \<Rightarrow> RegisterJSONTyped decode r queueName (Some (\<lambda>x payload _. handler x payload)))"

section \<open>Typed queues\<close>

record typed_queue =
  tq_client :: "client option"
  tq_name :: string
  tq_AvailableAt :: "int option"
  tq_MaxAttempts :: int

definition TypedQueue :: "client option \<Rightarrow> string \<Rightarrow> typed_queue" where
  "TypedQueue c name = \<lparr>tq_client = c, tq_name = name, tq_AvailableAt = None, tq_MaxAttempts = 0\<rparr>"

definition WithOptions :: "typed_queue \<Rightarrow> int option \<Rightarrow> int \<Rightarrow> typed_queue" where
  "WithOptions q avail m = q\<lparr>tq_AvailableAt := avail, tq_MaxAttempts := m\<rparr>"

text \<open>\<open>marshal\<close> is \<open>json.Marshal\<close> of the payload, \<open>quote\<close> the verb \<open>%q\<close>.\<close>

definition encode :: "('p \<Rightarrow> err + string) \<Rightarrow> (string \<Rightarrow> string) \<Rightarrow> typed_queue \<Rightarrow> 'p \<Rightarrow> enqueue_params result" where
  "encode marshal quote q payload =
     (if nil_db (tq_client q) then Inl (Sentinel ErrNilDB)
      else if tq_name q = [] then Inl (Sentinel ErrInvalidQueue)
      else (case marshal payload of
          Inl e \<Rightarrow> Inl (wrap (''pgqueue: encode payload for '' @ quote (tq_name q) @ '': '') e)
        | Inr encoded \<Rightarrow> Inr \<lparr>ep_QueueName = tq_name q, ep_Payload = encoded,
            ep_AvailableAt = tq_AvailableAt q, ep_MaxAttempts = tq_MaxAttempts q\<rparr>))"

definition typed_Enqueue :: "('p \<Rightarrow> err + string) \<Rightarrow> (string \<Rightarrow> string) \<Rightarrow> typed_queue \<Rightarrow> ctx \<Rightarrow> 'p \<Rightarrow> int result io" where
  "typed_Enqueue marshal quote q x payload = (case encode marshal quote q payload of
       Inl e \<Rightarrow> State_Monad.return (Inl e) | Inr p \<Rightarrow> Enqueue (tq_client q) x p)"

definition typed_EnqueueTx ::
  "('p \<Rightarrow> err + string) \<Rightarrow> (string \<Rightarrow> string) \<Rightarrow> typed_queue \<Rightarrow> ctx \<Rightarrow> bool \<Rightarrow> 'p \<Rightarrow> int result io" where
  "typed_EnqueueTx marshal quote q x tx payload = (case encode marshal quote q payload of
       Inl e \<Rightarrow> State_Monad.return (Inl e) | Inr p \<Rightarrow> EnqueueTx (tq_client q) x tx p)"

definition typed_Register ::
  "(string \<Rightarrow> err + 'p) \<Rightarrow> typed_queue \<Rightarrow> registry option \<Rightarrow> (ctx \<Rightarrow> 'p \<Rightarrow> job \<Rightarrow> err option io) option \<Rightarrow> registry result" where
  "typed_Register decode q r h = RegisterJSONTyped decode r (tq_name q) h"

section \<open>Configuration\<close>

record worker_config =
  WorkerID :: string
  Pickup :: pickup
  PollInterval :: int
  ReapInterval :: int
  VisibilityTimeout :: int
  BatchSizePerQueue :: int
  BackoffBase :: int
  BackoffMax :: int
  RetryDelay :: "(job \<Rightarrow> err \<Rightarrow> int) option"
  OnJobFailed :: "(ctx \<Rightarrow> job \<Rightarrow> unit io) option"
  OnJobStuck :: "(ctx \<Rightarrow> reap_result \<Rightarrow> unit io) option"

abbreviation second :: int where "second \<equiv> 1000000000"

text \<open>The default \<open>RetryDelay\<close> closes over the configuration with its defaults.\<close>

definition worker_withDefaults :: "int \<Rightarrow> (int \<Rightarrow> int) \<Rightarrow> worker_config \<Rightarrow> worker_config" where
  "worker_withDefaults outside rnd c0 =
     (let c1 = (if WorkerID c0 = [] then c0\<lparr>WorkerID := ''pgqueue-worker''\<rparr> else c0);
          c2 = (if isZero (Pickup c1)
                then c1\<lparr>Pickup := PollEvery (if PollInterval c1 \<le> 0 then second else PollInterval c1)\<rparr> else c1);
          c3 = (if ReapInterval c2 \<le> 0 then c2\<lparr>ReapInterval := 30 * second\<rparr> else c2);
          c4 = (if VisibilityTimeout c3 \<le> 0 then c3\<lparr>VisibilityTimeout := 120 * second\<rparr> else c3);
          c5 = (if BatchSizePerQueue c4 \<le> 0 then c4\<lparr>BatchSizePerQueue := 25\<rparr> else c4);
          c6 = (if BackoffBase c5 \<le> 0 then c5\<lparr>BackoffBase := second\<rparr> else c5);
          c7 = (if BackoffMax c6 \<le> 0 then c6\<lparr>BackoffMax := 300 * second\<rparr> else c6)
      in if Option.is_none (RetryDelay c7)
         then c7\<lparr>RetryDelay := Some (\<lambda>job _.
           ExponentialBackoff outside rnd (BackoffBase c7) (Attempts job) (BackoffMax c7))\<rparr>
         else c7)"

definition worker_validate :: "worker_config \<Rightarrow> err option" where
  "worker_validate c =
     (if scanEvery (Pickup c) \<le> 0 \<or> ReapInterval c \<le> 0 \<or> VisibilityTimeout c \<le> 0
      then Some (Sentinel ErrInvalidWorkerConfig)
      else if BatchSizePerQueue c \<le> 0 then Some (Sentinel ErrInvalidWorkerConfig)
      else if BackoffBase c \<le> 0 \<or> BackoffMax c \<le> 0 then Some (Sentinel ErrInvalidWorkerConfig)
      else if Option.is_none (RetryDelay c) then Some (Sentinel ErrInvalidWorkerConfig)
      else None)"

record worker =
  w_client :: client
  w_registry :: registry
  w_cfg :: worker_config

definition NewWorker :: "int \<Rightarrow> (int \<Rightarrow> int) \<Rightarrow> client option \<Rightarrow> registry option \<Rightarrow> worker_config \<Rightarrow> worker result" where
  "NewWorker outside rnd c reg cfg =
     (if nil_db c then Inl (Sentinel ErrNilDB)
      else (case reg of None \<Rightarrow> Inl (Sentinel ErrNilRegistry)
        | Some registry \<Rightarrow>
            if 0 < PollInterval cfg \<and> \<not> isZero (Pickup cfg)
            then Inl (Wrapf [] (Sentinel ErrInvalidWorkerConfig) '': set Pickup or PollInterval, not both'')
            else let cfg' = worker_withDefaults outside rnd cfg in
              (case worker_validate cfg' of Some e \<Rightarrow> Inl e
               | None \<Rightarrow>
                   if onEnqueue (Pickup cfg') \<and> \<not> supportsNotifications (the c)
                   then Inl (Sentinel ErrNotificationsUnsupported)
                   else Inr \<lparr>w_client = the c, w_registry = registry, w_cfg = cfg'\<rparr>)))"

section \<open>The builder\<close>

record worker_builder =
  b_client :: "client option"
  b_config :: worker_config
  b_registrations :: "(registry option \<Rightarrow> registry result) list"

definition zero_config :: worker_config where
  "zero_config = \<lparr>WorkerID = [], Pickup = \<lparr>onEnqueue = False, scanEvery = 0\<rparr>, PollInterval = 0,
     ReapInterval = 0, VisibilityTimeout = 0, BatchSizePerQueue = 0, BackoffBase = 0, BackoffMax = 0,
     RetryDelay = None, OnJobFailed = None, OnJobStuck = None\<rparr>"

definition Worker_builder :: "client option \<Rightarrow> string \<Rightarrow> worker_builder" where
  "Worker_builder c i = \<lparr>b_client = c, b_config = zero_config\<lparr>WorkerID := i\<rparr>, b_registrations = []\<rparr>"

definition builder_Pickup :: "worker_builder \<Rightarrow> pickup \<Rightarrow> worker_builder" where
  "builder_Pickup b p = b\<lparr>b_config := (b_config b)\<lparr>Pickup := p\<rparr>\<rparr>"

definition Tune :: "worker_builder \<Rightarrow> worker_config \<Rightarrow> worker_builder" where
  "Tune b cfg = b\<lparr>b_config := cfg\<lparr>WorkerID := WorkerID (b_config b), Pickup := Pickup (b_config b)\<rparr>\<rparr>"

definition builder_with :: "worker_builder \<Rightarrow> (registry option \<Rightarrow> registry result) \<Rightarrow> worker_builder" where
  "builder_with b reg = b\<lparr>b_registrations := b_registrations b @ [reg]\<rparr>"

definition builder_Handle ::
  "(string \<Rightarrow> err + 'p) \<Rightarrow> worker_builder \<Rightarrow> typed_queue \<Rightarrow> (ctx \<Rightarrow> 'p \<Rightarrow> job \<Rightarrow> err option io) option \<Rightarrow> worker_builder" where
  "builder_Handle decode b q h = builder_with b (\<lambda>r. typed_Register decode q r h)"

definition builder_HandleRaw :: "worker_builder \<Rightarrow> string \<Rightarrow> handler option \<Rightarrow> worker_builder" where
  "builder_HandleRaw b q h = builder_with b (\<lambda>r. Register r q h)"

fun register_all :: "(registry option \<Rightarrow> registry result) list \<Rightarrow> registry \<Rightarrow> registry result" where
  "register_all [] r = Inr r"
| "register_all (f # fs) r = (case f (Some r) of Inl e \<Rightarrow> Inl e | Inr r' \<Rightarrow> register_all fs r')"

definition Build :: "int \<Rightarrow> (int \<Rightarrow> int) \<Rightarrow> worker_builder \<Rightarrow> worker result" where
  "Build outside rnd b = (case register_all (b_registrations b) NewHandlerRegistry of
       Inl e \<Rightarrow> Inl e | Inr r \<Rightarrow> NewWorker outside rnd (b_client b) (Some r) (b_config b))"

section \<open>Running jobs\<close>

text \<open>
  What the worker uses of OpenTelemetry: decoding a stored carrier, the propagator's \<open>Extract\<close> and
  the start of the consumer span, each giving the context to go on with.
\<close>

record telemetry =
  unmarshal_carrier :: "string \<Rightarrow> (string \<times> string) list option"
  extract_carrier :: "ctx \<Rightarrow> (string \<times> string) list \<Rightarrow> ctx"
  start_span :: "ctx \<Rightarrow> string \<Rightarrow> ctx"

definition extractTraceContext :: "telemetry \<Rightarrow> ctx \<Rightarrow> string option \<Rightarrow> ctx" where
  "extractTraceContext otel x stored = (case stored of None \<Rightarrow> x
     | Some t \<Rightarrow> (case unmarshal_carrier otel t of None \<Rightarrow> x | Some carrier \<Rightarrow> extract_carrier otel x carrier))"

definition startJobSpan :: "telemetry \<Rightarrow> ctx \<Rightarrow> job \<Rightarrow> ctx" where
  "startJobSpan otel x job =
     start_span otel (extractTraceContext otel x (traceContext job)) (''pgkit.queue '' @ QueueName job)"

definition settleTimeout :: int where
  "settleTimeout = 30 * second"

text \<open>\<open>context.WithTimeout(context.WithoutCancel(ctx), d)\<close>.\<close>

definition detached :: "ctx \<Rightarrow> int \<Rightarrow> ctx io" where
  "detached x d = do { w \<leftarrow> State_Monad.get;
     State_Monad.return (x\<lparr>ctx_end := Some (clock w + interval d, ContextDeadlineExceeded)\<rparr>) }"

definition notifyJobFailed :: "worker \<Rightarrow> ctx \<Rightarrow> job \<Rightarrow> err \<Rightarrow> unit io" where
  "notifyJobFailed wk x job cause = (case OnJobFailed (w_cfg wk) of
       None \<Rightarrow> State_Monad.return ()
     | Some f \<Rightarrow> f x (job\<lparr>Status := StatusFailed, LastError := Some (err_text cause)\<rparr>))"

text \<open>The delay of a configuration without \<open>RetryDelay\<close> is never used: \<open>NewWorker\<close> sets one.\<close>

definition retry_delay :: "worker_config \<Rightarrow> job \<Rightarrow> err \<Rightarrow> int" where
  "retry_delay cfg job cause = (case RetryDelay cfg of None \<Rightarrow> 0 | Some f \<Rightarrow> f job cause)"

definition settle :: "worker \<Rightarrow> ctx \<Rightarrow> job \<Rightarrow> err option \<Rightarrow> string io" where
  "settle wk workerCtx job handlerErr = do {
     x \<leftarrow> detached workerCtx settleTimeout;
     (case handlerErr of
        None \<Rightarrow> do {
          r \<leftarrow> Ack (Some (w_client wk)) (ID job);
          (case r of Inl _ \<Rightarrow> log_msg LevelError ''queue ack failed'' | Inr _ \<Rightarrow> State_Monad.return ());
          State_Monad.return ''done'' }
      | Some e \<Rightarrow>
          if IsHandled e then State_Monad.return ''handled''
          else if IsNonRetryable e then do {
            r \<leftarrow> FailJob (Some (w_client wk)) (ID job) (Some e);
            (case r of Inl _ \<Rightarrow> log_msg LevelError ''queue fail failed'' | Inr _ \<Rightarrow> notifyJobFailed wk x job e);
            State_Monad.return ''failed'' }
          else do {
            r \<leftarrow> Retry (Some (w_client wk)) (ID job) (retry_delay (w_cfg wk) job e) (Some e);
            (case r of
               Inl _ \<Rightarrow> do { log_msg LevelError ''queue retry failed''; State_Monad.return ''retry'' }
             | Inr _ \<Rightarrow>
                 if MaxAttempts job \<le> Attempts job
                 then do { notifyJobFailed wk x job e; State_Monad.return ''failed'' }
                 else State_Monad.return ''retry'') }) }"

text \<open>\<open>run\<close>; what \<open>recordJobOutcome\<close> puts on the span is the outcome \<open>settle\<close> returns.\<close>

definition run_job :: "telemetry \<Rightarrow> worker \<Rightarrow> ctx \<Rightarrow> handler \<Rightarrow> job \<Rightarrow> string io" where
  "run_job otel wk workerCtx h job = do {
     let x = startJobSpan otel workerCtx job;
     handlerErr \<leftarrow> h x job;
     settle wk x job handlerErr }"

definition worker_claim :: "worker \<Rightarrow> ctx \<Rightarrow> string \<Rightarrow> job option result io" where
  "worker_claim wk workerCtx queueName = do {
     x \<leftarrow> detached workerCtx settleTimeout;
     Claim (Some (w_client wk)) x queueName (WorkerID (w_cfg wk)) }"

definition hand_back_failed :: "unit io" where
  "hand_back_failed = log_msg LevelError ''queue hand back failed''"

text \<open>\<open>time.Unix(0, 0)\<close> is time 0.\<close>

definition handBack :: "worker \<Rightarrow> job \<Rightarrow> unit io" where
  "handBack wk job = do {
     b \<leftarrow> begin_tx;
     (case b of Inl _ \<Rightarrow> hand_back_failed
      | Inr _ \<Rightarrow> deferring_rollback (do {
          r \<leftarrow> SnoozeTx (Some (w_client wk)) True job (Some 0);
          (case r of Inl _ \<Rightarrow> hand_back_failed
           | Inr _ \<Rightarrow> do {
               c \<leftarrow> commit_tx;
               (case c of Inl _ \<Rightarrow> hand_back_failed | Inr _ \<Rightarrow> State_Monad.return ()) }) })) }"

text \<open>
  The inner loop of \<open>scan\<close>, with the number of claims still allowed and the number made; it
  returns the latter and whether a claim failed.
\<close>

fun claim_batch :: "telemetry \<Rightarrow> worker \<Rightarrow> ctx \<Rightarrow> handler \<Rightarrow> string \<Rightarrow> nat \<Rightarrow> nat \<Rightarrow> (nat \<times> bool) io" where
  "claim_batch otel wk x h q 0 made = State_Monad.return (made, False)"
| "claim_batch otel wk x h q (Suc left) made = do {
     w \<leftarrow> State_Monad.get;
     if ctx_err x w \<noteq> None then State_Monad.return (made, False)
     else do {
       r \<leftarrow> worker_claim wk x q;
       (case r of
          Inl e \<Rightarrow> do { logFailure ''queue claim failed'' e; State_Monad.return (made, True) }
        | Inr None \<Rightarrow> State_Monad.return (made, False)
        | Inr (Some job) \<Rightarrow> do {
            w' \<leftarrow> State_Monad.get;
            if ctx_err x w' \<noteq> None then do { handBack wk job; State_Monad.return (made, False) }
            else do { run_job otel wk x h job; claim_batch otel wk x h q left (made + 1) } }) } }"

record scan_result =
  batchFilled :: bool
  claimFailed :: bool

fun scan_queues :: "telemetry \<Rightarrow> worker \<Rightarrow> ctx \<Rightarrow> string list \<Rightarrow> scan_result \<Rightarrow> scan_result io" where
  "scan_queues otel wk x [] res = State_Monad.return res"
| "scan_queues otel wk x (q # qs) res = (case get_handler (w_registry wk) q of
       None \<Rightarrow> scan_queues otel wk x qs res
     | Some h \<Rightarrow> do {
         (made, failed) \<leftarrow> claim_batch otel wk x h q (nat (BatchSizePerQueue (w_cfg wk))) 0;
         scan_queues otel wk x qs
           \<lparr>batchFilled = batchFilled res \<or> int made = BatchSizePerQueue (w_cfg wk),
            claimFailed = claimFailed res \<or> failed\<rparr> })"

definition scan :: "telemetry \<Rightarrow> worker \<Rightarrow> ctx \<Rightarrow> scan_result io" where
  "scan otel wk x = scan_queues otel wk x (queueNames (w_registry wk)) \<lparr>batchFilled = False, claimFailed = False\<rparr>"

definition worker_reap :: "worker \<Rightarrow> ctx \<Rightarrow> err option io" where
  "worker_reap wk x =
     (if queueNames (w_registry wk) = [] then State_Monad.return None
      else do {
        (result, e) \<leftarrow> Reap (Some (w_client wk))
          \<lparr>rp_VisibilityTimeout = VisibilityTimeout (w_cfg wk), rp_QueueNames = queueNames (w_registry wk)\<rparr>;
        (case e of Some err \<Rightarrow> State_Monad.return (Some err)
         | None \<Rightarrow>
             if 0 < Requeued result \<or> 0 < Failed result then do {
               log_msg LevelWarn ''queue reaped stuck jobs'';
               (case OnJobStuck (w_cfg wk) of None \<Rightarrow> State_Monad.return () | Some f \<Rightarrow> f x result);
               State_Monad.return None }
             else State_Monad.return None) })"

section \<open>The run loop\<close>

text \<open>
  What the select of \<open>Run\<close> can see. \<open>Notified\<close> is a send on the wake channel by the notifier, between
  two rounds. A scan event carries what \<open>seesEveryLaterJob()\<close> answers when it is read: the
  subscription's \<open>listening\<close> flag, or true for a polling worker.
\<close>

datatype tick = CtxDone | ScanTick bool | WakeTick bool | ReapTick | Notified

record loop =
  wake_pending :: bool
  ready :: bool
  finished :: bool

text \<open>\<open>listen\<close>: a polling worker starts with a wake of its own.\<close>

definition listen_wake :: "worker \<Rightarrow> bool" where
  "listen_wake wk \<longleftrightarrow> \<not> onEnqueue (Pickup (w_cfg wk))"

definition scan_round :: "telemetry \<Rightarrow> worker \<Rightarrow> ctx \<Rightarrow> bool \<Rightarrow> loop \<Rightarrow> loop io" where
  "scan_round otel wk x sees st = do {
     res \<leftarrow> scan otel wk x;
     State_Monad.return (st\<lparr>wake_pending := wake_pending st \<or> batchFilled res,
       ready := ready st \<or> (sees \<and> \<not> claimFailed res)\<rparr>) }"

definition run_tick :: "telemetry \<Rightarrow> worker \<Rightarrow> ctx \<Rightarrow> tick \<Rightarrow> loop \<Rightarrow> loop io" where
  "run_tick otel wk x t st =
     (if finished st then State_Monad.return st
      else (case t of
        CtxDone \<Rightarrow> State_Monad.return (st\<lparr>finished := True\<rparr>)
      | Notified \<Rightarrow> State_Monad.return (st\<lparr>wake_pending := True\<rparr>)
      | ScanTick sees \<Rightarrow> scan_round otel wk x (sees \<or> listen_wake wk) st
      | WakeTick sees \<Rightarrow>
          if wake_pending st then scan_round otel wk x (sees \<or> listen_wake wk) (st\<lparr>wake_pending := False\<rparr>)
          else State_Monad.return st
      | ReapTick \<Rightarrow> do {
          e \<leftarrow> worker_reap wk x;
          (case e of None \<Rightarrow> State_Monad.return () | Some err \<Rightarrow> logFailure ''queue reap cycle failed'' err);
          State_Monad.return st }))"

fun run_ticks :: "telemetry \<Rightarrow> worker \<Rightarrow> ctx \<Rightarrow> tick list \<Rightarrow> loop \<Rightarrow> loop io" where
  "run_ticks otel wk x [] st = State_Monad.return st"
| "run_ticks otel wk x (t # ts) st = do { st' \<leftarrow> run_tick otel wk x t st; run_ticks otel wk x ts st' }"

text \<open>\<open>Run\<close> over the ticks of its select; \<open>running\<close> is the worker's flag.\<close>

definition Run :: "telemetry \<Rightarrow> worker \<Rightarrow> ctx \<Rightarrow> bool \<Rightarrow> tick list \<Rightarrow> loop result io" where
  "Run otel wk x running ts =
     (if running then State_Monad.return (Inl (Sentinel ErrWorkerRunning))
      else do {
        st \<leftarrow> run_ticks otel wk x ts \<lparr>wake_pending = listen_wake wk, ready = False, finished = False\<rparr>;
        State_Monad.return (Inr st) })"

section \<open>Exact conversions\<close>

lemma bit_length_le: "n < 2 ^ k \<Longrightarrow> bit_length n \<le> k"
proof (induction k arbitrary: n)
  case 0
  then show ?case by (simp add: bit_length.simps)
next
  case (Suc k)
  then have "bit_length (n div 2) \<le> k" by (intro Suc.IH) auto
  then show ?case by (subst bit_length.simps) simp
qed

lemma round53_exact:
  assumes "0 \<le> x" "x < 2 ^ 53"
  shows "round53 x = x"
proof -
  have "bit_length (nat x) \<le> 53" using assms by (intro bit_length_le) (simp add: nat_less_iff)
  with assms show ?thesis by (auto simp: round53_def Let_def sgn_if)
qed

end
