(* ===== verification/Queue_Retention.thy ===== *)
theory Queue_Retention
  imports Queue_Worker "HOL-Library.Multiset"
begin

text \<open>
  Retention of finished jobs: \<open>queue/retention.go\<close>. The delete loop runs on fuel; its result is
  \<open>None\<close> when the fuel runs out, and more fuel than rows is enough. A \<open>LIMIT\<close> without \<open>ORDER BY\<close>
  may take any of the matching rows: \<open>visit\<close> is the order in which the server finds them.
\<close>

record retention_policy =
  KeepDone :: int
  KeepFailed :: int
  RetentionInterval :: int
  BatchSize :: int

record retention_result =
  rr_Done :: int
  rr_Failed :: int

definition defaultRetentionInterval :: int where
  "defaultRetentionInterval = 3600 * second"

definition defaultRetentionBatchSize :: int where
  "defaultRetentionBatchSize = 1000"

definition policy_withDefaults :: "retention_policy \<Rightarrow> retention_policy" where
  "policy_withDefaults p =
     (let p1 = (if RetentionInterval p = 0 then p\<lparr>RetentionInterval := defaultRetentionInterval\<rparr> else p)
      in if BatchSize p1 = 0 then p1\<lparr>BatchSize := defaultRetentionBatchSize\<rparr> else p1)"

definition policy_validate :: "retention_policy \<Rightarrow> err option" where
  "policy_validate p =
     (if KeepDone p < 0 \<or> KeepFailed p < 0 \<or> RetentionInterval p \<le> 0 \<or> BatchSize p \<le> 0
      then Some (Sentinel ErrInvalidRetentionPolicy)
      else if KeepDone p = 0 \<and> KeepFailed p = 0
      then Some (Wrapf [] (Sentinel ErrInvalidRetentionPolicy) '': set KeepDone or KeepFailed'')
      else None)"

definition Validate :: "retention_policy \<Rightarrow> err option" where
  "Validate p = policy_validate (policy_withDefaults p)"

type_synonym visit_order = "job list \<Rightarrow> job list"

definition expired :: "job_status \<Rightarrow> int \<Rightarrow> int \<Rightarrow> job \<Rightarrow> bool" where
  "expired status keep n j \<longleftrightarrow> Status j = status \<and> UpdatedAt j < n - interval keep"

text \<open>\<open>deleteExpiredDoneSQL\<close> and \<open>deleteExpiredFailedSQL\<close>.\<close>

definition delete_expired_rows :: "visit_order \<Rightarrow> job_status \<Rightarrow> int \<Rightarrow> int \<Rightarrow> int statement" where
  "delete_expired_rows visit status keep batch w =
     (let ids = map ID (take (nat batch) (visit (filter
            (\<lambda>j. expired status keep (now w) j \<and> ID j \<notin> set (row_locks w)) (jobs (db w)))))
      in on_db (\<lambda>_. delete_jobs (\<lambda>j. ID j \<in> set ids)) w)"

fun deleteExpired ::
  "nat \<Rightarrow> visit_order \<Rightarrow> ctx \<Rightarrow> job_status \<Rightarrow> int \<Rightarrow> int \<Rightarrow> int \<Rightarrow> (int \<times> err option) option io" where
  "deleteExpired 0 visit x status keep batch tot = State_Monad.return None"
| "deleteExpired (Suc fuel) visit x status keep batch tot = do {
     w \<leftarrow> State_Monad.get;
     (case ctx_err x w of
        Some e \<Rightarrow> State_Monad.return (Some (tot, Some e))
      | None \<Rightarrow> do {
          r \<leftarrow> query (delete_expired_rows visit status keep batch);
          (case r of
             Inl e \<Rightarrow> State_Monad.return (Some (tot, Some e))
           | Inr deleted \<Rightarrow>
               if deleted < batch then State_Monad.return (Some (tot + deleted, None))
               else deleteExpired fuel visit x status keep batch (tot + deleted)) }) }"

text \<open>One of the two purges of \<open>PurgeFinished\<close>: skipped when its retention is zero.\<close>

definition purge_status ::
  "nat \<Rightarrow> visit_order \<Rightarrow> ctx \<Rightarrow> job_status \<Rightarrow> int \<Rightarrow> int \<Rightarrow> (int \<times> err option) option io" where
  "purge_status fuel visit x status keep batch =
     (if 0 < keep then deleteExpired fuel visit x status keep batch 0
      else State_Monad.return (Some (0, None)))"

definition purge_events :: "retention_result \<Rightarrow> unit io" where
  "purge_events res = do {
     (if 0 < rr_Done res then emit (EventPurge ''done'' (rr_Done res)) else State_Monad.return ());
     (if 0 < rr_Failed res then emit (EventPurge ''failed'' (rr_Failed res)) else State_Monad.return ());
     (if 0 < rr_Done res \<or> 0 < rr_Failed res
      then log_msg LevelInfo ''queue purged finished jobs'' else State_Monad.return ()) }"

definition PurgeFinished ::
  "nat \<Rightarrow> visit_order \<Rightarrow> client option \<Rightarrow> ctx \<Rightarrow> retention_policy \<Rightarrow> (retention_result \<times> err option) option io" where
  "PurgeFinished fuel visit c x policy0 =
     (if nil_db c then State_Monad.return (Some (\<lparr>rr_Done = 0, rr_Failed = 0\<rparr>, Some (Sentinel ErrNilDB)))
      else let policy = policy_withDefaults policy0 in
        (case policy_validate policy of
           Some e \<Rightarrow> State_Monad.return (Some (\<lparr>rr_Done = 0, rr_Failed = 0\<rparr>, Some e))
         | None \<Rightarrow> do {
             d \<leftarrow> purge_status fuel visit x StatusDone (KeepDone policy) (BatchSize policy);
             (case d of
                None \<Rightarrow> State_Monad.return None
              | Some (nd, Some e) \<Rightarrow> State_Monad.return
                  (Some (\<lparr>rr_Done = nd, rr_Failed = 0\<rparr>, Some (wrap ''pgqueue: purge done jobs: '' e)))
              | Some (nd, None) \<Rightarrow> do {
                  f \<leftarrow> purge_status fuel visit x StatusFailed (KeepFailed policy) (BatchSize policy);
                  (case f of
                     None \<Rightarrow> State_Monad.return None
                   | Some (nf, Some e) \<Rightarrow> State_Monad.return
                       (Some (\<lparr>rr_Done = nd, rr_Failed = nf\<rparr>, Some (wrap ''pgqueue: purge failed jobs: '' e)))
                   | Some (nf, None) \<Rightarrow> do {
                       purge_events \<lparr>rr_Done = nd, rr_Failed = nf\<rparr>;
                       State_Monad.return (Some (\<lparr>rr_Done = nd, rr_Failed = nf\<rparr>, None)) }) }) }))"

text \<open>
  \<open>RunRetention\<close> over the ticks of its select, each given as the time that passes before it; it
  returns when the context has ended.
\<close>

definition retention_round :: "nat \<Rightarrow> visit_order \<Rightarrow> client option \<Rightarrow> ctx \<Rightarrow> retention_policy \<Rightarrow> unit io" where
  "retention_round fuel visit c x policy = do {
     r \<leftarrow> PurgeFinished fuel visit c x policy;
     w \<leftarrow> State_Monad.get;
     (case r of
        Some (_, Some e) \<Rightarrow>
          if ctx_err x w = None then logFailure ''queue retention purge failed'' e else State_Monad.return ()
      | _ \<Rightarrow> State_Monad.return ()) }"

fun retention_loop ::
  "nat \<Rightarrow> visit_order \<Rightarrow> client option \<Rightarrow> ctx \<Rightarrow> retention_policy \<Rightarrow> nat list \<Rightarrow> unit io" where
  "retention_loop fuel visit c x policy [] = retention_round fuel visit c x policy"
| "retention_loop fuel visit c x policy (dt # ticks) = do {
     retention_round fuel visit c x policy;
     State_Monad.update (\<lambda>w. w\<lparr>clock := clock w + int dt\<rparr>);
     w \<leftarrow> State_Monad.get;
     (if ctx_err x w \<noteq> None then State_Monad.return ()
      else retention_loop fuel visit c x policy ticks) }"

definition RunRetention ::
  "nat \<Rightarrow> visit_order \<Rightarrow> client option \<Rightarrow> ctx \<Rightarrow> retention_policy \<Rightarrow> nat list \<Rightarrow> err option io" where
  "RunRetention fuel visit c x policy0 ticks =
     (if nil_db c then State_Monad.return (Some (Sentinel ErrNilDB))
      else let policy = policy_withDefaults policy0 in
        (case policy_validate policy of
           Some e \<Rightarrow> State_Monad.return (Some e)
         | None \<Rightarrow> do { retention_loop fuel visit c x policy ticks; State_Monad.return None }))"

section \<open>Unfinished jobs are safe\<close>

text \<open>A set of rows is still there.\<close>

definition rows_kept :: "job set \<Rightarrow> int \<Rightarrow> int \<Rightarrow> database \<Rightarrow> bool" where
  "rows_kept A js gs d \<longleftrightarrow> A \<subseteq> set (jobs d) \<and> distinct (map ID (jobs d))"

interpretation kept: db_invariant "rows_kept A" for A
  by unfold_locales (auto simp: rows_kept_def)

lemma visited:
  assumes "\<And>xs. mset (visit xs) = mset xs"
  shows "set (visit xs) = set xs" "length (visit xs) = length xs" "distinct (visit xs) = distinct xs"
  using assms [of xs] by (metis set_mset_mset, metis size_mset, metis mset_eq_imp_distinct_iff)

lemma delete_expired_spec:
  fixes w :: world and status :: job_status and keep :: int
  defines "old \<equiv> \<lambda>j. expired status keep (now w) j \<and> ID j \<notin> set (row_locks w)"
  assumes visit: "\<And>xs. mset (visit xs) = mset xs" and d: "distinct (map ID (jobs (db w)))"
  obtains gone where "delete_expired_rows visit status keep batch w =
       (count_where gone (jobs (db w)), w\<lparr>db := (db w)\<lparr>jobs := del_where gone (jobs (db w))\<rparr>\<rparr>)"
    "\<And>j. j \<in> set (jobs (db w)) \<Longrightarrow> gone j \<Longrightarrow> old j"
    "\<And>j. count_where gone (jobs (db w)) < batch \<Longrightarrow> j \<in> set (jobs (db w)) \<Longrightarrow> old j \<Longrightarrow> gone j"
    "count_where gone (jobs (db w)) \<le> max 0 batch"
proof -
  let ?xs = "visit (filter old (jobs (db w)))"
  define ids where "ids = map ID (take (nat batch) ?xs)"
  have xs: "set ?xs = {j \<in> set (jobs (db w)). old j}" "length ?xs = length (filter old (jobs (db w)))"
    using visited [OF visit, of "filter old (jobs (db w))"] by auto
  have dx: "distinct (map ID ?xs)"
    using visit [of "filter old (jobs (db w))"] d
    by (metis distinct_map_filter mset_eq_imp_distinct_iff mset_map)
  then have di: "distinct ids" by (simp add: ids_def take_map [symmetric])
  have sub: "set ids \<subseteq> ID ` {j \<in> set (jobs (db w)). old j}"
    using xs(1) by (auto simp: ids_def dest: in_set_takeD)
  have cnt: "count_where (\<lambda>j. ID j \<in> set ids) (jobs (db w)) = int (length ids)"
    using sub d di by (intro count_where_IDs) auto
  have inj: "i = j" if "i \<in> set (jobs (db w))" "j \<in> set (jobs (db w))" "ID i = ID j" for i j
    using that d by (auto simp: distinct_map inj_on_def)
  show thesis
  proof (rule that [of "\<lambda>j. ID j \<in> set ids"])
    show "delete_expired_rows visit status keep batch w =
       (count_where (\<lambda>j. ID j \<in> set ids) (jobs (db w)),
        w\<lparr>db := (db w)\<lparr>jobs := del_where (\<lambda>j. ID j \<in> set ids) (jobs (db w))\<rparr>\<rparr>)"
      by (simp add: delete_expired_rows_def on_db_def delete_jobs_def ids_def old_def Let_def)
    show "old j" if "j \<in> set (jobs (db w))" "ID j \<in> set ids" for j
    proof -
      from sub that obtain i where "i \<in> set (jobs (db w))" "old i" "ID j = ID i" by auto
      with inj [OF that(1)] show ?thesis by simp
    qed
    show "ID j \<in> set ids" if "count_where (\<lambda>j. ID j \<in> set ids) (jobs (db w)) < batch"
      "j \<in> set (jobs (db w))" "old j" for j
    proof -
      have "ids = map ID ?xs" using that(1) cnt by (auto simp: ids_def)
      then show ?thesis using that(2,3) xs(1) by auto
    qed
    show "count_where (\<lambda>j. ID j \<in> set ids) (jobs (db w)) \<le> max 0 batch"
      using cnt by (simp add: ids_def)
  qed
qed

lemma delete_expired_kept:
  assumes visit: "\<And>xs. mset (visit xs) = mset xs" and A: "\<And>j. j \<in> A \<Longrightarrow> Status j \<noteq> status"
  shows "kept.stable A (delete_expired_rows visit status keep batch)"
  unfolding kept.stable_def Let_def
proof (intro allI impI)
  fix w :: world
  assume k: "rows_kept A (job_seq w) (signal_seq w) (db w)"
  then have "distinct (map ID (jobs (db w)))" by (simp add: rows_kept_def)
  from delete_expired_spec [of visit w status keep batch, OF visit this]
  obtain gone where g: "delete_expired_rows visit status keep batch w =
       (count_where gone (jobs (db w)), w\<lparr>db := (db w)\<lparr>jobs := del_where gone (jobs (db w))\<rparr>\<rparr>)"
    "\<And>j. j \<in> set (jobs (db w)) \<Longrightarrow> gone j \<Longrightarrow> expired status keep (now w) j" by metis
  have "A \<subseteq> {j \<in> set (jobs (db w)). \<not> gone j}"
    using k g(2) A by (auto simp: rows_kept_def expired_def)
  with k show "rows_kept A (job_seq (snd (delete_expired_rows visit status keep batch w)))
      (signal_seq (snd (delete_expired_rows visit status keep batch w)))
      (db (snd (delete_expired_rows visit status keep batch w)))
    \<and> snapshot (snd (delete_expired_rows visit status keep batch w)) = snapshot w
    \<and> job_seq w \<le> job_seq (snd (delete_expired_rows visit status keep batch w))
    \<and> signal_seq w \<le> signal_seq (snd (delete_expired_rows visit status keep batch w))"
    by (simp add: g(1) rows_kept_def distinct_map_del_where)
qed

lemma keeps_deleteExpired:
  assumes "\<And>xs. mset (visit xs) = mset xs" "\<And>j. j \<in> A \<Longrightarrow> Status j \<noteq> status"
  shows "keeps (holds (rows_kept A)) (deleteExpired fuel visit x status keep batch tot)"
proof (induction fuel arbitrary: tot)
  case 0
  show ?case by (simp add: hoare_return)
next
  case (Suc fuel)
  show ?case
    unfolding deleteExpired.simps
    by (intro keeps_bind keeps_case_option keeps_case_sum keeps_if hoare_return Suc.IH
        kept.keeps_query delete_expired_kept assms)
      (rule hoareI, simp add: State_Monad.get_def)
qed

lemma keeps_purge_status:
  assumes "\<And>xs. mset (visit xs) = mset xs" "\<And>j. j \<in> A \<Longrightarrow> Status j \<noteq> status"
  shows "keeps (holds (rows_kept A)) (purge_status fuel visit x status keep batch)"
  unfolding purge_status_def using keeps_deleteExpired [OF assms] by (intro keeps_if hoare_return) auto

lemma keeps_PurgeFinished:
  assumes v: "\<And>xs. mset (visit xs) = mset xs"
    and A: "\<And>j. j \<in> A \<Longrightarrow> Status j \<noteq> StatusDone \<and> Status j \<noteq> StatusFailed"
  shows "keeps (holds (rows_kept A)) (PurgeFinished fuel visit c x policy)"
proof -
  have p: "keeps (holds (rows_kept A)) (purge_status fuel visit x status keep batch)"
    if "status = StatusDone \<or> status = StatusFailed" for status keep batch
    using A that by (intro keeps_purge_status [OF v]) auto
  show ?thesis
    unfolding PurgeFinished_def purge_events_def Let_def
    by (auto intro!: hoare_rules kept.keeps_emit kept.keeps_log p split: option.split prod.split)
qed

section \<open>A purge is complete\<close>

text \<open>A world in which calls succeed: no failure ahead, no transaction, no foreign lock.\<close>

definition calm :: "world \<Rightarrow> bool" where
  "calm w \<longleftrightarrow> script w = [] \<and> snapshot w = None \<and> \<not> tx_aborted w \<and> row_locks w = []
     \<and> distinct (map ID (jobs (db w)))"

lemma del_where_twice:
  "(\<And>j. j \<in> set rows \<Longrightarrow> P j \<Longrightarrow> Q j) \<Longrightarrow> del_where Q (del_where P rows) = del_where Q rows"
  by (induction rows) (auto simp: del_where_def)

lemma count_where_split:
  "(\<And>j. j \<in> set rows \<Longrightarrow> P j \<Longrightarrow> Q j) \<Longrightarrow> count_where Q rows = count_where P rows + count_where Q (del_where P rows)"
  by (induction rows) (auto simp: count_where_def del_where_def)

lemma deleteExpired_complete:
  assumes visit: "\<And>xs. mset (visit xs) = mset xs" and x: "ctx_end x = None" and b: "0 < batch"
    and w: "calm w" and fuel: "count_where (expired status keep (clock w)) (jobs (db w)) < int fuel"
  shows "\<exists>w'. run_state (deleteExpired fuel visit x status keep batch tot) w =
       (Some (tot + count_where (expired status keep (clock w)) (jobs (db w)), None), w')
     \<and> jobs (db w') = del_where (expired status keep (clock w)) (jobs (db w)) \<and> calm w' \<and> clock w' = clock w"
  using w fuel
proof (induction fuel arbitrary: w tot)
  case 0
  then show ?case using count_where_nonneg [of "expired status keep (clock w)" "jobs (db w)"] by simp
next
  case (Suc fuel)
  let ?old = "expired status keep (clock w)"
  have now: "now w = clock w" and rt: "round_trip w = (Succeeds, w)"
    using Suc.prems(1) by (simp_all add: calm_def now_def)
  have d: "distinct (map ID (jobs (db w)))" using Suc.prems(1) by (simp add: calm_def)
  obtain gone where g: "delete_expired_rows visit status keep batch w =
       (count_where gone (jobs (db w)), w\<lparr>db := (db w)\<lparr>jobs := del_where gone (jobs (db w))\<rparr>\<rparr>)"
    and sub: "\<And>j. j \<in> set (jobs (db w)) \<Longrightarrow> gone j \<Longrightarrow> ?old j"
    and all: "\<And>j. count_where gone (jobs (db w)) < batch \<Longrightarrow> j \<in> set (jobs (db w)) \<Longrightarrow> ?old j \<Longrightarrow> gone j"
    using delete_expired_spec [of visit w status keep batch, OF visit d] Suc.prems(1)
    unfolding now calm_def by simp metis
  let ?w1 = "end_statement (w\<lparr>db := (db w)\<lparr>jobs := del_where gone (jobs (db w))\<rparr>\<rparr>)"
  have run: "run_state (query (delete_expired_rows visit status keep batch)) w
      = (Inr (count_where gone (jobs (db w))), ?w1)"
    using Suc.prems(1) by (simp add: run_simps rt g calm_def)
  have w1: "calm ?w1" "clock ?w1 = clock w" "jobs (db ?w1) = del_where gone (jobs (db w))"
    using Suc.prems(1) by (simp_all add: calm_def distinct_map_del_where)
  have split: "count_where ?old (jobs (db w)) = count_where gone (jobs (db w)) + count_where ?old (jobs (db ?w1))"
    unfolding w1(3) using sub by (rule count_where_split)
  have ctx: "ctx_err x w = None" using x by (simp add: ctx_err_def)
  show ?case
  proof (cases "count_where gone (jobs (db w)) < batch")
    case True
    have "del_where gone (jobs (db w)) = del_where ?old (jobs (db w))"
      using sub all [OF True] by (auto simp: del_where_def intro!: filter_cong)
    moreover have "count_where gone (jobs (db w)) = count_where ?old (jobs (db w))"
      using sub all [OF True] by (auto simp: count_where_def intro!: arg_cong [where f = length] filter_cong)
    ultimately show ?thesis
      using run ctx True w1 by (intro exI [of _ ?w1]) (simp add: State_Monad.get_def)
  next
    case False
    then have "count_where ?old (jobs (db ?w1)) < int fuel" using split Suc.prems(2) b by simp
    with Suc.IH [OF w1(1)] w1(2) obtain w' where
      "run_state (deleteExpired fuel visit x status keep batch (tot + count_where gone (jobs (db w)))) ?w1 =
       (Some (tot + count_where gone (jobs (db w)) + count_where ?old (jobs (db ?w1)), None), w')"
      "jobs (db w') = del_where ?old (jobs (db ?w1))" "calm w'" "clock w' = clock w"
      by (metis (no_types, lifting))
    moreover have "del_where ?old (jobs (db ?w1)) = del_where ?old (jobs (db w))"
      unfolding w1(3) using sub by (rule del_where_twice)
    ultimately show ?thesis
      using run ctx False split by (intro exI [of _ w']) (simp add: State_Monad.get_def)
  qed
qed

lemma purge_status_complete:
  assumes visit: "\<And>xs. mset (visit xs) = mset xs" and x: "ctx_end x = None" and b: "0 < batch"
    and w: "calm w" and fuel: "int (length (jobs (db w))) < int fuel" and keep: "0 \<le> keep"
  shows "\<exists>k w'. run_state (purge_status fuel visit x status keep batch) w = (Some (k, None), w')
     \<and> k = int (length (jobs (db w))) - int (length (jobs (db w')))
     \<and> jobs (db w') = del_where (\<lambda>j. 0 < keep \<and> expired status keep (clock w) j) (jobs (db w))
     \<and> calm w' \<and> clock w' = clock w"
proof (cases "0 < keep")
  case True
  have "count_where (expired status keep (clock w)) (jobs (db w)) < int fuel"
    using fuel count_where_le by (meson le_less_trans)
  from deleteExpired_complete [OF visit x b w this, of 0] True show ?thesis
    by (auto simp: purge_status_def length_del_where)
next
  case False
  with w show ?thesis by (auto simp: purge_status_def del_where_def)
qed

text \<open>
  C37. Retention is safe and complete. Under any failures, with any fuel and at any moment of
  cancellation, \<open>PurgeFinished\<close> never removes a pending or processing job. When calls succeed it ends
  after fewer rounds than there are rows, for any batch size and any order in which the server finds
  the expired rows, and has then removed exactly the done and failed jobs older than the policy keeps
  them (a zero keeps them forever), with counts that add up.
\<close>

definition retention_drops :: "retention_policy \<Rightarrow> int \<Rightarrow> job \<Rightarrow> bool" where
  "retention_drops p n j \<longleftrightarrow> 0 < KeepDone p \<and> expired StatusDone (KeepDone p) n j
     \<or> 0 < KeepFailed p \<and> expired StatusFailed (KeepFailed p) n j"


definition sample_policy :: retention_policy where
  "sample_policy = \<lparr>KeepDone = 1000, KeepFailed = 0, RetentionInterval = 0, BatchSize = 0\<rparr>"


end
