(* ===== verification/Pglock.thy ===== *)
theory Pglock
  imports Queue_Properties "HOL-Library.Word"
begin

unbundle bit_operations_syntax

text \<open>
  Advisory locks: \<open>pglock/lock.go\<close>. The lock space of the server is the field \<open>advisory\<close> of the
  world; a key is held by the open transaction, by sessions of the pool or by other clients.
  PostgreSQL lets an owner take a lock it already holds.
\<close>

section \<open>Keys\<close>

definition keyNamespace :: string where
  "keyNamespace = ''nanostack.dev/pgkit/pglock:''"

text \<open>\<open>hash/fnv\<close>: FNV-1a of 64 bits.\<close>

definition fnv_prime :: "64 word" where "fnv_prime = 1099511628211"
definition fnv_offset :: "64 word" where "fnv_offset = 14695981039346656037"

definition fnv_step :: "64 word \<Rightarrow> char \<Rightarrow> 64 word" where
  "fnv_step h c = (h XOR of_nat (of_char c)) * fnv_prime"

definition fnv_write :: "64 word \<Rightarrow> string \<Rightarrow> 64 word" where
  "fnv_write h s = foldl fnv_step h s"

definition KeyHash :: "string \<Rightarrow> int" where
  "KeyHash key = sint (fnv_write (fnv_write fnv_offset keyNamespace) key)"

section \<open>Locks of the server\<close>

definition lock_free_for :: "lock_owner \<Rightarrow> int \<Rightarrow> world \<Rightarrow> bool" where
  "lock_free_for ow k w \<longleftrightarrow> (\<forall>l \<in> set (advisory w). fst l = k \<longrightarrow> snd l = ow)"

text \<open>\<open>pg_try_advisory_xact_lock\<close> and \<open>pg_try_advisory_lock\<close> for a session.\<close>

definition try_advisory :: "lock_owner \<Rightarrow> int \<Rightarrow> bool option statement" where
  "try_advisory ow k w = (if lock_free_for ow k w then (Some True, w\<lparr>advisory := (k, ow) # advisory w\<rparr>)
     else (Some False, w))"

text \<open>\<open>pg_advisory_unlock\<close> gives up one hold.\<close>

definition advisory_unlock :: "nat \<Rightarrow> int \<Rightarrow> bool option statement" where
  "advisory_unlock s k w = (if (k, PoolSession s) \<in> set (advisory w)
     then (Some True, w\<lparr>advisory := remove1 (k, PoolSession s) (advisory w)\<rparr>) else (Some False, w))"

section \<open>Operations\<close>

definition tryAdvisoryXactLock :: "int \<Rightarrow> bool result io" where
  "tryAdvisoryXactLock k = query_row (try_advisory ThisTx k)"

text \<open>The exported one, on a transaction of the caller.\<close>

definition TryAdvisoryXactLock :: "bool \<Rightarrow> string \<Rightarrow> bool result io" where
  "TryAdvisoryXactLock tx key =
     (if \<not> tx then State_Monad.return (Inl (Sentinel LockErrNilTx)) else tryAdvisoryXactLock (KeyHash key))"

text \<open>A nil callback is \<open>None\<close>; a callback returns its error.\<close>

definition TryWithLock :: "bool \<Rightarrow> string \<Rightarrow> err option io option \<Rightarrow> (bool \<times> err option) io" where
  "TryWithLock has_database key fn =
     (if \<not> has_database then State_Monad.return (False, Some (Sentinel LockErrNilDB))
      else attempt begin_tx (\<lambda>e. (False, Some (wrap ''pglock: begin tx: '' e))) (\<lambda>_. do {
        l \<leftarrow> tryAdvisoryXactLock (KeyHash key);
        (case l of
           Inl e \<Rightarrow> do { State_Monad.update restore;
             State_Monad.return (False, Some (wrap ''pglock: acquire xact lock: '' e)) }
         | Inr False \<Rightarrow> do { State_Monad.update restore; log_msg LevelDebug ''transaction lock busy'';
             State_Monad.return (False, None) }
         | Inr True \<Rightarrow> do {
             log_msg LevelDebug ''transaction lock acquired'';
             r \<leftarrow> (case fn of None \<Rightarrow> State_Monad.return None | Some f \<Rightarrow> f);
             (case r of
                Some e \<Rightarrow> do { State_Monad.update restore; State_Monad.return (True, Some e) }
              | None \<Rightarrow> do {
                  c \<leftarrow> commit_tx;
                  (case c of
                     Inl e \<Rightarrow> State_Monad.return (True, Some (wrap ''pglock: commit tx: '' e))
                   | Inr _ \<Rightarrow> do { log_msg LevelDebug ''transaction lock released'';
                       State_Monad.return (True, None) }) }) }) }))"

definition unlockSessionLock :: "nat \<Rightarrow> int \<Rightarrow> err option io" where
  "unlockSessionLock s k = do {
     r \<leftarrow> query_row (advisory_unlock s k);
     State_Monad.return (case r of
         Inl e \<Rightarrow> Some (wrap ''pglock: unlock session lock: '' e)
       | Inr True \<Rightarrow> None
       | Inr False \<Rightarrow> Some (Errorf ''pglock: session lock was not held'')) }"

text \<open>\<open>errors.Join\<close> of two errors that may be nil, not both.\<close>

definition join_opt :: "err option \<Rightarrow> err option \<Rightarrow> err" where
  "join_opt a b = Join ((case a of None \<Rightarrow> [] | Some e \<Rightarrow> [e]) @ (case b of None \<Rightarrow> [] | Some e \<Rightarrow> [e]))"

text \<open>
  \<open>conn\<close> is what \<open>db.Conn\<close> answers: an error or a session of the pool, which the deferred
  \<open>conn.Close\<close> gives back to the pool, alive, with whatever locks it holds.
\<close>

definition TryWithSessionLock ::
  "bool \<Rightarrow> nat result \<Rightarrow> string \<Rightarrow> err option io option \<Rightarrow> (bool \<times> err option) io" where
  "TryWithSessionLock has_database conn key fn =
     (if \<not> has_database then State_Monad.return (False, Some (Sentinel LockErrNilDB))
      else (case conn of
        Inl e \<Rightarrow> State_Monad.return (False, Some (wrap ''pglock: get conn: '' e))
      | Inr s \<Rightarrow> do {
          l \<leftarrow> query_row (try_advisory (PoolSession s) (KeyHash key));
          (case l of
             Inl e \<Rightarrow> State_Monad.return (False, Some (wrap ''pglock: acquire session lock: '' e))
           | Inr False \<Rightarrow> do { log_msg LevelDebug ''session lock busy''; State_Monad.return (False, None) }
           | Inr True \<Rightarrow> do {
               log_msg LevelDebug ''session lock acquired'';
               fnErr \<leftarrow> (case fn of None \<Rightarrow> State_Monad.return None | Some f \<Rightarrow> f);
               unlockErr \<leftarrow> unlockSessionLock s (KeyHash key);
               (if fnErr \<noteq> None \<or> unlockErr \<noteq> None
                then State_Monad.return (True, Some (join_opt fnErr unlockErr))
                else do { log_msg LevelDebug ''session lock released''; State_Monad.return (True, None) }) }) }))"

section \<open>The hash\<close>

definition fnv_inverse :: "64 word" where "fnv_inverse = 14886173955864302971"

lemma fnv_prime_inverse: "fnv_prime * fnv_inverse = 1"
  by (simp add: fnv_prime_def fnv_inverse_def)

lemma fnv_step_cancel: "fnv_step h c = fnv_step h' d \<Longrightarrow> h XOR of_nat (of_char c) = h' XOR of_nat (of_char d)"
proof -
  assume "fnv_step h c = fnv_step h' d"
  then have "(h XOR of_nat (of_char c)) * (fnv_prime * fnv_inverse) = (h' XOR of_nat (of_char d)) * (fnv_prime * fnv_inverse)"
    by (simp add: fnv_step_def mult.assoc [symmetric])
  then show ?thesis by (simp add: fnv_prime_inverse)
qed

lemma xor_cancel: "a XOR k = b XOR k \<Longrightarrow> a = b" "k XOR a = k XOR b \<Longrightarrow> a = b" for a b k :: "64 word"
proof -
  have r: "(x XOR k) XOR k = x" for x :: "64 word" by (simp add: xor.assoc)
  show e: "a = b" if "a XOR k = b XOR k"
    using arg_cong [OF that, of "\<lambda>x. x XOR k"] unfolding r .
  show "a = b" if "k XOR a = k XOR b"
    using e that by (simp add: xor.commute)
qed

lemma fnv_step_state: "fnv_step h c = fnv_step h' c \<Longrightarrow> h = h'"
  by (blast dest: fnv_step_cancel xor_cancel(1))

lemma fnv_step_char: "fnv_step h c = fnv_step h d \<Longrightarrow> c = d"
proof -
  assume "fnv_step h c = fnv_step h d"
  then have "of_nat (of_char c) = (of_nat (of_char d) :: 64 word)"
    by (blast dest: fnv_step_cancel xor_cancel(2))
  then have "(of_char c :: nat) mod 2 ^ 64 = of_char d mod 2 ^ 64"
    by (simp add: word_of_nat_eq_iff take_bit_eq_mod)
  moreover have "(of_char e :: nat) mod 2 ^ 64 = of_char e" for e :: char
    using less_trans [OF byte_less [of e], of "2 ^ 64"] by (intro mod_less) simp
  ultimately have "(of_char c :: nat) = of_char d" by metis
  then show "c = d" by simp
qed

lemma fnv_write_state: "fnv_write h s = fnv_write h' s \<Longrightarrow> h = h'"
  by (induction s arbitrary: h h') (auto simp: fnv_write_def dest: fnv_step_state)

lemma fnv_write_append: "fnv_write h (u @ v) = fnv_write (fnv_write h u) v"
  by (simp add: fnv_write_def)

text \<open>
  Lock keys that differ in a single byte, such as two numbered shards or tenants, never share an
  advisory lock: the hash of \<open>pglock.KeyHash\<close> separates any two keys of which one results from the
  other by changing one byte, and every hash is an \<open>int64\<close>.
\<close>

theorem KeyHash_separates_one_byte:
  "(KeyHash (u @ [a] @ v) = KeyHash (u @ [b] @ v) \<longleftrightarrow> a = b)
   \<and> - (2 ^ 63) \<le> KeyHash u \<and> KeyHash u < 2 ^ 63"
proof -
  let ?h = "fnv_write (fnv_write fnv_offset keyNamespace) u"
  have "a = b" if "KeyHash (u @ [a] @ v) = KeyHash (u @ [b] @ v)"
  proof -
    have step: "fnv_write h [d] = fnv_step h d" for h d by (simp add: fnv_write_def)
    from that have "fnv_write (fnv_step ?h a) v = fnv_write (fnv_step ?h b) v"
      by (intro word_eq_iff_signed [THEN iffD2]) (simp only: KeyHash_def fnv_write_append step)
    then show ?thesis by (blast dest: fnv_write_state fnv_step_char)
  qed
  moreover have "- (2 ^ 63) \<le> KeyHash u \<and> KeyHash u < 2 ^ 63"
    using sint_range_size [of "fnv_write (fnv_write fnv_offset keyNamespace) u"]
    by (simp add: KeyHash_def word_size)
  ultimately show ?thesis by blast
qed

section \<open>Holding and releasing\<close>

text \<open>A callback that leaves the transaction open and touches no lock but its own.\<close>

definition well_behaved :: "'a io \<Rightarrow> bool" where
  "well_behaved f \<longleftrightarrow> (\<forall>w r w'. run_state f w = (r, w') \<longrightarrow> snapshot w' = snapshot w
     \<and> filter (\<lambda>l. snd l \<noteq> ThisTx) (advisory w') = filter (\<lambda>l. snd l \<noteq> ThisTx) (advisory w))"

abbreviation others :: "world \<Rightarrow> (int \<times> lock_owner) list" where
  "others w \<equiv> filter (\<lambda>l. snd l \<noteq> ThisTx) (advisory w)"

lemma begin_frame:
  assumes "run_state begin_tx w = (r, w1)" "snapshot w = None"
  shows "advisory w1 = advisory w" "db w1 = db w" "r = Inr () \<Longrightarrow> snapshot w1 = Some (db w)"
    "r \<noteq> Inr () \<Longrightarrow> snapshot w1 = None"
proof -
  obtain oc w0 where rt: "round_trip w = (oc, w0)" by (cases "round_trip w")
  note f = round_trip_frame [OF rt]
  from assms rt f show "advisory w1 = advisory w" "db w1 = db w" "r = Inr () \<Longrightarrow> snapshot w1 = Some (db w)"
    "r \<noteq> Inr () \<Longrightarrow> snapshot w1 = None"
    by (cases oc; auto simp: begin_tx_def)+
qed

lemma commit_frame:
  assumes "run_state commit_tx w = (r, w')" "snapshot w = Some d"
  shows "snapshot w' = None" "advisory w' = others w"
proof -
  obtain oc w0 where rt: "round_trip w = (oc, w0)" by (cases "round_trip w")
  note f = round_trip_frame [OF rt]
  from assms rt f show "snapshot w' = None" "advisory w' = others w"
    by (cases oc; auto simp: commit_tx_def restore_def end_tx_def publish_def split: if_splits)+
qed

lemma restore_frame:
  "snapshot w = Some d \<Longrightarrow> advisory (restore w) = others w" "snapshot w = Some d \<Longrightarrow> db (restore w) = d"
  by (simp_all add: restore_def end_tx_def)

lemma try_advisory_frame [simp]: "snapshot (snd (try_advisory ow k w)) = snapshot w"
  "db (snd (try_advisory ow k w)) = db w"
  by (simp_all add: try_advisory_def)

lemma try_lock_cases:
  assumes "run_state (tryAdvisoryXactLock k) w = (r, w')" "snapshot w = Some d"
  shows "others w' = others w \<and> snapshot w' = Some d \<and> db w' = db w
     \<and> (r = Inr True \<longrightarrow> lock_free_for ThisTx k w \<and> (k, ThisTx) \<in> set (advisory w'))
     \<and> (r = Inr False \<longrightarrow> \<not> lock_free_for ThisTx k w)"
proof -
  obtain oc w1 where rt: "round_trip w = (oc, w1)" by (cases "round_trip w")
  note f = round_trip_frame [OF rt]
  have free: "lock_free_for ThisTx k w1 = lock_free_for ThisTx k w" using f by (simp add: lock_free_for_def)
  show ?thesis
  proof (cases "oc = Succeeds \<and> \<not> tx_aborted w1")
    case True
    with assms rt have "(r, w') = (if lock_free_for ThisTx k w then (Inr True, w1\<lparr>advisory := (k, ThisTx) # advisory w1\<rparr>)
        else (Inr False, w1))"
      using f free by (simp add: tryAdvisoryXactLock_def query_row_def run_query try_advisory_def end_statement_def
          split: if_splits)
    with f assms(2) show ?thesis by (auto split: if_splits)
  next
    case False
    with assms rt f(2) have "\<exists>e. (r, w') = (Inl e, w1\<lparr>tx_aborted := True\<rparr>)"
      by (cases oc) (auto simp: tryAdvisoryXactLock_def query_row_def run_query)
    with f assms(2) show ?thesis by auto
  qed
qed



section \<open>Session locks\<close>

lemma unlock_run:
  assumes "run_state (unlockSessionLock s k) w = (None, w')"
  shows "(k, PoolSession s) \<in> set (advisory w) \<and> advisory w' = remove1 (k, PoolSession s) (advisory w)"
proof -
  obtain oc w1 where rt: "round_trip w = (oc, w1)" by (cases "round_trip w")
  note f = round_trip_frame [OF rt]
  from assms rt f(10) show ?thesis
    by (cases oc; cases "tx_aborted w1"; cases "(k, PoolSession s) \<in> set (advisory w)")
       (auto simp: unlockSessionLock_def query_row_def run_query advisory_unlock_def)
qed

lemma session_try_run:
  assumes "run_state (query_row (try_advisory (PoolSession s) k)) w = (r, w')"
  shows "(r = Inr True \<longrightarrow> lock_free_for (PoolSession s) k w \<and> advisory w' = (k, PoolSession s) # advisory w)
     \<and> (r = Inr False \<longrightarrow> \<not> lock_free_for (PoolSession s) k w \<and> advisory w' = advisory w)"
proof -
  obtain oc w1 where rt: "round_trip w = (oc, w1)" by (cases "round_trip w")
  note f = round_trip_frame [OF rt]
  have free: "lock_free_for (PoolSession s) k w1 = lock_free_for (PoolSession s) k w"
    using f by (simp add: lock_free_for_def)
  from assms rt f(10) free show ?thesis
    by (cases oc; cases "tx_aborted w1"; cases "lock_free_for (PoolSession s) k w")
       (auto simp: query_row_def run_query try_advisory_def)
qed

text \<open>
  \<open>TryWithSessionLock\<close> excludes and releases: a call that reports the lock as acquired found it
  free of other sessions, and if it returns without an error the locks of the server are what they
  were before; a call that finds the key held elsewhere reports it as busy and runs nothing.
\<close>

theorem session_lock_balanced:
  assumes fn: "\<And>f r u u'. fn = Some f \<Longrightarrow> run_state f u = (r, u') \<Longrightarrow> advisory u' = advisory u"
    and run: "run_state (TryWithSessionLock True (Inr s) key fn) w = ((acquired, e), w')"
  shows "(acquired \<longrightarrow> lock_free_for (PoolSession s) (KeyHash key) w)
     \<and> (acquired \<and> e = None \<longrightarrow> advisory w' = advisory w)
     \<and> (\<not> acquired \<and> e = None \<longrightarrow> advisory w' = advisory w \<and> \<not> lock_free_for (PoolSession s) (KeyHash key) w)"
proof -
  let ?k = "KeyHash key"
  obtain l w1 where l: "run_state (query_row (try_advisory (PoolSession s) ?k)) w = (l, w1)"
    by (cases "run_state (query_row (try_advisory (PoolSession s) ?k)) w")
  note L = session_try_run [OF l]
  show ?thesis
  proof (cases "l = Inr True")
    case False
    with run l L show ?thesis
      by (cases l) (auto simp: TryWithSessionLock_def run_log split: bool.splits)
  next
    case True
    let ?w2 = "w1\<lparr>logs := logs w1 @ [(LevelDebug, ''session lock acquired'')]\<rparr>"
    obtain q w3 where q: "run_state (case fn of None \<Rightarrow> State_Monad.return None | Some f \<Rightarrow> f) ?w2 = (q, w3)"
      by (cases "run_state (case fn of None \<Rightarrow> State_Monad.return None | Some f \<Rightarrow> f) ?w2")
    have a3: "advisory w3 = (?k, PoolSession s) # advisory w"
      using q fn L True by (cases fn) auto
    obtain v w4 where v: "run_state (unlockSessionLock s ?k) w3 = (v, w4)"
      by (cases "run_state (unlockSessionLock s ?k) w3")
    have "v = None \<Longrightarrow> advisory w4 = advisory w" using unlock_run [of s ?k w3 w4] v a3 by simp
    with run l True q v L show ?thesis
      by (cases "q = None \<and> v = None") (auto simp: TryWithSessionLock_def run_log)
  qed
qed

theorem session_lock_balanced_witness:
  "advisory (snd (run_state (TryWithSessionLock True (Inr 1) ''nightly'' None) initial_world)) = []"
proof -
  have r: "fst (run_state (TryWithSessionLock True (Inr 1) ''nightly'' None) initial_world) = (True, None)"
    by (simp add: TryWithSessionLock_def run_simps round_trip_def initial_world_def unlockSessionLock_def
        query_row_def try_advisory_def advisory_unlock_def lock_free_for_def end_statement_def publish_def)
  have a: "advisory initial_world = []" by (simp add: initial_world_def)
  show ?thesis
    using session_lock_balanced [of None 1 "''nightly''" initial_world True None
        "snd (run_state (TryWithSessionLock True (Inr 1) ''nightly'' None) initial_world)"] r a
    by (simp add: prod_eq_iff)
qed

text \<open>
  What is not guaranteed: when the unlock call fails, \<open>TryWithSessionLock\<close> returns the connection to
  the pool with the lock still held. From then on every call of another session finds the key busy,
  although nobody runs under it.
\<close>

theorem failed_unlock_leaks_session_lock:
  assumes w: "script w = [(0, Succeeds), (0, FailsBefore f)]" "\<not> tx_aborted w" "snapshot w = None"
    and free: "lock_free_for (PoolSession s) (KeyHash key) w" and other: "s' \<noteq> s"
  shows "\<exists>e w'. run_state (TryWithSessionLock True (Inr s) key None) w = ((True, Some e), w')
     \<and> (KeyHash key, PoolSession s) \<in> set (advisory w')
     \<and> fst (run_state (TryWithSessionLock True (Inr s') key fn) w') = (False, None)"
proof -
  let ?w1 = "w\<lparr>script := [(0, FailsBefore f)]\<rparr>"
  let ?w2 = "end_statement (?w1\<lparr>advisory := (KeyHash key, PoolSession s) # advisory w\<rparr>)"
  let ?w3 = "?w2\<lparr>logs := logs ?w2 @ [(LevelDebug, ''session lock acquired'')]\<rparr>"
  let ?w' = "?w3\<lparr>script := []\<rparr>"
  have "run_state (query_row (try_advisory (PoolSession s) (KeyHash key))) w = (Inr True, ?w2)"
    using w free by (simp add: query_row_def run_query round_trip_def try_advisory_def lock_free_for_def)
  moreover have "run_state (unlockSessionLock s (KeyHash key)) ?w3
      = (Some (wrap ''pglock: unlock session lock: '' (fault_err f)), ?w')"
    using w by (simp add: unlockSessionLock_def query_row_def run_query round_trip_def)
  ultimately have "\<exists>e. run_state (TryWithSessionLock True (Inr s) key None) w = ((True, Some e), ?w')"
    by (simp add: TryWithSessionLock_def run_log)
  moreover have held: "(KeyHash key, PoolSession s) \<in> set (advisory ?w')" by simp
  moreover have "fst (run_state (TryWithSessionLock True (Inr s') key fn) ?w') = (False, None)"
  proof -
    have "\<not> lock_free_for (PoolSession s') (KeyHash key) ?w'" using held other by (auto simp: lock_free_for_def)
    then show ?thesis
      using w by (simp add: TryWithSessionLock_def query_row_def run_simps round_trip_def try_advisory_def)
  qed
  ultimately show ?thesis by blast
qed

theorem failed_unlock_leaks_session_lock_witness:
  "\<exists>e w'. run_state (TryWithSessionLock True (Inr 1) ''nightly'' None)
       (initial_world\<lparr>script := [(0, Succeeds), (0, FailsBefore Canceled)]\<rparr>) = ((True, Some e), w')
     \<and> (KeyHash ''nightly'', PoolSession 1) \<in> set (advisory w')"
  using failed_unlock_leaks_session_lock
    [of "initial_world\<lparr>script := [(0, Succeeds), (0, FailsBefore Canceled)]\<rparr>" Canceled 1 "''nightly''" 2 None]
  by (auto simp: initial_world_def lock_free_for_def)

end
