(* ===== verification/Pgcron.thy ===== *)
theory Pgcron
  imports Pglock
begin

text \<open>
  Recurring jobs: \<open>pgcron/cron.go\<close> and \<open>pgcron/builder.go\<close> over the table of \<open>pgcron/schema.sql\<close>. The
  clock of the process differs from the database's by an arbitrary \<open>skew\<close>. The callbacks are
  functions into the world monad. Panics of callbacks are not modelled.
\<close>

datatype cron_outcome = NoOutcome | Busy | NotDue | Ran

record cron_result =
  Outcome :: cron_outcome
  NextRunAt :: "int option"
  wakeAt :: "int option"

definition no_result :: cron_result where
  "no_result = \<lparr>Outcome = NoOutcome, NextRunAt = None, wakeAt = None\<rparr>"

record cron_params =
  cp_Name :: string
  cp_Interval :: int
  cp_RetryInterval :: int
  cp_Run :: "(ctx \<Rightarrow> err option io) option"
  cp_AfterRun :: "(ctx \<Rightarrow> err option io) option"

text \<open>A job exists only with a \<open>Run\<close> callback; the field of the built job is that callback.\<close>

record cron_job =
  cj_params :: cron_params
  cj_Run :: "ctx \<Rightarrow> err option io"

definition NewJob :: "bool \<Rightarrow> cron_params \<Rightarrow> cron_job result" where
  "NewJob has_database p =
     (if \<not> has_database then Inl (Sentinel LockErrNilDB)
      else if trim_space (cp_Name p) = [] then Inl (Errorf ''pgcron: name is required'')
      else if cp_Interval p < 1000000 then Inl (Errorf ''pgcron: interval must be at least one millisecond'')
      else (case cp_Run p of None \<Rightarrow> Inl (Errorf ''pgcron: run callback is required'')
        | Some r \<Rightarrow>
            if cp_RetryInterval p < 0 then Inl (Errorf ''pgcron: retry interval must not be negative'')
            else Inr \<lparr>cj_params = (if cp_RetryInterval p = 0 then p\<lparr>cp_RetryInterval := 1000000000\<rparr> else p),
                      cj_Run = r\<rparr>))"

section \<open>The builder\<close>

record cron_builder =
  cb_db :: bool
  cb_params :: cron_params

definition Named :: "bool \<Rightarrow> string \<Rightarrow> cron_builder" where
  "Named has_database name = \<lparr>cb_db = has_database, cb_params = \<lparr>cp_Name = name, cp_Interval = 0,
     cp_RetryInterval = 0, cp_Run = None, cp_AfterRun = None\<rparr>\<rparr>"

definition Every :: "cron_builder \<Rightarrow> int \<Rightarrow> cron_builder" where
  "Every b d = b\<lparr>cb_params := (cb_params b)\<lparr>cp_Interval := d\<rparr>\<rparr>"

definition RetryEvery :: "cron_builder \<Rightarrow> int \<Rightarrow> cron_builder" where
  "RetryEvery b d = b\<lparr>cb_params := (cb_params b)\<lparr>cp_RetryInterval := d\<rparr>\<rparr>"

definition AfterRun :: "cron_builder \<Rightarrow> (ctx \<Rightarrow> err option io) option \<Rightarrow> cron_builder" where
  "AfterRun b f = b\<lparr>cb_params := (cb_params b)\<lparr>cp_AfterRun := f\<rparr>\<rparr>"

definition DoTx :: "cron_builder \<Rightarrow> (ctx \<Rightarrow> err option io) option \<Rightarrow> cron_job result" where
  "DoTx b f = NewJob (cb_db b) ((cb_params b)\<lparr>cp_Run := f\<rparr>)"

section \<open>Statements\<close>

text \<open>\<open>INSERT \<dots> ON CONFLICT DO NOTHING\<close>: a new schedule is due now.\<close>

definition init_schedule :: "string \<Rightarrow> unit statement" where
  "init_schedule name = on_db (\<lambda>n d. ((),
     if name \<in> c_name ` set (schedules d) then d
     else d\<lparr>schedules := schedules d @ [\<lparr>c_name = name, c_next_run_at = n\<rparr>]\<rparr>))"

definition find_schedule :: "string \<Rightarrow> database \<Rightarrow> int option" where
  "find_schedule name d = map_option c_next_run_at (find (\<lambda>s. c_name s = name) (schedules d))"

definition read_schedule :: "string \<Rightarrow> (int \<times> int) option statement" where
  "read_schedule name w = (map_option (\<lambda>t. (t, now w)) (find_schedule name (db w)), w)"

text \<open>\<open>date_bin(stride, source, origin)\<close>: the last tick of the cadence of \<open>origin\<close> not after \<open>source\<close>.\<close>

definition date_bin :: "int \<Rightarrow> int \<Rightarrow> int \<Rightarrow> int" where
  "date_bin stride source origin = origin + (source - origin) div stride * stride"

definition advance_schedule :: "string \<Rightarrow> int \<Rightarrow> (int \<times> int) option statement" where
  "advance_schedule name every w =
     (let t = clock w; stride = interval every;
          d = (db w)\<lparr>schedules := upd_where (\<lambda>s. c_name s = name)
                (\<lambda>s. s\<lparr>c_next_run_at := date_bin stride t (c_next_run_at s) + stride\<rparr>) (schedules (db w))\<rparr>
      in (map_option (\<lambda>u. (u, t)) (find_schedule name d), w\<lparr>db := d\<rparr>))"

section \<open>Operations\<close>

definition commitIdle :: "cron_result \<Rightarrow> (cron_result \<times> err option) io" where
  "commitIdle result = attempt commit_tx (\<lambda>e. (no_result, Some (wrap ''commit idle pass: '' e)))
     (\<lambda>_. State_Monad.return (result, None))"

text \<open>\<open>time.Now().Add(t)\<close> for a duration \<open>t\<close> in the time of the database.\<close>

definition local_after :: "int \<Rightarrow> int \<Rightarrow> int io" where
  "local_after skew t = do { w \<leftarrow> State_Monad.get; State_Monad.return (clock w + skew + t) }"

text \<open>The part of a pass after the schedule is found due: the callback, the advance and the commit.\<close>

definition due_part :: "int \<Rightarrow> cron_job \<Rightarrow> ctx \<Rightarrow> (cron_result \<times> err option) io" where
  "due_part skew j x = do {
     r \<leftarrow> cj_Run j x;
     (case r of
        Some e \<Rightarrow> State_Monad.return (no_result, Some (wrap ''run: '' e))
      | None \<Rightarrow>
          attempt (query_row (advance_schedule (cp_Name (cj_params j)) (cp_Interval (cj_params j))))
            (\<lambda>e. (no_result, Some (wrap ''advance schedule: '' e)))
            (\<lambda>(next', databaseNow'). do {
               wake \<leftarrow> local_after skew (next' - databaseNow');
               attempt commit_tx (\<lambda>e. (no_result, Some (wrap ''commit schedule: '' e)))
                 (\<lambda>_. State_Monad.return
                   (\<lparr>Outcome = Ran, NextRunAt = Some next', wakeAt = Some wake\<rparr>, None)) })) }"

text \<open>The part under the lock.\<close>

definition locked_part :: "int \<Rightarrow> cron_job \<Rightarrow> ctx \<Rightarrow> (cron_result \<times> err option) io" where
  "locked_part skew j x =
     (let name = cp_Name (cj_params j) in
      attempt (query (init_schedule name)) (\<lambda>e. (no_result, Some (wrap ''initialize schedule: '' e))) (\<lambda>_.
      attempt (query_row (read_schedule name)) (\<lambda>e. (no_result, Some (wrap ''read schedule: '' e)))
        (\<lambda>(nextRun, databaseNow).
      if nextRun > databaseNow then do {
        wake \<leftarrow> local_after skew (nextRun - databaseNow);
        commitIdle \<lparr>Outcome = NotDue, NextRunAt = Some nextRun, wakeAt = Some wake\<rparr> }
      else due_part skew j x)))"

definition runLocked :: "int \<Rightarrow> cron_job \<Rightarrow> ctx \<Rightarrow> (cron_result \<times> err option) io" where
  "runLocked skew j x =
     attempt begin_tx (\<lambda>e. (no_result, Some (wrap ''begin schedule transaction: '' e))) (\<lambda>_.
     deferring_rollback (
       attempt (TryAdvisoryXactLock True (cp_Name (cj_params j)))
         (\<lambda>e. (no_result, Some (wrap ''acquire schedule lock: '' e)))
         (\<lambda>acquired. if \<not> acquired then commitIdle (no_result\<lparr>Outcome := Busy\<rparr>) else locked_part skew j x)))"

text \<open>\<open>quote\<close> is the verb \<open>%q\<close>.\<close>

definition RunOnce :: "(string \<Rightarrow> string) \<Rightarrow> int \<Rightarrow> cron_job \<Rightarrow> ctx \<Rightarrow> (cron_result \<times> err option) io" where
  "RunOnce quote skew j x = do {
     (result, e) \<leftarrow> runLocked skew j x;
     (case e of
        Some er \<Rightarrow> State_Monad.return
          (result, Some (wrap (''pgcron '' @ quote (cp_Name (cj_params j)) @ '': '') er))
      | None \<Rightarrow>
          (case (Outcome result, cp_AfterRun (cj_params j)) of
             (Ran, Some f) \<Rightarrow> do {
               r \<leftarrow> f x;
               State_Monad.return (result, map_option
                 (wrap (''pgcron '' @ quote (cp_Name (cj_params j)) @ '': after run: '')) r) }
           | _ \<Rightarrow> State_Monad.return (result, None))) }"

text \<open>
  \<open>Run\<close>, on fuel: passes until the context ends, waiting between two passes until the wake time or
  the end of the context, whichever comes first. A nil \<open>report\<close> is \<open>None\<close>.
\<close>

definition wait_until :: "ctx \<Rightarrow> int \<Rightarrow> err option io" where
  "wait_until x t = State (\<lambda>w. case ctx_end x of
       Some (u, s) \<Rightarrow> if u \<le> max (clock w) t then (Some (Sentinel s), w\<lparr>clock := max (clock w) u\<rparr>)
                     else (None, w\<lparr>clock := max (clock w) t\<rparr>)
     | None \<Rightarrow> (None, w\<lparr>clock := max (clock w) t\<rparr>))"

fun cron_loop ::
  "nat \<Rightarrow> (string \<Rightarrow> string) \<Rightarrow> int \<Rightarrow> cron_job \<Rightarrow> ctx \<Rightarrow> (cron_result \<Rightarrow> err option \<Rightarrow> unit io) \<Rightarrow> err option option io" where
  "cron_loop 0 quote skew j x report = State_Monad.return None"
| "cron_loop (Suc fuel) quote skew j x report = do {
     w \<leftarrow> State_Monad.get;
     (case ctx_err x w of
        Some e \<Rightarrow> State_Monad.return (Some (Some e))
      | None \<Rightarrow> do {
          (result, e) \<leftarrow> RunOnce quote skew j x;
          w' \<leftarrow> State_Monad.get;
          (case ctx_err x w' of
             Some ce \<Rightarrow> State_Monad.return (Some (Some ce))
           | None \<Rightarrow> do {
               let t = (case wakeAt result of Some t \<Rightarrow> t
                          | None \<Rightarrow> clock w' + skew + interval (cp_RetryInterval (cj_params j)));
               report (result\<lparr>wakeAt := Some t\<rparr>) e;
               d \<leftarrow> wait_until x (t - skew);
               (case d of Some ce \<Rightarrow> State_Monad.return (Some (Some ce))
                | None \<Rightarrow> cron_loop fuel quote skew j x report) }) }) }"

definition cron_Run ::
  "nat \<Rightarrow> (string \<Rightarrow> string) \<Rightarrow> int \<Rightarrow> cron_job \<Rightarrow> ctx \<Rightarrow> (cron_result \<Rightarrow> err option \<Rightarrow> unit io) option \<Rightarrow> err option option io" where
  "cron_Run fuel quote skew j x report = (case report of
       None \<Rightarrow> State_Monad.return (Some (Some (Errorf ''pgcron: report callback is required'')))
     | Some f \<Rightarrow> cron_loop fuel quote skew j x f)"

section \<open>One pass\<close>

lemma query_in_tx:
  assumes run: "run_state (query st) w = (r, w')" and tx: "snapshot w = Some d"
    and st: "\<And>u. snapshot (snd (st u)) = snapshot u"
  obtains (answered) a w1 where "r = Inr a" "round_trip w = (Succeeds, w1)" "st w1 = (a, w')"
  | (aborted) e where "r = Inl e" "db w' = db w" "snapshot w' = snapshot w" "clock w \<le> clock w'"
proof -
  obtain oc w1 where rt: "round_trip w = (oc, w1)" by (cases "round_trip w")
  note f = round_trip_frame [OF rt]
  obtain a w2 where s: "st w1 = (a, w2)" by (cases "st w1")
  with st [of w1] f tx have w2: "end_statement w2 = w2" by (simp add: end_statement_def)
  show thesis
  proof (cases "oc = Succeeds \<and> \<not> tx_aborted w1")
    case True
    with run rt s w2 show thesis by (intro answered [of a w1]) (auto simp: run_query)
  next
    case False
    from run rt s f tx False show thesis
      by (cases oc) (auto simp: run_query intro: aborted)
  qed
qed

text \<open>What a pass needs of its callback: it leaves the transaction open and the schedules alone.\<close>

definition cron_callback :: "(ctx \<Rightarrow> err option io) \<Rightarrow> bool" where
  "cron_callback f \<longleftrightarrow> (\<forall>x w r w'. run_state (f x) w = (r, w') \<longrightarrow> snapshot w' = snapshot w
     \<and> schedules (db w') = schedules (db w) \<and> clock w \<le> clock w')"

text \<open>The due time of a schedule that may not exist yet.\<close>

definition due_time :: "string \<Rightarrow> int \<Rightarrow> database \<Rightarrow> int" where
  "due_time name n d = (case find_schedule name d of None \<Rightarrow> n | Some t \<Rightarrow> t)"

lemma find_schedule_Some:
  "name \<in> c_name ` set (schedules d) \<Longrightarrow> \<exists>t. find_schedule name d = Some t"
  by (cases "find (\<lambda>s. c_name s = name) (schedules d)") (auto simp: find_schedule_def find_None_iff)

lemma find_schedule_name: "find_schedule name d = Some t \<Longrightarrow> name \<in> c_name ` set (schedules d)"
  by (metis (mono_tags, lifting) find_None_iff find_schedule_def imageI map_option_is_None option.distinct(1))

lemma find_append_new:
  "x \<notin> f ` set xs \<Longrightarrow> find (\<lambda>s. f s = x) (xs @ [y]) = (if f y = x then Some y else None)"
  by (induction xs) auto

lemma init_schedule_db:
  "name \<in> c_name ` set (schedules (db w)) \<Longrightarrow> db (snd (init_schedule name w)) = db w"
  "find_schedule name (db (snd (init_schedule name w))) = Some (due_time name (now w) (db w))"
  "tx_start (snd (init_schedule name w)) = tx_start w"
proof -
  show "find_schedule name (db (snd (init_schedule name w))) = Some (due_time name (now w) (db w))"
  proof (cases "name \<in> c_name ` set (schedules (db w))")
    case True
    with find_schedule_Some [OF True] show ?thesis by (auto simp: due_time_def init_schedule_def on_db_def)
  next
    case False
    then have "find_schedule name (db w) = None" by (auto simp: find_schedule_def find_None_iff image_iff)
    with False show ?thesis
      by (simp add: due_time_def find_append_new find_schedule_def init_schedule_def on_db_def)
  qed
qed (simp_all add: init_schedule_def on_db_def)

lemma find_upd_where:
  "(\<And>s. c_name (g s) = c_name s) \<Longrightarrow>
   find (\<lambda>s. c_name s = name) (upd_where (\<lambda>s. c_name s = name) g rows) = map_option g (find (\<lambda>s. c_name s = name) rows)"
  by (induction rows) (auto simp: upd_where_def)

lemma advance_next:
  assumes "find_schedule name (db w) = Some t"
  shows "advance_schedule name every w = (Some (date_bin (interval every) (clock w) t + interval every, clock w),
     snd (advance_schedule name every w))"
    "find_schedule name (db (snd (advance_schedule name every w))) = Some (date_bin (interval every) (clock w) t + interval every)"
  using assms by (auto simp: advance_schedule_def find_schedule_def find_upd_where Let_def)

lemma cron_statement_frames [simp]:
  "snapshot (snd (init_schedule name w)) = snapshot w" "clock (snd (init_schedule name w)) = clock w"
  "snapshot (snd (read_schedule name w)) = snapshot w" "snapshot (snd (advance_schedule name every w)) = snapshot w"
  "clock (snd (advance_schedule name every w)) = clock w"
  by (simp_all add: init_schedule_def read_schedule_def advance_schedule_def on_db_def Let_def split: prod.splits)

text \<open>The cadence: the next tick after \<open>t\<close>, a whole number of strides after the due time.\<close>

lemma next_tick:
  assumes "0 < stride" "due \<le> t"
  shows "t < date_bin stride t due + stride" "date_bin stride t due \<le> t"
    "\<exists>m \<ge> 1. date_bin stride t due + stride = due + m * stride"
proof -
  have div: "(t - due) div stride * stride + (t - due) mod stride = t - due" by simp
  have m: "0 \<le> (t - due) mod stride" "(t - due) mod stride < stride" using assms(1) by simp_all
  show "t < date_bin stride t due + stride" "date_bin stride t due \<le> t"
    unfolding date_bin_def using div m by linarith+
  have "0 \<le> (t - due) div stride" using assms by (simp add: pos_imp_zdiv_nonneg_iff)
  then show "\<exists>m \<ge> 1. date_bin stride t due + stride = due + m * stride"
    by (intro exI [of _ "(t - due) div stride + 1"]) (simp add: date_bin_def algebra_simps)
qed

lemma commit_db:
  assumes "run_state commit_tx w = (r, w')" "snapshot w = Some d"
  shows "snapshot w' = None \<and> clock w \<le> clock w'
     \<and> (case r of Inr _ \<Rightarrow> db w' = (db w)\<lparr>outbox := []\<rparr> | Inl _ \<Rightarrow> db w' = d \<or> db w' = (db w)\<lparr>outbox := []\<rparr>)"
proof -
  obtain oc w0 where rt: "round_trip w = (oc, w0)" by (cases "round_trip w")
  note f = round_trip_frame [OF rt]
  from assms rt f(1,2,12) show ?thesis
    by (cases oc) (auto simp: commit_tx_def restore_def publish_def split: if_splits)
qed

text \<open>
  The two ways a pass can end: with the tables as before, or with the schedule advanced in the same
  transaction as the callback.
\<close>

definition pass_idle :: "cron_job \<Rightarrow> world \<Rightarrow> cron_result \<Rightarrow> world \<Rightarrow> bool" where
  "pass_idle j w res w' \<longleftrightarrow> (let name = cp_Name (cj_params j) in
     (db w' = db w \<or> db w' = (db w)\<lparr>outbox := []\<rparr>) \<and> Outcome res \<noteq> Ran
     \<and> (Outcome res = Busy \<longrightarrow> \<not> lock_free_for ThisTx (KeyHash name) w)
     \<and> (Outcome res = NotDue \<longrightarrow> (\<exists>t n. clock w \<le> n \<and> n < t \<and> find_schedule name (db w) = Some t
          \<and> NextRunAt res = Some t)))"

definition pass_advanced :: "cron_job \<Rightarrow> world \<Rightarrow> cron_result \<Rightarrow> err option \<Rightarrow> world \<Rightarrow> bool" where
  "pass_advanced j w res e w' \<longleftrightarrow>
     (let name = cp_Name (cj_params j); stride = interval (cp_Interval (cj_params j)) in
      \<exists>start t. clock w \<le> start \<and> start \<le> t \<and> t \<le> clock w' \<and> due_time name start (db w) \<le> start
        \<and> lock_free_for ThisTx (KeyHash name) w
        \<and> find_schedule name (db w') = Some (date_bin stride t (due_time name start (db w)) + stride)
        \<and> (case e of None \<Rightarrow> Outcome res = Ran \<and> NextRunAt res = find_schedule name (db w')
            | Some _ \<Rightarrow> res = no_result))"

lemma idle_error: "db w' = db w \<Longrightarrow> pass_idle j w no_result w'"
  by (simp add: pass_idle_def no_result_def)

lemma commitIdle_idle:
  assumes run: "run_state (commitIdle result) w1 = ((res, e), w')" and tx: "snapshot w1 = Some (db w)"
    and same: "db w1 = db w" and idle: "\<And>v. db v = db w \<or> db v = (db w)\<lparr>outbox := []\<rparr> \<Longrightarrow> pass_idle j w result v"
  shows "snapshot w' = None \<and> pass_idle j w res w'"
proof -
  obtain c w2 where c: "run_state commit_tx w1 = (c, w2)" by (cases "run_state commit_tx w1")
  note C = commit_db [OF c tx]
  show ?thesis
  proof (cases c)
    case (Inl x)
    with run c C same show ?thesis
      by (auto simp: commitIdle_def run_attempt pass_idle_def no_result_def)
  next
    case (Inr x)
    with run c C same idle [of w2] show ?thesis by (auto simp: commitIdle_def run_attempt)
  qed
qed

lemma due_part_pass:
  assumes cb: "cron_callback (cj_Run j)"
    and run: "run_state (due_part skew j x) w2 = ((res, e), w3)" and tx: "snapshot w2 = Some d"
    and due: "find_schedule (cp_Name (cj_params j)) (db w2) = Some due"
  shows "snapshot w3 = Some d \<and> res = no_result \<or> snapshot w3 = None \<and> (db w3 = d \<and> res = no_result \<or>
      (\<exists>t. clock w2 \<le> t \<and> t \<le> clock w3 \<and> find_schedule (cp_Name (cj_params j)) (db w3)
           = Some (date_bin (interval (cp_Interval (cj_params j))) t due + interval (cp_Interval (cj_params j)))
         \<and> (case e of None \<Rightarrow> Outcome res = Ran \<and> NextRunAt res = find_schedule (cp_Name (cj_params j)) (db w3)
            | Some _ \<Rightarrow> res = no_result)))"
proof -
  let ?name = "cp_Name (cj_params j)" and ?every = "cp_Interval (cj_params j)"
  obtain r u where u: "run_state (cj_Run j x) w2 = (r, u)" by (cases "run_state (cj_Run j x) w2")
  with cb tx have U: "snapshot u = Some d" "schedules (db u) = schedules (db w2)" "clock w2 \<le> clock u"
    by (auto simp: cron_callback_def)
  then have due': "find_schedule ?name (db u) = Some due" using due by (simp add: find_schedule_def)
  show ?thesis
  proof (cases r)
    case (Some er)
    with run u U show ?thesis by (auto simp: due_part_def)
  next
    case None
    obtain g v where g: "run_state (query_row (advance_schedule ?name ?every)) u = (g, v)"
      by (cases "run_state (query_row (advance_schedule ?name ?every)) u")
    from g U(1) cron_statement_frames(4) show ?thesis
    proof (cases rule: query_row_in_tx)
      case (aborted er)
      with run u None g U show ?thesis by (auto simp: due_part_def run_attempt)
    next
      case (no_rows v1)
      with advance_next [of ?name v1 due ?every] due' round_trip_frame [OF no_rows(2)] have False by simp
      then show ?thesis ..
    next
      case (found a v1)
      note f = round_trip_frame [OF found(2)]
      let ?next = "date_bin (interval ?every) (clock v1) due + interval ?every"
      from advance_next [of ?name v1 due ?every] due' f found(3)
      have a: "a = (?next, clock v1)" and n: "find_schedule ?name (db v) = Some ?next" by auto
      have v: "snapshot v = Some d" "clock v = clock v1"
        using found(3) f U(1) cron_statement_frames(4,5) [of ?name ?every v1] by simp_all
      obtain c w4 where c: "run_state commit_tx v = (c, w4)" by (cases "run_state commit_tx v")
      note C = commit_db [OF c v(1)]
      have "run_state (due_part skew j x) w2 = (case c of Inl er \<Rightarrow> (no_result, Some (wrap ''commit schedule: '' er))
          | Inr _ \<Rightarrow> (\<lparr>Outcome = Ran, NextRunAt = Some ?next, wakeAt = Some (clock v + skew + (?next - clock v1))\<rparr>, None), w4)"
        using u None g found(1) a c
        by (simp add: due_part_def run_attempt local_after_def State_Monad.get_def split: sum.splits)
      with run have rw: "w3 = w4" and re: "(res, e) = (case c of Inl er \<Rightarrow> (no_result, Some (wrap ''commit schedule: '' er))
          | Inr _ \<Rightarrow> (\<lparr>Outcome = Ran, NextRunAt = Some ?next, wakeAt = Some (clock v + skew + (?next - clock v1))\<rparr>, None))"
        by auto
      have n4: "find_schedule ?name (db v\<lparr>outbox := []\<rparr>) = Some ?next" using n by (simp add: find_schedule_def)
      have t: "clock w2 \<le> clock v1" "clock v1 \<le> clock w4" using C v U f(12) by auto
      show ?thesis
        using C re n4 t unfolding rw by (cases c) auto
    qed
  qed
qed

lemma locked_part_pass:
  fixes w :: world and j :: cron_job
  defines "ended \<equiv> \<lambda>res e v. snapshot v = Some (db w) \<and> res = no_result
      \<or> snapshot v = None \<and> (pass_idle j w res v \<or> pass_advanced j w res e v)"
  assumes cb: "cron_callback (cj_Run j)"
    and run: "run_state (locked_part skew j x) w3 = ((res, e), w2)"
    and w3: "snapshot w3 = Some (db w)" "db w3 = db w" "tx_start w3 \<le> clock w3" "clock w \<le> tx_start w3"
    and free: "lock_free_for ThisTx (KeyHash (cp_Name (cj_params j))) w"
  shows "ended res e w2"
proof -
  let ?name = "cp_Name (cj_params j)" and ?start = "tx_start w3"
  let ?due = "due_time ?name ?start (db w)"
  obtain g w4 where g: "run_state (query (init_schedule ?name)) w3 = (g, w4)"
    by (cases "run_state (query (init_schedule ?name)) w3")
  from g w3(1) cron_statement_frames(1) show ?thesis
  proof (cases rule: query_in_tx)
    case (aborted er)
    with run g w3 show ?thesis by (auto simp: locked_part_def run_attempt Let_def ended_def)
  next
    case (answered y v2)
    note f2 = round_trip_frame [OF answered(2)]
    have w4: "w4 = snd (init_schedule ?name v2)" using answered(3) by simp
    have now2: "now v2 = ?start" using f2 w3 by (simp add: now_def)
    have W4: "snapshot w4 = Some (db w)" "?start \<le> clock w4" "tx_start w4 = ?start"
      "find_schedule ?name (db w4) = Some ?due"
      using f2 w3 by (simp_all add: w4 init_schedule_db now2)
    obtain q w5 where q: "run_state (query_row (read_schedule ?name)) w4 = (q, w5)"
      by (cases "run_state (query_row (read_schedule ?name)) w4")
    from q W4(1) cron_statement_frames(3) show ?thesis
    proof (cases rule: query_row_in_tx)
      case (aborted er)
      with run g answered(1) q W4 show ?thesis by (auto simp: locked_part_def run_attempt Let_def ended_def)
    next
      case (no_rows v3)
      with W4(4) round_trip_frame [OF no_rows(2)] show ?thesis by (simp add: read_schedule_def)
    next
      case (found p v3)
      note f3 = round_trip_frame [OF found(2)]
      have p: "p = (?due, ?start)" "w5 = v3"
        using found(3) f3 W4 by (auto simp: read_schedule_def now_def)
      have W5: "snapshot w5 = Some (db w)" "db w5 = db w4" "?start \<le> clock w5"
        using p(2) f3 W4 by simp_all
      have rest: "run_state (if ?due > ?start then do {
            wake \<leftarrow> local_after skew (?due - ?start);
            commitIdle \<lparr>Outcome = NotDue, NextRunAt = Some ?due, wakeAt = Some wake\<rparr> }
          else due_part skew j x) w5 = ((res, e), w2)"
        using run g answered(1) q found(1) p(1) by (simp add: locked_part_def run_attempt Let_def)
      show ?thesis
      proof (cases "?due > ?start")
        case late: True
        then have fs: "find_schedule ?name (db w) = Some ?due" by (auto simp: due_time_def split: option.splits)
        then have "?name \<in> c_name ` set (schedules (db w))" by (rule find_schedule_name)
        then have same: "db w5 = db w" using W5(2) f2 w3 by (simp add: w4 init_schedule_db)
        let ?res = "\<lparr>Outcome = NotDue, NextRunAt = Some ?due, wakeAt = Some (clock w5 + skew + (?due - ?start))\<rparr>"
        have ci: "run_state (commitIdle ?res) w5 = ((res, e), w2)"
          using rest late by (simp add: local_after_def State_Monad.get_def)
        have "pass_idle j w ?res v" if "db v = db w \<or> db v = (db w)\<lparr>outbox := []\<rparr>" for v
          using that fs late w3(4) by (auto simp: pass_idle_def)
        from commitIdle_idle [OF ci W5(1) same this] show ?thesis by (simp add: ended_def)
      next
        case False
        with rest have dp: "run_state (due_part skew j x) w5 = ((res, e), w2)" by simp
        have fs: "find_schedule ?name (db w5) = Some ?due" using W5(2) W4(4) by simp
        from due_part_pass [OF cb dp W5(1) fs] show ?thesis
        proof (elim disjE conjE exE)
          fix t
          assume "clock w5 \<le> t" "t \<le> clock w2"
            "find_schedule ?name (db w2) = Some (date_bin (interval (cp_Interval (cj_params j))) t ?due
               + interval (cp_Interval (cj_params j)))"
            "case e of None \<Rightarrow> Outcome res = Ran \<and> NextRunAt res = find_schedule ?name (db w2) | Some _ \<Rightarrow> res = no_result"
          then have "pass_advanced j w res e w2"
            unfolding pass_advanced_def Let_def using False free w3(4) W5(3)
            by (intro exI [of _ ?start] exI [of _ t]) auto
          then show "snapshot w2 = None \<Longrightarrow> ?thesis" by (simp add: ended_def)
        qed (auto simp: ended_def intro: idle_error)
      qed
    qed
  qed
qed

lemma runLocked_pass:
  assumes cb: "cron_callback (cj_Run j)" and idle: "snapshot w = None"
    and run: "run_state (runLocked skew j x) w = ((res, e), w')"
  shows "snapshot w' = None \<and> (pass_idle j w res w' \<or> pass_advanced j w res e w')"
proof -
  let ?name = "cp_Name (cj_params j)"
  obtain b w1 where b: "run_state begin_tx w = (b, w1)" by (cases "run_state begin_tx w")
  note B = begin_frame [OF b idle]
  show ?thesis
  proof (cases b)
    case (Inl er)
    with run b B show ?thesis by (auto simp: runLocked_def run_attempt intro!: idle_error)
  next
    case (Inr u)
    with B have s1: "snapshot w1 = Some (db w)" "db w1 = db w" by simp_all
    have time: "clock w \<le> clock w1" "tx_start w1 = clock w1"
      using b idle Inr by (auto elim!: begin_cases)
    let ?lock = "query_row (try_advisory ThisTx (KeyHash ?name))"
    obtain l w3 where l: "run_state ?lock w1 = (l, w3)" by (cases "run_state ?lock w1")
    obtain re w2 where tail: "(case l of Inl er \<Rightarrow> ((no_result, Some (wrap ''acquire schedule lock: '' er)), w3)
        | Inr acquired \<Rightarrow> run_state (if \<not> acquired then commitIdle (no_result\<lparr>Outcome := Busy\<rparr>)
            else locked_part skew j x) w3) = (re, w2)" by (metis surj_pair)
    with run b Inr l have r: "(res, e) = re" "w' = restore w2"
      by (auto simp: runLocked_def run_attempt run_deferring_rollback TryAdvisoryXactLock_def
          tryAdvisoryXactLock_def split: sum.splits)
    have ended: ?thesis if "snapshot w2 = Some (db w) \<and> res = no_result
        \<or> snapshot w2 = None \<and> (pass_idle j w res w2 \<or> pass_advanced j w res e w2)"
      using that r(2) by (auto simp: restore_frame intro!: idle_error)
    from l s1(1) try_advisory_frame(1) show ?thesis
    proof (cases rule: query_row_in_tx)
      case (aborted er)
      with tail r(1) s1 show ?thesis by (intro ended) auto
    next
      case (no_rows v)
      then show ?thesis by (simp add: try_advisory_def split: if_splits)
    next
      case (found a v)
      note f = round_trip_frame [OF found(2)]
      from found(3) f s1 time have w3: "snapshot w3 = Some (db w)" "db w3 = db w"
        "tx_start w3 \<le> clock w3" "clock w \<le> tx_start w3"
        by (auto simp: try_advisory_def split: if_splits)
      have a: "a = lock_free_for ThisTx (KeyHash ?name) w"
        using found(3) f(10) B by (auto simp: lock_free_for_def try_advisory_def split: if_splits)
      show ?thesis
      proof (cases a)
        case False
        with tail found(1) r(1) have "run_state (commitIdle (no_result\<lparr>Outcome := Busy\<rparr>)) w3 = ((res, e), w2)" by simp
        from commitIdle_idle [OF this w3(1,2), of j] False a show ?thesis
          by (intro ended) (auto simp: pass_idle_def no_result_def)
      next
        case True
        with tail found(1) r(1) have "run_state (locked_part skew j x) w3 = ((res, e), w2)" by simp
        from locked_part_pass [OF cb this w3] True a show ?thesis by (intro ended) simp
      qed
    qed
  qed
qed

section \<open>Properties\<close>

definition sample_job :: cron_job where
  "sample_job = \<lparr>cj_params = \<lparr>cp_Name = ''nightly'', cp_Interval = 10000000000, cp_RetryInterval = 1000000000,
     cp_Run = None, cp_AfterRun = None\<rparr>, cj_Run = (\<lambda>x. State_Monad.return None)\<rparr>"

lemma sample_callback: "cron_callback (cj_Run sample_job)"
  by (simp add: cron_callback_def sample_job_def)

lemma sample_pass:
  "fst (run_state (runLocked 0 sample_job background) initial_world)
     = (\<lparr>Outcome = Ran, NextRunAt = Some 10000000, wakeAt = Some 10000000\<rparr>, None)"
  by (simp add: runLocked_def locked_part_def due_part_def sample_job_def run_simps begin_tx_def round_trip_def
      initial_world_def empty_database_def TryAdvisoryXactLock_def tryAdvisoryXactLock_def query_row_def try_advisory_def
      lock_free_for_def end_statement_def init_schedule_def read_schedule_def advance_schedule_def on_db_def
      find_schedule_def now_def upd_where_def date_bin_def interval_def commit_tx_def local_after_def
      State_Monad.get_def no_result_def Let_def)





end
