(* ===== verification/Workflow_Core.thy ===== *)
theory Workflow_Core
  imports Queue_Worker
begin

text \<open>
  The values of the workflow package: retry policies and options (\<open>workflow/options.go\<close>), definitions
  and their queue names (\<open>workflow/workflow.go\<close>), statuses (\<open>workflow/records.go\<close>), names
  (\<open>workflow/signal.go\<close>), the jsonb check (\<open>workflow/schema.go\<close>), error markers
  (\<open>workflow/errors.go\<close>) and the search pattern of \<open>workflow/client.go\<close>.

  A value of the application's types is seen through its codec: the name \<open>%T\<close> prints and the JSON
  encoder and decoder of its type. \<open>quote\<close> is the verb \<open>%q\<close>.
\<close>

section \<open>Retry policies\<close>

record retry_policy =
  rt_MaxAttempts :: int
  rt_Backoff :: int
  rt_MaxBackoff :: int

definition NoRetry :: retry_policy where
  "NoRetry = \<lparr>rt_MaxAttempts = 1, rt_Backoff = 0, rt_MaxBackoff = 0\<rparr>"

definition overriddenBy :: "retry_policy \<Rightarrow> retry_policy \<Rightarrow> retry_policy" where
  "overriddenBy r0 ov =
     (let r1 = (if 0 < rt_MaxAttempts ov then r0\<lparr>rt_MaxAttempts := rt_MaxAttempts ov\<rparr> else r0);
          r2 = (if 0 < rt_Backoff ov then r1\<lparr>rt_Backoff := rt_Backoff ov\<rparr> else r1)
      in if 0 < rt_MaxBackoff ov then r2\<lparr>rt_MaxBackoff := rt_MaxBackoff ov\<rparr> else r2)"

definition retry_withDefaults :: "retry_policy \<Rightarrow> retry_policy" where
  "retry_withDefaults r0 =
     (let r1 = (if rt_MaxAttempts r0 \<le> 0 then r0\<lparr>rt_MaxAttempts := 3\<rparr> else r0);
          r2 = (if rt_Backoff r1 \<le> 0 then r1\<lparr>rt_Backoff := second\<rparr> else r1)
      in if rt_MaxBackoff r2 \<le> 0 then r2\<lparr>rt_MaxBackoff := max (60 * second) (rt_Backoff r2)\<rparr> else r2)"

text \<open>
  \<open>delayAfter\<close> in floats: the product of \<open>float64(Backoff)\<close> and \<open>2^doublings\<close> is exact until it
  overflows to an infinity, which is above \<open>MaxBackoff\<close> if the backoff is positive; the conversion
  to \<open>time.Duration\<close> gives \<open>outside\<close> when it is out of range.
\<close>

definition delayAfter :: "int \<Rightarrow> retry_policy \<Rightarrow> int \<Rightarrow> int" where
  "delayAfter outside r att =
     (let doublings = nat (max (att - 1) 0); v = round53 (rt_Backoff r) * 2 ^ doublings in
      if 1023 < doublings then (if 0 < rt_Backoff r then rt_MaxBackoff r else outside)
      else if round53 (rt_MaxBackoff r) < v then rt_MaxBackoff r
      else if - (2 ^ 63) \<le> v \<and> v \<le> max_int64 then v else outside)"

section \<open>Options\<close>

datatype step_option = StepRetry retry_policy | StepTimeout int
datatype start_option = StartKey string | StartTimeout int
datatype define_option = DefineVersion int | DefineRetry retry_policy

record step_config =
  sc_retry :: "retry_policy option"
  sc_timeout :: int

record start_config =
  st_key :: string
  st_timeout :: int

record wf_definition =
  d_name :: string
  d_version :: int
  d_retry :: retry_policy

fun applyToStep :: "step_option \<Rightarrow> step_config \<Rightarrow> step_config" where
  "applyToStep (StepRetry r) c = c\<lparr>sc_retry := Some r\<rparr>"
| "applyToStep (StepTimeout t) c = c\<lparr>sc_timeout := t\<rparr>"

fun applyToStart :: "start_option \<Rightarrow> start_config \<Rightarrow> start_config" where
  "applyToStart (StartKey k) c = c\<lparr>st_key := k\<rparr>"
| "applyToStart (StartTimeout t) c = c\<lparr>st_timeout := t\<rparr>"

fun applyToDefinition :: "define_option \<Rightarrow> wf_definition \<Rightarrow> wf_definition" where
  "applyToDefinition (DefineVersion v) d = d\<lparr>d_version := v\<rparr>"
| "applyToDefinition (DefineRetry r) d = d\<lparr>d_retry := r\<rparr>"

text \<open>\<open>stepConfig\<close> of \<open>workflow/context.go\<close>: the step's options over the workflow's policy.\<close>

definition stepConfig :: "wf_definition \<Rightarrow> step_option list \<Rightarrow> step_config" where
  "stepConfig d options =
     (let config = fold applyToStep options \<lparr>sc_retry = None, sc_timeout = 0\<rparr>;
          r = (case sc_retry config of None \<Rightarrow> d_retry d | Some ov \<Rightarrow> overriddenBy (d_retry d) ov)
      in config\<lparr>sc_retry := Some (retry_withDefaults r)\<rparr>)"

section \<open>Names, statuses, errors\<close>

definition validName :: "string \<Rightarrow> bool" where
  "validName name \<longleftrightarrow> trim_space name \<noteq> [] \<and> \<not> contains name ''#''"

text \<open>\<open>NewSignal\<close>: a panic is \<open>Inl\<close> of its message.\<close>

definition NewSignal :: "string \<Rightarrow> string + string" where
  "NewSignal name = (if \<not> validName name
     then Inl (''workflow: NewSignal('' @ name @ ''): '' @ sentinel_text ErrInvalidName) else Inr name)"

fun run_status_text :: "run_status \<Rightarrow> string" where
  "run_status_text RunPending = ''pending''"
| "run_status_text RunRunning = ''running''"
| "run_status_text RunWaiting = ''waiting''"
| "run_status_text RunSucceeded = ''succeeded''"
| "run_status_text RunFailed = ''failed''"
| "run_status_text RunCancelled = ''cancelled''"

fun step_kind_text :: "step_kind \<Rightarrow> string" where
  "step_kind_text KindStep = ''step''"
| "step_kind_text KindSleep = ''sleep''"
| "step_kind_text KindSignal = ''signal''"
| "step_kind_text KindChild = ''child''"

definition Finished :: "run_status \<Rightarrow> bool" where
  "Finished s \<longleftrightarrow> s = RunSucceeded \<or> s = RunFailed \<or> s = RunCancelled"

definition step_NonRetryable :: "err option \<Rightarrow> err option" where
  "step_NonRetryable eo = map_option StepNonRetryable eo"

fun is_step_non_retryable :: "err \<Rightarrow> bool" where
  "is_step_non_retryable (StepNonRetryable e) = True"
| "is_step_non_retryable e = False"

definition isNonRetryable :: "err \<Rightarrow> bool" where
  "isNonRetryable e \<longleftrightarrow> list_ex is_step_non_retryable (err_chain e)"

section \<open>Storable JSON\<close>

definition bslash :: char where "bslash = CHR 92"

definition nul_escape :: string where
  "nul_escape = bslash # ''u0000''"

fun checkStorable :: "string \<Rightarrow> err option" where
  "checkStorable [] = None"
| "checkStorable (c # raw) =
     (if length (c # raw) < 6 then None
      else if c \<noteq> bslash then checkStorable raw
      else if take 6 (c # raw) = nul_escape then Some (Sentinel ErrUnstorableNUL)
      else checkStorable (drop 1 raw))"

section \<open>Definitions\<close>

record 'a codec =
  type_name :: string
  marshal :: "'a \<Rightarrow> string result"
  unmarshal :: "string \<Rightarrow> 'a result"

text \<open>\<open>json.Marshal\<close> followed by \<open>checkStorable\<close>, as \<open>StartTx\<close>, \<open>SignalTx\<close> and others do it.\<close>

definition marshal_storable :: "'a codec \<Rightarrow> 'a \<Rightarrow> string result" where
  "marshal_storable c a = (case marshal c a of Inl e \<Rightarrow> Inl e
     | Inr s \<Rightarrow> (case checkStorable s of Some e \<Rightarrow> Inl e | None \<Rightarrow> Inr s))"

text \<open>
  The function \<open>Define\<close> stores in a definition: decode the input, run the workflow function, encode
  its output. \<open>Define\<close> itself panics (\<open>Inl\<close>) on an invalid name or a nil function.
\<close>

definition execute_typed ::
  "'i codec \<Rightarrow> 'o codec \<Rightarrow> ('i \<Rightarrow> ('s, 'o result) state) \<Rightarrow> string \<Rightarrow> ('s, string result) state" where
  "execute_typed ci co run rawInput = (case unmarshal ci rawInput of
       Inl e \<Rightarrow> State_Monad.return (Inl (Wrapf [] (Sentinel ErrNonDeterministic)
         ('': run input does not decode into '' @ type_name ci @ '': '' @ err_text e)))
     | Inr input \<Rightarrow> attempt (run input) Inl (\<lambda>output. State_Monad.return
         (case marshal_storable co output of
            Inl e \<Rightarrow> Inl (wrap (''workflow: encode '' @ type_name co @ '' output: '') e)
          | Inr encoded \<Rightarrow> Inr encoded)))"

definition Define ::
  "(string \<Rightarrow> string) \<Rightarrow> 'i codec \<Rightarrow> 'o codec \<Rightarrow> string \<Rightarrow> ('i \<Rightarrow> ('s, 'o result) state) option \<Rightarrow> define_option list
    \<Rightarrow> string + wf_definition \<times> (string \<Rightarrow> ('s, string result) state)" where
  "Define quote ci co name run options =
     (if trim_space name = [] \<or> contains name ''@''
      then Inl (''workflow: Define('' @ quote name @ '') needs a non-empty name without '' @ [CHR 39] @ ''@'' @ [CHR 39])
      else (case run of None \<Rightarrow> Inl (''workflow: Define('' @ quote name @ '') needs a function'')
        | Some f \<Rightarrow> Inr (fold applyToDefinition options
             \<lparr>d_name = name, d_version = 0,
              d_retry = \<lparr>rt_MaxAttempts = 0, rt_Backoff = 0, rt_MaxBackoff = 0\<rparr>\<rparr>,
            execute_typed ci co f)))"

definition queueName :: "wf_definition \<Rightarrow> string" where
  "queueName d = (if d_version d = 0 then ''pgworkflow:'' @ d_name d
     else ''pgworkflow:'' @ d_name d @ ''@'' @ dec_int (d_version d))"

section \<open>Search patterns\<close>

fun escape_like :: "char \<Rightarrow> string" where
  "escape_like c = (if c = bslash \<or> c = CHR ''%'' \<or> c = CHR ''_'' then [bslash, c] else [c])"

definition searchPattern :: "string \<Rightarrow> string" where
  "searchPattern search = ''%'' @ concat (map escape_like (trim_space search)) @ ''%''"

section \<open>Properties\<close>

text \<open>The number of backslashes that end a string.\<close>

definition bs_run :: "string \<Rightarrow> nat" where
  "bs_run u = length (takeWhile (\<lambda>x. x = bslash) (rev u))"

lemma bs_run_Nil [simp]: "bs_run [] = 0"
  by (simp add: bs_run_def)

lemma bs_run_Cons: "bs_run (c # u) = (if c = bslash \<and> set u \<subseteq> {bslash} then length u + 1 else bs_run u)"
proof (cases "set u \<subseteq> {bslash}")
  case True
  then have all: "takeWhile (\<lambda>x. x = bslash) (rev u) = rev u" by (intro takeWhile_eq_all_conv [THEN iffD2]) auto
  with True show ?thesis by (auto simp: bs_run_def takeWhile_append) (simp add: all)
next
  case False
  then obtain x where "x \<in> set (rev u)" "x \<noteq> bslash" by auto
  then have "takeWhile (\<lambda>x. x = bslash) (rev u @ [c]) = takeWhile (\<lambda>x. x = bslash) (rev u)"
    by (rule takeWhile_append1)
  with False show ?thesis by (simp add: bs_run_def)
qed

lemma bs_run_all: "set u \<subseteq> {bslash} \<Longrightarrow> bs_run u = length u"
  by (induction u) (simp_all add: bs_run_Cons)

lemma bs_run_Cons2: "even (bs_run (bslash # d # u)) = even (bs_run u)"
  by (auto simp: bs_run_Cons bs_run_all)

definition has_nul_escape :: "string \<Rightarrow> bool" where
  "has_nul_escape raw \<longleftrightarrow> (\<exists>u v. raw = u @ nul_escape @ v \<and> even (bs_run u))"

lemma has_nul_escape_short: "length raw < 6 \<Longrightarrow> \<not> has_nul_escape raw"
  by (auto simp: has_nul_escape_def nul_escape_def)

lemma has_nul_escape_other: "c \<noteq> bslash \<Longrightarrow> has_nul_escape (c # raw) = has_nul_escape raw"
  unfolding has_nul_escape_def
  by (auto simp: Cons_eq_append_conv bs_run_Cons nul_escape_def) (metis append_Cons bs_run_Cons)

lemma has_nul_escape_here: "take 6 raw = nul_escape \<Longrightarrow> has_nul_escape raw"
  unfolding has_nul_escape_def by (metis append_Nil append_take_drop_id bs_run_Nil even_zero)

lemma has_nul_escape_skip:
  assumes "take 6 (bslash # d # raw) \<noteq> nul_escape"
  shows "has_nul_escape (bslash # d # raw) = has_nul_escape raw"
proof
  assume "has_nul_escape (bslash # d # raw)"
  then obtain u v where uv: "bslash # d # raw = u @ nul_escape @ v" "even (bs_run u)"
    by (auto simp: has_nul_escape_def)
  have "u \<noteq> []" using uv assms by (auto simp: nul_escape_def)
  moreover have "u \<noteq> [bslash]" using uv by (auto simp: bs_run_Cons)
  ultimately obtain u' where u': "u = bslash # d # u'" using uv
    by (cases u; cases "tl u") (auto simp: nul_escape_def)
  with uv show "has_nul_escape raw" unfolding has_nul_escape_def by (auto simp: bs_run_Cons2)
next
  assume "has_nul_escape raw"
  then obtain u v where "raw = u @ nul_escape @ v" "even (bs_run u)" by (auto simp: has_nul_escape_def)
  then show "has_nul_escape (bslash # d # raw)" unfolding has_nul_escape_def
    by (intro exI [of _ "bslash # d # u"] exI [of _ v]) (simp add: bs_run_Cons2)
qed

text \<open>
  The jsonb check is exact: \<open>checkStorable\<close> refuses an encoded value if and only if it contains
  the escape \<open>\u0000\<close> as an escape, that is after an even number of backslashes; an escaped backslash
  followed by the text \<open>u0000\<close> passes.
\<close>

theorem checkStorable_exact:
  "checkStorable raw = (if \<exists>u v. raw = u @ nul_escape @ v \<and> even (bs_run u)
     then Some (Sentinel ErrUnstorableNUL) else None)"
proof -
  have "checkStorable raw = (if has_nul_escape raw then Some (Sentinel ErrUnstorableNUL) else None)"
  proof (induction raw rule: checkStorable.induct)
    case 1
    show ?case by (simp add: has_nul_escape_short)
  next
    case (2 c raw)
    then show ?case
      by (cases raw) (auto simp: has_nul_escape_short has_nul_escape_other has_nul_escape_here has_nul_escape_skip)
  qed
  then show ?thesis by (simp only: has_nul_escape_def)
qed

text \<open>
  Every version of every workflow has a queue of its own: two definitions with names \<open>Define\<close>
  accepts have the same queue name only if they have the same name and version.
\<close>

theorem queueName_identifies:
  assumes "Define quote ci co (d_name d) (Some f) os = Inr e" "Define quote ci' co' (d_name d') (Some f') os' = Inr e'"
  shows "queueName d = queueName d' \<longleftrightarrow> d_name d = d_name d' \<and> d_version d = d_version d'"
proof -
  have at: "CHR ''@'' \<notin> set (d_name d)" "CHR ''@'' \<notin> set (d_name d')"
    using assms by (auto simp: Define_def contains_char split: if_splits)
  have eq: "n = n' \<and> s = s'"
    if "n @ CHR ''@'' # s = n' @ CHR ''@'' # s'" "CHR ''@'' \<notin> set n" "CHR ''@'' \<notin> set n'" for n n' s s' :: string
    using that
  proof (induction n arbitrary: n')
    case Nil
    then show ?case by (cases n') auto
  next
    case (Cons c n)
    then show ?case by (cases n') auto
  qed
  have no: "x \<noteq> n @ CHR ''@'' # s" if "CHR ''@'' \<notin> set x" for x n s :: string
    using that by auto
  show ?thesis
  proof (cases "d_version d = 0"; cases "d_version d' = 0")
    assume "d_version d \<noteq> 0" "d_version d' \<noteq> 0"
    then have "queueName d = queueName d' \<longleftrightarrow>
        d_name d @ CHR ''@'' # dec_int (d_version d) = d_name d' @ CHR ''@'' # dec_int (d_version d')"
      by (simp add: queueName_def)
    then show ?thesis using eq [OF _ at] dec_int_inj by metis
  qed (use at no [OF at(1)] no [OF at(2)] no [OF at(2), symmetric] in \<open>auto simp: queueName_def\<close>)
qed

theorem queueName_identifies_witness:
  "\<exists>quote (ci :: string codec) (f :: string \<Rightarrow> (unit, string result) state).
     queueName (fst (projr (Define quote ci ci ''pay'' (Some f) []))) = ''pgworkflow:pay''
     \<and> queueName (fst (projr (Define quote ci ci ''pay'' (Some f) []))) \<noteq>
       queueName (fst (projr (Define quote ci ci ''pay'' (Some f) [DefineVersion 2])))"
proof -
  define ci :: "string codec" where "ci = \<lparr>type_name = ''string'', marshal = Inr, unmarshal = Inr\<rparr>"
  define f :: "string \<Rightarrow> (unit, string result) state" where "f = (\<lambda>x. State_Monad.return (Inr x))"
  let ?D = "Define id ci ci ''pay'' (Some f)"
  define d d' where "d = fst (projr (?D []))" and "d' = fst (projr (?D [DefineVersion 2]))"
  have [simp]: "d_name d = ''pay''" "d_version d = 0" "d_name d' = ''pay''" "d_version d' = 2"
    by (simp_all add: d_def d'_def Define_def trim_space_def trim_left_def is_space_def)
  have "Define id ci ci (d_name d) (Some f) [] = Inr (d, execute_typed ci ci f)"
    "Define id ci ci (d_name d') (Some f) [DefineVersion 2] = Inr (d', execute_typed ci ci f)"
    by (simp, simp add: d_def d'_def Define_def trim_space_def trim_left_def is_space_def)+
  from queueName_identifies [OF this] have "queueName d \<noteq> queueName d'" by simp
  moreover have "queueName d = ''pgworkflow:pay''" by (simp add: queueName_def)
  ultimately show ?thesis unfolding d_def d'_def by blast
qed

lemma overriddenBy_fields:
  "rt_MaxAttempts (overriddenBy r ov) = (if 0 < rt_MaxAttempts ov then rt_MaxAttempts ov else rt_MaxAttempts r)"
  "rt_Backoff (overriddenBy r ov) = (if 0 < rt_Backoff ov then rt_Backoff ov else rt_Backoff r)"
  "rt_MaxBackoff (overriddenBy r ov) = (if 0 < rt_MaxBackoff ov then rt_MaxBackoff ov else rt_MaxBackoff r)"
  by (simp_all add: overriddenBy_def Let_def)

lemma retry_withDefaults_fields:
  "rt_MaxAttempts (retry_withDefaults r) = (if rt_MaxAttempts r \<le> 0 then 3 else rt_MaxAttempts r)"
  "rt_Backoff (retry_withDefaults r) = (if rt_Backoff r \<le> 0 then second else rt_Backoff r)"
  "rt_MaxBackoff (retry_withDefaults r) = (if rt_MaxBackoff r \<le> 0
     then max (60 * second) (rt_Backoff (retry_withDefaults r)) else rt_MaxBackoff r)"
  by (simp_all add: retry_withDefaults_def Let_def)

lemma capped:
  fixes v m :: int
  assumes "over \<Longrightarrow> m < v" "v \<le> m \<Longrightarrow> fits"
  shows "(if over then m else if m < v then m else if fits then v else out) = min m v"
  using assms by auto

text \<open>
  A step's retry policy: each field is the step's if positive, else the workflow's if positive,
  else the default; at least one attempt is made; and the wait after failed attempt \<open>n\<close> is exactly
  \<open>min(MaxBackoff, Backoff * 2^(n-1))\<close>, positive for every \<open>n\<close> however large. (For durations below
  \<open>2^53\<close> ns, 104 days, which floats represent exactly.)
\<close>

theorem step_retry_policy:
  assumes pol: "stepConfig d os = c" "sc_retry c = Some r"
    and range: "rt_Backoff r < 2 ^ 53" "rt_MaxBackoff r < 2 ^ 53"
  shows "1 \<le> rt_MaxAttempts r
     \<and> (\<forall>n \<ge> 1. delayAfter outside r n = min (rt_MaxBackoff r) (rt_Backoff r * 2 ^ nat (n - 1))
          \<and> 0 < delayAfter outside r n)
     \<and> (os = [StepRetry ov] \<longrightarrow>
          rt_MaxAttempts r = (if 0 < rt_MaxAttempts ov then rt_MaxAttempts ov
            else if 0 < rt_MaxAttempts (d_retry d) then rt_MaxAttempts (d_retry d) else 3)
          \<and> rt_Backoff r = (if 0 < rt_Backoff ov then rt_Backoff ov
            else if 0 < rt_Backoff (d_retry d) then rt_Backoff (d_retry d) else second))"
proof -
  obtain q where r: "r = retry_withDefaults q" using pol by (auto simp: stepConfig_def Let_def)
  have pos: "1 \<le> rt_MaxAttempts r" "0 < rt_Backoff r" "0 < rt_MaxBackoff r"
    by (simp_all add: r retry_withDefaults_fields less_max_iff_disj)
  have delay: "delayAfter outside r n = min (rt_MaxBackoff r) (rt_Backoff r * 2 ^ nat (n - 1))" if "1 \<le> n" for n
  proof -
    let ?k = "nat (n - 1)"
    have k: "nat (max (n - 1) 0) = ?k" using that by (simp add: max_def)
    have big: "rt_MaxBackoff r < rt_Backoff r * 2 ^ ?k" if "1023 < ?k"
    proof -
      have "(2 :: int) ^ 53 \<le> 2 ^ ?k" using that by (intro power_increasing) auto
      also have "\<dots> \<le> rt_Backoff r * 2 ^ ?k" using pos mult_right_mono [of 1 "rt_Backoff r" "2 ^ ?k"] by simp
      finally show ?thesis using range by simp
    qed
    have "rt_Backoff r * 2 ^ ?k \<le> max_int64" if "rt_Backoff r * 2 ^ ?k \<le> rt_MaxBackoff r"
      using that range by (simp add: max_int64_def)
    moreover have "- (2 ^ 63) \<le> rt_Backoff r * 2 ^ ?k"
      by (rule order_trans [of _ 0], simp) (rule mult_nonneg_nonneg, use pos in simp_all)
    moreover have "round53 (rt_Backoff r) = rt_Backoff r" "round53 (rt_MaxBackoff r) = rt_MaxBackoff r"
      using pos range by (simp_all add: round53_exact)
    ultimately show ?thesis
      unfolding delayAfter_def Let_def k using pos(2) big by (simp only: if_True) (intro capped, blast+)
  qed
  have up: "0 < rt_Backoff r * 2 ^ k" for k using pos by simp
  have "delayAfter outside r n = min (rt_MaxBackoff r) (rt_Backoff r * 2 ^ nat (n - 1))
          \<and> 0 < delayAfter outside r n" if "1 \<le> n" for n
    using pos(3) up [of "nat (n - 1)"] by (simp only: delay [OF that] min_less_iff_conj simp_thms)
  moreover have "rt_MaxAttempts r = (if 0 < rt_MaxAttempts ov then rt_MaxAttempts ov
        else if 0 < rt_MaxAttempts (d_retry d) then rt_MaxAttempts (d_retry d) else 3)"
    "rt_Backoff r = (if 0 < rt_Backoff ov then rt_Backoff ov
        else if 0 < rt_Backoff (d_retry d) then rt_Backoff (d_retry d) else second)"
    if "os = [StepRetry ov]"
    using pol that by (auto simp: stepConfig_def Let_def retry_withDefaults_fields overriddenBy_fields)
  ultimately show ?thesis using pos(1) by blast
qed

theorem step_retry_policy_witness:
  "delayAfter 0 (the (sc_retry (stepConfig \<lparr>d_name = ''pay'', d_version = 0, d_retry = NoRetry\<rparr>
       [StepRetry \<lparr>rt_MaxAttempts = 0, rt_Backoff = 0, rt_MaxBackoff = 0\<rparr>]))) 8 = 60 * second"
proof -
  let ?z = "\<lparr>rt_MaxAttempts = 0, rt_Backoff = 0, rt_MaxBackoff = 0\<rparr>"
  let ?d = "\<lparr>d_name = ''pay'', d_version = 0, d_retry = NoRetry\<rparr>"
  let ?r = "the (sc_retry (stepConfig ?d [StepRetry ?z]))"
  have r: "?r = \<lparr>rt_MaxAttempts = 1, rt_Backoff = second, rt_MaxBackoff = 60 * second\<rparr>"
    by (simp add: stepConfig_def Let_def NoRetry_def overriddenBy_def retry_withDefaults_def)
  have "sc_retry (stepConfig ?d [StepRetry ?z]) = Some ?r" by (simp add: stepConfig_def Let_def)
  from step_retry_policy [OF refl this, of 0 ?z] show ?thesis unfolding r by simp
qed

section \<open>Searching\<close>

text \<open>
  \<open>LIKE\<close> of PostgreSQL with its default escape character, on single-byte characters: \<open>%\<close> matches any
  text, \<open>_\<close> any character, a backslash takes the next character literally. \<open>ILIKE\<close> folds case.
\<close>

fun like :: "string \<Rightarrow> string \<Rightarrow> bool" where
  "like [] s \<longleftrightarrow> s = []"
| "like (p # ps) s =
     (if p = CHR ''%'' then list_ex (\<lambda>k. like ps (drop k s)) [0..<Suc (length s)]
      else if p = CHR ''_'' then s \<noteq> [] \<and> like ps (tl s)
      else if p = bslash \<and> ps \<noteq> [] then s \<noteq> [] \<and> hd s = hd ps \<and> like (tl ps) (tl s)
      else s \<noteq> [] \<and> hd s = p \<and> like ps (tl s))"

definition ilike :: "string \<Rightarrow> string \<Rightarrow> bool" where
  "ilike s pattern \<longleftrightarrow> like (to_lower pattern) (to_lower s)"

lemma like_percent: "like (CHR ''%'' # ps) s \<longleftrightarrow> (\<exists>u v. s = u @ v \<and> like ps v)"
proof
  assume "like (CHR ''%'' # ps) s"
  then obtain k where "like ps (drop k s)" by (simp only: like.simps if_True list_ex_iff refl) blast
  then show "\<exists>u v. s = u @ v \<and> like ps v" by (metis append_take_drop_id)
next
  assume "\<exists>u v. s = u @ v \<and> like ps v"
  then obtain u v where "s = u @ v" "like ps v" by blast
  then show "like (CHR ''%'' # ps) s" by (auto simp: list_ex_iff intro!: bexI [of _ "length u"])
qed

declare like.simps(2) [simp del]

lemma like_literal:
  assumes "c \<noteq> CHR ''%''" "c \<noteq> CHR ''_''" "c \<noteq> bslash"
  shows "like (c # ps) s \<longleftrightarrow> (\<exists>t. s = c # t \<and> like ps t)"
  using assms by (cases s) (auto simp: like.simps(2))

lemma like_escaped: "like (bslash # c # ps) s \<longleftrightarrow> (\<exists>t. s = c # t \<and> like ps t)"
  by (cases s) (auto simp: like.simps(2) bslash_def)

lemma lower_escape: "to_lower (escape_like c) = escape_like (lower_char c)"
proof (cases "65 \<le> (of_char c :: nat) \<and> of_char c \<le> (90 :: nat)")
  case True
  then have "of_char (lower_char c) = (of_char c :: nat) + 32" by (simp add: lower_char_def)
  with True have "lower_char c \<noteq> bslash" "lower_char c \<noteq> CHR ''%''" "lower_char c \<noteq> CHR ''_''"
    "c \<noteq> bslash" "c \<noteq> CHR ''%''" "c \<noteq> CHR ''_''" by (auto simp: bslash_def)
  then show ?thesis by (simp add: to_lower_def)
next
  case False
  then have "lower_char c = c" by (simp only: lower_char_def if_False)
  moreover have "lower_char bslash = bslash" by (simp add: lower_char_def bslash_def)
  ultimately show ?thesis by (simp add: to_lower_def)
qed

declare escape_like.simps [simp del]

lemma like_escape: "like (concat (map escape_like q) @ ps) s \<longleftrightarrow> (\<exists>t. s = q @ t \<and> like ps t)"
  by (induction q arbitrary: s) (auto simp: escape_like.simps like_escaped like_literal)

text \<open>
  Searching is literal: what \<open>ListRuns\<close> and \<open>CountRuns\<close> match against the pattern of a search is
  the text that contains the search, up to case and surrounding space; \<open>%\<close>, \<open>_\<close> and backslashes in
  the search stand for themselves.
\<close>

lemma searchPattern_literal:
  "ilike s (searchPattern search) \<longleftrightarrow> contains (to_lower s) (to_lower (trim_space search))"
proof -
  have lower: "to_lower (concat (map escape_like q)) = concat (map escape_like (to_lower q))" for q
    by (induction q) (simp_all add: lower_escape [unfolded to_lower_def] to_lower_def)
  have "to_lower (searchPattern search) =
      CHR ''%'' # concat (map escape_like (to_lower (trim_space search))) @ ''%''"
    by (simp add: searchPattern_def lower [symmetric]) (simp add: to_lower_def lower_char_def)
  moreover have "like ''%'' t" for t using like_percent [of "[]" t] by simp
  ultimately show ?thesis
    by (auto simp: ilike_def like_percent like_escape contains_iff)
qed

end
