(* ===== verification/Workflow_Client.thy ===== *)
theory Workflow_Client
  imports Workflow_Core
begin

text \<open>
  The workflow client, \<open>workflow/client.go\<close>: starting runs, signals, cancellation of a run tree and
  retrying, with \<open>GetRun\<close> of \<open>workflow/inspect.go\<close>. The rows of \<open>pgworkflow_runs\<close>,
  \<open>pgworkflow_steps\<close> and \<open>pgworkflow_signals\<close> are records of theory \<open>Database\<close>.

  A run id comes from \<open>uuid.NewV7\<close>, a third-party package: it is an argument, an error or the text
  of an id. Functions that take a \<open>*sql.Tx\<close> run in the open transaction of the world.
  \<open>cancelTreeTx\<close> and \<open>retryTx\<close> take fuel for their loop and recursion, \<open>None\<close> when it runs out; two
  rounds are enough for the loop, the number of runs plus one for the recursion.
\<close>

record wf_client =
  wc_queue :: "client option"
  wc_quote :: "string \<Rightarrow> string"

definition wf_New :: "(string \<Rightarrow> string) \<Rightarrow> client option \<Rightarrow> wf_client result" where
  "wf_New quote q = (case q of None \<Rightarrow> Inl (Sentinel ErrNilQueue)
     | Some cl \<Rightarrow> if \<not> has_db cl then Inl (Sentinel ErrNilDB)
         else Inr \<lparr>wc_queue = Some cl, wc_quote = quote\<rparr>)"

section \<open>Statements\<close>

text \<open>A statement the server may refuse (\<open>Inl\<close>): inside a transaction the error aborts it.\<close>

definition query_checked :: "'a result statement \<Rightarrow> 'a result io" where
  "query_checked st = do { r \<leftarrow> query st;
     (case r of
        Inl e \<Rightarrow> State_Monad.return (Inl e)
      | Inr (Inl e) \<Rightarrow> do {
          State_Monad.update (\<lambda>w. if snapshot w = None then w else w\<lparr>tx_aborted := True\<rparr>);
          State_Monad.return (Inl e) }
      | Inr (Inr a) \<Rightarrow> State_Monad.return (Inr a)) }"

definition nonempty :: "string \<Rightarrow> string option" where
  "nonempty s = (if s = [] then None else Some s)"

definition new_run ::
  "string \<Rightarrow> wf_definition \<Rightarrow> string \<Rightarrow> start_config \<Rightarrow> string \<Rightarrow> string \<Rightarrow> int \<Rightarrow> run" where
  "new_run i d input config parentRunID parentStep n =
     \<lparr>r_id = i, r_workflow = d_name d, r_version = d_version d, r_key = nonempty (st_key config),
      r_status = RunPending, r_input = input, r_output = None, r_error = None, r_timed_out = False,
      r_parent_run_id = nonempty parentRunID, r_parent_step = nonempty parentStep, r_job_id = None,
      r_lease = 0,
      r_deadline_at = (if 0 < st_timeout config then Some (n + interval (st_timeout config)) else None),
      r_wake_at = None, r_created_at = n, r_started_at = None, r_completed_at = None, r_updated_at = n\<rparr>"

definition same_key :: "run \<Rightarrow> run \<Rightarrow> bool" where
  "same_key r q \<longleftrightarrow> r_workflow q = r_workflow r \<and> r_key r \<noteq> None \<and> r_key q = r_key r"

text \<open>\<open>INSERT \<dots> ON CONFLICT (workflow, key) DO NOTHING RETURNING id\<close>; the id is a primary key.\<close>

definition insert_run_row :: "(int \<Rightarrow> run) \<Rightarrow> string option result statement" where
  "insert_run_row mk w = (let r = mk (now w) in
     if list_ex (same_key r) (runs (db w)) then (Inr None, w)
     else if r_id r \<in> set (map r_id (runs (db w)))
     then (Inl (PgError ''23505'' ''duplicate key value violates unique constraint \"pgworkflow_runs_pkey\"''), w)
     else (Inr (Some (r_id r)), w\<lparr>db := (db w)\<lparr>runs := runs (db w) @ [r]\<rparr>\<rparr>))"

definition select_run :: "(run \<Rightarrow> bool) \<Rightarrow> (run \<Rightarrow> 'a) \<Rightarrow> 'a option statement" where
  "select_run P f w = (map_option f (find P (runs (db w))), w)"

definition update_runs :: "(run \<Rightarrow> bool) \<Rightarrow> (int \<Rightarrow> run \<Rightarrow> run) \<Rightarrow> int statement" where
  "update_runs P f = on_db (\<lambda>n d. (count_where P (runs d), d\<lparr>runs := upd_where P (f n) (runs d)\<rparr>))"

definition update_steps :: "(step \<Rightarrow> bool) \<Rightarrow> (int \<Rightarrow> step \<Rightarrow> step) \<Rightarrow> int statement" where
  "update_steps P f = on_db (\<lambda>n d. (count_where P (steps d), d\<lparr>steps := upd_where P (f n) (steps d)\<rparr>))"

definition delete_steps :: "(step \<Rightarrow> bool) \<Rightarrow> int statement" where
  "delete_steps P = on_db (\<lambda>n d. (count_where P (steps d), d\<lparr>steps := del_where P (steps d)\<rparr>))"

definition exec :: "'a statement \<Rightarrow> (err \<Rightarrow> err) \<Rightarrow> unit result io \<Rightarrow> unit result io" where
  "exec st h k = attempt (query st) (\<lambda>e. Inl (h e)) (\<lambda>_. k)"

section \<open>Starting runs\<close>

text \<open>
  \<open>json.Marshal(runJob{RunID: runID})\<close>. Strings are escaped as \<open>encoding/json\<close> does for ASCII;
  other bytes of a valid id are kept.
\<close>

definition hex_digit :: "nat \<Rightarrow> char" where
  "hex_digit n = (if n < 10 then char_of (48 + n) else char_of (87 + n))"

definition json_char :: "char \<Rightarrow> string" where
  "json_char c = (let n = (of_char c :: nat) in
     if n = 34 \<or> n = 92 then [bslash, c]
     else if n = 8 then bslash # ''b'' else if n = 12 then bslash # ''f''
     else if n = 10 then bslash # ''n'' else if n = 13 then bslash # ''r'' else if n = 9 then bslash # ''t''
     else if n < 32 \<or> n = 60 \<or> n = 62 \<or> n = 38
     then bslash # ''u00'' @ [hex_digit (n div 16), hex_digit (n mod 16)]
     else [c])"

definition json_string :: "string \<Rightarrow> string" where
  "json_string s = [CHR 34] @ concat (map json_char s) @ [CHR 34]"

definition runJob_json :: "string \<Rightarrow> string" where
  "runJob_json runID = ''{'' @ json_string ''run_id'' @ '':'' @ json_string runID @ ''}''"

definition runJobMaxAttempts :: int where
  "runJobMaxAttempts = 20"

definition link_run_job :: "string \<Rightarrow> int \<Rightarrow> int statement" where
  "link_run_job runID jobID = update_runs (\<lambda>r. r_id r = runID) (\<lambda>_ r. r\<lparr>r_job_id := Some jobID\<rparr>)"

definition enqueueRunJobTx :: "wf_client \<Rightarrow> ctx \<Rightarrow> string \<Rightarrow> string \<Rightarrow> unit result io" where
  "enqueueRunJobTx c x runID queue =
     attempt (EnqueueTx (wc_queue c) x True \<lparr>ep_QueueName = queue, ep_Payload = runJob_json runID,
         ep_AvailableAt = None, ep_MaxAttempts = runJobMaxAttempts\<rparr>)
       (\<lambda>e. Inl (wrap ''workflow: enqueue run: '' e))
       (\<lambda>jobID. exec (link_run_job runID jobID) (wrap ''workflow: link run job: '')
         (State_Monad.return (Inr ())))"

definition with_key :: "string \<Rightarrow> string \<Rightarrow> run \<Rightarrow> bool" where
  "with_key name key r \<longleftrightarrow> r_workflow r = name \<and> r_key r = Some key"

definition insertRun ::
  "wf_client \<Rightarrow> ctx \<Rightarrow> string result \<Rightarrow> wf_definition \<Rightarrow> string \<Rightarrow> start_config \<Rightarrow> string \<Rightarrow> string \<Rightarrow> string result io" where
  "insertRun c x newID d input config parentRunID parentStep = (case newID of
       Inl e \<Rightarrow> State_Monad.return (Inl (wrap ''workflow: new run id: '' e))
     | Inr i \<Rightarrow> do {
         r \<leftarrow> query_checked (insert_run_row (new_run i d input config parentRunID parentStep));
         (case r of
            Inl e \<Rightarrow> State_Monad.return (Inl (wrap ''workflow: insert run: '' e))
          | Inr None \<Rightarrow>
              attempt (query_row (select_run (with_key (d_name d) (st_key config)) r_id))
                (\<lambda>e. Inl (wrap (''workflow: find run with key '' @ wc_quote c (st_key config) @ '': '') e))
                (\<lambda>runID. State_Monad.return (Inr runID))
          | Inr (Some runID) \<Rightarrow>
              attempt (enqueueRunJobTx c x runID (queueName d)) Inl (\<lambda>_. State_Monad.return (Inr runID))) })"

definition StartTx ::
  "wf_client \<Rightarrow> ctx \<Rightarrow> string result \<Rightarrow> wf_definition \<Rightarrow> 'i codec \<Rightarrow> 'i \<Rightarrow> start_option list \<Rightarrow> string result io" where
  "StartTx c x newID d ci input options =
     (let config = fold applyToStart options \<lparr>st_key = [], st_timeout = 0\<rparr> in
      case marshal_storable ci input of
        Inl e \<Rightarrow> State_Monad.return (Inl (wrap (''workflow: encode '' @ type_name ci @ '' input: '') e))
      | Inr encoded \<Rightarrow> insertRun c x newID d encoded config [] [])"

text \<open>
  A function that begins a transaction, works in it and commits: \<open>Start\<close>, \<open>Signal\<close> and \<open>Retry\<close>
  share this shape.
\<close>

definition in_transaction :: "string \<Rightarrow> 'a result io \<Rightarrow> 'a result io" where
  "in_transaction what body =
     attempt begin_tx (\<lambda>e. Inl (wrap (''workflow: begin '' @ what @ '': '') e)) (\<lambda>_.
       deferring_rollback (attempt body Inl (\<lambda>a.
         attempt commit_tx (\<lambda>e. Inl (wrap (''workflow: commit '' @ what @ '': '') e))
           (\<lambda>_. State_Monad.return (Inr a)))))"

definition Start ::
  "wf_client \<Rightarrow> ctx \<Rightarrow> string result \<Rightarrow> wf_definition \<Rightarrow> 'i codec \<Rightarrow> 'i \<Rightarrow> start_option list \<Rightarrow> string result io" where
  "Start c x newID d ci input options = in_transaction ''start'' (StartTx c x newID d ci input options)"

definition RunByKey :: "wf_client \<Rightarrow> wf_definition \<Rightarrow> string \<Rightarrow> string result io" where
  "RunByKey c d key = attempt (query_row (select_run (with_key (d_name d) key) r_id))
     (\<lambda>e. Inl (if errors_is e SqlErrNoRows
        then Wrapf [] (Sentinel ErrRunNotFound) ('': '' @ d_name d @ '' with key '' @ wc_quote c key)
        else wrap ''workflow: find run by key: '' e))
     (\<lambda>i. State_Monad.return (Inr i))"

text \<open>\<open>GetRun\<close> of \<open>workflow/inspect.go\<close>.\<close>

definition GetRun :: "string \<Rightarrow> run result io" where
  "GetRun runID = attempt (query_row (select_run (\<lambda>r. r_id r = runID) id))
     (\<lambda>e. Inl (if errors_is e SqlErrNoRows then Wrapf [] (Sentinel ErrRunNotFound) ('': '' @ runID)
        else wrap ''workflow: get run: '' e))
     (\<lambda>r. State_Monad.return (Inr r))"

section \<open>Signals\<close>

definition lockRun :: "string \<Rightarrow> (run_status \<times> int option) result io" where
  "lockRun runID = attempt (query_row (select_run (\<lambda>r. r_id r = runID) (\<lambda>r. (r_status r, r_job_id r))))
     (\<lambda>e. Inl (if errors_is e SqlErrNoRows then Wrapf [] (Sentinel ErrRunNotFound) ('': '' @ runID)
        else wrap ''workflow: lock run: '' e))
     (\<lambda>s. State_Monad.return (Inr s))"

text \<open>\<open>lockRunTx\<close> and \<open>lockRunToNotifyTx\<close> differ in the strength of the row lock.\<close>

definition lockRunTx :: "string \<Rightarrow> (run_status \<times> int option) result io" where
  "lockRunTx runID = lockRun runID"

definition lockRunToNotifyTx :: "string \<Rightarrow> (run_status \<times> int option) result io" where
  "lockRunToNotifyTx runID = lockRun runID"

text \<open>The signal gets the time of the statement, \<open>clock_timestamp()\<close>.\<close>

definition insert_signal :: "string \<Rightarrow> string \<Rightarrow> string \<Rightarrow> unit statement" where
  "insert_signal runID name payload w = ((),
     w\<lparr>signal_seq := signal_seq w + 1,
       db := (db w)\<lparr>signals := signals (db w) @ [\<lparr>g_id = signal_seq w, g_run_id = runID, g_name = name,
         g_payload = payload, g_received_by = None, g_created_at = clock w\<rparr>]\<rparr>\<rparr>)"

definition awaits :: "string \<Rightarrow> string \<Rightarrow> step \<Rightarrow> bool" where
  "awaits runID name s \<longleftrightarrow> s_run_id s = runID \<and> s_kind s = KindSignal \<and> s_status s = StepWaiting
     \<and> s_signal s = Some name"

definition select_awaited :: "string \<Rightarrow> string \<Rightarrow> bool statement" where
  "select_awaited runID name w = (list_ex (awaits runID name) (steps (db w)), w)"

definition SignalTx :: "wf_client \<Rightarrow> string \<Rightarrow> string \<Rightarrow> 'v codec \<Rightarrow> 'v \<Rightarrow> unit result io" where
  "SignalTx c runID name cv v =
     (if \<not> validName name
      then State_Monad.return (Inl (Wrapf [] (Sentinel ErrInvalidName) ('': signal '' @ wc_quote c name)))
      else (case marshal_storable cv v of
          Inl e \<Rightarrow> State_Monad.return (Inl (wrap (''workflow: encode '' @ type_name cv @ '' signal: '') e))
        | Inr payload \<Rightarrow> attempt (lockRunToNotifyTx runID) Inl (\<lambda>(status, jobID).
            if Finished status
            then State_Monad.return (Inl (Wrapf [] (Sentinel ErrRunFinished)
              ('': '' @ runID @ '' is '' @ run_status_text status)))
            else exec (insert_signal runID name payload) (wrap ''workflow: insert signal: '')
              (attempt (query (select_awaited runID name))
                (\<lambda>e. Inl (wrap ''workflow: check awaited signal: '' e))
                (\<lambda>awaited. case jobID of
                     Some j \<Rightarrow> if status = RunWaiting \<and> awaited then WakeTx (wc_queue c) True j
                              else State_Monad.return (Inr ())
                   | None \<Rightarrow> State_Monad.return (Inr ()))))))"

definition Signal :: "wf_client \<Rightarrow> string \<Rightarrow> string \<Rightarrow> 'v codec \<Rightarrow> 'v \<Rightarrow> unit result io" where
  "Signal c runID name cv v = in_transaction ''signal'' (SignalTx c runID name cv v)"

definition wakeParentTx :: "wf_client \<Rightarrow> string \<Rightarrow> unit result io" where
  "wakeParentTx c parentRunID = do {
     r \<leftarrow> lockRunToNotifyTx parentRunID;
     (case r of
        Inl e \<Rightarrow> State_Monad.return (if errors_is e ErrRunNotFound then Inr () else Inl e)
      | Inr (status, jobID) \<Rightarrow>
          (case jobID of
             Some j \<Rightarrow> if status = RunWaiting then WakeTx (wc_queue c) True j else State_Monad.return (Inr ())
           | None \<Rightarrow> State_Monad.return (Inr ()))) }"

section \<open>Cancelling\<close>

definition runNotifyKey :: "string \<Rightarrow> string" where
  "runNotifyKey runID = ''pgworkflow.run:'' @ runID"

text \<open>
  The recursive query: level by level from the root. The rows of a level come in table order. The
  fuel is the number of runs plus one; no run is below itself, so no level is cut off.
\<close>

definition children_of :: "run list \<Rightarrow> string list \<Rightarrow> string list" where
  "children_of rs level = map r_id (filter (\<lambda>r. case r_parent_run_id r of None \<Rightarrow> False
     | Some p \<Rightarrow> p \<in> set level) rs)"

fun tree_levels :: "nat \<Rightarrow> run list \<Rightarrow> string list \<Rightarrow> string list list" where
  "tree_levels 0 rs level = []"
| "tree_levels (Suc k) rs level =
     (if level = [] then [] else level # tree_levels k rs (children_of rs level))"

definition run_tree :: "run list \<Rightarrow> string \<Rightarrow> string list list" where
  "run_tree rs root = tree_levels (Suc (length rs)) rs (map r_id (filter (\<lambda>r. r_id r = root) rs))"

text \<open>\<open>runToCancel\<close>: the id of a run and its job, if any.\<close>

definition unfinished_runs :: "run list \<Rightarrow> string list \<Rightarrow> (string \<times> int option) list" where
  "unfinished_runs rs ids = concat (map (\<lambda>i. map (\<lambda>r. (r_id r, r_job_id r))
     (filter (\<lambda>r. r_id r = i \<and> \<not> Finished (r_status r)) rs)) ids)"

definition select_unfinished_tree :: "string \<Rightarrow> bool \<Rightarrow> (string \<times> int option) list statement" where
  "select_unfinished_tree runID includeRoot w =
     (let levels = run_tree (runs (db w)) runID in
      (unfinished_runs (runs (db w)) (concat (if includeRoot then levels else tl levels)), w))"

definition unfinishedTreeTx :: "string \<Rightarrow> bool \<Rightarrow> (string \<times> int option) list result io" where
  "unfinishedTreeTx runID includeRoot =
     attempt (query (select_unfinished_tree runID includeRoot))
       (\<lambda>e. Inl (wrap ''workflow: lock runs to cancel: '' e)) (\<lambda>rs. State_Monad.return (Inr rs))"

definition cancel_row :: "int \<Rightarrow> run \<Rightarrow> run" where
  "cancel_row n r = r\<lparr>r_status := RunCancelled, r_error := Some ''cancelled'', r_completed_at := Some n,
     r_wake_at := None, r_updated_at := n\<rparr>"

text \<open>The body of the inner loop of \<open>cancelTreeTx\<close>, and the inner loop.\<close>

definition cancel_run :: "wf_client \<Rightarrow> string \<times> int option \<Rightarrow> unit result io" where
  "cancel_run c found = (case found of (i, jobID) \<Rightarrow>
     exec (update_runs (\<lambda>r. r_id r = i) cancel_row) (wrap ''workflow: cancel run: '')
       (attempt (case jobID of None \<Rightarrow> State_Monad.return (Inr ()) | Some j \<Rightarrow> WakeTx (wc_queue c) True j) Inl
         (\<lambda>_. NotifyTx (wc_queue c) True (runNotifyKey i))))"

fun cancel_runs :: "wf_client \<Rightarrow> (string \<times> int option) list \<Rightarrow> unit result io" where
  "cancel_runs c [] = State_Monad.return (Inr ())"
| "cancel_runs c (r # rs) = attempt (cancel_run c r) Inl (\<lambda>_. cancel_runs c rs)"

fun cancelTreeTx :: "nat \<Rightarrow> wf_client \<Rightarrow> string \<Rightarrow> bool \<Rightarrow> unit result option io" where
  "cancelTreeTx 0 c runID includeRoot = State_Monad.return None"
| "cancelTreeTx (Suc fuel) c runID includeRoot =
     attempt (unfinishedTreeTx runID includeRoot) (\<lambda>e. Some (Inl e)) (\<lambda>rs.
       if rs = [] then State_Monad.return (Some (Inr ()))
       else attempt (cancel_runs c rs) (\<lambda>e. Some (Inl e)) (\<lambda>_. cancelTreeTx fuel c runID includeRoot))"

definition cancelDescendantsTx :: "nat \<Rightarrow> wf_client \<Rightarrow> string \<Rightarrow> unit result option io" where
  "cancelDescendantsTx fuel c runID = cancelTreeTx fuel c runID False"

text \<open>A run that is cancelled already: \<open>Cancel\<close> returns nil and rolls back.\<close>

definition Cancel :: "nat \<Rightarrow> wf_client \<Rightarrow> string \<Rightarrow> unit result option io" where
  "Cancel fuel c runID =
     attempt begin_tx (\<lambda>e. Some (Inl (wrap ''workflow: begin cancel: '' e))) (\<lambda>_. deferring_rollback (
       attempt (query_row (select_run (\<lambda>r. r_id r = runID) r_parent_run_id))
         (\<lambda>e. Some (Inl (if errors_is e SqlErrNoRows then Wrapf [] (Sentinel ErrRunNotFound) ('': '' @ runID)
            else wrap ''workflow: find run to cancel: '' e)))
         (\<lambda>parentRunID.
           attempt (case parentRunID of None \<Rightarrow> State_Monad.return (Inr ()) | Some p \<Rightarrow> wakeParentTx c p)
             (\<lambda>e. Some (Inl e))
             (\<lambda>_. attempt (lockRunTx runID) (\<lambda>e. Some (Inl e)) (\<lambda>(status, _).
               if status = RunCancelled then State_Monad.return (Some (Inr ()))
               else if status = RunSucceeded \<or> status = RunFailed
               then State_Monad.return (Some (Inl (Wrapf [] (Sentinel ErrRunFinished)
                 ('': '' @ runID @ '' is '' @ run_status_text status))))
               else do {
                 r \<leftarrow> cancelTreeTx fuel c runID True;
                 (case r of
                    None \<Rightarrow> State_Monad.return None
                  | Some (Inl e) \<Rightarrow> State_Monad.return (Some (Inl e))
                  | Some (Inr _) \<Rightarrow> attempt commit_tx (\<lambda>e. Some (Inl (wrap ''workflow: commit cancel: '' e)))
                      (\<lambda>_. State_Monad.return (Some (Inr ())))) })))))"

section \<open>Retrying\<close>

definition interrupted_step :: "string \<Rightarrow> step \<Rightarrow> bool" where
  "interrupted_step runID s \<longleftrightarrow> s_run_id s = runID \<and> s_kind s = KindStep
     \<and> (s_status s = StepFailed \<or> s_status s = StepRunning \<or> s_status s = StepRetrying)"

text \<open>\<open>ORDER BY child.id\<close>.\<close>

definition children_to_retry :: "string \<Rightarrow> database \<Rightarrow> string list" where
  "children_to_retry runID d = sort (concat (map (\<lambda>s. map r_id (filter (\<lambda>r. s_child_run_id s = Some (r_id r)
       \<and> (r_status r = RunFailed \<or> r_status r = RunCancelled)) (runs d)))
     (filter (\<lambda>s. s_run_id s = runID \<and> s_kind s = KindChild
       \<and> (s_status s = StepWaiting \<or> s_status s = StepFailed)) (steps d))))"

definition childrenToRetryTx :: "string \<Rightarrow> string list result io" where
  "childrenToRetryTx runID = attempt (query (\<lambda>w. (children_to_retry runID (db w), w)))
     (\<lambda>e. Inl (wrap ''workflow: find children to retry: '' e)) (\<lambda>cs. State_Monad.return (Inr cs))"

definition reset_child_step :: "int \<Rightarrow> step \<Rightarrow> step" where
  "reset_child_step n s = s\<lparr>s_status := StepWaiting, s_output := None, s_error := None,
     s_completed_at := None, s_updated_at := n\<rparr>"

definition reset_run :: "int \<Rightarrow> run \<Rightarrow> run" where
  "reset_run n r = r\<lparr>r_status := RunPending, r_error := None, r_timed_out := False, r_output := None,
     r_deadline_at := None, r_completed_at := None, r_wake_at := None, r_updated_at := n\<rparr>"

fun retryTx :: "nat \<Rightarrow> wf_client \<Rightarrow> ctx \<Rightarrow> string \<Rightarrow> unit result option io"
  and retry_children :: "nat \<Rightarrow> wf_client \<Rightarrow> ctx \<Rightarrow> string list \<Rightarrow> unit result option io" where
  "retryTx 0 c x runID = State_Monad.return None"
| "retryTx (Suc fuel) c x runID =
     attempt (lockRunTx runID) (\<lambda>e. Some (Inl e)) (\<lambda>(status, _).
       if status \<noteq> RunFailed \<and> status \<noteq> RunCancelled
       then State_Monad.return (Some (Inl (Wrapf [] (Sentinel ErrRunNotRetryable)
         ('': '' @ runID @ '' is '' @ run_status_text status))))
       else attempt (query_row (select_run (\<lambda>r. r_id r = runID) (\<lambda>r. (r_workflow r, r_version r))))
         (\<lambda>e. Some (Inl (wrap ''workflow: read run to retry: '' e))) (\<lambda>(workflowName, version).
       attempt (query (delete_steps (interrupted_step runID)))
         (\<lambda>e. Some (Inl (wrap ''workflow: reset failed steps: '' e))) (\<lambda>_.
       attempt (childrenToRetryTx runID) (\<lambda>e. Some (Inl e)) (\<lambda>children. do {
         r \<leftarrow> retry_children fuel c x children;
         (case r of
            None \<Rightarrow> State_Monad.return None
          | Some (Inl e) \<Rightarrow> State_Monad.return (Some (Inl e))
          | Some (Inr _) \<Rightarrow>
              attempt (query (update_steps (\<lambda>s. s_run_id s = runID \<and> s_kind s = KindChild \<and> s_status s = StepFailed)
                  reset_child_step))
                (\<lambda>e. Some (Inl (wrap ''workflow: reset failed children: '' e))) (\<lambda>_.
              attempt (query (update_runs (\<lambda>r. r_id r = runID) reset_run))
                (\<lambda>e. Some (Inl (wrap ''workflow: reset run: '' e))) (\<lambda>_. do {
                  q \<leftarrow> enqueueRunJobTx c x runID (queueName \<lparr>d_name = workflowName, d_version = version,
                    d_retry = \<lparr>rt_MaxAttempts = 0, rt_Backoff = 0, rt_MaxBackoff = 0\<rparr>\<rparr>);
                  State_Monad.return (Some q) }))) }))))"
| "retry_children fuel c x [] = State_Monad.return (Some (Inr ()))"
| "retry_children fuel c x (i # is) = do {
     r \<leftarrow> retryTx fuel c x i;
     (case r of
        None \<Rightarrow> State_Monad.return None
      | Some (Inl e) \<Rightarrow> State_Monad.return (Some (Inl e))
      | Some (Inr _) \<Rightarrow> retry_children fuel c x is) }"

definition wf_Retry :: "nat \<Rightarrow> wf_client \<Rightarrow> ctx \<Rightarrow> string \<Rightarrow> unit result option io" where
  "wf_Retry fuel c x runID =
     attempt begin_tx (\<lambda>e. Some (Inl (wrap ''workflow: begin retry: '' e))) (\<lambda>_. deferring_rollback (do {
       r \<leftarrow> retryTx fuel c x runID;
       (case r of
          None \<Rightarrow> State_Monad.return None
        | Some (Inl e) \<Rightarrow> State_Monad.return (Some (Inl e))
        | Some (Inr _) \<Rightarrow> attempt commit_tx (\<lambda>e. Some (Inl (wrap ''workflow: commit retry: '' e)))
            (\<lambda>_. State_Monad.return (Some (Inr ())))) }))"

end
