(* ===== verification/Workflow_Activation.thy ===== *)
theory Workflow_Activation
  imports Workflow_Client
begin

text \<open>
  Activations, \<open>workflow/activation.go\<close>: one execution of a run by a worker. The mutable fields of the
  struct are a record next to the world, and every method is a program over both. The run context
  is \<open>a_runCtx\<close>: when and with what cause it ends, if ever. Shutdown, cancellation and loss of the
  lease end it at any moment the worker or the watcher chooses (\<open>watch_beat\<close> says what the watcher
  looks at), so the functions take that moment as given.

  The local clock and the database clock advance together; \<open>dl_dueAt\<close> is a local instant, \<open>dl_at\<close> a
  database time, both in microseconds. The workflow function is the application's: a program over
  the same state that returns or panics.
\<close>

section \<open>State\<close>

record deadline =
  dl_at :: int
  dl_dueAt :: int

record checkpoint =
  cp_kind :: step_kind
  cp_status :: step_status
  cp_attempts :: int
  cp_output :: "string option"
  cp_errMessage :: string
  cp_wake :: "deadline option"
  cp_childRunID :: string
  cp_signal :: string

record wake_condition =
  wk_signal :: string
  wk_childRunID :: string
  wk_wake :: "deadline option"

datatype stop_reason = Running | Suspended | InfrastructureFailed | NonDeterministic | TimedOut
  | Cancelled | ShuttingDown | LeaseLost

fun reason_rank :: "stop_reason \<Rightarrow> nat" where
  "reason_rank Running = 0"
| "reason_rank Suspended = 1"
| "reason_rank InfrastructureFailed = 2"
| "reason_rank NonDeterministic = 3"
| "reason_rank TimedOut = 4"
| "reason_rank Cancelled = 5"
| "reason_rank ShuttingDown = 6"
| "reason_rank LeaseLost = 7"

instantiation stop_reason :: linorder
begin

definition less_eq_stop_reason :: "stop_reason \<Rightarrow> stop_reason \<Rightarrow> bool" where
  "less_eq_stop_reason a b \<longleftrightarrow> reason_rank a \<le> reason_rank b"

definition less_stop_reason :: "stop_reason \<Rightarrow> stop_reason \<Rightarrow> bool" where
  "less_stop_reason a b \<longleftrightarrow> reason_rank a < reason_rank b"

instance
proof
  fix x y z :: stop_reason
  show "x < y \<longleftrightarrow> x \<le> y \<and> \<not> y \<le> x" by (auto simp: less_eq_stop_reason_def less_stop_reason_def)
  show "x \<le> x" by (simp add: less_eq_stop_reason_def)
  show "x \<le> y \<Longrightarrow> y \<le> z \<Longrightarrow> x \<le> z" by (simp add: less_eq_stop_reason_def)
  show "x \<le> y \<Longrightarrow> y \<le> x \<Longrightarrow> x = y" by (cases x; cases y) (simp_all add: less_eq_stop_reason_def)
  show "x \<le> y \<or> y \<le> x" by (auto simp: less_eq_stop_reason_def)
qed

end

record wf_worker_config =
  wf_Concurrency :: int
  wf_VisibilityTimeout :: int
  wf_ReapInterval :: int
  OnRunFailed :: "(run \<Rightarrow> unit io) option"

text \<open>\<open>a_stopErr\<close> is meaningful once \<open>a_stop\<close> is not \<open>Running\<close>; before, the error is nil.\<close>

record activation =
  a_client :: wf_client
  a_def :: wf_definition
  a_config :: wf_worker_config
  a_job :: job
  a_runID :: string
  a_lease :: int
  a_input :: string
  a_parentRunID :: string
  a_deadline :: "deadline option"
  a_checkpoints :: "string \<rightharpoonup> checkpoint"
  a_occurrences :: "string \<Rightarrow> nat"
  a_stop :: stop_reason
  a_stopErr :: err
  a_conditions :: "wake_condition list"
  a_runCtx :: "(int \<times> err) option"

type_synonym 'a act = "(activation \<times> world, 'a) state"

definition in_world :: "'a io \<Rightarrow> 'a act" where
  "in_world m = State (\<lambda>(a, w). case run_state m w of (r, w') \<Rightarrow> (r, (a, w')))"

definition get_act :: "activation act" where
  "get_act = State (\<lambda>(a, w). (a, (a, w)))"

definition get_world :: "world act" where
  "get_world = State (\<lambda>(a, w). (w, (a, w)))"

definition upd_act :: "(activation \<Rightarrow> activation) \<Rightarrow> unit act" where
  "upd_act f = State (\<lambda>(a, w). ((), (f a, w)))"

definition act_deferring_rollback :: "'a act \<Rightarrow> 'a act" where
  "act_deferring_rollback m = do { r \<leftarrow> m; in_world (State_Monad.update restore); State_Monad.return r }"

definition passed :: "deadline option \<Rightarrow> world \<Rightarrow> bool" where
  "passed d w = (case d of None \<Rightarrow> False | Some t \<Rightarrow> dl_dueAt t \<le> clock w)"

definition runCtx_ended :: "activation \<Rightarrow> world \<Rightarrow> bool" where
  "runCtx_ended a w = (case a_runCtx a of None \<Rightarrow> False | Some (t, _) \<Rightarrow> t \<le> clock w)"

definition errRunTimedOut :: err where
  "errRunTimedOut = Wrapf [] (Sentinel ErrTimeout) '': the run outlived its timeout''"

definition maxReplays :: nat where "maxReplays = 100"

text \<open>\<open>inProcessRetryLimit\<close>, one second, in microseconds.\<close>

definition inProcessRetryLimit :: int where "inProcessRetryLimit = 1000000"

section \<open>Stopping\<close>

definition recordStop :: "stop_reason \<Rightarrow> err \<Rightarrow> unit act" where
  "recordStop reason e = upd_act (\<lambda>a. if a_stop a < reason then a\<lparr>a_stop := reason, a_stopErr := e\<rparr> else a)"

definition stopState :: "(stop_reason \<times> err) act" where
  "stopState = do { a \<leftarrow> get_act; State_Monad.return (a_stop a, a_stopErr a) }"

definition stopWith :: "stop_reason \<Rightarrow> err \<Rightarrow> err act" where
  "stopWith reason e = do { recordStop reason e; (_, stopErr) \<leftarrow> stopState; State_Monad.return stopErr }"

text \<open>\<open>context.Cause\<close> of an ended run context; the reason defaults to a shutdown.\<close>

definition interruptionReason :: "activation \<Rightarrow> stop_reason \<times> err" where
  "interruptionReason a = (case a_runCtx a of
       None \<Rightarrow> (ShuttingDown, Sentinel ErrSuspended)
     | Some (_, cause) \<Rightarrow>
         if errors_is cause ErrCancelled then (Cancelled, Sentinel ErrCancelled)
         else if errRunTimedOut \<in> set (err_chain cause) then (TimedOut, errRunTimedOut)
         else if errors_is cause ErrLeaseLost then (LeaseLost, Sentinel ErrSuspended)
         else (ShuttingDown, Sentinel ErrSuspended))"

definition record_interruption :: "unit act" where
  "record_interruption = do { a \<leftarrow> get_act; case interruptionReason a of (reason, e) \<Rightarrow> recordStop reason e }"

definition interruption :: "err act" where
  "interruption = do { record_interruption; (_, stopErr) \<leftarrow> stopState; State_Monad.return stopErr }"

definition stopped :: "err option act" where
  "stopped = do {
     a \<leftarrow> get_act;
     w \<leftarrow> get_world;
     if a_stop a = Running \<and> runCtx_ended a w then do { e \<leftarrow> interruption; State_Monad.return (Some e) }
     else State_Monad.return (if a_stop a = Running then None else Some (a_stopErr a)) }"

definition infrastructureFailure :: "err \<Rightarrow> err act" where
  "infrastructureFailure e = stopWith InfrastructureFailed e"

definition nonDeterminism :: "err \<Rightarrow> err act" where
  "nonDeterminism e = stopWith NonDeterministic e"

definition suspendOn :: "wake_condition \<Rightarrow> err act" where
  "suspendOn condition = do {
     upd_act (\<lambda>a. a\<lparr>a_conditions := a_conditions a @ [condition]\<rparr>);
     stopWith Suspended (Sentinel ErrSuspended) }"

definition resetForReplay :: "unit act" where
  "resetForReplay = upd_act (\<lambda>a. a\<lparr>a_occurrences := (\<lambda>_. 0), a_conditions := [], a_stop := Running\<rparr>)"

section \<open>Checkpoints\<close>

definition stepKey :: "string \<Rightarrow> string result act" where
  "stepKey name = do {
     a \<leftarrow> get_act;
     if \<not> validName name
     then State_Monad.return (Inl (Wrapf [] (Sentinel ErrInvalidName) ('': '' @ wc_quote (a_client a) name)))
     else do {
       let n = a_occurrences a name + 1;
       upd_act (\<lambda>a. a\<lparr>a_occurrences := (a_occurrences a)(name := n)\<rparr>);
       State_Monad.return (Inr (if 1 < n then name @ ''#'' @ dec_nat n else name)) } }"

definition recorded :: "string \<Rightarrow> step_kind \<Rightarrow> checkpoint option result act" where
  "recorded key kind = do {
     a \<leftarrow> get_act;
     (case a_checkpoints a key of
        None \<Rightarrow> State_Monad.return (Inr None)
      | Some cp \<Rightarrow>
          if cp_kind cp \<noteq> kind then do {
            e \<leftarrow> nonDeterminism (Wrapf [] (Sentinel ErrNonDeterministic)
              ('': '' @ wc_quote (a_client a) key @ '' was recorded as a '' @ step_kind_text (cp_kind cp)
               @ '', the code now runs it as a '' @ step_kind_text kind));
            State_Monad.return (Inl e) }
          else State_Monad.return (Inr (Some cp))) }"

definition remember :: "string \<Rightarrow> checkpoint \<Rightarrow> unit act" where
  "remember key cp = upd_act (\<lambda>a. a\<lparr>a_checkpoints := (a_checkpoints a)(key \<mapsto> cp)\<rparr>)"

definition decodeRecorded :: "'v codec \<Rightarrow> string \<Rightarrow> string option \<Rightarrow> 'v result act" where
  "decodeRecorded cv key raw = (case unmarshal cv (case raw of None \<Rightarrow> [] | Some s \<Rightarrow> s) of
       Inr v \<Rightarrow> State_Monad.return (Inr v)
     | Inl e \<Rightarrow> do {
         a \<leftarrow> get_act;
         e' \<leftarrow> nonDeterminism (Wrapf [] (Sentinel ErrNonDeterministic)
           ('': the value recorded for '' @ wc_quote (a_client a) key @ '' does not decode into ''
            @ type_name cv @ '': '' @ err_text e));
         State_Monad.return (Inl e') })"

definition owned_by :: "activation \<Rightarrow> run \<Rightarrow> bool" where
  "owned_by a r \<longleftrightarrow> r_id r = a_runID a \<and> r_lease r = a_lease a"

definition rollback_now :: "unit act" where
  "rollback_now = in_world (State_Monad.update restore)"

text \<open>\<open>fencedTx\<close>: \<open>None\<close> when the transaction is open and this activation owns the run.\<close>

definition fencedTx :: "err option act" where
  "fencedTx = do {
     b \<leftarrow> in_world begin_tx;
     (case b of
        Inl e \<Rightarrow> do { e' \<leftarrow> infrastructureFailure (wrap ''workflow: begin checkpoint: '' e);
                     State_Monad.return (Some e') }
      | Inr _ \<Rightarrow> do {
          a \<leftarrow> get_act;
          q \<leftarrow> in_world (query_row (select_run (owned_by a) r_status));
          (case q of
             Inl e \<Rightarrow> do {
               rollback_now;
               e' \<leftarrow> (if errors_is e SqlErrNoRows then stopWith LeaseLost (Sentinel ErrSuspended)
                     else infrastructureFailure (wrap ''workflow: lock run: '' e));
               State_Monad.return (Some e') }
           | Inr status \<Rightarrow>
               if status = RunCancelled then do {
                 rollback_now; e' \<leftarrow> stopWith Cancelled (Sentinel ErrCancelled); State_Monad.return (Some e') }
               else if status \<noteq> RunRunning then do {
                 rollback_now; e' \<leftarrow> stopWith LeaseLost (Sentinel ErrSuspended); State_Monad.return (Some e') }
               else State_Monad.return None) }) }"

definition checkpointWrite :: "'a result act \<Rightarrow> 'a result act" where
  "checkpointWrite write = do {
     f \<leftarrow> fencedTx;
     (case f of
        Some e \<Rightarrow> State_Monad.return (Inl e)
      | None \<Rightarrow> act_deferring_rollback (do {
          r \<leftarrow> write;
          (case r of
             Inl e \<Rightarrow> do { e' \<leftarrow> infrastructureFailure e; State_Monad.return (Inl e') }
           | Inr v \<Rightarrow> do {
               k \<leftarrow> in_world commit_tx;
               (case k of
                  Inl e \<Rightarrow> do { e' \<leftarrow> infrastructureFailure (wrap ''workflow: commit checkpoint: '' e);
                               State_Monad.return (Inl e') }
                | Inr _ \<Rightarrow> State_Monad.return (Inr v)) }) })) }"

text \<open>\<open>deadlineFrom\<close>: the seconds left are counted from \<open>NOW()\<close> of the statement.\<close>

definition deadlineFrom :: "int option \<Rightarrow> world \<Rightarrow> deadline option" where
  "deadlineFrom until w = map_option (\<lambda>t. \<lparr>dl_at = t, dl_dueAt = clock w + (t - now w)\<rparr>) until"

definition text_or_empty :: "string option \<Rightarrow> string" where
  "text_or_empty s = (case s of None \<Rightarrow> [] | Some t \<Rightarrow> t)"

definition scanCheckpoint :: "world \<Rightarrow> step \<Rightarrow> checkpoint" where
  "scanCheckpoint w s = \<lparr>cp_kind = s_kind s, cp_status = s_status s, cp_attempts = s_attempts s,
     cp_output = s_output s, cp_errMessage = text_or_empty (s_error s), cp_wake = deadlineFrom (s_wake_at s) w,
     cp_childRunID = text_or_empty (s_child_run_id s), cp_signal = text_or_empty (s_signal s)\<rparr>"

definition select_checkpoints :: "string \<Rightarrow> (string \<times> checkpoint) list statement" where
  "select_checkpoints runID w =
     (map (\<lambda>s. (s_name s, scanCheckpoint w s)) (filter (\<lambda>s. s_run_id s = runID) (steps (db w))), w)"

definition loadCheckpoints :: "string \<Rightarrow> (string \<times> checkpoint) list result io" where
  "loadCheckpoints runID = attempt (query (select_checkpoints runID))
     (\<lambda>e. Inl (wrap ''workflow: load checkpoints: '' e)) (\<lambda>cps. State_Monad.return (Inr cps))"

section \<open>Parking\<close>

definition earlier :: "deadline option \<Rightarrow> deadline option \<Rightarrow> deadline option" where
  "earlier e d = (case d of None \<Rightarrow> e
     | Some t \<Rightarrow> (case e of None \<Rightarrow> Some t | Some u \<Rightarrow> if dl_at t < dl_at u then Some t else Some u))"

definition earliestWake :: "wake_condition list \<Rightarrow> deadline option \<Rightarrow> deadline option" where
  "earliestWake conditions runDeadline = fold (\<lambda>c e. earlier e (wk_wake c)) conditions runDeadline"

text \<open>
  The query of \<open>anyConditionMet\<close>: an unreceived signal of an awaited name sent by its deadline, a
  finished child, or a wake time that has come.
\<close>

definition signal_arrived :: "string \<Rightarrow> wake_condition \<Rightarrow> database \<Rightarrow> bool" where
  "signal_arrived runID c d \<longleftrightarrow> wk_signal c \<noteq> [] \<and> list_ex (\<lambda>g. g_run_id g = runID \<and> g_name g = wk_signal c
     \<and> g_received_by g = None
     \<and> (case wk_wake c of None \<Rightarrow> True | Some t \<Rightarrow> g_created_at g \<le> dl_at t)) (signals d)"

definition child_finished :: "wake_condition \<Rightarrow> database \<Rightarrow> bool" where
  "child_finished c d \<longleftrightarrow> wk_signal c = [] \<and> wk_childRunID c \<noteq> []
     \<and> list_ex (\<lambda>r. r_id r = wk_childRunID c \<and> Finished (r_status r)) (runs d)"

definition conditions_met :: "string \<Rightarrow> wake_condition list \<Rightarrow> int \<Rightarrow> database \<Rightarrow> bool" where
  "conditions_met runID conditions n d \<longleftrightarrow>
     list_ex (\<lambda>c. signal_arrived runID c d) conditions \<or> list_ex (\<lambda>c. child_finished c d) conditions
     \<or> (case earliestWake conditions None of None \<Rightarrow> False | Some t \<Rightarrow> dl_at t \<le> n)"

definition anyConditionMet :: "string \<Rightarrow> wake_condition list \<Rightarrow> bool result io" where
  "anyConditionMet runID conditions =
     (if conditions = [] then State_Monad.return (Inr True)
      else attempt (query (\<lambda>w. (conditions_met runID conditions (now w) (db w), w)))
        (\<lambda>e. Inl (wrap ''workflow: check wake conditions: '' e)) (\<lambda>b. State_Monad.return (Inr b)))"

text \<open>\<open>waitUntil\<close>: the clock moves to the wake time, or to the end of the run context if that is first.\<close>

definition waitUntil :: "deadline \<Rightarrow> unit act" where
  "waitUntil t = do {
     a \<leftarrow> get_act;
     in_world (State_Monad.update (\<lambda>w. w\<lparr>clock := max (clock w) (case a_runCtx a of
         None \<Rightarrow> dl_dueAt t | Some (u, _) \<Rightarrow> min u (dl_dueAt t))\<rparr>)) }"

definition acknowledgeCancellationTx :: "unit result act" where
  "acknowledgeCancellationTx = do {
     a \<leftarrow> get_act;
     r \<leftarrow> in_world (AckTx (wc_queue (a_client a)) True (ID (a_job a)));
     (case r of
        Inl e \<Rightarrow> State_Monad.return (Inl e)
      | Inr _ \<Rightarrow> do {
          k \<leftarrow> in_world commit_tx;
          (case k of
             Inl e \<Rightarrow> State_Monad.return (Inl (wrap ''workflow: commit cancelled run: '' e))
           | Inr _ \<Rightarrow> do { recordStop Cancelled (Sentinel ErrCancelled); State_Monad.return (Inr ()) }) }) }"

definition park_row :: "int option \<Rightarrow> int \<Rightarrow> run \<Rightarrow> run" where
  "park_row wakeAt n r = r\<lparr>r_status := RunWaiting, r_wake_at := wakeAt, r_updated_at := n\<rparr>"

text \<open>
  The part of \<open>park\<close> that parks: the run waits and its job is snoozed in the same transaction. A
  run whose condition is met parks until the epoch (\<open>dueNow\<close>), so its job stays due.
\<close>

definition park_now :: "activation \<Rightarrow> int option \<Rightarrow> bool result io" where
  "park_now a wakeAt =
     attempt (query (update_runs (\<lambda>r. r_id r = a_runID a) (park_row wakeAt)))
       (\<lambda>e. Inl (wrap ''workflow: park run: '' e)) (\<lambda>_.
     attempt (SnoozeTx (wc_queue (a_client a)) True (a_job a) wakeAt)
       (\<lambda>e. Inl (wrap ''workflow: snooze run job: '' e)) (\<lambda>_.
     attempt commit_tx (\<lambda>e. Inl (wrap ''workflow: commit park: '' e)) (\<lambda>_. State_Monad.return (Inr True))))"

text \<open>Given the status of the run, locked; the result says whether the run is parked.\<close>

definition park_locked :: "nat \<Rightarrow> run_status \<Rightarrow> bool result act" where
  "park_locked replay status = do {
     a \<leftarrow> get_act;
     if status = RunCancelled then do {
       r \<leftarrow> acknowledgeCancellationTx;
       State_Monad.return (case r of Inl e \<Rightarrow> Inl e | Inr _ \<Rightarrow> Inr True) }
     else do {
       m \<leftarrow> in_world (anyConditionMet (a_runID a) (a_conditions a));
       (case m of
          Inl e \<Rightarrow> State_Monad.return (Inl e)
        | Inr met \<Rightarrow>
            if met \<and> replay < maxReplays then State_Monad.return (Inr False)
            else do {
              w \<leftarrow> get_world;
              (case (met, earliestWake (a_conditions a) (a_deadline a)) of
                 (False, Some next) \<Rightarrow>
                   if dl_dueAt next - clock w \<le> inProcessRetryLimit \<and> replay < maxReplays then do {
                     rollback_now; waitUntil next; State_Monad.return (Inr False) }
                   else in_world (park_now a (Some (dl_at next)))
               | (False, None) \<Rightarrow> in_world (park_now a None)
               | (True, _) \<Rightarrow> in_world (park_now a (Some 0))) }) } }"

definition park :: "nat \<Rightarrow> bool result act" where
  "park replay = do {
     b \<leftarrow> in_world begin_tx;
     (case b of
        Inl e \<Rightarrow> State_Monad.return (Inl (wrap ''workflow: begin park: '' e))
      | Inr _ \<Rightarrow> act_deferring_rollback (do {
          a \<leftarrow> get_act;
          q \<leftarrow> in_world (query_row (select_run (owned_by a) r_status));
          (case q of
             Inl e \<Rightarrow>
               if errors_is e SqlErrNoRows
               then do { recordStop LeaseLost (Sentinel ErrSuspended); State_Monad.return (Inr True) }
               else State_Monad.return (Inl (wrap ''workflow: lock run to park: '' e))
           | Inr status \<Rightarrow>
               if status \<noteq> RunRunning \<and> status \<noteq> RunCancelled
               then do { recordStop LeaseLost (Sentinel ErrSuspended); State_Monad.return (Inr True) }
               else park_locked replay status) })) }"

section \<open>Settling\<close>

definition release :: "err act" where
  "release = do {
     a \<leftarrow> get_act;
     b \<leftarrow> in_world begin_tx;
     (case b of
        Inl _ \<Rightarrow> State_Monad.return Handled
      | Inr _ \<Rightarrow> act_deferring_rollback (do {
          q \<leftarrow> in_world (query_row (select_run (owned_by a) (\<lambda>_. ())));
          (case q of
             Inl _ \<Rightarrow> State_Monad.return Handled
           | Inr _ \<Rightarrow> do {
               r \<leftarrow> in_world (SnoozeTx (wc_queue (a_client a)) True (a_job a) (Some 0));
               (case r of
                  Inl _ \<Rightarrow> State_Monad.return Handled
                | Inr _ \<Rightarrow> do { _ \<leftarrow> in_world commit_tx; State_Monad.return Handled }) }) })) }"

definition acknowledgeCancellation :: "err act" where
  "acknowledgeCancellation = do {
     a \<leftarrow> get_act;
     r \<leftarrow> in_world (Ack (wc_queue (a_client a)) (ID (a_job a)));
     State_Monad.return (case r of
         Inl e \<Rightarrow> if errors_is e ErrJobNotFound then Handled else e
       | Inr _ \<Rightarrow> Handled) }"

text \<open>
  \<open>finish\<close>, in its parts: under the lock of the run and the job's claim the final status is written,
  the job acknowledged, watchers notified, and all of it committed.
\<close>

definition finish_owned :: "unit result io \<Rightarrow> unit io \<Rightarrow> activation \<Rightarrow> err io" where
  "finish_owned upd afterCommit a = (let q = wc_queue (a_client a) in do {
     l \<leftarrow> LockClaimTx q True (a_job a);
     (case l of
        Inl e \<Rightarrow> State_Monad.return (if errors_is e ErrJobNotFound then Handled else e)
      | Inr _ \<Rightarrow>
          attempt upd (wrap ''workflow: finish run: '') (\<lambda>_.
          attempt (AckTx q True (ID (a_job a))) (\<lambda>e. e) (\<lambda>_.
          attempt (NotifyTx q True (runNotifyKey (a_runID a))) (\<lambda>e. e) (\<lambda>_.
          attempt commit_tx (wrap ''workflow: commit finish: '') (\<lambda>_.
            do { afterCommit; State_Monad.return Handled }))))) })"

definition finish :: "unit result io \<Rightarrow> unit io \<Rightarrow> err act" where
  "finish upd afterCommit = do {
     a \<leftarrow> get_act;
     b \<leftarrow> in_world begin_tx;
     (case b of
        Inl e \<Rightarrow> State_Monad.return (wrap ''workflow: begin finish: '' e)
      | Inr _ \<Rightarrow> act_deferring_rollback (do {
          p \<leftarrow> (if a_parentRunID a \<noteq> [] then in_world (wakeParentTx (a_client a) (a_parentRunID a))
               else State_Monad.return (Inr ()));
          (case p of
             Inl e \<Rightarrow> State_Monad.return e
           | Inr _ \<Rightarrow> do {
               q \<leftarrow> in_world (query_row (select_run (owned_by a) r_status));
               (case q of
                  Inl e \<Rightarrow> State_Monad.return
                    (if errors_is e SqlErrNoRows then Handled else wrap ''workflow: lock run to finish: '' e)
                | Inr status \<Rightarrow>
                    if status = RunCancelled then do {
                      r \<leftarrow> acknowledgeCancellationTx;
                      State_Monad.return (case r of Inl e \<Rightarrow> e | Inr _ \<Rightarrow> Handled) }
                    else if status \<noteq> RunRunning then State_Monad.return Handled
                    else in_world (finish_owned upd afterCommit a)) }) })) }"

definition succeed_row :: "string \<Rightarrow> int \<Rightarrow> run \<Rightarrow> run" where
  "succeed_row output n r = r\<lparr>r_status := RunSucceeded, r_output := Some output, r_completed_at := Some n,
     r_wake_at := None, r_updated_at := n\<rparr>"

definition failed_row :: "string \<Rightarrow> bool \<Rightarrow> int \<Rightarrow> run \<Rightarrow> run" where
  "failed_row message timedOut n r = r\<lparr>r_status := RunFailed, r_error := Some message,
     r_timed_out := timedOut, r_completed_at := Some n, r_wake_at := None, r_updated_at := n\<rparr>"

definition finishSucceeded :: "string \<Rightarrow> err act" where
  "finishSucceeded output = do {
     a \<leftarrow> get_act;
     finish (exec (update_runs (\<lambda>r. r_id r = a_runID a) (succeed_row output)) (\<lambda>e. e) (State_Monad.return (Inr ())))
       (State_Monad.return ()) }"

text \<open>
  \<open>cancelDescendantsTx\<close> with the two rounds that are always enough here: inside one transaction no
  run is added below a cancelled tree, so the second look finds nothing.
\<close>

definition cancel_descendants :: "wf_client \<Rightarrow> string \<Rightarrow> unit result io" where
  "cancel_descendants c runID = do {
     r \<leftarrow> cancelDescendantsTx 2 c runID;
     State_Monad.return (case r of None \<Rightarrow> Inl (Errorf ''no end'') | Some q \<Rightarrow> q) }"

definition report_failed :: "wf_worker_config \<Rightarrow> string \<Rightarrow> unit io" where
  "report_failed config runID = (case OnRunFailed config of
       None \<Rightarrow> State_Monad.return ()
     | Some f \<Rightarrow> do { r \<leftarrow> GetRun runID; (case r of Inl _ \<Rightarrow> State_Monad.return () | Inr info \<Rightarrow> f info) })"

definition finishFailed :: "string \<Rightarrow> bool \<Rightarrow> err act" where
  "finishFailed message timedOut = do {
     a \<leftarrow> get_act;
     finish (exec (update_runs (\<lambda>r. r_id r = a_runID a) (failed_row message timedOut)) (\<lambda>e. e)
         (cancel_descendants (a_client a) (a_runID a)))
       (report_failed (a_config a) (a_runID a)) }"

definition infrastructureOutcome :: "err \<Rightarrow> err act" where
  "infrastructureOutcome cause = do {
     a \<leftarrow> get_act;
     h \<leftarrow> in_world (Heartbeat (wc_queue (a_client a)) (a_job a));
     if (case h of Inl e \<Rightarrow> errors_is e ErrJobNotFound | Inr _ \<Rightarrow> False) then State_Monad.return Handled
     else do {
       in_world (log_msg LevelWarn ''workflow activation failed, the queue retries it'');
       if MaxAttempts (a_job a) \<le> Attempts (a_job a) then do {
         e \<leftarrow> finishFailed (''gave up after '' @ dec_int (Attempts (a_job a)) @ '' failed activations: ''
           @ err_text cause) False;
         State_Monad.return (if IsHandled e then Handled else cause) }
       else State_Monad.return cause } }"

section \<open>Executing\<close>

text \<open>What the workflow function or a step does: return, or panic with a value printed as text.\<close>

datatype 'a conduct = Returns 'a | Panics string

definition executeFunction :: "string result conduct act \<Rightarrow> string result act" where
  "executeFunction fn = do {
     r \<leftarrow> fn;
     (case r of
        Returns q \<Rightarrow> State_Monad.return q
      | Panics p \<Rightarrow> do {
          in_world (log_msg LevelError ''workflow function panicked'');
          State_Monad.return (Inl (Errorf (''workflow: panic: '' @ p))) }) }"

text \<open>One round of the loop of \<open>execute\<close>: \<open>None\<close> means the function executes again.\<close>

definition settle_round :: "nat \<Rightarrow> string result \<Rightarrow> err option act" where
  "settle_round replay result = do {
     a \<leftarrow> get_act;
     w \<leftarrow> get_world;
     (if passed (a_deadline a) w then recordStop TimedOut errRunTimedOut else State_Monad.return ());
     a1 \<leftarrow> get_act;
     (if a_stop a1 = InfrastructureFailed \<and> runCtx_ended a1 w then record_interruption
      else State_Monad.return ());
     (reason, stopErr) \<leftarrow> stopState;
     (case reason of
        LeaseLost \<Rightarrow> State_Monad.return (Some Handled)
      | ShuttingDown \<Rightarrow> do { e \<leftarrow> release; State_Monad.return (Some e) }
      | Cancelled \<Rightarrow> do { e \<leftarrow> acknowledgeCancellation; State_Monad.return (Some e) }
      | TimedOut \<Rightarrow> do { e \<leftarrow> finishFailed (err_text errRunTimedOut) True; State_Monad.return (Some e) }
      | NonDeterministic \<Rightarrow> do { e \<leftarrow> finishFailed (err_text stopErr) False; State_Monad.return (Some e) }
      | InfrastructureFailed \<Rightarrow> do { e \<leftarrow> infrastructureOutcome stopErr; State_Monad.return (Some e) }
      | Suspended \<Rightarrow> do {
          p \<leftarrow> park replay;
          (case p of
             Inl e \<Rightarrow> do { e' \<leftarrow> infrastructureOutcome e; State_Monad.return (Some e') }
           | Inr True \<Rightarrow> State_Monad.return (Some Handled)
           | Inr False \<Rightarrow> do { resetForReplay; State_Monad.return None }) }
      | Running \<Rightarrow> do {
          e \<leftarrow> (case result of Inl e \<Rightarrow> finishFailed (err_text e) False
                | Inr output \<Rightarrow> finishSucceeded output);
          State_Monad.return (Some e) }) }"

fun execute_loop :: "nat \<Rightarrow> string result conduct act \<Rightarrow> nat \<Rightarrow> err option act" where
  "execute_loop 0 fn replay = State_Monad.return None"
| "execute_loop (Suc fuel) fn replay = do {
     a \<leftarrow> get_act;
     w \<leftarrow> get_world;
     result \<leftarrow> (if runCtx_ended a w then do { record_interruption; State_Monad.return (Inr []) }
               else executeFunction fn);
     s \<leftarrow> settle_round replay result;
     (case s of Some e \<Rightarrow> State_Monad.return (Some e) | None \<Rightarrow> execute_loop fuel fn (replay + 1)) }"

text \<open>
  \<open>execute\<close>: the run context ends at \<open>interrupt\<close>, or at the run's deadline if that is earlier. The
  loop parks at the latest in round \<open>maxReplays\<close>, so \<open>maxReplays + 1\<close> rounds are enough.
\<close>

definition with_deadline :: "(int \<times> err) option \<Rightarrow> deadline option \<Rightarrow> (int \<times> err) option" where
  "with_deadline interrupt d = (case d of None \<Rightarrow> interrupt
     | Some t \<Rightarrow> (case interrupt of
           Some (u, cause) \<Rightarrow> if u \<le> dl_dueAt t then Some (u, cause) else Some (dl_dueAt t, errRunTimedOut)
         | None \<Rightarrow> Some (dl_dueAt t, errRunTimedOut)))"

definition execute :: "string result conduct act \<Rightarrow> (int \<times> err) option \<Rightarrow> err option act" where
  "execute fn interrupt = do {
     a \<leftarrow> get_act;
     w \<leftarrow> get_world;
     if passed (a_deadline a) w
     then do { e \<leftarrow> finishFailed (err_text errRunTimedOut) True; State_Monad.return (Some e) }
     else do {
       upd_act (\<lambda>a. a\<lparr>a_runCtx := with_deadline interrupt (a_deadline a)\<rparr>);
       execute_loop (maxReplays + 1) fn 0 } }"

section \<open>Watching\<close>

definition checkOwnership :: "activation \<Rightarrow> err option io" where
  "checkOwnership a = do {
     q \<leftarrow> query_row (select_run (\<lambda>r. r_id r = a_runID a) (\<lambda>r. (r_status r, r_lease r)));
     State_Monad.return (case q of
         Inl _ \<Rightarrow> None
       | Inr (status, lease) \<Rightarrow>
           if status = RunCancelled then Some (Sentinel ErrCancelled)
           else if lease \<noteq> a_lease a then Some (Sentinel ErrLeaseLost) else None) }"

text \<open>
  One turn of the watcher: on a tick of the heartbeat timer or on a notification. The result is the
  cause it cancels the run context with, if any.
\<close>

definition watch_beat :: "activation \<Rightarrow> bool \<Rightarrow> err option io" where
  "watch_beat a tick =
     (if tick then do {
        h \<leftarrow> Heartbeat (wc_queue (a_client a)) (a_job a);
        if (case h of Inl e \<Rightarrow> errors_is e ErrJobNotFound | Inr _ \<Rightarrow> False)
        then State_Monad.return (Some (Sentinel ErrLeaseLost))
        else checkOwnership a }
      else checkOwnership a)"

end
