(* ===== verification/Workflow_Context.thy ===== *)
theory Workflow_Context
  imports Workflow_Activation
begin

text \<open>
  The durable operations a workflow function calls, \<open>workflow/context.go\<close>: steps and transactional
  steps with their retries, sleeps, signals and child runs. A step function is the application's: a
  program over the world that gets its idempotency key. The loop of \<open>runStep\<close> takes fuel, \<open>None\<close> when
  it runs out. \<open>Async\<close>, which runs a step in a goroutine, is left out.
\<close>

section \<open>Checkpoint rows\<close>

definition at_step :: "string \<Rightarrow> string \<Rightarrow> step \<Rightarrow> bool" where
  "at_step runID key s \<longleftrightarrow> s_run_id s = runID \<and> s_name s = key"

text \<open>A new row: \<open>created_at\<close> defaults to \<open>clock_timestamp()\<close>, \<open>updated_at\<close> to \<open>NOW()\<close>.\<close>

definition new_step :: "string \<Rightarrow> string \<Rightarrow> step_kind \<Rightarrow> step_status \<Rightarrow> world \<Rightarrow> step" where
  "new_step runID key kind status w = \<lparr>s_run_id = runID, s_name = key, s_kind = kind, s_status = status,
     s_attempts = 0, s_output = None, s_error = None, s_wake_at = None, s_child_run_id = None,
     s_signal = None, s_created_at = clock w, s_completed_at = None, s_updated_at = now w\<rparr>"

text \<open>
  \<open>INSERT \<dots> ON CONFLICT (run_id, name) DO UPDATE \<dots> WHERE \<dots> RETURNING \<dots>\<close>: the row inserted, or the
  existing row updated if it satisfies the condition; no row is returned otherwise.
\<close>

definition upsert_step ::
  "(world \<Rightarrow> step) \<Rightarrow> (step \<Rightarrow> bool) \<Rightarrow> (int \<Rightarrow> step \<Rightarrow> step) \<Rightarrow> (world \<Rightarrow> step \<Rightarrow> 'a) \<Rightarrow> 'a option statement" where
  "upsert_step mk P f out w = (let s = mk w; same = at_step (s_run_id s) (s_name s) in
     case find same (steps (db w)) of
       None \<Rightarrow> (Some (out w s), w\<lparr>db := (db w)\<lparr>steps := steps (db w) @ [s]\<rparr>\<rparr>)
     | Some t \<Rightarrow> if P t then (Some (out w (f (now w) t)),
           w\<lparr>db := (db w)\<lparr>steps := upd_where same (f (now w)) (steps (db w))\<rparr>\<rparr>)
         else (None, w))"

definition touch_step :: "int \<Rightarrow> step \<Rightarrow> step" where
  "touch_step n s = s\<lparr>s_updated_at := n\<rparr>"

definition insertCheckpoint :: "string \<Rightarrow> (world \<Rightarrow> step) \<Rightarrow> checkpoint result act" where
  "insertCheckpoint key mk = do {
     a \<leftarrow> get_act;
     r \<leftarrow> checkpointWrite (in_world (attempt (query_row (upsert_step mk (\<lambda>_. True) touch_step scanCheckpoint))
       (\<lambda>e. Inl (wrap (''workflow: record '' @ wc_quote (a_client a) key @ '': '') e))
       (\<lambda>cp. State_Monad.return (Inr cp))));
     (case r of
        Inl e \<Rightarrow> State_Monad.return (Inl e)
      | Inr cp \<Rightarrow> do { remember key cp; State_Monad.return (Inr cp) }) }"

definition complete_row :: "step_status \<Rightarrow> string option \<Rightarrow> int \<Rightarrow> step \<Rightarrow> step" where
  "complete_row status output n s = s\<lparr>s_status := status, s_output := output, s_completed_at := Some n,
     s_updated_at := n\<rparr>"

definition completeCheckpoint :: "string \<Rightarrow> checkpoint \<Rightarrow> step_status \<Rightarrow> string option \<Rightarrow> unit result act" where
  "completeCheckpoint key cp status output = do {
     a \<leftarrow> get_act;
     r \<leftarrow> checkpointWrite (in_world (exec (update_steps (at_step (a_runID a) key) (complete_row status output))
       (\<lambda>e. e) (State_Monad.return (Inr ()))));
     (case r of
        Inl e \<Rightarrow> State_Monad.return (Inl e)
      | Inr _ \<Rightarrow> do {
          remember key (cp\<lparr>cp_status := status, cp_output := output\<rparr>);
          State_Monad.return (Inr ()) }) }"

section \<open>Steps\<close>

definition IdempotencyKey :: "activation \<Rightarrow> string \<Rightarrow> string" where
  "IdempotencyKey a key = a_runID a @ ''/'' @ key"

definition start_attempt_row :: "int \<Rightarrow> step \<Rightarrow> step" where
  "start_attempt_row n s = s\<lparr>s_status := StepRunning, s_attempts := s_attempts s + 1, s_wake_at := None,
     s_updated_at := n\<rparr>"

definition fresh_checkpoint :: "step_status \<Rightarrow> int \<Rightarrow> string \<Rightarrow> checkpoint" where
  "fresh_checkpoint status attempts message = \<lparr>cp_kind = KindStep, cp_status = status, cp_attempts = attempts,
     cp_output = None, cp_errMessage = message, cp_wake = None, cp_childRunID = [], cp_signal = []\<rparr>"

definition markAttemptStarted :: "string \<Rightarrow> int result act" where
  "markAttemptStarted key = do {
     a \<leftarrow> get_act;
     r \<leftarrow> checkpointWrite (in_world (query_row (upsert_step
       (\<lambda>w. (new_step (a_runID a) key KindStep StepRunning w)\<lparr>s_attempts := 1\<rparr>)
       (\<lambda>s. s_status s = StepRunning \<or> s_status s = StepRetrying) start_attempt_row (\<lambda>_. s_attempts))));
     (case r of
        Inl e \<Rightarrow> State_Monad.return (Inl e)
      | Inr number \<Rightarrow> do {
          remember key (fresh_checkpoint StepRunning number []);
          State_Monad.return (Inr number) }) }"

definition succeed_step_row :: "string \<Rightarrow> int \<Rightarrow> step \<Rightarrow> step" where
  "succeed_step_row output n s = s\<lparr>s_status := StepSucceeded, s_output := Some output, s_error := None,
     s_wake_at := None, s_completed_at := Some n, s_updated_at := n\<rparr>"

text \<open>The checkpoint in memory is updated before the transaction commits.\<close>

definition recordSucceededStepTx :: "string \<Rightarrow> string \<Rightarrow> unit result act" where
  "recordSucceededStepTx key output = do {
     a \<leftarrow> get_act;
     r \<leftarrow> in_world (query (update_steps (at_step (a_runID a) key) (succeed_step_row output)));
     (case r of
        Inl e \<Rightarrow> State_Monad.return (Inl (wrap (''workflow: record '' @ wc_quote (a_client a) key @ '' result: '') e))
      | Inr _ \<Rightarrow> do {
          remember key ((case a_checkpoints a key of Some cp \<Rightarrow> cp
              | None \<Rightarrow> fresh_checkpoint StepSucceeded 0 [])\<lparr>cp_status := StepSucceeded, cp_output := Some output\<rparr>);
          State_Monad.return (Inr ()) }) }"

definition fail_step_row :: "string \<Rightarrow> int \<Rightarrow> step \<Rightarrow> step" where
  "fail_step_row message n s = s\<lparr>s_status := StepFailed, s_error := Some message, s_wake_at := None,
     s_completed_at := Some n, s_updated_at := n\<rparr>"

definition retry_step_row :: "string \<Rightarrow> int \<Rightarrow> int \<Rightarrow> step \<Rightarrow> step" where
  "retry_step_row message delay n s = s\<lparr>s_status := StepRetrying, s_error := Some message,
     s_wake_at := Some (n + interval delay), s_updated_at := n\<rparr>"

definition running_attempt :: "string \<Rightarrow> string \<Rightarrow> int \<Rightarrow> step \<Rightarrow> bool" where
  "running_attempt runID key number s \<longleftrightarrow> at_step runID key s \<and> s_status s = StepRunning \<and> s_attempts s = number"

text \<open>\<open>UPDATE \<dots> RETURNING\<close> a checkpoint; no row is returned when none matches.\<close>

definition update_step_returning :: "(step \<Rightarrow> bool) \<Rightarrow> (int \<Rightarrow> step \<Rightarrow> step) \<Rightarrow> checkpoint option statement" where
  "update_step_returning P f w =
     (map_option (\<lambda>s. scanCheckpoint w (f (now w) s)) (find P (steps (db w))),
      w\<lparr>db := (db w)\<lparr>steps := upd_where P (f (now w)) (steps (db w))\<rparr>\<rparr>)"

definition StepError :: "wf_client \<Rightarrow> string \<Rightarrow> int \<Rightarrow> string \<Rightarrow> err" where
  "StepError c key attempts message = Errorf (''workflow: step '' @ wc_quote c key @ '' failed after ''
     @ dec_int attempts @ '' attempt(s): '' @ message)"

text \<open>\<open>retryPlan\<close>: the step failed for good, or it is tried again at a wake time.\<close>

datatype retry_plan = Final err | RetryAt "deadline option"

definition recordFailedAttempt :: "int \<Rightarrow> string \<Rightarrow> int \<Rightarrow> err \<Rightarrow> retry_policy \<Rightarrow> retry_plan result act" where
  "recordFailedAttempt outside key number failure retry = do {
     a \<leftarrow> get_act;
     let message = err_text failure;
     if isNonRetryable failure \<or> rt_MaxAttempts retry \<le> number then do {
       r \<leftarrow> checkpointWrite (in_world (attempt
         (query (update_steps (running_attempt (a_runID a) key number) (fail_step_row message))) Inl
         (\<lambda>k. State_Monad.return (if k = 0
            then Inl (Errorf (''workflow: checkpoint '' @ wc_quote (a_client a) key @ '' changed while attempt ''
              @ dec_int number @ '' ran'')) else Inr ()))));
       (case r of
          Inl e \<Rightarrow> State_Monad.return (Inl e)
        | Inr _ \<Rightarrow> do {
            remember key (fresh_checkpoint StepFailed number message);
            State_Monad.return (Inr (Final (StepError (a_client a) key number message))) }) }
     else do {
       r \<leftarrow> checkpointWrite (in_world (query_row (update_step_returning (running_attempt (a_runID a) key number)
         (retry_step_row message (delayAfter outside retry number)))));
       (case r of
          Inl e \<Rightarrow> State_Monad.return (Inl e)
        | Inr cp \<Rightarrow> do { remember key cp; State_Monad.return (Inr (RetryAt (cp_wake cp))) }) } }"

text \<open>
  \<open>waitForRetry\<close>: the wait is in process when it is at most a second, and the end of the run context
  interrupts it. A deadline that is not set is long past.
\<close>

definition waitForRetry :: "deadline option \<Rightarrow> err option act" where
  "waitForRetry d = do {
     w \<leftarrow> get_world;
     (case d of
        None \<Rightarrow> State_Monad.return None
      | Some t \<Rightarrow>
          if dl_dueAt t \<le> clock w then State_Monad.return None
          else do {
            s \<leftarrow> (if inProcessRetryLimit < dl_dueAt t - clock w then State_Monad.return True
                 else do { e \<leftarrow> stopped; State_Monad.return (\<not> Option.is_none e) });
            if s then do {
              e \<leftarrow> suspendOn \<lparr>wk_signal = [], wk_childRunID = [], wk_wake = Some t\<rparr>;
              State_Monad.return (Some e) }
            else do {
              waitUntil t;
              w' \<leftarrow> get_world;
              if clock w' < dl_dueAt t then do { e \<leftarrow> interruption; State_Monad.return (Some e) }
              else State_Monad.return None } }) }"

definition hand_back_row :: "int \<Rightarrow> step \<Rightarrow> step" where
  "hand_back_row n s = s\<lparr>s_status := StepRetrying, s_attempts := s_attempts s - 1, s_wake_at := Some n,
     s_updated_at := n\<rparr>"

definition interruptAttempt :: "string \<Rightarrow> err act" where
  "interruptAttempt key = do {
     e \<leftarrow> interruption;
     (reason, _) \<leftarrow> stopState;
     (if reason = ShuttingDown then do {
        a \<leftarrow> get_act;
        _ \<leftarrow> checkpointWrite (in_world (exec (update_steps
          (\<lambda>s. at_step (a_runID a) key s \<and> s_status s = StepRunning) hand_back_row) (\<lambda>e. e)
          (State_Monad.return (Inr ()))));
        State_Monad.return () }
      else State_Monad.return ());
     State_Monad.return e }"

definition encodeResult :: "'v codec \<Rightarrow> 'v \<Rightarrow> (string \<times> 'v) result" where
  "encodeResult cv v = (case marshal cv v of
       Inl e \<Rightarrow> Inl (StepNonRetryable (wrap (''encode '' @ type_name cv @ '' result: '') e))
     | Inr output \<Rightarrow> (case unmarshal cv output of
           Inl e \<Rightarrow> Inl (StepNonRetryable (wrap (type_name cv @ '' result does not decode from its own JSON: '') e))
         | Inr rec \<Rightarrow> (case checkStorable output of
               Some e \<Rightarrow> Inl (StepNonRetryable (wrap (type_name cv @ '' result '') e))
             | None \<Rightarrow> Inr (output, rec))))"

definition callStep :: "'v result conduct io \<Rightarrow> 'v result act" where
  "callStep fn = do {
     r \<leftarrow> in_world fn;
     (case r of
        Returns q \<Rightarrow> State_Monad.return q
      | Panics p \<Rightarrow> do {
          in_world (log_msg LevelError ''workflow step panicked'');
          State_Monad.return (Inl (Errorf (''panic: '' @ p))) }) }"

datatype 'v attempt_result = Value 'v | Failure err | Stop err

definition failedAttempt :: "string \<Rightarrow> err \<Rightarrow> 'v attempt_result act" where
  "failedAttempt key e = do {
     a \<leftarrow> get_act;
     w \<leftarrow> get_world;
     if runCtx_ended a w then do { e' \<leftarrow> interruptAttempt key; State_Monad.return (Stop e') }
     else State_Monad.return (Failure e) }"

definition runTransactionalAttempt ::
  "'v codec \<Rightarrow> string \<Rightarrow> (string \<Rightarrow> 'v result conduct io) \<Rightarrow> 'v attempt_result act" where
  "runTransactionalAttempt cv key fn = do {
     f \<leftarrow> fencedTx;
     (case f of
        Some e \<Rightarrow> State_Monad.return (Stop e)
      | None \<Rightarrow> act_deferring_rollback (do {
          a \<leftarrow> get_act;
          r \<leftarrow> callStep (fn (IdempotencyKey a key));
          (case r of
             Inl e \<Rightarrow> do { rollback_now; failedAttempt key e }
           | Inr v \<Rightarrow> (case encodeResult cv v of
                 Inl e \<Rightarrow> State_Monad.return (Failure e)
               | Inr (output, rec) \<Rightarrow> do {
                   s \<leftarrow> recordSucceededStepTx key output;
                   (case s of
                      Inl e \<Rightarrow> do { e' \<leftarrow> infrastructureFailure e; State_Monad.return (Stop e') }
                    | Inr _ \<Rightarrow> do {
                        k \<leftarrow> in_world commit_tx;
                        (case k of
                           Inl e \<Rightarrow> do {
                             e' \<leftarrow> infrastructureFailure
                               (wrap (''workflow: commit '' @ wc_quote (a_client a) key @ '': '') e);
                             State_Monad.return (Stop e') }
                         | Inr _ \<Rightarrow> State_Monad.return (Value rec)) }) })) })) }"

definition runAttempt ::
  "'v codec \<Rightarrow> string \<Rightarrow> bool \<Rightarrow> (string \<Rightarrow> 'v result conduct io) \<Rightarrow> 'v attempt_result act" where
  "runAttempt cv key transactional fn =
     (if transactional then runTransactionalAttempt cv key fn
      else do {
        a \<leftarrow> get_act;
        r \<leftarrow> callStep (fn (IdempotencyKey a key));
        (case r of
           Inl e \<Rightarrow> failedAttempt key e
         | Inr v \<Rightarrow> (case encodeResult cv v of
               Inl e \<Rightarrow> State_Monad.return (Failure e)
             | Inr (output, rec) \<Rightarrow> do {
                 s \<leftarrow> checkpointWrite (recordSucceededStepTx key output);
                 State_Monad.return (case s of Inl e \<Rightarrow> Stop e | Inr _ \<Rightarrow> Value rec) })) })"

text \<open>The loop of \<open>runStep\<close>.\<close>

fun step_loop ::
  "nat \<Rightarrow> int \<Rightarrow> 'v codec \<Rightarrow> string \<Rightarrow> retry_policy \<Rightarrow> bool \<Rightarrow> (string \<Rightarrow> 'v result conduct io) \<Rightarrow> 'v result option act" where
  "step_loop 0 outside cv key retry transactional fn = State_Monad.return None"
| "step_loop (Suc fuel) outside cv key retry transactional fn = do {
     s \<leftarrow> stopped;
     (case s of
        Some e \<Rightarrow> State_Monad.return (Some (Inl e))
      | None \<Rightarrow> do {
          m \<leftarrow> markAttemptStarted key;
          (case m of
             Inl e \<Rightarrow> State_Monad.return (Some (Inl e))
           | Inr number \<Rightarrow> do {
               result \<leftarrow> runAttempt cv key transactional fn;
               (case result of
                  Stop e \<Rightarrow> State_Monad.return (Some (Inl e))
                | Value v \<Rightarrow> State_Monad.return (Some (Inr v))
                | Failure failure \<Rightarrow> do {
                    p \<leftarrow> recordFailedAttempt outside key number failure retry;
                    (case p of
                       Inl e \<Rightarrow> State_Monad.return (Some (Inl e))
                     | Inr (Final e) \<Rightarrow> State_Monad.return (Some (Inl e))
                     | Inr (RetryAt wakeAt) \<Rightarrow> do {
                         x \<leftarrow> waitForRetry wakeAt;
                         (case x of
                            Some e \<Rightarrow> State_Monad.return (Some (Inl e))
                          | None \<Rightarrow> step_loop fuel outside cv key retry transactional fn) }) }) }) }) }"

definition runStep ::
  "nat \<Rightarrow> int \<Rightarrow> 'v codec \<Rightarrow> string \<Rightarrow> step_option list \<Rightarrow> bool \<Rightarrow> (string \<Rightarrow> 'v result conduct io) \<Rightarrow> 'v result option act" where
  "runStep fuel outside cv key options transactional fn = do {
     s \<leftarrow> stopped;
     (case s of
        Some e \<Rightarrow> State_Monad.return (Some (Inl e))
      | None \<Rightarrow> do {
          a \<leftarrow> get_act;
          let retry = the (sc_retry (stepConfig (a_def a) options));
          let again = step_loop fuel outside cv key retry transactional fn;
          let wait = (\<lambda>d. do { x \<leftarrow> waitForRetry d;
                case x of Some e \<Rightarrow> State_Monad.return (Some (Inl e)) | None \<Rightarrow> again });
          r \<leftarrow> recorded key KindStep;
          (case r of
             Inl e \<Rightarrow> State_Monad.return (Some (Inl e))
           | Inr None \<Rightarrow> again
           | Inr (Some cp) \<Rightarrow>
               (case cp_status cp of
                  StepSucceeded \<Rightarrow> do { v \<leftarrow> decodeRecorded cv key (cp_output cp); State_Monad.return (Some v) }
                | StepFailed \<Rightarrow> State_Monad.return
                    (Some (Inl (StepError (a_client a) key (cp_attempts cp) (cp_errMessage cp))))
                | StepRetrying \<Rightarrow> wait (cp_wake cp)
                | StepRunning \<Rightarrow> do {
                    p \<leftarrow> recordFailedAttempt outside key (cp_attempts cp) (Sentinel ErrAttemptLost) retry;
                    (case p of
                       Inl e \<Rightarrow> State_Monad.return (Some (Inl e))
                     | Inr (Final e) \<Rightarrow> State_Monad.return (Some (Inl e))
                     | Inr (RetryAt wakeAt) \<Rightarrow> wait wakeAt) }
                | _ \<Rightarrow> again)) }) }"

definition Step ::
  "nat \<Rightarrow> int \<Rightarrow> 'v codec \<Rightarrow> string \<Rightarrow> (string \<Rightarrow> 'v result conduct io) \<Rightarrow> step_option list \<Rightarrow> 'v result option act" where
  "Step fuel outside cv name fn options = do {
     k \<leftarrow> stepKey name;
     (case k of Inl e \<Rightarrow> State_Monad.return (Some (Inl e))
      | Inr key \<Rightarrow> runStep fuel outside cv key options False fn) }"

definition TxStep ::
  "nat \<Rightarrow> int \<Rightarrow> 'v codec \<Rightarrow> string \<Rightarrow> (string \<Rightarrow> 'v result conduct io) \<Rightarrow> step_option list \<Rightarrow> 'v result option act" where
  "TxStep fuel outside cv name fn options = do {
     k \<leftarrow> stepKey name;
     (case k of Inl e \<Rightarrow> State_Monad.return (Some (Inl e))
      | Inr key \<Rightarrow> runStep fuel outside cv key options True fn) }"

section \<open>Sleeping\<close>

text \<open>\<open>sleep\<close>: a zero \<open>wakeAt\<close> is \<open>None\<close>; the duration counts from \<open>NOW()\<close> of the insert.\<close>

definition sleep_step :: "string \<Rightarrow> string \<Rightarrow> int \<Rightarrow> int option \<Rightarrow> world \<Rightarrow> step" where
  "sleep_step runID key duration wakeAt w = (new_step runID key KindSleep StepWaiting w)
     \<lparr>s_wake_at := Some (case wakeAt of Some t \<Rightarrow> t | None \<Rightarrow> now w + interval duration)\<rparr>"

text \<open>A recorded checkpoint, or the one inserted now.\<close>

definition recorded_or_insert :: "string \<Rightarrow> step_kind \<Rightarrow> (activation \<Rightarrow> world \<Rightarrow> step) \<Rightarrow> checkpoint result act" where
  "recorded_or_insert key kind mk = do {
     s \<leftarrow> stopped;
     (case s of
        Some e \<Rightarrow> State_Monad.return (Inl e)
      | None \<Rightarrow> do {
          r \<leftarrow> recorded key kind;
          (case r of
             Inl e \<Rightarrow> State_Monad.return (Inl e)
           | Inr (Some cp) \<Rightarrow> State_Monad.return (Inr cp)
           | Inr None \<Rightarrow> do { a \<leftarrow> get_act; insertCheckpoint key (mk a) }) }) }"

definition sleep :: "string \<Rightarrow> int \<Rightarrow> int option \<Rightarrow> err option act" where
  "sleep name duration wakeAt = do {
     k \<leftarrow> stepKey name;
     (case k of
        Inl e \<Rightarrow> State_Monad.return (Some e)
      | Inr key \<Rightarrow> do {
          c \<leftarrow> recorded_or_insert key KindSleep (\<lambda>a. sleep_step (a_runID a) key duration wakeAt);
          (case c of
             Inl e \<Rightarrow> State_Monad.return (Some e)
           | Inr cp \<Rightarrow> do {
               w \<leftarrow> get_world;
               if cp_status cp = StepSucceeded then State_Monad.return None
               else if passed (cp_wake cp) w then do {
                 r \<leftarrow> completeCheckpoint key cp StepSucceeded None;
                 State_Monad.return (case r of Inl e \<Rightarrow> Some e | Inr _ \<Rightarrow> None) }
               else do {
                 e \<leftarrow> suspendOn \<lparr>wk_signal = [], wk_childRunID = [], wk_wake = cp_wake cp\<rparr>;
                 State_Monad.return (Some e) } }) }) }"

definition Sleep :: "string \<Rightarrow> int \<Rightarrow> err option act" where
  "Sleep name duration = sleep name duration None"

definition SleepUntil :: "string \<Rightarrow> int option \<Rightarrow> err option act" where
  "SleepUntil name wakeAt = sleep name 0 wakeAt"

section \<open>Receiving signals\<close>

definition Forever :: int where "Forever = max_int64"

definition receive_step :: "string \<Rightarrow> string \<Rightarrow> string \<Rightarrow> int \<Rightarrow> world \<Rightarrow> step" where
  "receive_step runID key sig timeout w = (new_step runID key KindSignal StepWaiting w)
     \<lparr>s_signal := Some sig,
      s_wake_at := (if timeout = Forever then None else Some (now w + interval (max timeout 0)))\<rparr>"

definition receiveDeadline :: "checkpoint \<Rightarrow> int option" where
  "receiveDeadline cp = map_option dl_at (cp_wake cp)"

definition receivable :: "string \<Rightarrow> checkpoint \<Rightarrow> signal_row \<Rightarrow> bool" where
  "receivable runID cp g \<longleftrightarrow> g_run_id g = runID \<and> g_name g = cp_signal cp \<and> g_received_by g = None
     \<and> (case receiveDeadline cp of None \<Rightarrow> True | Some t \<Rightarrow> g_created_at g \<le> t)"

text \<open>
  The query of \<open>receiveSignal\<close>: the oldest receivable signal is marked as received and its payload
  becomes the output of the receive. The payload is returned if the checkpoint row is there.
\<close>

definition take_signal :: "string \<Rightarrow> string \<Rightarrow> checkpoint \<Rightarrow> string option statement" where
  "take_signal runID key cp w = (case filter (receivable runID cp) (signals (db w)) of
       [] \<Rightarrow> (None, w)
     | gs \<Rightarrow> (let g = arg_min_list g_id gs in
         (if list_ex (at_step runID key) (steps (db w)) then Some (g_payload g) else None,
          w\<lparr>db := (db w)\<lparr>
            signals := upd_where (\<lambda>h. g_id h = g_id g) (\<lambda>h. h\<lparr>g_received_by := Some key\<rparr>) (signals (db w)),
            steps := upd_where (at_step runID key) (complete_row StepSucceeded (Some (g_payload g)) (now w))
              (steps (db w))\<rparr>\<rparr>)))"

definition receiveSignal :: "string \<Rightarrow> checkpoint \<Rightarrow> string option result act" where
  "receiveSignal key cp = do {
     a \<leftarrow> get_act;
     r \<leftarrow> checkpointWrite (in_world (query (take_signal (a_runID a) key cp)));
     (case r of
        Inr (Some payload) \<Rightarrow> do {
          remember key (cp\<lparr>cp_status := StepSucceeded, cp_output := Some payload\<rparr>);
          State_Monad.return (Inr (Some payload)) }
      | _ \<Rightarrow> State_Monad.return r) }"

definition no_signal :: "wf_client \<Rightarrow> string \<Rightarrow> err" where
  "no_signal c sig = Wrapf [] (Sentinel ErrTimeout) ('': no '' @ wc_quote c sig @ '' signal arrived'')"

definition Receive :: "'v codec \<Rightarrow> string \<Rightarrow> int \<Rightarrow> 'v result act" where
  "Receive cv sig timeout = do {
     k \<leftarrow> stepKey sig;
     (case k of
        Inl e \<Rightarrow> State_Monad.return (Inl e)
      | Inr key \<Rightarrow> do {
          c \<leftarrow> recorded_or_insert key KindSignal (\<lambda>a. receive_step (a_runID a) key sig timeout);
          (case c of
             Inl e \<Rightarrow> State_Monad.return (Inl e)
           | Inr cp \<Rightarrow> do {
               a \<leftarrow> get_act;
               if cp_status cp = StepSucceeded then decodeRecorded cv key (cp_output cp)
               else if cp_status cp = StepTimedOut then State_Monad.return (Inl (no_signal (a_client a) sig))
               else do {
                 r \<leftarrow> receiveSignal key cp;
                 (case r of
                    Inl e \<Rightarrow> State_Monad.return (Inl e)
                  | Inr (Some payload) \<Rightarrow> decodeRecorded cv key (Some payload)
                  | Inr None \<Rightarrow> do {
                      w \<leftarrow> get_world;
                      if passed (cp_wake cp) w then do {
                        q \<leftarrow> completeCheckpoint key cp StepTimedOut None;
                        State_Monad.return (Inl (case q of Inl e \<Rightarrow> e | Inr _ \<Rightarrow> no_signal (a_client a) sig)) }
                      else do {
                        e \<leftarrow> suspendOn \<lparr>wk_signal = sig, wk_childRunID = [], wk_wake = cp_wake cp\<rparr>;
                        State_Monad.return (Inl e) } }) } }) }) }"

section \<open>Child runs\<close>

definition child_step :: "string \<Rightarrow> string \<Rightarrow> string \<Rightarrow> world \<Rightarrow> step" where
  "child_step runID key childRunID w =
     (new_step runID key KindChild StepWaiting w)\<lparr>s_child_run_id := Some childRunID\<rparr>"

definition startChild ::
  "ctx \<Rightarrow> string result \<Rightarrow> string \<Rightarrow> wf_definition \<Rightarrow> 'i codec \<Rightarrow> 'i \<Rightarrow> start_config \<Rightarrow> unit result act" where
  "startChild x newID key child ci input config = do {
     s \<leftarrow> stopped;
     (case s of
        Some e \<Rightarrow> State_Monad.return (Inl e)
      | None \<Rightarrow> do {
          r \<leftarrow> recorded key KindChild;
          (case r of
             Inl e \<Rightarrow> State_Monad.return (Inl e)
           | Inr (Some _) \<Rightarrow> State_Monad.return (Inr ())
           | Inr None \<Rightarrow> do {
               a \<leftarrow> get_act;
               (case marshal_storable ci input of
                  Inl e \<Rightarrow> State_Monad.return (Inl (wrap (''workflow: encode '' @ type_name ci @ '' input of child ''
                    @ wc_quote (a_client a) key @ '': '') e))
                | Inr encoded \<Rightarrow> do {
                    q \<leftarrow> checkpointWrite (in_world (
                      attempt (insertRun (a_client a) x newID child encoded config (a_runID a) key) Inl
                        (\<lambda>childRunID. query_row (upsert_step (child_step (a_runID a) key childRunID) (\<lambda>_. True)
                          touch_step scanCheckpoint))));
                    (case q of
                       Inl e \<Rightarrow> State_Monad.return (Inl e)
                     | Inr cp \<Rightarrow> do { remember key cp; State_Monad.return (Inr ()) }) }) }) }) }"

record child_outcome =
  co_Workflow :: string
  co_Status :: run_status
  co_TimedOut :: bool
  co_Message :: string

text \<open>\<open>co\<close> is the JSON codec of \<open>childOutcome\<close>; what does not decode leaves the zero values.\<close>

definition childRunError :: "child_outcome codec \<Rightarrow> checkpoint \<Rightarrow> err" where
  "childRunError co cp = (case unmarshal co (text_or_empty (cp_output cp)) of
       Inl _ \<Rightarrow> RunError (''workflow:  run '' @ cp_childRunID cp @ '' : '') False False
     | Inr c \<Rightarrow> RunError (''workflow: '' @ co_Workflow c @ '' run '' @ cp_childRunID cp @ '' ''
         @ run_status_text (co_Status c) @ '': '' @ co_Message c) (co_Status c = RunCancelled) (co_TimedOut c))"

definition child_outcome_row :: "step_status \<Rightarrow> string option \<Rightarrow> string option \<Rightarrow> int \<Rightarrow> step \<Rightarrow> step" where
  "child_outcome_row status output error n s = s\<lparr>s_status := status, s_output := output, s_error := error,
     s_completed_at := Some n, s_updated_at := n\<rparr>"

definition recordChildOutcome :: "child_outcome codec \<Rightarrow> string \<Rightarrow> checkpoint \<Rightarrow> run \<Rightarrow> checkpoint result act" where
  "recordChildOutcome co key cp child = do {
     a \<leftarrow> get_act;
     let message = text_or_empty (r_error child);
     let (status, output) = (if r_status child = RunSucceeded then (StepSucceeded, r_output child)
       else (StepFailed, case marshal co \<lparr>co_Workflow = r_workflow child, co_Status = r_status child,
           co_TimedOut = r_timed_out child, co_Message = message\<rparr> of Inl _ \<Rightarrow> None | Inr o' \<Rightarrow> Some o'));
     r \<leftarrow> checkpointWrite (in_world (exec (update_steps (at_step (a_runID a) key)
       (child_outcome_row status output (nonempty message))) (\<lambda>e. e) (State_Monad.return (Inr ()))));
     (case r of
        Inl e \<Rightarrow> State_Monad.return (Inl e)
      | Inr _ \<Rightarrow> do {
          let cp' = cp\<lparr>cp_status := status, cp_output := output, cp_errMessage := message\<rparr>;
          remember key cp';
          State_Monad.return (Inr cp') }) }"

definition awaitChild :: "child_outcome codec \<Rightarrow> 'v codec \<Rightarrow> string \<Rightarrow> 'v result act" where
  "awaitChild co cv key = do {
     s \<leftarrow> stopped;
     (case s of
        Some e \<Rightarrow> State_Monad.return (Inl e)
      | None \<Rightarrow> do {
          r \<leftarrow> recorded key KindChild;
          a \<leftarrow> get_act;
          (case r of
             Inl e \<Rightarrow> State_Monad.return (Inl e)
           | Inr None \<Rightarrow> State_Monad.return
               (Inl (Errorf (''workflow: child '' @ wc_quote (a_client a) key @ '' was not started'')))
           | Inr (Some cp) \<Rightarrow> do {
               c \<leftarrow> (if cp_status cp = StepWaiting then do {
                   g \<leftarrow> in_world (GetRun (cp_childRunID cp));
                   (case g of
                      Inl e \<Rightarrow>
                        if errors_is e ErrRunNotFound then do {
                          e' \<leftarrow> nonDeterminism (Wrapf [] (Sentinel ErrNonDeterministic) ('': child run ''
                            @ cp_childRunID cp @ '' of '' @ wc_quote (a_client a) key @ '' no longer exists''));
                          State_Monad.return (Inl e') }
                        else do { e' \<leftarrow> infrastructureFailure e; State_Monad.return (Inl e') }
                    | Inr child \<Rightarrow>
                        if \<not> Finished (r_status child) then do {
                          e' \<leftarrow> suspendOn \<lparr>wk_signal = [], wk_childRunID = cp_childRunID cp, wk_wake = None\<rparr>;
                          State_Monad.return (Inl e') }
                        else recordChildOutcome co key cp child) }
                 else State_Monad.return (Inr cp));
               (case c of
                  Inl e \<Rightarrow> State_Monad.return (Inl e)
                | Inr cp' \<Rightarrow>
                    if cp_status cp' = StepFailed then State_Monad.return (Inl (childRunError co cp'))
                    else decodeRecorded cv key (cp_output cp')) }) }) }"

text \<open>
  \<open>Context.Start\<close>: the future it returns is an error or the key whose child \<open>awaitChild\<close> waits for;
  \<open>Call\<close> waits at once.
\<close>

definition Context_Start ::
  "ctx \<Rightarrow> string result \<Rightarrow> string \<Rightarrow> wf_definition \<Rightarrow> 'i codec \<Rightarrow> 'i \<Rightarrow> start_option list \<Rightarrow> string result act" where
  "Context_Start x newID name child ci input options = do {
     k \<leftarrow> stepKey name;
     (case k of
        Inl e \<Rightarrow> State_Monad.return (Inl e)
      | Inr key \<Rightarrow> do {
          a \<leftarrow> get_act;
          let config = fold applyToStart options \<lparr>st_key = [], st_timeout = 0\<rparr>;
          if st_key config \<noteq> [] then State_Monad.return (Inl (Errorf (''workflow: child ''
            @ wc_quote (a_client a) key @ '' is keyed by its step name and takes no Key'')))
          else do {
            r \<leftarrow> startChild x newID key child ci input (config\<lparr>st_key := a_runID a @ ''/'' @ key\<rparr>);
            State_Monad.return (case r of Inl e \<Rightarrow> Inl e | Inr _ \<Rightarrow> Inr key) } }) }"

definition Call ::
  "ctx \<Rightarrow> child_outcome codec \<Rightarrow> 'v codec \<Rightarrow> string result \<Rightarrow> string \<Rightarrow> wf_definition \<Rightarrow> 'i codec \<Rightarrow> 'i
    \<Rightarrow> start_option list \<Rightarrow> 'v result act" where
  "Call x co cv newID name child ci input options = do {
     f \<leftarrow> Context_Start x newID name child ci input options;
     (case f of Inl e \<Rightarrow> State_Monad.return (Inl e) | Inr key \<Rightarrow> awaitChild co cv key) }"

end
