(* ===== verification/Workflow_Worker.thy ===== *)
theory Workflow_Worker
  imports Workflow_Context
begin

text \<open>
  The workflow worker, \<open>workflow/worker.go\<close>: taking a run over (\<open>beginActivation\<close>), the handler the
  queue worker calls for each job of a workflow queue, the reconciliation of runs whose job the queue
  gave up on, and the builder. Decoding the job payload is \<open>json.Unmarshal\<close>, an argument; so is the
  moment a run context is interrupted.
\<close>

definition wf_withDefaults :: "wf_worker_config \<Rightarrow> wf_worker_config" where
  "wf_withDefaults c0 =
     (let c1 = (if wf_Concurrency c0 = 0 then c0\<lparr>wf_Concurrency := 4\<rparr> else c0);
          c2 = (if wf_VisibilityTimeout c1 = 0 then c1\<lparr>wf_VisibilityTimeout := 30 * second\<rparr> else c1)
      in if wf_ReapInterval c2 = 0 then c2\<lparr>wf_ReapInterval := 10 * second\<rparr> else c2)"

section \<open>Taking a run over\<close>

definition activate_row :: "int \<Rightarrow> run \<Rightarrow> run" where
  "activate_row n r = r\<lparr>r_status := RunRunning, r_lease := r_lease r + 1,
     r_started_at := (case r_started_at r of None \<Rightarrow> Some n | Some t \<Rightarrow> Some t),
     r_wake_at := None, r_updated_at := n\<rparr>"

definition activatable :: "string \<Rightarrow> int \<Rightarrow> run \<Rightarrow> bool" where
  "activatable runID jobID r \<longleftrightarrow> r_id r = runID \<and> r_job_id r = Some jobID \<and> \<not> Finished (r_status r)"

text \<open>The row after the update, with the deadline as \<open>deadlineFrom\<close> reads it.\<close>

definition activate_run :: "string \<Rightarrow> int \<Rightarrow> (run \<times> deadline option) option statement" where
  "activate_run runID jobID w =
     (map_option (\<lambda>r. (activate_row (now w) r, deadlineFrom (r_deadline_at r) w))
        (find (activatable runID jobID) (runs (db w))),
      w\<lparr>db := (db w)\<lparr>runs := upd_where (activatable runID jobID) (activate_row (now w)) (runs (db w))\<rparr>\<rparr>)"

definition new_activation ::
  "wf_client \<Rightarrow> wf_definition \<Rightarrow> wf_worker_config \<Rightarrow> job \<Rightarrow> string \<Rightarrow> run \<Rightarrow> deadline option \<Rightarrow>
    (string \<times> checkpoint) list \<Rightarrow> activation" where
  "new_activation c d config job runID r deadline cps = \<lparr>a_client = c, a_def = d, a_config = config, a_job = job,
     a_runID = runID, a_lease = r_lease r, a_input = r_input r, a_parentRunID = text_or_empty (r_parent_run_id r),
     a_deadline = deadline, a_checkpoints = map_of (rev cps), a_occurrences = (\<lambda>_. 0), a_stop = Running,
     a_stopErr = Sentinel ErrSuspended, a_conditions = [], a_runCtx = None\<rparr>"

definition beginActivation ::
  "wf_client \<Rightarrow> wf_definition \<Rightarrow> wf_worker_config \<Rightarrow> job \<Rightarrow> string \<Rightarrow> activation option result io" where
  "beginActivation c d config job runID = (let q = wc_queue c in
     attempt begin_tx (\<lambda>e. Inl (wrap (''workflow: begin run '' @ runID @ '': '') e)) (\<lambda>_. deferring_rollback (do {
       l \<leftarrow> LockClaimTx q True job;
       (case l of
          Inl e \<Rightarrow> State_Monad.return (if errors_is e ErrJobNotFound then Inr None else Inl e)
        | Inr _ \<Rightarrow> do {
            r \<leftarrow> query_row (activate_run runID (ID job));
            (case r of
               Inl e \<Rightarrow>
                 if errors_is e SqlErrNoRows
                 then attempt (AckTx q True (ID job)) Inl (\<lambda>_.
                   attempt commit_tx Inl (\<lambda>_. State_Monad.return (Inr None)))
                 else State_Monad.return (Inl (wrap (''workflow: begin run '' @ runID @ '': '') e))
             | Inr (row, deadline) \<Rightarrow>
                 attempt commit_tx (\<lambda>e. Inl (wrap (''workflow: commit run '' @ runID @ '' start: '') e)) (\<lambda>_.
                 attempt (loadCheckpoints runID) Inl (\<lambda>cps. State_Monad.return
                   (Inr (Some (new_activation c d config job runID row deadline cps)))))) }) })))"

text \<open>
  The handler of a workflow's queue. \<open>fn\<close> is the \<open>execute\<close> function of the definition, \<open>decode\<close> reads
  the run id from the job payload, \<open>interrupt\<close> says when and why the run context ends.
\<close>

definition wf_handler ::
  "wf_client \<Rightarrow> (string \<Rightarrow> string result) \<Rightarrow> wf_definition \<Rightarrow> (string \<Rightarrow> string result conduct act) \<Rightarrow>
    wf_worker_config \<Rightarrow> (job \<Rightarrow> (int \<times> err) option) \<Rightarrow> job \<Rightarrow> err option io" where
  "wf_handler c decode d fn config interrupt job = (case decode (Payload job) of
       Inr (i # runID) \<Rightarrow> do {
         b \<leftarrow> beginActivation c d config job (i # runID);
         (case b of
            Inl e \<Rightarrow> State_Monad.return (Some e)
          | Inr None \<Rightarrow> State_Monad.return (Some Handled)
          | Inr (Some a) \<Rightarrow> State (\<lambda>w. case run_state (execute (fn (a_input a)) (interrupt job)) (a, w) of
              (e, (_, w')) \<Rightarrow> (e, w'))) }
     | _ \<Rightarrow> State_Monad.return (NonRetryable (Some (Errorf
         (''workflow: job '' @ dec_int (ID job) @ '' does not name a run'')))))"

section \<open>Reconciling\<close>

definition job_of :: "database \<Rightarrow> run \<Rightarrow> job option" where
  "job_of d r = (case r_job_id r of None \<Rightarrow> None | Some i \<Rightarrow> find (\<lambda>j. ID j = i) (jobs d))"

definition orphaned :: "database \<Rightarrow> run \<Rightarrow> bool" where
  "orphaned d r \<longleftrightarrow> \<not> Finished (r_status r)
     \<and> (case job_of d r of None \<Rightarrow> True | Some j \<Rightarrow> Status j = StatusFailed \<or> Status j = StatusDone)"

text \<open>The id of an orphaned run, the status of its job and the job's last error.\<close>

definition orphan_row :: "database \<Rightarrow> run \<Rightarrow> string \<times> string \<times> string" where
  "orphan_row d r = (r_id r, (case job_of d r of None \<Rightarrow> ''deleted'' | Some j \<Rightarrow> status_text (Status j)),
     (case job_of d r of None \<Rightarrow> [] | Some j \<Rightarrow> text_or_empty (LastError j)))"

definition orphanMessage :: "string \<Rightarrow> string \<Rightarrow> string" where
  "orphanMessage jobStatus lastError =
     (let own = ''the run'' @ [CHR 39] @ ''s job'' in
      if jobStatus = ''deleted'' then own @ '' was deleted''
      else if jobStatus = ''done'' then own @ '' was settled while the run was unfinished''
      else if lastError = [] then ''the queue gave up on '' @ own
      else ''the queue gave up on '' @ own @ '': '' @ lastError)"

definition orphan_fail_row :: "string \<Rightarrow> int \<Rightarrow> run \<Rightarrow> run" where
  "orphan_fail_row message n r = r\<lparr>r_status := RunFailed, r_error := Some message, r_completed_at := Some n,
     r_wake_at := None, r_updated_at := n\<rparr>"

definition failOrphanedRun :: "wf_client \<Rightarrow> string \<Rightarrow> string \<Rightarrow> bool result io" where
  "failOrphanedRun c runID message =
     attempt begin_tx Inl (\<lambda>_. deferring_rollback (
       attempt (query_row (select_run (\<lambda>r. r_id r = runID) r_parent_run_id)) Inl (\<lambda>parentRunID.
       attempt (case parentRunID of None \<Rightarrow> State_Monad.return (Inr ()) | Some p \<Rightarrow> wakeParentTx c p) Inl (\<lambda>_.
       do {
         q \<leftarrow> query_row (\<lambda>w. (map_option (\<lambda>_. ()) (find (\<lambda>r. r_id r = runID \<and> orphaned (db w) r) (runs (db w))), w));
         (case q of
            Inl e \<Rightarrow> State_Monad.return (if errors_is e SqlErrNoRows then Inr False else Inl e)
          | Inr _ \<Rightarrow>
              attempt (query (update_runs (\<lambda>r. r_id r = runID) (orphan_fail_row message))) Inl (\<lambda>_.
              attempt (cancel_descendants c runID) Inl (\<lambda>_.
              attempt (NotifyTx (wc_queue c) True (runNotifyKey runID)) Inl (\<lambda>_.
              attempt commit_tx Inl (\<lambda>_. State_Monad.return (Inr True)))))) }))))"

fun fail_orphans :: "wf_client \<Rightarrow> wf_worker_config \<Rightarrow> (string \<times> string \<times> string) list \<Rightarrow> unit result io" where
  "fail_orphans c config [] = State_Monad.return (Inr ())"
| "fail_orphans c config ((runID, jobStatus, lastError) # os) =
     attempt (failOrphanedRun c runID (orphanMessage jobStatus lastError)) Inl (\<lambda>failed. do {
       (if failed then report_failed config runID else State_Monad.return ());
       fail_orphans c config os })"

text \<open>\<open>LIMIT 100\<close> without an order: \<open>visit\<close> is the order the server scans the runs in.\<close>

definition failOrphanedRuns ::
  "(run list \<Rightarrow> run list) \<Rightarrow> wf_client \<Rightarrow> wf_worker_config \<Rightarrow> unit result io" where
  "failOrphanedRuns visit c config =
     attempt (query (\<lambda>w. (map (orphan_row (db w)) (take 100 (filter (orphaned (db w)) (visit (runs (db w))))), w)))
       (\<lambda>e. Inl (wrap ''workflow: find orphaned runs: '' e)) (fail_orphans c config)"

section \<open>The builder\<close>

record wf_worker_builder =
  wb_client :: wf_client
  wb_id :: string
  wb_pickup :: pickup
  wb_config :: wf_worker_config
  wb_workflows :: "(wf_definition \<times> (string \<Rightarrow> string result conduct act)) list"

definition buildQueueWorker :: "int \<Rightarrow> (int \<Rightarrow> int) \<Rightarrow> worker_builder \<Rightarrow> pickup \<Rightarrow> worker result" where
  "buildQueueWorker outside rnd b p =
     (if p \<noteq> \<lparr>onEnqueue = False, scanEvery = 0\<rparr> then Build outside rnd (builder_Pickup b p)
      else (case Build outside rnd (builder_Pickup b OnEnqueue) of
          Inl e \<Rightarrow> if errors_is e ErrNotificationsUnsupported
                  then Build outside rnd (builder_Pickup b (PollEvery second)) else Inl e
        | Inr wk \<Rightarrow> Inr wk))"

fun list_definitions ::
  "(wf_definition \<times> 'f) list \<Rightarrow> string list \<Rightarrow> err option" where
  "list_definitions [] seen = None"
| "list_definitions ((d, _) # ds) seen =
     (if queueName d \<in> set seen
      then Some (Wrapf [] (Sentinel ErrDuplicateWorkflow)
        ('': '' @ d_name d @ '' version '' @ dec_int (d_version d)))
      else list_definitions ds (queueName d # seen))"

text \<open>One slot: a queue worker with a handler per workflow.\<close>

definition build_slot ::
  "int \<Rightarrow> (int \<Rightarrow> int) \<Rightarrow> (string \<Rightarrow> string result) \<Rightarrow> (job \<Rightarrow> (int \<times> err) option) \<Rightarrow> wf_worker_builder \<Rightarrow>
    wf_worker_config \<Rightarrow> nat \<Rightarrow> worker result" where
  "build_slot outside rnd decode interrupt b config slot =
     (let b0 = Tune (Worker_builder (wc_queue (wb_client b)) (wb_id b @ ''/'' @ dec_nat (slot + 1)))
            (zero_config\<lparr>VisibilityTimeout := wf_VisibilityTimeout config, ReapInterval := wf_ReapInterval config\<rparr>);
          b1 = fold (\<lambda>(d, fn) bb. builder_HandleRaw bb (queueName d)
                 (Some (\<lambda>_. wf_handler (wb_client b) decode d fn config interrupt))) (wb_workflows b) b0
      in buildQueueWorker outside rnd b1 (wb_pickup b))"

fun build_slots :: "(nat \<Rightarrow> worker result) \<Rightarrow> nat list \<Rightarrow> worker list result" where
  "build_slots f [] = Inr []"
| "build_slots f (i # is) = (case f i of Inl e \<Rightarrow> Inl e
     | Inr wk \<Rightarrow> (case build_slots f is of Inl e \<Rightarrow> Inl e | Inr wks \<Rightarrow> Inr (wk # wks)))"

definition wf_Build ::
  "int \<Rightarrow> (int \<Rightarrow> int) \<Rightarrow> (string \<Rightarrow> string result) \<Rightarrow> (job \<Rightarrow> (int \<times> err) option) \<Rightarrow> wf_worker_builder \<Rightarrow>
    worker list result" where
  "wf_Build outside rnd decode interrupt b =
     (if wb_workflows b = [] then Inl (Sentinel ErrNoWorkflows)
      else let config = wf_withDefaults (wb_config b) in
        if wf_Concurrency config < 0 \<or> wf_VisibilityTimeout config < 0 \<or> wf_ReapInterval config < 0
        then Inl (Sentinel WfErrInvalidWorkerConfig)
        else (case list_definitions (wb_workflows b) [] of
            Some e \<Rightarrow> Inl e
          | None \<Rightarrow> build_slots (build_slot outside rnd decode interrupt b config) [0..<nat (wf_Concurrency config)]))"

end
