(* ===== verification/Queue_Listing.thy ===== *)
theory Queue_Listing
  imports Workflow_Core
begin

text \<open>
  The listings of the queue client, \<open>ListJobs\<close> and \<open>CountJobs\<close> of \<open>queue/queue.go\<close>: the filters, the
  order and the paging of the query, and the errors of their guards. The search text becomes an \<open>ILIKE\<close>
  pattern without escaping, unlike the workflow package's.
\<close>

section \<open>Model\<close>

record list_jobs_params =
  lj_Limit :: int
  lj_QueueName :: string
  lj_Status :: string
  lj_Offset :: int
  lj_Search :: string

definition maxSearchLength :: nat where "maxSearchLength = 256"

text \<open>\<open>encode(payload, 'escape')\<close>: zero bytes and bytes from 128 on in octal, backslashes doubled.\<close>

definition escape_byte :: "char \<Rightarrow> string" where
  "escape_byte c = (let n = (of_char c :: nat) in
     if n = 0 \<or> 128 \<le> n
     then [bslash, char_of (48 + n div 64), char_of (48 + n div 8 mod 8), char_of (48 + n mod 8)]
     else if c = bslash then [bslash, bslash] else [c])"

definition encode_escape :: "string \<Rightarrow> string" where
  "encode_escape payload = concat (map escape_byte payload)"

text \<open>The search condition of both queries, on the trimmed text.\<close>

definition job_search :: "string \<Rightarrow> job \<Rightarrow> bool" where
  "job_search text j \<longleftrightarrow> (let pattern = ''%'' @ text @ ''%'' in
     ilike (QueueName j) pattern \<or> ilike (encode_escape (Payload j)) pattern
     \<or> ilike (case LastError j of None \<Rightarrow> [] | Some m \<Rightarrow> m) pattern)"

definition job_filter :: "list_jobs_params \<Rightarrow> job \<Rightarrow> bool" where
  "job_filter p j \<longleftrightarrow> (lj_QueueName p = [] \<or> QueueName j = lj_QueueName p)
     \<and> (lj_Status p = [] \<or> status_text (Status j) = lj_Status p)
     \<and> (lj_Search p = [] \<or> job_search (lj_Search p) j)"

text \<open>\<open>ORDER BY id DESC LIMIT \<dots> OFFSET \<dots>\<close>.\<close>

definition newest_first :: "list_jobs_params \<Rightarrow> job list \<Rightarrow> job list" where
  "newest_first p rows = rev (sort_key ID (filter (job_filter p) rows))"

definition page :: "int \<Rightarrow> int \<Rightarrow> 'a list \<Rightarrow> 'a list" where
  "page limit offset xs = take (nat limit) (drop (nat offset) xs)"

definition ListJobs :: "client option \<Rightarrow> list_jobs_params \<Rightarrow> job list result io" where
  "ListJobs c p0 =
     (if nil_db c then State_Monad.return (Inl (Sentinel ErrNilDB))
      else if lj_Limit p0 \<le> 0 then State_Monad.return (Inl (Sentinel ErrInvalidLimit))
      else if lj_Offset p0 < 0 then State_Monad.return (Inl (Sentinel ErrInvalidOffset))
      else let p = p0\<lparr>lj_Search := trim_space (lj_Search p0)\<rparr> in
        if maxSearchLength < length (lj_Search p) then State_Monad.return (Inl (Sentinel ErrSearchTooLong))
        else attempt (query (\<lambda>w. (page (lj_Limit p) (lj_Offset p) (newest_first p (jobs (db w))), w)))
          (\<lambda>e. Inl (wrap ''pgqueue: list jobs: '' e))
          (\<lambda>js. State_Monad.return (Inr (map (\<lambda>j. j\<lparr>traceContext := None\<rparr>) js))))"

definition CountJobs :: "client option \<Rightarrow> list_jobs_params \<Rightarrow> int result io" where
  "CountJobs c p0 =
     (if nil_db c then State_Monad.return (Inl (Sentinel ErrNilDB))
      else if lj_Offset p0 < 0 then State_Monad.return (Inl (Sentinel ErrInvalidOffset))
      else let p = p0\<lparr>lj_Search := trim_space (lj_Search p0)\<rparr> in
        if maxSearchLength < length (lj_Search p) then State_Monad.return (Inl (Sentinel ErrSearchTooLong))
        else attempt (query (\<lambda>w. (count_where (job_filter p) (jobs (db w)), w)))
          (\<lambda>e. Inl (wrap ''pgqueue: count jobs: '' e)) (\<lambda>k. State_Monad.return (Inr k)))"

section \<open>Paging\<close>

text \<open>The pages of a list, one after the other, are the list.\<close>

lemma pages_append:
  assumes "0 < limit"
  shows "concat (map (\<lambda>k. page limit (int k * limit) xs) [0..<n]) = take (n * nat limit) xs"
proof (induction n)
  case (Suc n)
  have "nat (int n * limit) = n * nat limit" using assms by (simp add: nat_mult_distrib)
  then have "page limit (int n * limit) xs = take (nat limit) (drop (n * nat limit) xs)" by (simp add: page_def)
  then show ?case using Suc.IH take_add [of "n * nat limit" "nat limit" xs] by (simp add: add.commute)
qed simp

lemma set_newest_first [simp]: "set (newest_first p rows) = {j \<in> set rows. job_filter p j}"
  by (simp add: newest_first_def)

lemma length_newest_first: "int (length (newest_first p rows)) = count_where (job_filter p) rows"
  by (simp add: newest_first_def count_where_def)

lemma newest_first_sorted: "sorted_wrt (\<lambda>j k. ID k \<le> ID j) (newest_first p rows)"
  using sorted_sort_key [of ID "filter (job_filter p) rows"] unfolding newest_first_def sorted_wrt_rev sorted_map .

lemma run_read:
  assumes "script w = []" "\<not> tx_aborted w"
  shows "fst (run_state (query (\<lambda>w. (g w, w))) w) = Inr (g w)"
  using assms by (simp add: run_query round_trip_def)

lemma run_attempt_read:
  assumes "script w = []" "\<not> tx_aborted w"
  shows "fst (run_state (attempt (query (\<lambda>w. (g w, w))) h (\<lambda>x. State_Monad.return (k x))) w) = k (g w)"
  using run_read [OF assms, of g] by (cases "run_state (query (\<lambda>w. (g w, w))) w") (simp add: run_attempt)

text \<open>A listing as the dashboard shows it: without the trace context.\<close>

definition matching_jobs :: "list_jobs_params \<Rightarrow> database \<Rightarrow> job list" where
  "matching_jobs p d = map (\<lambda>j. j\<lparr>traceContext := None\<rparr>) (newest_first (p\<lparr>lj_Search := trim_space (lj_Search p)\<rparr>) (jobs d))"

lemma page_map: "page limit offset (map f xs) = map f (page limit offset xs)"
  by (simp add: page_def take_map drop_map)

lemma newest_first_fields [simp]:
  "newest_first (p\<lparr>lj_Offset := k, lj_Search := t\<rparr>) rows = newest_first (p\<lparr>lj_Search := t\<rparr>) rows"
  by (simp add: newest_first_def job_filter_def cong: filter_cong)

lemma ListJobs_answer:
  assumes "script w = []" "\<not> tx_aborted w" "\<not> nil_db c" "0 < lj_Limit p" "0 \<le> lj_Offset p"
    and "length (trim_space (lj_Search p)) \<le> maxSearchLength"
  shows "fst (run_state (ListJobs c p) w) = Inr (page (lj_Limit p) (lj_Offset p) (matching_jobs p (db w)))"
  using assms(3-) by (simp add: ListJobs_def Let_def run_attempt_read [OF assms(1,2)] matching_jobs_def page_map not_less)

text \<open>
  Listing jobs. When no call fails, the pages \<open>ListJobs\<close> answers for the offsets \<open>0\<close>, \<open>Limit\<close>,
  \<open>2 * Limit\<close>, \<dots> follow one another without a gap or an overlap: together they are the matching jobs,
  newest id first, and \<open>CountJobs\<close> answers how many these are.
\<close>

theorem job_pages_complete:
  assumes "script w = []" "\<not> tx_aborted w" "\<not> nil_db c" "0 < lj_Limit p" "0 \<le> lj_Offset p"
    and "length (trim_space (lj_Search p)) \<le> maxSearchLength"
    and "length (matching_jobs p (db w)) \<le> n * nat (lj_Limit p)"
  shows "map (\<lambda>k. fst (run_state (ListJobs c (p\<lparr>lj_Offset := int k * lj_Limit p\<rparr>)) w)) [0..<n]
       = map (\<lambda>k. Inr (page (lj_Limit p) (int k * lj_Limit p) (matching_jobs p (db w)))) [0..<n]
     \<and> concat (map (\<lambda>k. page (lj_Limit p) (int k * lj_Limit p) (matching_jobs p (db w))) [0..<n]) = matching_jobs p (db w)
     \<and> sorted_wrt (\<lambda>j k. ID k \<le> ID j) (matching_jobs p (db w))
     \<and> fst (run_state (CountJobs c p) w) = Inr (int (length (matching_jobs p (db w))))"
proof (intro conjI)
  have same: "matching_jobs (p\<lparr>lj_Offset := k\<rparr>) (db w) = matching_jobs p (db w)" for k
    by (simp add: matching_jobs_def)
  show "map (\<lambda>k. fst (run_state (ListJobs c (p\<lparr>lj_Offset := int k * lj_Limit p\<rparr>)) w)) [0..<n]
       = map (\<lambda>k. Inr (page (lj_Limit p) (int k * lj_Limit p) (matching_jobs p (db w)))) [0..<n]"
    using assms by (simp add: ListJobs_answer same)
  show "concat (map (\<lambda>k. page (lj_Limit p) (int k * lj_Limit p) (matching_jobs p (db w))) [0..<n]) = matching_jobs p (db w)"
    unfolding pages_append [OF assms(4)] using assms(7) by simp
  show "sorted_wrt (\<lambda>j k. ID k \<le> ID j) (matching_jobs p (db w))"
    using newest_first_sorted by (simp add: matching_jobs_def sorted_wrt_map)
  show "fst (run_state (CountJobs c p) w) = Inr (int (length (matching_jobs p (db w))))"
    using assms(3,5,6)
    by (simp add: CountJobs_def Let_def run_attempt_read [OF assms(1,2)] matching_jobs_def length_newest_first not_less)
qed

definition listing_params :: list_jobs_params where
  "listing_params = \<lparr>lj_Limit = 2, lj_QueueName = ''q'', lj_Status = [], lj_Offset = 0, lj_Search = '' A ''\<rparr>"

definition listed_world :: world where
  "listed_world = initial_world\<lparr>db := empty_database\<lparr>jobs := [new_job 1 0 ''q'' ''xa'' 5 None None,
     new_job 2 0 ''q'' ''b'' 5 None None, new_job 3 0 ''p'' ''a'' 5 None None, new_job 4 0 ''q'' ''A'' 5 None None,
     new_job 5 0 ''q'' ''ab'' 5 None (Some ''t'')]\<rparr>\<rparr>"

lemma listing_length: "length (matching_jobs listing_params (db listed_world)) = 3"
  by code_simp

theorem job_pages_complete_witness:
  "fst (run_state (CountJobs (Some sample_client) listing_params) listed_world) = Inr 3
   \<and> map ID (concat (map (\<lambda>k. page 2 (int k * 2) (matching_jobs listing_params (db listed_world))) [0..<2])) = [5, 4, 1]"
proof -
  have "script listed_world = []" "\<not> tx_aborted listed_world" "\<not> nil_db (Some sample_client)"
    "length (trim_space (lj_Search listing_params)) \<le> maxSearchLength"
    "map ID (matching_jobs listing_params (db listed_world)) = [5, 4, 1]" by code_simp+
  moreover have "lj_Limit listing_params = 2" "lj_Offset listing_params = 0" by (simp_all add: listing_params_def)
  ultimately show ?thesis using job_pages_complete [of listed_world "Some sample_client" listing_params 2] listing_length by simp
qed

text \<open>
  The search text is not escaped: an underscore, meant literally, is a wildcard for any character and so
  finds every job.
\<close>

lemma underscore_finds_all: "QueueName j \<noteq> [] \<Longrightarrow> job_search ''_'' j"
proof -
  assume "QueueName j \<noteq> []"
  then obtain c s where q: "to_lower (QueueName j) = c # s" by (cases "QueueName j") (auto simp: to_lower_def)
  have "like ''%'' s" using like_percent [of "[]" s] by simp
  then have "like ''_%'' (c # s)" by (subst like.simps) simp
  then have "like ''%_%'' (c # s)" unfolding like_percent by (metis append_Nil)
  moreover have "to_lower ''%_%'' = ''%_%''" by code_simp
  ultimately have "ilike (QueueName j) ''%_%''" by (simp only: ilike_def q)
  then show ?thesis by (simp add: job_search_def Let_def)
qed

end
