(* ===== verification/Workflow_Inspect.thy ===== *)
theory Workflow_Inspect
  imports Workflow_Worker Queue_Listing
begin

text \<open>
  Looking at runs, \<open>workflow/inspect.go\<close>: listing and counting runs, listing the steps of a run, waiting
  for a result, and purging finished run trees. What else happens in the database while \<open>Result\<close> waits is
  an argument: one program for each wait. The rows with equal completion time come in an order of the
  server's choice, the function \<open>visit\<close>.
\<close>

section \<open>Listing\<close>

record list_runs_params =
  lr_Workflow :: string
  lr_Status :: string
  lr_ParentRunID :: string
  lr_Search :: string
  lr_Limit :: int
  lr_Offset :: int

definition run_search :: "string \<Rightarrow> run \<Rightarrow> bool" where
  "run_search search r \<longleftrightarrow> (let pattern = searchPattern search in
     ilike (r_id r) pattern \<or> (case r_key r of None \<Rightarrow> False | Some k \<Rightarrow> ilike k pattern)
     \<or> ilike (r_workflow r) pattern)"

definition runFilter :: "list_runs_params \<Rightarrow> run \<Rightarrow> bool" where
  "runFilter p r \<longleftrightarrow> (lr_Workflow p = [] \<or> r_workflow r = lr_Workflow p)
     \<and> (lr_Status p = [] \<or> run_status_text (r_status r) = lr_Status p)
     \<and> (lr_ParentRunID p = [] \<or> r_parent_run_id r = Some (lr_ParentRunID p))
     \<and> (trim_space (lr_Search p) = [] \<or> run_search (lr_Search p) r)"

definition newest_runs :: "list_runs_params \<Rightarrow> run list \<Rightarrow> run list" where
  "newest_runs p rows = rev (sort_key (\<lambda>r. (r_created_at r, r_id r)) (filter (runFilter p) rows))"

definition ListRuns :: "list_runs_params \<Rightarrow> run list result io" where
  "ListRuns p = (let limit = (if lr_Limit p \<le> 0 then 50 else lr_Limit p) in
     attempt (query (\<lambda>w. (page limit (max (lr_Offset p) 0) (newest_runs p (runs (db w))), w)))
       (\<lambda>e. Inl (wrap ''workflow: list runs: '' e)) (\<lambda>rs. State_Monad.return (Inr rs)))"

definition CountRuns :: "list_runs_params \<Rightarrow> int result io" where
  "CountRuns p = attempt (query (\<lambda>w. (count_where (runFilter p) (runs (db w)), w)))
     (\<lambda>e. Inl (wrap ''workflow: count runs: '' e)) (\<lambda>k. State_Monad.return (Inr k))"

definition ListSteps :: "string \<Rightarrow> step list result io" where
  "ListSteps runID = attempt (query (\<lambda>w. (sort_key (\<lambda>s. (s_created_at s, s_name s))
       (filter (\<lambda>s. s_run_id s = runID) (steps (db w))), w)))
     (\<lambda>e. Inl (wrap ''workflow: list steps: '' e)) (\<lambda>ss. State_Monad.return (Inr ss))"

section \<open>Waiting for a result\<close>

text \<open>\<open>jsonUnmarshal\<close>: an empty output decodes like \<open>null\<close>.\<close>

definition jsonUnmarshal :: "'v codec \<Rightarrow> string \<Rightarrow> 'v result" where
  "jsonUnmarshal cv raw = unmarshal cv (if raw = [] then ''null'' else raw)"

definition decodeResult :: "'v codec \<Rightarrow> run \<Rightarrow> 'v result" where
  "decodeResult cv r =
     (if r_status r \<noteq> RunSucceeded
      then Inl (RunError (''workflow: '' @ r_workflow r @ '' run '' @ r_id r @ '' '' @ run_status_text (r_status r)
        @ '': '' @ text_or_empty (r_error r)) (r_status r = RunCancelled) (r_timed_out r))
      else (case jsonUnmarshal cv (text_or_empty (r_output r)) of
          Inl e \<Rightarrow> Inl (wrap (''workflow: run '' @ r_id r @ '' output does not decode into '' @ type_name cv @ '': '') e)
        | Inr v \<Rightarrow> Inr v))"

text \<open>
  The loop of \<open>Result\<close>. Each wait is the program of what happens meanwhile, and whether the end of the
  caller's context is noticed after it: Go's \<open>select\<close> may also take a tick that is due at the same time.
  \<open>None\<close> is a caller that still waits.
\<close>

fun result_loop :: "(unit io \<times> bool) list \<Rightarrow> ctx \<Rightarrow> 'v codec \<Rightarrow> string \<Rightarrow> 'v result option io" where
  "result_loop waits x cv runID = attempt (GetRun runID) (\<lambda>e. Some (Inl e)) (\<lambda>r.
     if Finished (r_status r) then State_Monad.return (Some (decodeResult cv r))
     else (case waits of
         [] \<Rightarrow> State_Monad.return None
       | (meanwhile, noticed) # rest \<Rightarrow> do {
           meanwhile;
           w \<leftarrow> State_Monad.get;
           (case ctx_err x w of
              Some e \<Rightarrow> if noticed then State_Monad.return (Some (Inl e)) else result_loop rest x cv runID
            | None \<Rightarrow> result_loop rest x cv runID) }))"

definition Result :: "wf_client option \<Rightarrow> (unit io \<times> bool) list \<Rightarrow> ctx \<Rightarrow> 'v codec \<Rightarrow> string \<Rightarrow> 'v result option io" where
  "Result c waits x cv runID = (case c of
       None \<Rightarrow> State_Monad.return (Some (Inl (Wrapf [] (Sentinel ErrRunNotFound) '': empty run handle'')))
     | Some _ \<Rightarrow> result_loop waits x cv runID)"

section \<open>Purging\<close>

record wf_purge_params =
  wp_OlderThan :: int
  wp_Limit :: int

definition finished_before :: "int \<Rightarrow> int \<Rightarrow> run \<Rightarrow> bool" where
  "finished_before olderThan n r \<longleftrightarrow> Finished (r_status r)
     \<and> (case r_completed_at r of None \<Rightarrow> False | Some t \<Rightarrow> t < n - interval (max olderThan 0))"

text \<open>The parent of a top-level run is not in the table.\<close>

definition top_level :: "run list \<Rightarrow> run \<Rightarrow> bool" where
  "top_level rs r \<longleftrightarrow> (case r_parent_run_id r of None \<Rightarrow> True | Some p \<Rightarrow> p \<notin> set (map r_id rs))"

text \<open>\<open>purgeableTreesSQL\<close>: the roots of trees whose runs are all finished.\<close>

definition tree_ids :: "run list \<Rightarrow> string \<Rightarrow> string list" where
  "tree_ids rs root = concat (run_tree rs root)"

definition purgeable_tree :: "run list \<Rightarrow> string \<Rightarrow> bool" where
  "purgeable_tree rs root \<longleftrightarrow> list_all (\<lambda>r. r_id r \<in> set (tree_ids rs root) \<longrightarrow> Finished (r_status r)) rs"

definition roots_to_purge :: "(run list \<Rightarrow> run list) \<Rightarrow> wf_purge_params \<Rightarrow> int \<Rightarrow> run list \<Rightarrow> string list" where
  "roots_to_purge visit p n rs = (let found = sort_key (\<lambda>r. case r_completed_at r of None \<Rightarrow> 0 | Some t \<Rightarrow> t)
       (visit (filter (\<lambda>r. finished_before (wp_OlderThan p) n r \<and> top_level rs r \<and> purgeable_tree rs (r_id r)) rs))
     in map r_id (if 0 < wp_Limit p then take (nat (wp_Limit p)) found else found))"

text \<open>
  \<open>lockTreesTx\<close> looks until it finds no run it had not locked. Nobody adds a run inside this transaction,
  so the second look is the last: two rounds of fuel are enough.
\<close>

fun lockTreesTx :: "nat \<Rightarrow> string list \<Rightarrow> string list \<Rightarrow> unit result option io" where
  "lockTreesTx 0 roots locked = State_Monad.return None"
| "lockTreesTx (Suc fuel) roots locked =
     attempt (query (\<lambda>w. (concat (map (tree_ids (runs (db w))) (sort roots)), w)))
       (\<lambda>e. Some (Inl (wrap ''workflow: lock runs to purge: '' e))) (\<lambda>ids.
       if list_all (\<lambda>i. i \<in> set locked) ids then State_Monad.return (Some (Inr ()))
       else lockTreesTx fuel roots (locked @ first_occurrences ids))"

text \<open>The runs are deleted with their steps and signals (\<open>ON DELETE CASCADE\<close>).\<close>

definition dead_ids :: "wf_purge_params \<Rightarrow> int \<Rightarrow> string list \<Rightarrow> run list \<Rightarrow> string list" where
  "dead_ids p n roots rs = concat (map (\<lambda>r. if purgeable_tree rs (r_id r) then tree_ids rs (r_id r) else [])
     (filter (\<lambda>r. r_id r \<in> set roots \<and> finished_before (wp_OlderThan p) n r) rs))"

definition delete_runs :: "string list \<Rightarrow> database \<Rightarrow> database" where
  "delete_runs dead d = d\<lparr>runs := del_where (\<lambda>r. r_id r \<in> set dead) (runs d),
     steps := del_where (\<lambda>s. s_run_id s \<in> set dead) (steps d),
     signals := del_where (\<lambda>g. g_run_id g \<in> set dead) (signals d)\<rparr>"

definition delete_trees :: "wf_purge_params \<Rightarrow> string list \<Rightarrow> int statement" where
  "delete_trees p roots = on_db (\<lambda>n d. let dead = dead_ids p n roots (runs d) in
     (count_where (\<lambda>r. r_id r \<in> set dead) (runs d), delete_runs dead d))"

definition wf_Purge :: "(run list \<Rightarrow> run list) \<Rightarrow> nat \<Rightarrow> wf_purge_params \<Rightarrow> int result option io" where
  "wf_Purge visit fuel p =
     attempt begin_tx (\<lambda>e. Some (Inl (wrap ''workflow: begin purge: '' e))) (\<lambda>_. deferring_rollback (
       attempt (query (\<lambda>w. (roots_to_purge visit p (now w) (runs (db w)), w)))
         (\<lambda>e. Some (Inl (wrap ''workflow: find runs to purge: '' e))) (\<lambda>found.
         let roots = first_occurrences found in
         if roots = [] then State_Monad.return (Some (Inr 0))
         else do {
           l \<leftarrow> lockTreesTx fuel roots [];
           (case l of
              None \<Rightarrow> State_Monad.return None
            | Some (Inl e) \<Rightarrow> State_Monad.return (Some (Inl e))
            | Some (Inr _) \<Rightarrow>
                attempt (query (delete_trees p roots)) (\<lambda>e. Some (Inl (wrap ''workflow: purge runs: '' e))) (\<lambda>deleted.
                attempt commit_tx (\<lambda>e. Some (Inl (wrap ''workflow: commit purge: '' e)))
                  (\<lambda>_. State_Monad.return (Some (Inr deleted))))) })))"

section \<open>Searching is literal\<close>

text \<open>The search text occurs in a column, up to case and surrounding space.\<close>

definition mentions :: "string \<Rightarrow> string \<Rightarrow> bool" where
  "mentions search s \<longleftrightarrow> contains (to_lower s) (to_lower (trim_space search))"

lemma run_search_mentions:
  "run_search search r \<longleftrightarrow> mentions search (r_id r) \<or> (\<exists>k. r_key r = Some k \<and> mentions search k) \<or> mentions search (r_workflow r)"
  by (auto simp: run_search_def mentions_def searchPattern_literal Let_def split: option.splits)

lemma newest_runs_order:
  "sorted_wrt (\<lambda>q r. r_created_at r < r_created_at q \<or> r_created_at r = r_created_at q \<and> r_id r \<le> r_id q) (newest_runs p rs)"
proof -
  have "sorted_wrt (\<lambda>q r. (r_created_at r, r_id r) \<le> (r_created_at q, r_id q)) (newest_runs p rs)"
    using sorted_sort_key [of "\<lambda>r. (r_created_at r, r_id r)" "filter (runFilter p) rs"]
    unfolding newest_runs_def sorted_wrt_rev sorted_map .
  then show ?thesis by (rule sorted_wrt_mono_rel [rotated]) auto
qed

text \<open>
  Listing runs. When no call fails, \<open>ListRuns\<close> answers a page (50 rows when no limit is given) of the
  runs that match the filters, newest first, and \<open>CountRuns\<close> how many match. The search is literal: a
  run matches when its id, its key or its workflow contains the search text up to case and surrounding
  space, with \<open>%\<close>, \<open>_\<close> and backslashes standing for themselves.
\<close>

theorem list_runs_literal:
  assumes "script w = []" "\<not> tx_aborted w"
  shows "let rs = newest_runs p (runs (db w)) in
     fst (run_state (ListRuns p) w) = Inr (page (if lr_Limit p \<le> 0 then 50 else lr_Limit p) (max (lr_Offset p) 0) rs)
     \<and> fst (run_state (CountRuns p) w) = Inr (int (length rs))
     \<and> sorted_wrt (\<lambda>q r. r_created_at r < r_created_at q \<or> r_created_at r = r_created_at q \<and> r_id r \<le> r_id q) rs
     \<and> set rs = {r \<in> set (runs (db w)). (lr_Workflow p = [] \<or> r_workflow r = lr_Workflow p)
          \<and> (lr_Status p = [] \<or> run_status_text (r_status r) = lr_Status p)
          \<and> (lr_ParentRunID p = [] \<or> r_parent_run_id r = Some (lr_ParentRunID p))
          \<and> (trim_space (lr_Search p) = [] \<or> mentions (lr_Search p) (r_id r)
               \<or> (\<exists>k. r_key r = Some k \<and> mentions (lr_Search p) k) \<or> mentions (lr_Search p) (r_workflow r))}"
unfolding Let_def
proof (intro conjI)
  let ?rs = "newest_runs p (runs (db w))"
  show "fst (run_state (ListRuns p) w) = Inr (page (if lr_Limit p \<le> 0 then 50 else lr_Limit p) (max (lr_Offset p) 0) ?rs)"
    unfolding ListRuns_def Let_def run_attempt_read [OF assms] ..
  show "fst (run_state (CountRuns p) w) = Inr (int (length ?rs))"
    unfolding CountRuns_def run_attempt_read [OF assms] by (simp add: newest_runs_def count_where_def)
  show "set ?rs = {r \<in> set (runs (db w)). (lr_Workflow p = [] \<or> r_workflow r = lr_Workflow p)
          \<and> (lr_Status p = [] \<or> run_status_text (r_status r) = lr_Status p)
          \<and> (lr_ParentRunID p = [] \<or> r_parent_run_id r = Some (lr_ParentRunID p))
          \<and> (trim_space (lr_Search p) = [] \<or> mentions (lr_Search p) (r_id r)
               \<or> (\<exists>k. r_key r = Some k \<and> mentions (lr_Search p) k) \<or> mentions (lr_Search p) (r_workflow r))}"
    by (simp add: newest_runs_def runFilter_def run_search_mentions)
qed (rule newest_runs_order)

definition listed_run :: "string \<Rightarrow> string option \<Rightarrow> int \<Rightarrow> run" where
  "listed_run i key created = (new_run i \<lparr>d_name = ''w'', d_version = 1, d_retry = NoRetry\<rparr> ''{}'' \<lparr>st_key = [], st_timeout = 0\<rparr> [] [] created)
     \<lparr>r_key := key\<rparr>"

text \<open>The text \<open>A_1\<close> finds the key \<open>a_1\<close> and not the key \<open>ab1\<close>.\<close>

definition runs_world :: world where
  "runs_world = initial_world\<lparr>db := empty_database\<lparr>runs := [listed_run ''r1'' (Some ''a_1'') 1, listed_run ''r2'' (Some ''ab1'') 2,
     listed_run ''r3'' (Some ''xa_1'') 3]\<rparr>\<rparr>"

definition runs_params :: list_runs_params where
  "runs_params = \<lparr>lr_Workflow = [], lr_Status = [], lr_ParentRunID = [], lr_Search = '' A_1'', lr_Limit = 0, lr_Offset = 0\<rparr>"

lemma runs_listed: "map r_id (newest_runs runs_params (runs (db runs_world))) = [''r3'', ''r1'']"
  by code_simp

theorem list_runs_literal_witness:
  "\<exists>rs. fst (run_state (ListRuns runs_params) runs_world) = Inr rs \<and> map r_id rs = [''r3'', ''r1'']
     \<and> fst (run_state (CountRuns runs_params) runs_world) = Inr 2"
proof -
  have w: "script runs_world = []" "\<not> tx_aborted runs_world" by code_simp+
  let ?rs = "newest_runs runs_params (runs (db runs_world))"
  have two: "length ?rs = 2" using arg_cong [OF runs_listed, of length] by simp
  have p: "lr_Limit runs_params = 0" "lr_Offset runs_params = 0" by (simp_all add: runs_params_def)
  note all = list_runs_literal [OF w, of runs_params, unfolded Let_def]
  have pages: "page (if lr_Limit runs_params \<le> 0 then 50 else lr_Limit runs_params) (max (lr_Offset runs_params) 0) ?rs = ?rs"
    by (simp add: p two page_def)
  show ?thesis
  proof (intro exI conjI)
    show "fst (run_state (ListRuns runs_params) runs_world) = Inr ?rs" using all [THEN conjunct1] unfolding pages .
    show "fst (run_state (CountRuns runs_params) runs_world) = Inr 2"
      using all [THEN conjunct2, THEN conjunct1] unfolding two by simp
  qed (rule runs_listed)
qed

end
