(* ===== verification/Transactions.thy ===== *)
theory Transactions
  imports Queue_Properties
begin

text \<open>
  A Hoare logic for the bodies of transactions. Inside a transaction that began with the tables
  \<open>d0\<close> at time \<open>n0\<close>, the assertion \<open>opened d0 n0 Q\<close> says that the tables satisfy \<open>Q\<close> unless the
  transaction is aborted; its negative outcome is that the tables are \<open>d0\<close> again. The rules cover
  every pattern of failures once and for all, so a proof about an operation only looks at what its
  statements do to the tables.
\<close>

named_theorems tx_rules \<open>rules for calls inside a transaction\<close>

section \<open>Structural rules\<close>

lemma hoare_attempt:
  assumes "hoare P m (\<lambda>r s. case r of Inl e \<Rightarrow> Q (h e) s | Inr a \<Rightarrow> R a s)" "\<And>a. hoare (R a) (k a) Q"
  shows "hoare P (attempt m h k) Q"
  unfolding attempt_def using assms
  by (intro hoare_bind [OF assms(1)]) (auto split: sum.split intro: hoare_return)

lemma hoare_pre: "hoare P' m Q \<Longrightarrow> (\<And>s. P s \<Longrightarrow> P' s) \<Longrightarrow> hoare P m Q"
  by (rule hoare_conseq)

lemma hoare_post: "hoare P m Q' \<Longrightarrow> (\<And>a s. Q' a s \<Longrightarrow> Q a s) \<Longrightarrow> hoare P m Q"
  by (rule hoare_conseq)

lemma hoare_drop: "hoare (\<lambda>_. True) m Q \<Longrightarrow> hoare P m Q"
  by (erule hoare_pre) simp

lemma hoare_conj: "hoare P m Q \<Longrightarrow> hoare P' m Q' \<Longrightarrow> hoare (\<lambda>s. P s \<and> P' s) m (\<lambda>a s. Q a s \<and> Q' a s)"
  by (fastforce simp: hoare_def split: prod.splits)

lemma hoare_if: "(b \<Longrightarrow> hoare P m Q) \<Longrightarrow> (\<not> b \<Longrightarrow> hoare P n Q) \<Longrightarrow> hoare P (if b then m else n) Q"
  by simp

lemma hoare_case_sum:
  "(\<And>e. r = Inl e \<Longrightarrow> hoare P (F e) Q) \<Longrightarrow> (\<And>x. r = Inr x \<Longrightarrow> hoare P (G x) Q) \<Longrightarrow>
   hoare P (case r of Inl e \<Rightarrow> F e | Inr x \<Rightarrow> G x) Q"
  by (cases r) simp_all

lemma hoare_case_option:
  "(r = None \<Longrightarrow> hoare P F Q) \<Longrightarrow> (\<And>x. r = Some x \<Longrightarrow> hoare P (G x) Q) \<Longrightarrow>
   hoare P (case r of None \<Rightarrow> F | Some x \<Rightarrow> G x) Q"
  by (cases r) simp_all

lemma hoare_case_prod:
  "(\<And>x y. r = (x, y) \<Longrightarrow> hoare P (F x y) Q) \<Longrightarrow> hoare P (case r of (x, y) \<Rightarrow> F x y) Q"
  by (cases r) simp

lemma hoare_assume: "(\<And>s. P s \<Longrightarrow> A) \<Longrightarrow> (A \<Longrightarrow> hoare P m Q) \<Longrightarrow> hoare P m Q"
  by (rule hoareI) (blast dest: hoareD)

lemma hoare_ex: "(\<And>x. hoare (P x) m Q) \<Longrightarrow> hoare (\<lambda>s. \<exists>x. P x s) m Q"
  by (rule hoareI) (blast dest: hoareD)

text \<open>What a program answers, whatever the state.\<close>

abbreviation yields :: "('s, 'a) state \<Rightarrow> ('a \<Rightarrow> bool) \<Rightarrow> bool" where
  "yields m G \<equiv> hoare (\<lambda>_. True) m (\<lambda>r _. G r)"

lemma yields_return [hoare_rules]: "G r \<Longrightarrow> yields (State_Monad.return r) G"
  by (rule hoare_return)

lemma yields_bind [hoare_rules]: "(\<And>a. yields (f a) G) \<Longrightarrow> yields (m \<bind> f) G"
  by (rule hoare_bind [where R = "\<lambda>_ _. True"]) (simp_all add: hoare_def split: prod.split)

lemma yields_bind_strong: "yields m R \<Longrightarrow> (\<And>a. R a \<Longrightarrow> yields (f a) G) \<Longrightarrow> yields (m \<bind> f) G"
  by (fastforce simp: hoare_def split: prod.splits)

lemma yields_attempt [hoare_rules]: "(\<And>e. G (h e)) \<Longrightarrow> (\<And>a. yields (k a) G) \<Longrightarrow> yields (attempt m h k) G"
  unfolding attempt_def by (rule yields_bind) (auto intro: yields_return split: sum.split)

lemma yields_run: "yields m G \<Longrightarrow> run_state m s = (r, t) \<Longrightarrow> G r"
  by (blast dest: hoareD)

lemma hoare_get: "(\<And>s. P s \<Longrightarrow> Q s s) \<Longrightarrow> hoare P State_Monad.get Q"
  by (simp add: hoare_def State_Monad.get_def)

lemma hoare_update: "(\<And>s. P s \<Longrightarrow> Q () (f s)) \<Longrightarrow> hoare P (State_Monad.update f) Q"
  by (simp add: hoare_def State_Monad.update_def)

lemma find_SomeD: "find P xs = Some x \<Longrightarrow> x \<in> set xs \<and> P x"
  by (auto simp: find_Some_iff)

section \<open>Inside a transaction\<close>

definition opened :: "database \<Rightarrow> int \<Rightarrow> (database \<Rightarrow> bool) \<Rightarrow> world \<Rightarrow> bool" where
  "opened d0 n0 Q w \<longleftrightarrow> snapshot w = Some d0 \<and> tx_start w = n0 \<and> \<not> tx_aborted w \<and> Q (db w)"

definition aborted :: "database \<Rightarrow> world \<Rightarrow> bool" where
  "aborted d0 w \<longleftrightarrow> snapshot w = Some d0 \<and> tx_aborted w"

text \<open>What a call answers: an error only with the transaction aborted.\<close>

definition answers ::
  "database \<Rightarrow> int \<Rightarrow> ('a \<Rightarrow> database \<Rightarrow> bool) \<Rightarrow> 'a result \<Rightarrow> world \<Rightarrow> bool" where
  "answers d0 n0 R r w = (case r of Inl _ \<Rightarrow> aborted d0 w | Inr a \<Rightarrow> opened d0 n0 (R a) w)"

text \<open>The same for an operation, which may also refuse without asking the server.\<close>

definition replies ::
  "database \<Rightarrow> int \<Rightarrow> ('a \<Rightarrow> database \<Rightarrow> bool) \<Rightarrow> 'a result \<Rightarrow> world \<Rightarrow> bool" where
  "replies d0 n0 R r w = (case r of Inl _ \<Rightarrow> snapshot w = Some d0 | Inr a \<Rightarrow> opened d0 n0 (R a) w)"

lemma replies_simps [simp]:
  "replies d0 n0 R (Inl e) = (\<lambda>w. snapshot w = Some d0)" "replies d0 n0 R (Inr a) = opened d0 n0 (R a)"
  by (simp_all add: replies_def fun_eq_iff)

lemma replies_mono: "replies d0 n0 R r w \<Longrightarrow> (\<And>a d. R a d \<Longrightarrow> R' a d) \<Longrightarrow> replies d0 n0 R' r w"
  by (auto simp: replies_def opened_def split: sum.splits)

lemma opened_now: "opened d0 n0 Q w \<Longrightarrow> now w = n0"
  by (simp add: opened_def now_def)

lemma opened_mono: "opened d0 n0 Q w \<Longrightarrow> (\<And>d. Q d \<Longrightarrow> Q' d) \<Longrightarrow> opened d0 n0 Q' w"
  by (auto simp: opened_def)

lemma answers_mono: "answers d0 n0 R r w \<Longrightarrow> (\<And>a d. R a d \<Longrightarrow> R' a d) \<Longrightarrow> answers d0 n0 R' r w"
  by (auto simp: answers_def intro: opened_mono split: sum.splits)

text \<open>A statement in the sense of the logic: it leaves the transaction as it is.\<close>

definition plain :: "'a statement \<Rightarrow> bool" where
  "plain st \<longleftrightarrow> (\<forall>w. snapshot (snd (st w)) = snapshot w \<and> tx_start (snd (st w)) = tx_start w
     \<and> tx_aborted (snd (st w)) = tx_aborted w)"

lemma plain_on_db [simp]: "plain (on_db f)"
  by (simp add: plain_def on_db_def split: prod.split)

lemma plain_read: "(\<And>w. snd (st w) = w) \<Longrightarrow> plain st"
  by (simp add: plain_def)

lemma opened_round_trip: "opened d0 n0 Q w \<Longrightarrow> round_trip w = (oc, w1) \<Longrightarrow> opened d0 n0 Q w1"
  using round_trip_frame [of w oc w1] by (simp add: opened_def)

lemma query_tx:
  assumes st: "plain st"
    and step: "\<And>w. opened d0 n0 Q w \<Longrightarrow> R (fst (st w)) (db (snd (st w)))"
  shows "hoare (opened d0 n0 Q) (query st) (answers d0 n0 R)"
proof (rule hoareI)
  fix w r w'
  assume w: "opened d0 n0 Q w" and run: "run_state (query st) w = (r, w')"
  obtain oc w1 where rt: "round_trip w = (oc, w1)" by (cases "round_trip w")
  have w1: "opened d0 n0 Q w1" using opened_round_trip [OF w rt] .
  obtain a w2 where s: "st w1 = (a, w2)" by (cases "st w1")
  have w2: "snapshot w2 = Some d0" "tx_start w2 = n0" "\<not> tx_aborted w2"
    using st [unfolded plain_def, rule_format, of w1] w1 s by (simp_all add: opened_def)
  have "R a (db w2)" using step [OF w1] s by simp
  with run rt s w1 w2 show "answers d0 n0 R r w'"
    by (cases oc) (auto simp: run_query answers_def opened_def aborted_def end_statement_def split: if_splits)
qed

text \<open>What the transport reports, none of the errors the packages look for.\<close>

definition is_fault :: "err \<Rightarrow> bool" where
  "is_fault e \<longleftrightarrow> e = tx_aborted_error \<or> (\<exists>f. e = fault_err f)"

lemma is_fault_not [simp]:
  assumes "is_fault e"
  shows "\<not> errors_is e ErrJobNotFound" "\<not> errors_is e SqlErrNoRows" "\<not> errors_is e ErrRunNotFound"
    "\<not> errors_is e ErrLeaseLost" "\<not> errors_is e ErrRunFinished" "\<not> errors_is e ErrRunNotRetryable"
  using assms by (auto simp: is_fault_def)

lemma query_fault: "run_state (query st) w = (Inl e, w') \<Longrightarrow> is_fault e"
  by (auto simp: run_query is_fault_def split: prod.splits outcome.splits if_splits)

text \<open>\<open>QueryRow\<close>: \<open>N\<close> holds of the tables when there is no row.\<close>

lemma query_row_tx:
  assumes "plain st"
    and "\<And>w a. opened d0 n0 Q w \<Longrightarrow> fst (st w) = Some a \<Longrightarrow> R a (db (snd (st w)))"
    and "\<And>w. opened d0 n0 Q w \<Longrightarrow> fst (st w) = None \<Longrightarrow> N (db (snd (st w)))"
  shows "hoare (opened d0 n0 Q) (query_row st) (\<lambda>r w. case r of
     Inl e \<Rightarrow> is_fault e \<and> aborted d0 w \<or> e = Sentinel SqlErrNoRows \<and> opened d0 n0 N w
     | Inr a \<Rightarrow> opened d0 n0 (R a) w)"
proof (rule hoareI)
  fix w r w'
  assume w: "opened d0 n0 Q w" and run: "run_state (query_row st) w = (r, w')"
  obtain g where g: "run_state (query st) w = (g, w')"
    and r: "r = (case g of Inl e \<Rightarrow> Inl e | Inr None \<Rightarrow> Inl (Sentinel SqlErrNoRows) | Inr (Some a) \<Rightarrow> Inr a)"
    using run by (auto simp: query_row_def run_simps split: prod.splits)
  have "answers d0 n0 (\<lambda>x d. case x of Some a \<Rightarrow> R a d | None \<Rightarrow> N d) g w'"
    by (rule hoareD [OF query_tx w g]) (use assms in \<open>auto split: option.split\<close>)
  with g show "case r of
     Inl e \<Rightarrow> is_fault e \<and> aborted d0 w' \<or> e = Sentinel SqlErrNoRows \<and> opened d0 n0 N w'
     | Inr a \<Rightarrow> opened d0 n0 (R a) w'"
    by (auto simp: r answers_def dest: query_fault split: sum.splits option.splits)
qed

lemma attempt_query_tx:
  assumes "plain st" "\<And>w. opened d0 n0 Q w \<Longrightarrow> R (fst (st w)) (db (snd (st w)))"
    and "\<And>a. hoare (opened d0 n0 (R a)) (k a) P" "\<And>e w. snapshot w = Some d0 \<Longrightarrow> P (h e) w"
  shows "hoare (opened d0 n0 Q) (attempt (query st) h k) P"
proof (rule hoare_attempt [where R = "\<lambda>a. opened d0 n0 (R a)"])
  show "hoare (opened d0 n0 Q) (query st)
     (\<lambda>r w. case r of Inl e \<Rightarrow> P (h e) w | Inr a \<Rightarrow> opened d0 n0 (R a) w)"
    by (rule hoare_post [OF query_tx [where R = R]])
      (auto simp: assms answers_def aborted_def split: sum.splits)
qed (rule assms)

lemma attempt_query_row_tx:
  assumes "plain st" "\<And>w a. opened d0 n0 Q w \<Longrightarrow> fst (st w) = Some a \<Longrightarrow> R a (db (snd (st w)))"
    and "\<And>a. hoare (opened d0 n0 (R a)) (k a) P" "\<And>e w. snapshot w = Some d0 \<Longrightarrow> P (h e) w"
  shows "hoare (opened d0 n0 Q) (attempt (query_row st) h k) P"
proof (rule hoare_attempt [where R = "\<lambda>a. opened d0 n0 (R a)"])
  show "hoare (opened d0 n0 Q) (query_row st)
     (\<lambda>r w. case r of Inl e \<Rightarrow> P (h e) w | Inr a \<Rightarrow> opened d0 n0 (R a) w)"
    by (rule hoare_post [OF query_row_tx [where R = R and N = "\<lambda>_. True"]])
      (auto simp: assms aborted_def opened_def intro: assms(4) split: sum.splits)
qed (rule assms)

lemma attempt_tx:
  assumes "hoare Q m (replies d0 n0 R)" "\<And>a. hoare (opened d0 n0 (R a)) (k a) P"
    and "\<And>e w. snapshot w = Some d0 \<Longrightarrow> P (h e) w"
  shows "hoare Q (attempt m h k) P"
  by (rule hoare_attempt [OF hoare_post [OF assms(1)] assms(2)]) (auto simp: replies_def assms(3) split: sum.splits)

section \<open>Beginning and ending\<close>

lemma begin_tx_rule:
  "hoare (\<lambda>w. snapshot w = None \<and> db w = d0 \<and> clock w = c) begin_tx (\<lambda>r w. case r of
     Inl _ \<Rightarrow> snapshot w = None \<and> db w = d0
     | Inr _ \<Rightarrow> \<exists>n0 \<ge> c. opened d0 n0 (\<lambda>d. d = d0) w)"
proof (rule hoareI)
  fix w r w1
  assume w: "snapshot w = None \<and> db w = d0 \<and> clock w = c" and run: "run_state begin_tx w = (r, w1)"
  from w have "snapshot w = None" by simp
  from run this show "case r of Inl _ \<Rightarrow> snapshot w1 = None \<and> db w1 = d0
     | Inr _ \<Rightarrow> \<exists>n0 \<ge> c. opened d0 n0 (\<lambda>d. d = d0) w1"
    by (cases rule: begin_cases) (use w in \<open>auto simp: opened_def\<close>)
qed

text \<open>The tables a committed transaction leaves: its notifications are gone.\<close>

definition sent :: "database \<Rightarrow> database" where
  "sent d = d\<lparr>outbox := []\<rparr>"

lemma sent_fields [simp]:
  "jobs (sent d) = jobs d" "runs (sent d) = runs d" "steps (sent d) = steps d" "signals (sent d) = signals d"
  "schedules (sent d) = schedules d"
  by (simp_all add: sent_def)

text \<open>The end of a transaction: rolled back, or committed with tables satisfying \<open>Q\<close>.\<close>

definition closed :: "database \<Rightarrow> (database \<Rightarrow> bool) \<Rightarrow> world \<Rightarrow> bool" where
  "closed d0 Q w \<longleftrightarrow> snapshot w = None \<and> (db w = d0 \<or> (\<exists>d. Q d \<and> db w = sent d))"

definition committed :: "(database \<Rightarrow> bool) \<Rightarrow> world \<Rightarrow> bool" where
  "committed Q w \<longleftrightarrow> snapshot w = None \<and> (\<exists>d. Q d \<and> db w = sent d)"

lemma committed_closed: "committed Q w \<Longrightarrow> closed d0 Q w"
  by (auto simp: committed_def closed_def)

lemma closed_mono: "closed d0 Q w \<Longrightarrow> (\<And>d. Q d \<Longrightarrow> Q' d) \<Longrightarrow> closed d0 Q' w"
  by (auto simp: closed_def)

lemma commit_tx_rule:
  "hoare (opened d0 n0 Q) commit_tx (\<lambda>r w. case r of Inl _ \<Rightarrow> closed d0 Q w | Inr _ \<Rightarrow> committed Q w)"
proof (rule hoareI)
  fix w r w'
  assume w: "opened d0 n0 Q w" and run: "run_state commit_tx w = (r, w')"
  obtain oc w0 where rt: "round_trip w = (oc, w0)" by (cases "round_trip w")
  note f = round_trip_frame [OF rt]
  from run rt f w show "case r of Inl _ \<Rightarrow> closed d0 Q w' | Inr _ \<Rightarrow> committed Q w'"
    by (cases oc) (auto simp: commit_tx_def restore_def publish_def opened_def closed_def committed_def sent_def
      split: if_splits)
qed

text \<open>What the deferred rollback turns into a closed transaction.\<close>

definition ending :: "database \<Rightarrow> (database \<Rightarrow> bool) \<Rightarrow> world \<Rightarrow> bool" where
  "ending d0 Q w \<longleftrightarrow> snapshot w = Some d0 \<or> closed d0 Q w"

lemma ending_restore: "ending d0 Q w \<Longrightarrow> closed d0 Q (restore w)"
  by (auto simp: ending_def closed_def restore_def)

lemma opened_ending: "opened d0 n0 P w \<Longrightarrow> ending d0 Q w"
  by (simp add: opened_def ending_def)

lemma aborted_ending: "aborted d0 w \<Longrightarrow> ending d0 Q w"
  by (simp add: aborted_def ending_def)

lemma closed_ending: "closed d0 Q w \<Longrightarrow> ending d0 Q w"
  by (simp add: ending_def)

lemmas endings = opened_ending aborted_ending closed_ending committed_closed [THEN closed_ending]

lemma deferring_rollback_rule:
  assumes "hoare P m (\<lambda>r. ending d0 (Q r))"
  shows "hoare P (deferring_rollback m) (\<lambda>r. closed d0 (Q r))"
  using assms unfolding deferring_rollback_def
  by (intro hoare_bind [OF assms] hoare_bind [where R = "\<lambda>_. closed d0 (Q r)" for r] hoare_update hoare_return)
    (simp_all add: ending_restore)

section \<open>Queue calls inside a transaction\<close>

text \<open>Properties of the tables that do not look at jobs and pending notifications.\<close>

definition ignores_jobs :: "(database \<Rightarrow> bool) \<Rightarrow> bool" where
  "ignores_jobs Q \<longleftrightarrow> (\<forall>(d :: database) js out. Q d \<longrightarrow> Q (d\<lparr>jobs := js, outbox := out\<rparr>))"

lemma ignores_jobsD: "ignores_jobs Q \<Longrightarrow> Q d \<Longrightarrow> Q (d\<lparr>jobs := js, outbox := out\<rparr>)"
  by (simp add: ignores_jobs_def)

lemma ignores_outbox: "ignores_jobs Q \<Longrightarrow> Q d \<Longrightarrow> Q (d\<lparr>outbox := out\<rparr>)"
  using ignores_jobsD [where js = "jobs d" and out = out and Q = Q and d = d] by simp

lemma ignores_jobs_only: "ignores_jobs Q \<Longrightarrow> Q d \<Longrightarrow> Q (d\<lparr>jobs := js\<rparr>)"
  using ignores_jobsD [where js = js and out = "outbox d" and Q = Q and d = d] by simp

lemma replies_return: "(\<And>w. P w \<Longrightarrow> opened d0 n0 (R a) w) \<Longrightarrow> hoare P (State_Monad.return (Inr a)) (replies d0 n0 R)"
  by (rule hoare_return) simp

lemma replies_refuse: "(\<And>w. P w \<Longrightarrow> snapshot w = Some d0) \<Longrightarrow> hoare P (State_Monad.return (Inl e)) (replies d0 n0 R)"
  by (rule hoare_return) simp

lemma opened_snapshot: "opened d0 n0 Q w \<Longrightarrow> snapshot w = Some d0"
  by (simp add: opened_def)

lemma opened_emit: "hoare (opened d0 n0 Q) (emit e) (\<lambda>_. opened d0 n0 Q)"
  by (rule hoareI) (auto simp: run_emit opened_def)

lemma WakeTx_tx:
  assumes "ignores_jobs Q"
  shows "hoare (opened d0 n0 Q) (WakeTx c tx j) (replies d0 n0 (\<lambda>_. Q))"
  unfolding WakeTx_def
  by (intro hoare_if hoare_return attempt_query_tx [where R = "\<lambda>_. Q"])
    (auto simp: on_db_def wake_rows_def update_jobs_notify_def opened_def intro: ignores_jobsD [OF assms])

end
