(* ===== verification/Workflow_Fence.thy ===== *)
theory Workflow_Fence
  imports Workflow_Worker Transactions
begin

text \<open>
  The lease fence of activations, why they stop, and that they end. Rules for programs over an
  activation and the world come first: \<open>on_act A W\<close> says \<open>A\<close> of the activation and \<open>W\<close> of the world.
\<close>

section \<open>Rules for activations\<close>

definition on_act :: "(activation \<Rightarrow> bool) \<Rightarrow> (world \<Rightarrow> bool) \<Rightarrow> activation \<times> world \<Rightarrow> bool" where
  "on_act A W s \<longleftrightarrow> A (fst s) \<and> W (snd s)"

lemma run_act [run_simps]:
  "run_state (in_world m) (a, w) = (case run_state m w of (r, w') \<Rightarrow> (r, (a, w')))"
  "run_state get_act (a, w) = (a, (a, w))" "run_state get_world (a, w) = (w, (a, w))"
  "run_state (upd_act f) (a, w) = ((), (f a, w))"
  by (simp_all add: in_world_def get_act_def get_world_def upd_act_def)

lemma act_in_world: "hoare W m W' \<Longrightarrow> hoare (on_act A W) (in_world m) (\<lambda>r. on_act A (W' r))"
  by (rule hoareI) (auto simp: on_act_def run_simps split: prod.splits dest: hoareD)

lemma act_get: "hoare (on_act A W) get_act (\<lambda>a. on_act (\<lambda>b. A b \<and> b = a) W)"
  by (rule hoareI) (auto simp: on_act_def run_simps)

lemma act_peek:
  assumes "\<And>a. A a \<Longrightarrow> hoare (on_act A W) (m a) R"
  shows "hoare (on_act A W) (do { a \<leftarrow> get_act; m a }) R"
proof (rule hoare_bind [OF act_get])
  fix a
  show "hoare (on_act (\<lambda>b. A b \<and> b = a) W) (m a) R"
    by (rule hoare_assume [where A = "A a"]) (auto simp: on_act_def intro: hoare_pre [OF assms])
qed

lemma act_get_world: "hoare (on_act A W) get_world (\<lambda>_. on_act A W)"
  by (rule hoareI) (auto simp: on_act_def run_simps)

lemma act_upd: "(\<And>a. A a \<Longrightarrow> A' (f a)) \<Longrightarrow> hoare (on_act A W) (upd_act f) (\<lambda>_. on_act A' W)"
  by (rule hoareI) (auto simp: on_act_def run_simps)

lemma on_act_mono:
  "on_act A W s \<Longrightarrow> (\<And>a. A a \<Longrightarrow> A' a) \<Longrightarrow> (\<And>w. W w \<Longrightarrow> W' w) \<Longrightarrow> on_act A' W' s"
  by (simp add: on_act_def)

text \<open>The fields of an activation that its execution never changes.\<close>

definition act_core :: "activation \<Rightarrow> wf_client \<times> wf_worker_config \<times> job \<times> string \<times> int \<times> string \<times> deadline option" where
  "act_core a = (a_client a, a_config a, a_job a, a_runID a, a_lease a, a_parentRunID a, a_deadline a)"

lemma act_core_fields [simp]:
  "act_core (a\<lparr>a_stop := x, a_stopErr := e\<rparr>) = act_core a"
  "act_core (a\<lparr>a_conditions := cs\<rparr>) = act_core a" "act_core (a\<lparr>a_checkpoints := m\<rparr>) = act_core a"
  "act_core (a\<lparr>a_occurrences := oc\<rparr>) = act_core a" "act_core (a\<lparr>a_runCtx := x'\<rparr>) = act_core a"
  by (simp_all add: act_core_def)

abbreviation same_act :: "activation \<Rightarrow> activation \<Rightarrow> bool" where
  "same_act a0 \<equiv> \<lambda>a. act_core a = act_core a0"

lemma act_recordStop: "hoare (on_act (same_act a0) W) (recordStop x e) (\<lambda>_. on_act (same_act a0) W)"
  unfolding recordStop_def by (rule act_upd) simp

lemma act_stopState: "hoare (on_act A W) stopState (\<lambda>_. on_act A W)"
  unfolding stopState_def
  by (rule hoare_bind [OF act_get], rule hoare_return) (auto simp: on_act_def)

lemma act_stopWith: "hoare (on_act (same_act a0) W) (stopWith x e) (\<lambda>_. on_act (same_act a0) W)"
  unfolding stopWith_def
  by (rule hoare_bind [OF act_recordStop], rule hoare_bind [OF act_stopState])
    (auto intro: hoare_return split: prod.split)

lemma act_rollback: "(\<And>w. W w \<Longrightarrow> W' (restore w)) \<Longrightarrow> hoare (on_act A W) rollback_now (\<lambda>_. on_act A W')"
  unfolding rollback_now_def by (rule hoare_post [OF act_in_world]) (auto intro: hoare_update)

lemma act_deferring_rule:
  assumes "hoare P m (\<lambda>r. on_act A (ending d0 (Q r)))"
  shows "hoare P (act_deferring_rollback m) (\<lambda>r. on_act A (closed d0 (Q r)))"
  unfolding act_deferring_rollback_def
proof (rule hoare_bind [OF assms])
  fix r
  have "hoare (ending d0 (Q r)) (State_Monad.update restore) (\<lambda>_. closed d0 (Q r))"
    by (intro hoare_update) (rule ending_restore)
  then show "hoare (on_act A (ending d0 (Q r))) (do { in_world (State_Monad.update restore); State_Monad.return r })
     (\<lambda>r. on_act A (closed d0 (Q r)))"
    by (intro hoare_bind [OF act_in_world] hoare_return)
qed

section \<open>The lease fence\<close>

text \<open>An activation is superseded when the run no longer has its lease.\<close>

definition superseded :: "activation \<Rightarrow> database \<Rightarrow> bool" where
  "superseded a d \<longleftrightarrow> (\<forall>r \<in> set (runs d). \<not> owned_by a r)"

lemma superseded_core: "act_core a = act_core a0 \<Longrightarrow> superseded a d = superseded a0 d"
  by (simp add: superseded_def owned_by_def act_core_def)

lemma plain_select [simp]: "plain (select_run P f)"
  by (simp add: plain_def select_run_def)

text \<open>A superseded activation never finds its run.\<close>

lemma select_superseded:
  assumes "\<And>d. Q d \<Longrightarrow> superseded a d"
  shows "hoare (opened d0 n0 Q) (query_row (select_run (owned_by a) f))
    (\<lambda>r w. isl r \<and> snapshot w = Some d0)"
proof (rule hoare_post [OF query_row_tx [where R = "\<lambda>_ _. False" and N = "\<lambda>_. True"]])
  fix w b
  assume "opened d0 n0 Q w" "fst (select_run (owned_by a) f w) = Some b"
  with assms [of "db w"] show False by (auto simp: opened_def select_run_def superseded_def dest: find_SomeD)
qed (auto simp: opened_def aborted_def split: sum.splits)

abbreviation untouched :: "database \<Rightarrow> world \<Rightarrow> bool" where
  "untouched d0 w \<equiv> snapshot w = None \<and> db w = d0"

lemma begin_untouched:
  "hoare (untouched d0) begin_tx (\<lambda>r w. case r of Inl _ \<Rightarrow> untouched d0 w
     | Inr _ \<Rightarrow> \<exists>n0. opened d0 n0 (\<lambda>d. d = d0) w)"
proof (rule hoareI)
  fix w r w1
  assume "untouched d0 w" "run_state begin_tx w = (r, w1)"
  with hoareD [OF begin_tx_rule [of d0 "clock w"], of w r w1]
  show "case r of Inl _ \<Rightarrow> untouched d0 w1 | Inr _ \<Rightarrow> \<exists>n0. opened d0 n0 (\<lambda>d. d = d0) w1"
    by (auto split: sum.splits)
qed

lemma restore_untouched: "snapshot w = Some d0 \<Longrightarrow> untouched d0 (restore w)"
  by (auto simp: restore_def)

text \<open>A transaction of an activation.\<close>

lemma act_transaction:
  assumes "\<And>e. hoare (on_act A (untouched d0)) (F e) Q" "\<And>n0. hoare (on_act A (opened d0 n0 (\<lambda>d. d = d0))) G Q"
  shows "hoare (on_act A (untouched d0)) (do { b \<leftarrow> in_world begin_tx; (case b of Inl e \<Rightarrow> F e | Inr _ \<Rightarrow> G) }) Q"
proof (rule hoare_bind [OF act_in_world [OF begin_untouched]])
  fix b
  show "hoare (on_act A (\<lambda>w. case b of Inl _ \<Rightarrow> untouched d0 w | Inr _ \<Rightarrow> \<exists>n0. opened d0 n0 (\<lambda>d. d = d0) w))
     (case b of Inl e \<Rightarrow> F e | Inr _ \<Rightarrow> G) Q"
  proof (cases b)
    case (Inl e)
    with assms(1) show ?thesis by simp
  next
    case (Inr u)
    have "hoare (\<lambda>s. \<exists>n0. on_act A (opened d0 n0 (\<lambda>d. d = d0)) s) G Q" by (rule hoare_ex) (rule assms(2))
    then show ?thesis by (simp add: Inr) (erule hoare_pre, auto simp: on_act_def)
  qed
qed

text \<open>After the lookup of the run by a superseded activation only the error branch is left.\<close>

lemma act_select_superseded:
  assumes Q: "\<And>d. Q d \<Longrightarrow> superseded a0 d"
    and failed: "\<And>e. hoare (on_act (same_act a0) (\<lambda>w. snapshot w = Some d0)) (F (Inl e)) R"
  shows "act_core a = act_core a0 \<Longrightarrow> hoare (on_act (same_act a0) (opened d0 n0 Q))
     (do { q \<leftarrow> in_world (query_row (select_run (owned_by a) f)); F q }) R"
proof -
  assume a: "act_core a = act_core a0"
  have Q': "Q d \<Longrightarrow> superseded a d" for d using Q superseded_core [OF a] by blast
  show ?thesis
  proof (rule hoare_bind [OF act_in_world [OF select_superseded [OF Q']]])
    fix q
    have "hoare (\<lambda>s. isl q \<and> on_act (same_act a0) (\<lambda>w. snapshot w = Some d0) s) (F q) R"
      by (rule hoare_assume [where A = "isl q"]) (use failed in \<open>auto simp: isl_def\<close>)
    then show "hoare (on_act (same_act a0) (\<lambda>w. isl q \<and> snapshot w = Some d0)) (F q) R"
      by (rule hoare_pre) (auto simp: on_act_def)
  qed
qed

text \<open>Reading the activation: its fixed fields are those of \<open>a0\<close>.\<close>

lemmas act_with_core = act_peek [where A = "same_act a0" for a0]

lemma act_rollback_return:
  assumes "hoare (on_act A (untouched d0)) m (\<lambda>_. on_act A (untouched d0))" "\<And>e. P (g e)"
  shows "hoare (on_act A (\<lambda>w. snapshot w = Some d0)) (do { rollback_now; e \<leftarrow> m; State_Monad.return (g e) })
    (\<lambda>r. on_act A (\<lambda>w. P r \<and> untouched d0 w))"
  using assms
  by (intro hoare_bind [OF act_rollback [where W' = "untouched d0"]] hoare_bind [OF assms(1)] hoare_return)
    (auto simp: on_act_def dest: restore_untouched)

lemma fencedTx_superseded:
  assumes lost: "superseded a0 d0"
  shows "hoare (on_act (same_act a0) (untouched d0)) fencedTx
     (\<lambda>r. on_act (same_act a0) (\<lambda>w. r \<noteq> None \<and> untouched d0 w))"
  unfolding fencedTx_def
  by (intro act_transaction act_with_core act_select_superseded)
    (auto simp: lost infrastructureFailure_def on_act_def
      intro!: act_rollback_return act_stopWith hoare_bind [OF act_stopWith] hoare_return)

section \<open>Locking runs inside a transaction\<close>

text \<open>A run that is not there is the only reason for \<open>ErrRunNotFound\<close>.\<close>

lemma lockRun_tx:
  "hoare (opened d0 n0 Q) (lockRun i) (\<lambda>r w. case r of
     Inl e \<Rightarrow> if errors_is e ErrRunNotFound then opened d0 n0 Q w else aborted d0 w
   | Inr s \<Rightarrow> opened d0 n0 (\<lambda>d. Q d \<and> (\<exists>r \<in> set (runs d). r_id r = i \<and> s = (r_status r, r_job_id r))) w)"
  (is "hoare _ _ ?post")
  unfolding lockRun_def
proof (rule hoare_attempt)
  let ?R = "\<lambda>s d. Q d \<and> (\<exists>r \<in> set (runs d). r_id r = i \<and> s = (r_status r, r_job_id r))"
  let ?h = "\<lambda>e. Inl (if errors_is e SqlErrNoRows then Wrapf [] (Sentinel ErrRunNotFound) ('': '' @ i)
        else wrap ''workflow: lock run: '' e)"
  show "hoare (opened d0 n0 Q) (query_row (select_run (\<lambda>r. r_id r = i) (\<lambda>r. (r_status r, r_job_id r))))
     (\<lambda>r s. case r of Inl e \<Rightarrow> ?post (?h e) s | Inr a \<Rightarrow> opened d0 n0 (?R a) s)"
    by (rule hoare_post [OF query_row_tx [where R = ?R and N = Q]])
      (auto simp: select_run_def opened_def dest: find_SomeD split: sum.splits)
qed (auto intro: hoare_return)

lemma hoare_lockRun:
  assumes "\<And>e. errors_is e ErrRunNotFound \<Longrightarrow> hoare (opened d0 n0 Q) (F e) P"
    and "\<And>e. \<not> errors_is e ErrRunNotFound \<Longrightarrow> hoare (aborted d0) (F e) P"
    and "\<And>st j. hoare (opened d0 n0 (\<lambda>d. Q d \<and> (\<exists>r \<in> set (runs d). r_id r = i \<and> r_status r = st \<and> r_job_id r = j))) (G (st, j)) P"
  shows "hoare (opened d0 n0 Q) (do { r \<leftarrow> lockRun i; (case r of Inl e \<Rightarrow> F e | Inr s \<Rightarrow> G s) }) P"
proof (rule hoare_bind [OF lockRun_tx])
  fix r :: "(run_status \<times> int option) result"
  show "hoare (\<lambda>w. case r of Inl e \<Rightarrow> if errors_is e ErrRunNotFound then opened d0 n0 Q w else aborted d0 w
      | Inr s \<Rightarrow> opened d0 n0 (\<lambda>d. Q d \<and> (\<exists>r \<in> set (runs d). r_id r = i \<and> s = (r_status r, r_job_id r))) w)
     (case r of Inl e \<Rightarrow> F e | Inr s \<Rightarrow> G s) P"
  proof (cases r)
    case (Inl e)
    with assms(1,2) [of e] show ?thesis by (cases "errors_is e ErrRunNotFound") simp_all
  next
    case (Inr s)
    obtain st j where "s = (st, j)" by (cases s)
    with Inr show ?thesis by (auto intro!: hoare_pre [OF assms(3)] elim!: opened_mono)
  qed
qed

lemma wakeParentTx_tx:
  assumes "ignores_jobs Q"
  shows "hoare (opened d0 n0 Q) (wakeParentTx c p) (replies d0 n0 (\<lambda>_. Q))"
proof -
  have narrow: "hoare (opened d0 n0 Q) m R \<Longrightarrow> hoare (opened d0 n0 (\<lambda>d. Q d \<and> Q' d)) m R" for m :: "unit result io" and R Q'
    by (erule hoare_pre) (auto elim: opened_mono)
  show ?thesis unfolding wakeParentTx_def lockRunToNotifyTx_def
    by (intro hoare_lockRun hoare_return)
      (auto simp: aborted_def split: option.split intro!: hoare_return narrow [OF WakeTx_tx [OF assms]] elim: opened_mono)
qed

section \<open>Fenced transactions\<close>

text \<open>Properties of an activation that stopping does not change.\<close>

definition ignores_stop :: "(activation \<Rightarrow> bool) \<Rightarrow> bool" where
  "ignores_stop A \<longleftrightarrow> (\<forall>a x e. A a \<longrightarrow> A (a\<lparr>a_stop := x, a_stopErr := e\<rparr>))"

lemma recordStop_keeps: "ignores_stop A \<Longrightarrow> hoare (on_act A W) (recordStop x e) (\<lambda>_. on_act A W)"
  unfolding recordStop_def by (rule act_upd) (simp add: ignores_stop_def)

lemma stopWith_keeps: "ignores_stop A \<Longrightarrow> hoare (on_act A W) (stopWith x e) (\<lambda>_. on_act A W)"
  unfolding stopWith_def
  by (rule hoare_bind [OF recordStop_keeps], assumption, rule hoare_bind [OF act_stopState])
    (auto intro: hoare_return split: prod.split)

text \<open>The run is running under the lease of the activation.\<close>

definition owns :: "activation \<Rightarrow> database \<Rightarrow> bool" where
  "owns a d \<longleftrightarrow> (\<exists>r \<in> set (runs d). owned_by a r \<and> r_status r = RunRunning)"

text \<open>An open transaction is begun by an owner and has not changed anything yet.\<close>

lemma stop_untouched:
  assumes "hoare (on_act A (untouched d0)) m (\<lambda>_. on_act A (untouched d0))"
    and "\<And>s. P s \<Longrightarrow> on_act A (\<lambda>w. snapshot w = Some d0) s"
  shows "hoare P (do { rollback_now; e' \<leftarrow> m; State_Monad.return (Some e') })
    (\<lambda>r. on_act (\<lambda>a. A a \<and> (r = None \<longrightarrow> B a)) (\<lambda>w. case r of None \<Rightarrow> W w | Some _ \<Rightarrow> untouched d0 w))"
proof (rule hoare_pre)
  show "hoare (on_act A (\<lambda>w. snapshot w = Some d0)) (do { rollback_now; e' \<leftarrow> m; State_Monad.return (Some e') })
    (\<lambda>r. on_act (\<lambda>a. A a \<and> (r = None \<longrightarrow> B a)) (\<lambda>w. case r of None \<Rightarrow> W w | Some _ \<Rightarrow> untouched d0 w))"
    by (intro hoare_bind [OF act_rollback [where W' = "untouched d0"]] hoare_bind [OF assms(1)] hoare_return)
      (auto simp: on_act_def dest: restore_untouched)
qed (rule assms(2))

lemma select_owned:
  "hoare (opened d0 n0 (\<lambda>d. d = d0)) (query_row (select_run (owned_by a) r_status)) (\<lambda>r w. snapshot w = Some d0
     \<and> (\<forall>st. r = Inr st \<longrightarrow> opened d0 n0 (\<lambda>d. d = d0) w \<and> (\<exists>q \<in> set (runs d0). owned_by a q \<and> r_status q = st)))"
  by (rule hoare_post [OF query_row_tx [where N = "\<lambda>_. True"
      and R = "\<lambda>st d. d = d0 \<and> (\<exists>q \<in> set (runs d0). owned_by a q \<and> r_status q = st)"]])
    (auto simp: select_run_def opened_def aborted_def dest: find_SomeD split: sum.splits)

lemma fencedTx_rule:
  assumes A: "ignores_stop A"
  shows "hoare (on_act A (untouched d0)) fencedTx (\<lambda>r. on_act (\<lambda>a. A a \<and> (r = None \<longrightarrow> owns a d0))
     (\<lambda>w. case r of None \<Rightarrow> \<exists>n0. opened d0 n0 (\<lambda>d. d = d0) w | Some _ \<Rightarrow> untouched d0 w))"
  unfolding fencedTx_def infrastructureFailure_def
  by (intro act_transaction hoare_bind [OF act_get] hoare_bind [OF act_in_world [OF select_owned]] hoare_case_sum
      hoare_if stop_untouched hoare_bind [OF stopWith_keeps [OF A]] stopWith_keeps [OF A] hoare_return)
    (auto simp: on_act_def owns_def)

lemma act_case_replies:
  assumes "\<And>e. hoare (on_act A (\<lambda>w. snapshot w = Some d0)) (F e) Q"
    and "\<And>x. hoare (on_act A (opened d0 n0 (R x))) (G x) Q"
  shows "hoare (on_act A (replies d0 n0 R r)) (case r of Inl e \<Rightarrow> F e | Inr x \<Rightarrow> G x) Q"
  using assms by (cases r) simp_all

lemma act_commit:
  assumes "\<And>e. hoare (on_act A (closed d0 Q)) (F e) P" "\<And>u. hoare (on_act A (committed Q)) (G u) P"
  shows "hoare (on_act A (opened d0 n0 Q)) (do { k \<leftarrow> in_world commit_tx; (case k of Inl e \<Rightarrow> F e | Inr u \<Rightarrow> G u) }) P"
proof (rule hoare_bind [OF act_in_world [OF commit_tx_rule]])
  fix k :: "unit result"
  show "hoare (on_act A (\<lambda>w. case k of Inl _ \<Rightarrow> closed d0 Q w | Inr _ \<Rightarrow> committed Q w))
     (case k of Inl e \<Rightarrow> F e | Inr u \<Rightarrow> G u) P"
    using assms by (cases k) simp_all
qed

lemma act_ex: "(\<And>x. hoare (on_act A (W x)) m Q) \<Longrightarrow> hoare (on_act A (\<lambda>w. \<exists>x. W x w)) m Q"
  by (fastforce simp: hoare_def on_act_def)

lemma stop_return_in:
  assumes "ignores_stop A" "\<And>e s. on_act A W s \<Longrightarrow> Q (g e) s"
  shows "hoare (on_act A W) (do { e' \<leftarrow> stopWith x e; State_Monad.return (g e') }) Q"
  using assms by (intro hoare_bind [OF stopWith_keeps] hoare_return)

text \<open>
  The contract of \<open>checkpointWrite\<close>: its body runs only for an owner, in a transaction that began with
  the tables \<open>d0\<close>; a success is committed, and after an error the tables are \<open>d0\<close> or, when the reply
  to the commit was lost, what the body made of them.
\<close>

definition written :: "database \<Rightarrow> ('v \<Rightarrow> database \<Rightarrow> bool) \<Rightarrow> 'v result \<Rightarrow> world \<Rightarrow> bool" where
  "written d0 R r w = (case r of Inl _ \<Rightarrow> closed d0 (\<lambda>d. \<exists>v. R v d) w | Inr v \<Rightarrow> committed (R v) w)"

lemma act_deferring_written:
  assumes "hoare P m (\<lambda>r. on_act A (\<lambda>w. case r of Inl _ \<Rightarrow> ending d0 (\<lambda>d. \<exists>v. R v d) w | Inr v \<Rightarrow> committed (R v) w))"
  shows "hoare P (act_deferring_rollback m) (\<lambda>r. on_act A (written d0 R r))"
  unfolding act_deferring_rollback_def
proof (rule hoare_bind [OF assms])
  fix r
  have "hoare (\<lambda>w. case r of Inl _ \<Rightarrow> ending d0 (\<lambda>d. \<exists>v. R v d) w | Inr v \<Rightarrow> committed (R v) w)
     (State_Monad.update restore) (\<lambda>_. written d0 R r)"
    by (rule hoare_update)
      (auto simp: written_def committed_def intro: ending_restore split: sum.splits)
  then show "hoare (on_act A (\<lambda>w. case r of Inl _ \<Rightarrow> ending d0 (\<lambda>d. \<exists>v. R v d) w | Inr v \<Rightarrow> committed (R v) w))
     (do { in_world (State_Monad.update restore); State_Monad.return r }) (\<lambda>r. on_act A (written d0 R r))"
    by (intro hoare_bind [OF act_in_world] hoare_return)
qed

lemma act_case_written:
  assumes "\<And>e. hoare (on_act A (closed d0 (\<lambda>d. \<exists>v. R v d))) (F e) Q" "\<And>v. hoare (on_act A (committed (R v))) (G v) Q"
  shows "hoare (on_act A (written d0 R r)) (case r of Inl e \<Rightarrow> F e | Inr v \<Rightarrow> G v) Q"
proof (cases r)
  case (Inl e)
  then have "written d0 R r = closed d0 (\<lambda>d. \<exists>v. R v d)" by (simp add: written_def fun_eq_iff)
  with assms(1) Inl show ?thesis by simp
next
  case (Inr v)
  then have "written d0 R r = committed (R v)" by (simp add: written_def fun_eq_iff)
  with assms(2) Inr show ?thesis by simp
qed

lemma act_remember:
  "(\<And>a m. A a \<Longrightarrow> A (a\<lparr>a_checkpoints := m\<rparr>)) \<Longrightarrow> hoare (on_act A W) (remember key cp) (\<lambda>_. on_act A W)"
  unfolding remember_def by (rule act_upd)

lemma act_fenced:
  assumes A: "ignores_stop A"
    and "\<And>e. hoare (on_act A (untouched d0)) (F e) Q"
    and "\<And>n0. hoare (on_act (\<lambda>a. A a \<and> owns a d0) (opened d0 n0 (\<lambda>d. d = d0))) G Q"
  shows "hoare (on_act A (untouched d0)) (do { f \<leftarrow> fencedTx; (case f of Some e \<Rightarrow> F e | None \<Rightarrow> G) }) Q"
proof (rule hoare_bind [OF fencedTx_rule [OF A]])
  fix f
  show "hoare (on_act (\<lambda>a. A a \<and> (f = None \<longrightarrow> owns a d0))
     (\<lambda>w. case f of None \<Rightarrow> \<exists>n0. opened d0 n0 (\<lambda>d. d = d0) w | Some _ \<Rightarrow> untouched d0 w))
     (case f of Some e \<Rightarrow> F e | None \<Rightarrow> G) Q"
    using assms(2,3) by (cases f) (auto intro: act_ex)
qed

lemma checkpointWrite_rule:
  assumes A: "ignores_stop A"
    and body: "\<And>n0. hoare (on_act (\<lambda>a. A a \<and> owns a d0) (opened d0 n0 (\<lambda>d. d = d0))) write
      (\<lambda>r. on_act A (replies d0 n0 R r))"
  shows "hoare (on_act A (untouched d0)) (checkpointWrite write) (\<lambda>r. on_act A (written d0 R r))"
  unfolding checkpointWrite_def infrastructureFailure_def
  by (intro act_fenced [OF A] act_deferring_written hoare_bind [OF body] act_case_replies act_commit
      stop_return_in [OF A] hoare_return)
    (auto simp: on_act_def written_def closed_def ending_def)

section \<open>A superseded activation\<close>

lemma checkpointWrite_superseded:
  assumes lost: "superseded a0 d0"
  shows "hoare (on_act (same_act a0) (untouched d0)) (checkpointWrite write)
     (\<lambda>r. on_act (same_act a0) (\<lambda>w. isl r \<and> untouched d0 w))"
  unfolding checkpointWrite_def
proof (rule hoare_bind [OF fencedTx_superseded [OF lost]])
  fix r
  show "hoare (on_act (same_act a0) (\<lambda>w. r \<noteq> None \<and> untouched d0 w))
     (case r of Some e \<Rightarrow> State_Monad.return (Inl e)
      | None \<Rightarrow> act_deferring_rollback (do {
          r \<leftarrow> write;
          (case r of
             Inl e \<Rightarrow> do { e' \<leftarrow> infrastructureFailure e; State_Monad.return (Inl e') }
           | Inr v \<Rightarrow> do {
               k \<leftarrow> in_world commit_tx;
               (case k of
                  Inl e \<Rightarrow> do { e' \<leftarrow> infrastructureFailure (wrap ''workflow: commit checkpoint: '' e);
                               State_Monad.return (Inl e') }
                | Inr _ \<Rightarrow> State_Monad.return (Inr v)) }) }))
     (\<lambda>r. on_act (same_act a0) (\<lambda>w. isl r \<and> untouched d0 w))"
    by (cases r) (auto simp: on_act_def hoare_def)
qed

text \<open>What the deferred rollback leaves of a transaction that never committed.\<close>

abbreviation undone :: "database \<Rightarrow> world \<Rightarrow> bool" where
  "undone d0 w \<equiv> snapshot w = Some d0 \<or> untouched d0 w"

lemma act_deferring_undone:
  assumes "hoare P m (\<lambda>r. on_act A (\<lambda>w. G r \<and> undone d0 w))"
  shows "hoare P (act_deferring_rollback m) (\<lambda>r. on_act A (\<lambda>w. G r \<and> untouched d0 w))"
  unfolding act_deferring_rollback_def
proof (rule hoare_bind [OF assms])
  fix r
  have "hoare (\<lambda>w. G r \<and> undone d0 w) (State_Monad.update restore) (\<lambda>_ w. G r \<and> untouched d0 w)"
    by (rule hoare_update) (auto simp: restore_untouched)
  then show "hoare (on_act A (\<lambda>w. G r \<and> undone d0 w))
     (do { in_world (State_Monad.update restore); State_Monad.return r })
     (\<lambda>r. on_act A (\<lambda>w. G r \<and> untouched d0 w))"
    by (intro hoare_bind [OF act_in_world] hoare_return)
qed

lemma park_superseded:
  assumes lost: "superseded a0 d0"
  shows "hoare (on_act (same_act a0) (untouched d0)) (park replay)
     (\<lambda>r. on_act (same_act a0) (\<lambda>w. r \<noteq> Inr False \<and> untouched d0 w))"
  unfolding park_def
  by (intro act_transaction act_deferring_undone act_with_core act_select_superseded)
    (auto simp: lost on_act_def intro!: hoare_bind [OF act_recordStop] hoare_return)

lemma release_superseded:
  assumes lost: "superseded a0 d0"
  shows "hoare (on_act (same_act a0) (untouched d0)) release
     (\<lambda>r. on_act (same_act a0) (\<lambda>w. r = Handled \<and> untouched d0 w))"
  unfolding release_def
  by (intro act_with_core act_transaction act_deferring_undone act_select_superseded)
    (auto simp: lost on_act_def intro!: hoare_return)

lemma superseded_ignores_jobs: "ignores_jobs (superseded a0)"
  by (simp add: ignores_jobs_def superseded_def)

lemma wake_parent_tx:
  assumes "ignores_jobs Q"
  shows "hoare (on_act A (opened d0 n0 Q))
     (if b then in_world (wakeParentTx c p) else State_Monad.return (Inr ()))
     (\<lambda>r. on_act A (replies d0 n0 (\<lambda>_. Q) r))"
  by (auto intro!: act_in_world wakeParentTx_tx assms hoare_return simp: on_act_def)

lemma act_wake_parent:
  assumes "ignores_jobs Q" "Q d0"
    and "\<And>r. hoare (on_act A (replies d0 n0 (\<lambda>_. Q) r)) (F r) R"
  shows "hoare (on_act A (opened d0 n0 (\<lambda>d. d = d0)))
     (do { p \<leftarrow> (if b then in_world (wakeParentTx c p) else State_Monad.return (Inr ())); F p }) R"
proof (rule hoare_bind [OF _ assms(3)])
  show "hoare (on_act A (opened d0 n0 (\<lambda>d. d = d0)))
     (if b then in_world (wakeParentTx c p) else State_Monad.return (Inr ()))
     (\<lambda>r. on_act A (replies d0 n0 (\<lambda>_. Q) r))"
    by (rule hoare_pre [OF wake_parent_tx [OF assms(1)]]) (auto simp: on_act_def assms(2) elim: opened_mono)
qed

lemma finish_superseded:
  assumes lost: "superseded a0 d0"
  shows "hoare (on_act (same_act a0) (untouched d0)) (finish upd afterCommit)
     (\<lambda>r. on_act (same_act a0) (\<lambda>w. True \<and> untouched d0 w))"
  unfolding finish_def
  by (intro act_with_core act_transaction act_deferring_undone act_case_replies act_select_superseded
      act_wake_parent [OF superseded_ignores_jobs [of a0] lost])
    (auto simp: on_act_def intro!: hoare_return)

lemma transactional_superseded:
  assumes lost: "superseded a0 d0"
  shows "hoare (on_act (same_act a0) (untouched d0)) (runTransactionalAttempt cv key fn)
     (\<lambda>r. on_act (same_act a0) (\<lambda>w. (\<exists>e. r = Stop e) \<and> untouched d0 w))"
  unfolding runTransactionalAttempt_def
  by (rule hoare_bind [OF fencedTx_superseded [OF lost]])
    (auto simp: on_act_def hoare_def split: option.split)

text \<open>From a triple to the run itself.\<close>

lemma superseded_run:
  assumes "hoare (on_act (same_act a) (untouched (db w))) m (\<lambda>r. on_act (same_act a) (\<lambda>w'. G r \<and> untouched (db w) w'))"
    and "snapshot w = None"
  shows "case run_state m (a, w) of (r, _, w') \<Rightarrow> G r \<and> untouched (db w) w'"
  using hoareD [OF assms(1), of "(a, w)"] assms(2) by (auto simp: on_act_def split: prod.split)

section \<open>The fence and the end of an activation\<close>

definition sample_wf_client :: wf_client where
  "sample_wf_client = \<lparr>wc_queue = Some sample_client, wc_quote = id\<rparr>"

definition sample_def :: wf_definition where
  "sample_def = \<lparr>d_name = ''order'', d_version = 1,
     d_retry = \<lparr>rt_MaxAttempts = 3, rt_Backoff = 1000000000, rt_MaxBackoff = 60000000000\<rparr>\<rparr>"

definition sample_run :: run where
  "sample_run = (new_run ''r1'' sample_def ''{}'' \<lparr>st_key = [], st_timeout = 0\<rparr> [] [] 5)
     \<lparr>r_status := RunRunning, r_lease := 2, r_job_id := Some 1\<rparr>"

definition sample_wf_config :: wf_worker_config where
  "sample_wf_config = \<lparr>wf_Concurrency = 1, wf_VisibilityTimeout = 30000000000, wf_ReapInterval = 0,
     OnRunFailed = None\<rparr>"

text \<open>The activation with lease 1 of a run that has lease 2 by now.\<close>

definition stale_activation :: activation where
  "stale_activation = new_activation sample_wf_client sample_def sample_wf_config
     (new_job 1 0 ''q'' ''{}'' 5 None None) ''r1'' (sample_run\<lparr>r_lease := 1\<rparr>) None []"

definition wf_world :: world where
  "wf_world = initial_world\<lparr>db := empty_database\<lparr>runs := [sample_run]\<rparr>\<rparr>"

text \<open>
  C4. The lease fence. An activation whose run has another lease by now (another worker took the run
  over) can write nothing any more, whatever calls fail: a checkpoint write fails without running its
  body's effects, a transactional step does not run its function, and parking, releasing and finishing
  with whatever final status leave all tables as they are.
\<close>

theorem superseded_activation_inert:
  assumes "snapshot w = None" "superseded a (db w)"
  shows "(case run_state (checkpointWrite write) (a, w) of (r, _, w') \<Rightarrow> isl r \<and> untouched (db w) w')
     \<and> (case run_state (runTransactionalAttempt cv key fn) (a, w) of
          (r, _, w') \<Rightarrow> (\<exists>e. r = Stop e) \<and> untouched (db w) w')
     \<and> (case run_state (park replay) (a, w) of (r, _, w') \<Rightarrow> r \<noteq> Inr False \<and> untouched (db w) w')
     \<and> (case run_state release (a, w) of (r, _, w') \<Rightarrow> r = Handled \<and> untouched (db w) w')
     \<and> (case run_state (finish upd afterCommit) (a, w) of (_, _, w') \<Rightarrow> untouched (db w) w')"
  by (intro conjI superseded_run [OF checkpointWrite_superseded [OF assms(2)] assms(1)]
      superseded_run [OF transactional_superseded [OF assms(2)] assms(1)]
      superseded_run [OF park_superseded [OF assms(2)] assms(1)]
      superseded_run [OF release_superseded [OF assms(2)] assms(1)]
      superseded_run [OF finish_superseded [OF assms(2)] assms(1), simplified])

theorem superseded_activation_inert_witness:
  "superseded stale_activation (db wf_world)
   \<and> (case run_state (finish (exec (update_runs (\<lambda>r. r_id r = ''r1'') (succeed_row ''1'')) (\<lambda>e. e)
        (State_Monad.return (Inr ()))) (State_Monad.return ())) (stale_activation, wf_world) of
       (_, _, w') \<Rightarrow> runs (db w') = [sample_run])"
proof -
  have lost: "superseded stale_activation (db wf_world)" "snapshot wf_world = None"
    by (simp_all add: superseded_def stale_activation_def wf_world_def owned_by_def new_activation_def sample_run_def
      initial_world_def)
  have "runs (db wf_world) = [sample_run]" by (simp add: wf_world_def)
  moreover let ?upd = "exec (update_runs (\<lambda>r. r_id r = ''r1'') (succeed_row ''1'')) (\<lambda>e. e) (State_Monad.return (Inr ()))"
  have "case run_state (finish ?upd (State_Monad.return ())) (stale_activation, wf_world) of
      (_, _, w') \<Rightarrow> untouched (db wf_world) w'"
    by (rule superseded_activation_inert [OF lost(2,1), THEN conjunct2, THEN conjunct2, THEN conjunct2, THEN conjunct2])
  ultimately show ?thesis using lost by (auto split: prod.splits)
qed

text \<open>Only before the last replay does \<open>park\<close> ask for another execution.\<close>

lemma yields_in_world: "yields m G \<Longrightarrow> yields (in_world m) G"
  by (auto simp: hoare_def run_simps split: prod.splits)

lemma yields_deferring: "yields m G \<Longrightarrow> yields (act_deferring_rollback m) G"
  unfolding act_deferring_rollback_def by (erule yields_bind_strong) (intro yields_bind yields_return)

lemma park_now_True: "yields (park_now a t) (\<lambda>r. r \<noteq> Inr False)"
  unfolding park_now_def by (intro hoare_rules) simp_all

lemma park_locked_again: "yields (park_locked replay status) (\<lambda>r. r = Inr False \<longrightarrow> replay < maxReplays)"
  unfolding park_locked_def
  by (intro yields_bind yields_return hoare_if)
    (auto split: sum.split option.split bool.split intro!: hoare_if yields_bind yields_return
      hoare_post [OF yields_in_world [OF park_now_True]])

lemma park_again: "yields (park replay) (\<lambda>r. r = Inr False \<longrightarrow> replay < maxReplays)"
  unfolding park_def
  by (intro yields_bind)
    (auto split: sum.split intro!: hoare_if yields_bind yields_return yields_deferring park_locked_again)

lemma settle_round_again: "yields (settle_round replay result) (\<lambda>r. r = None \<longrightarrow> replay < maxReplays)"
  unfolding settle_round_def
  by (intro yields_bind)
    (auto split: sum.split stop_reason.split prod.split bool.split
      intro!: yields_bind yields_return yields_bind_strong [OF park_again])

lemma execute_loop_returns:
  "maxReplays < fuel + replay \<Longrightarrow> yields (execute_loop fuel fn replay) (\<lambda>r. r \<noteq> None \<or> maxReplays < replay)"
proof (induction fuel arbitrary: replay)
  case 0
  then show ?case by (auto intro: yields_return)
next
  case (Suc fuel)
  then show ?case
    by (auto intro!: yields_bind yields_return yields_bind_strong [OF settle_round_again] split: option.split)
      (rule hoare_post [OF Suc.IH], auto)
qed

text \<open>
  C14. Executing an activation ends: whatever the workflow function does, however often the run
  suspends and whatever calls fail, \<open>execute\<close> answers within \<open>maxReplays + 1\<close> rounds, because the round
  that exhausts the replays parks the run even if a wake condition is met.
\<close>

theorem execute_returns: "\<exists>e s'. run_state (execute fn interrupt) s = (Some e, s')"
proof -
  have "yields (execute fn interrupt) (\<lambda>r. r \<noteq> None)"
    unfolding execute_def
    by (intro yields_bind hoare_if yields_return hoare_post [OF execute_loop_returns]) simp_all
  then show ?thesis by (cases "run_state (execute fn interrupt) s") (auto dest: yields_run)
qed

end
