(* ===== verification/Workflow_Replay.thy ===== *)
theory Workflow_Replay
  imports Workflow_Fence
begin

text \<open>
  Why replaying a workflow function is sound: the keys of its steps are unique and the same in every
  execution, and a step that returned a value returns it again without running. The step loop ends
  within the attempts of its retry policy.
\<close>

section \<open>Step keys\<close>

definition key_of :: "string \<Rightarrow> nat \<Rightarrow> string" where
  "key_of name n = (if 1 < n then name @ ''#'' @ dec_nat n else name)"

fun keys_from :: "(string \<Rightarrow> nat) \<Rightarrow> string list \<Rightarrow> string list" where
  "keys_from seen [] = []"
| "keys_from seen (nm # nms) = key_of nm (seen nm + 1) # keys_from (seen(nm := seen nm + 1)) nms"

text \<open>The durable calls of a function in the order it makes them, reduced to their keys.\<close>

fun call_keys :: "string list \<Rightarrow> string result list act" where
  "call_keys [] = State_Monad.return []"
| "call_keys (nm # nms) = do { k \<leftarrow> stepKey nm; ks \<leftarrow> call_keys nms; State_Monad.return (k # ks) }"

lemma run_stepKey [run_simps]:
  "run_state (stepKey name) (a, w) =
     (if validName name then (Inr (key_of name (a_occurrences a name + 1)),
        (a\<lparr>a_occurrences := (a_occurrences a)(name := a_occurrences a name + 1)\<rparr>, w))
      else (Inl (Wrapf [] (Sentinel ErrInvalidName) ('': '' @ wc_quote (a_client a) name)), (a, w)))"
  by (simp add: stepKey_def run_simps key_of_def Let_def)

lemma run_call_keys:
  "list_all validName nms \<Longrightarrow> \<exists>seen. run_state (call_keys nms) (a, w) =
     (map Inr (keys_from (a_occurrences a) nms), (a\<lparr>a_occurrences := seen\<rparr>, w))"
proof (induction nms arbitrary: a)
  case Nil
  show ?case by (auto intro: exI [of _ "a_occurrences a"])
next
  case (Cons nm nms)
  let ?b = "a\<lparr>a_occurrences := (a_occurrences a)(nm := a_occurrences a nm + 1)\<rparr>"
  from Cons obtain seen where "run_state (call_keys nms) (?b, w) =
     (map Inr (keys_from (a_occurrences ?b) nms), (?b\<lparr>a_occurrences := seen\<rparr>, w))" by fastforce
  with Cons.prems show ?case by (auto simp: run_simps)
qed

lemma length_keys_from [simp]: "length (keys_from seen nms) = length nms"
  by (induction nms arbitrary: seen) simp_all

lemma keys_from_nth:
  "i < length nms \<Longrightarrow> keys_from seen nms ! i = key_of (nms ! i) (seen (nms ! i) + count_list (take i nms) (nms ! i) + 1)"
proof (induction nms arbitrary: seen i)
  case (Cons nm nms)
  then show ?case by (cases i) auto
qed simp

lemma validName_hash: "validName name \<Longrightarrow> CHR ''#'' \<notin> set name"
  by (simp add: validName_def contains_char)

lemma key_of_name: "validName name \<Longrightarrow> takeWhile (\<lambda>c. c \<noteq> CHR ''#'') (key_of name n) = name"
proof -
  assume "validName name"
  then have "CHR ''#'' \<notin> set name" by (rule validName_hash)
  then have "takeWhile (\<lambda>c. c \<noteq> CHR ''#'') (name @ s) = name @ takeWhile (\<lambda>c. c \<noteq> CHR ''#'') s" for s
    by (intro takeWhile_append2) auto
  from this [of "[]"] this [of "''#'' @ dec_nat n"] show ?thesis by (simp add: key_of_def)
qed

lemma key_of_inject:
  assumes "validName a" "validName b" "key_of a m = key_of b n" "0 < m" "0 < n"
  shows "a = b \<and> m = n"
proof -
  have "a = b" using key_of_name [OF assms(1)] key_of_name [OF assms(2)] assms(3) by metis
  with assms(3-5) show ?thesis by (auto simp: key_of_def dest: dec_nat_inj split: if_splits)
qed

lemma count_take_less:
  assumes "i < j" "j \<le> length xs"
  shows "count_list (take i xs) (xs ! i) < count_list (take j xs) (xs ! i)"
proof -
  have "take (Suc i) xs = take i xs @ [xs ! i]" using assms by (simp add: take_Suc_conv_app_nth)
  moreover obtain k where "j = Suc i + k" using assms(1) less_imp_Suc_add by auto
  then have "take j xs = take (Suc i) xs @ take k (drop (Suc i) xs)" by (simp only: take_add)
  ultimately show ?thesis by simp
qed

lemma keys_from_distinct:
  assumes "list_all validName nms"
  shows "distinct (keys_from (\<lambda>_. 0) nms)"
proof -
  have "keys_from (\<lambda>_. 0) nms ! i \<noteq> keys_from (\<lambda>_. 0) nms ! j" if "i < j" "j < length nms" for i j
  proof
    assume "keys_from (\<lambda>_. 0) nms ! i = keys_from (\<lambda>_. 0) nms ! j"
    then have "key_of (nms ! i) (count_list (take i nms) (nms ! i) + 1) =
        key_of (nms ! j) (count_list (take j nms) (nms ! j) + 1)" using that by (simp add: keys_from_nth)
    then have "nms ! i = nms ! j" "count_list (take i nms) (nms ! i) = count_list (take j nms) (nms ! j)"
      using key_of_inject [of "nms ! i" "nms ! j"] assms that by (auto simp: list_all_length)
    with count_take_less [of i j nms] that show False by simp
  qed
  then show ?thesis by (fastforce simp: distinct_conv_nth nat_neq_iff)
qed

text \<open>
  C16. The keys that identify steps in the database. In whatever order a function makes its durable
  calls, the keys they get are pairwise different, even with repeated names; the key of a call depends
  only on its name and on how many calls with that name came before it, so calls with other names may
  be added or removed; and a replay of the same calls after \<open>resetForReplay\<close> gets the same keys.
\<close>

theorem step_keys_unique_and_stable:
  assumes "list_all validName nms" "a_occurrences a = (\<lambda>_. 0)"
  shows "\<exists>ks a'. run_state (call_keys nms) (a, w) = (map Inr ks, (a', w)) \<and> distinct ks
     \<and> length ks = length nms
     \<and> (\<forall>i < length nms. ks ! i = key_of (nms ! i) (count_list (take i nms) (nms ! i) + 1))
     \<and> fst (run_state (do { resetForReplay; call_keys nms }) (a', w)) = map Inr ks"
proof -
  obtain seen where "run_state (call_keys nms) (a, w) =
     (map Inr (keys_from (\<lambda>_. 0) nms), (a\<lparr>a_occurrences := seen\<rparr>, w))"
    using run_call_keys [OF assms(1), of a w] assms(2) by auto
  moreover let ?r = "a\<lparr>a_occurrences := (\<lambda>_. 0), a_conditions := [], a_stop := Running\<rparr>"
  obtain seen' where "run_state (call_keys nms) (?r, w) =
     (map Inr (keys_from (\<lambda>_. 0) nms), (?r\<lparr>a_occurrences := seen'\<rparr>, w))"
    using run_call_keys [OF assms(1), of ?r w] by auto
  ultimately show ?thesis
    by (intro exI [of _ "keys_from (\<lambda>_. 0) nms"] exI [of _ "a\<lparr>a_occurrences := seen\<rparr>"])
      (simp add: keys_from_distinct [OF assms(1)] keys_from_nth resetForReplay_def run_simps)
qed

theorem step_keys_unique_and_stable_witness:
  "a_occurrences stale_activation = (\<lambda>_. 0) \<and> (\<exists>ks a'. run_state (call_keys [''pay'', ''mail'', ''pay''])
     (stale_activation, wf_world) = (map Inr ks, (a', wf_world)) \<and> distinct ks \<and> ks ! 2 = ''pay#2'')"
proof -
  have z: "a_occurrences stale_activation = (\<lambda>_. 0)" by (simp add: stale_activation_def new_activation_def)
  have v: "list_all validName [''pay'', ''mail'', ''pay'']" by (simp add: validName_def trim_space_def trim_left_def is_space_def)
  have d: "dec_nat (Suc (Suc 0)) = ''2''" by (simp add: dec_nat.simps digit_def, code_simp)
  show ?thesis using step_keys_unique_and_stable [OF v z, of wf_world] z
    by (auto simp: key_of_def d)
qed

section \<open>Recorded results\<close>

abbreviation some_world :: "world \<Rightarrow> bool" where
  "some_world \<equiv> \<lambda>_. True"

lemma in_world_keeps: "hoare (on_act A some_world) (in_world m) (\<lambda>_. on_act A some_world)"
  by (rule act_in_world) (simp add: hoare_def split: prod.split)

lemma get_act_keeps: "hoare (on_act A some_world) get_act (\<lambda>_. on_act A some_world)"
  by (rule hoare_post [OF act_get]) (simp add: on_act_def)

lemma fencedTx_keeps:
  assumes "ignores_stop A"
  shows "hoare (on_act A some_world) fencedTx (\<lambda>_. on_act A some_world)"
  unfolding fencedTx_def rollback_now_def infrastructureFailure_def
  using assms
  by (intro keeps_bind keeps_case_sum keeps_if in_world_keeps get_act_keeps stopWith_keeps) (auto intro: hoare_return)

text \<open>A step whose checkpoint in memory is a success that decodes to \<open>v\<close>.\<close>

definition settled_step :: "'v codec \<Rightarrow> string \<Rightarrow> 'v \<Rightarrow> activation \<Rightarrow> bool" where
  "settled_step cv key v a \<longleftrightarrow> (\<exists>cp. a_checkpoints a key = Some cp \<and> cp_kind cp = KindStep
     \<and> cp_status cp = StepSucceeded \<and> unmarshal cv (text_or_empty (cp_output cp)) = Inr v)"

lemma text_or_empty_simps [simp]: "text_or_empty None = []" "text_or_empty (Some t) = t"
  by (simp_all add: text_or_empty_def)

lemma settled_remember [simp]:
  "settled_step cv key v (a\<lparr>a_checkpoints := m(key \<mapsto> cp)\<rparr>) \<longleftrightarrow> cp_kind cp = KindStep
     \<and> cp_status cp = StepSucceeded \<and> unmarshal cv (text_or_empty (cp_output cp)) = Inr v"
  by (simp add: settled_step_def)

lemma settled_ignores_stop: "ignores_stop (settled_step cv key v)"
  by (simp add: ignores_stop_def settled_step_def)

text \<open>A checkpoint of the kind of a step, as \<open>markAttemptStarted\<close> leaves it.\<close>

definition step_noted :: "string \<Rightarrow> activation \<Rightarrow> bool" where
  "step_noted key a \<longleftrightarrow> (\<forall>cp. a_checkpoints a key = Some cp \<longrightarrow> cp_kind cp = KindStep)"

lemma noted_ignores_stop: "ignores_stop (step_noted key)"
  by (simp add: ignores_stop_def step_noted_def)

lemma encodeResult_decodes: "encodeResult cv v = Inr (output, rec) \<Longrightarrow> unmarshal cv output = Inr rec"
  by (auto simp: encodeResult_def split: sum.splits option.splits)

lemma recordSucceeded_settles:
  assumes "unmarshal cv output = Inr v"
  shows "hoare (on_act (step_noted key) some_world) (recordSucceededStepTx key output)
     (\<lambda>r. on_act (\<lambda>a. step_noted key a \<and> (\<not> isl r \<longrightarrow> settled_step cv key v a)) some_world)"
proof (rule hoareI)
  fix s r t
  assume "on_act (step_noted key) some_world s" "run_state (recordSucceededStepTx key output) s = (r, t)"
  then show "on_act (\<lambda>a. step_noted key a \<and> (\<not> isl r \<longrightarrow> settled_step cv key v a)) some_world t"
    by (cases s) (auto simp: recordSucceededStepTx_def run_act remember_def on_act_def step_noted_def
      fresh_checkpoint_def assms split: prod.splits sum.splits option.splits)
qed

lemma deferring_keeps:
  assumes "hoare P m (\<lambda>r. on_act (A r) some_world)"
  shows "hoare P (act_deferring_rollback m) (\<lambda>r. on_act (A r) some_world)"
  unfolding act_deferring_rollback_def
  by (rule hoare_bind [OF assms], rule hoare_bind [OF in_world_keeps], rule hoare_return) assumption

lemma stop_return:
  assumes "ignores_stop A" "\<And>s. P s \<Longrightarrow> on_act A some_world s" "\<And>e a. A a \<Longrightarrow> B (g e) a"
  shows "hoare P (do { e' \<leftarrow> stopWith x e; State_Monad.return (g e') }) (\<lambda>r. on_act (B r) some_world)"
  using assms
  by (intro hoare_pre [OF hoare_bind [OF stopWith_keeps [OF assms(1)] hoare_return]]) (auto simp: on_act_def)

lemma checkpointWrite_keeps:
  assumes "ignores_stop A" "hoare (on_act A some_world) write (\<lambda>r. on_act (\<lambda>a. A a \<and> (\<not> isl r \<longrightarrow> B a)) some_world)"
  shows "hoare (on_act A some_world) (checkpointWrite write)
     (\<lambda>r. on_act (\<lambda>a. A a \<and> (\<not> isl r \<longrightarrow> B a)) some_world)"
  unfolding checkpointWrite_def infrastructureFailure_def
  by (intro hoare_bind [OF fencedTx_keeps [OF assms(1)]] hoare_case_option deferring_keeps hoare_bind [OF assms(2)]
      hoare_bind [OF in_world_keeps] hoare_case_sum stop_return [OF assms(1)] hoare_return)
    (auto simp: on_act_def)

lemma callStep_keeps: "hoare (on_act A some_world) (callStep fn) (\<lambda>_. on_act A some_world)"
  unfolding callStep_def
  by (rule hoare_bind [OF in_world_keeps])
    (auto split: conduct.split intro!: hoare_return hoare_bind [OF in_world_keeps])

text \<open>The outcome of an attempt: a value is settled in memory.\<close>

definition value_settled :: "'v codec \<Rightarrow> string \<Rightarrow> 'v attempt_result \<Rightarrow> activation \<Rightarrow> bool" where
  "value_settled cv key r a \<longleftrightarrow> (\<forall>v. r = Value v \<longrightarrow> settled_step cv key v a)"

lemma failedAttempt_settled:
  "hoare P (failedAttempt key e) (\<lambda>r. on_act (value_settled cv key r) some_world)"
  unfolding failedAttempt_def
  by (rule hoare_pre [where P' = "\<lambda>_. True"])
    (auto intro!: hoare_bind [where R = "\<lambda>_ _. True"] hoare_if hoare_return simp: on_act_def value_settled_def hoare_def split: prod.split)

lemma runTransactionalAttempt_settled:
  "hoare (on_act (step_noted key) some_world) (runTransactionalAttempt cv key fn)
     (\<lambda>r. on_act (value_settled cv key r) some_world)"
  unfolding runTransactionalAttempt_def rollback_now_def infrastructureFailure_def
  by (intro hoare_bind [OF fencedTx_keeps [OF noted_ignores_stop]] hoare_case_option deferring_keeps
      hoare_bind [OF get_act_keeps] hoare_bind [OF callStep_keeps] hoare_case_sum hoare_case_prod
      hoare_bind [OF in_world_keeps] hoare_return failedAttempt_settled stop_return [OF noted_ignores_stop]
      hoare_bind [OF recordSucceeded_settles [OF encodeResult_decodes]])
    (auto simp: on_act_def value_settled_def)

lemma runAttempt_settled:
  "hoare (on_act (step_noted key) some_world) (runAttempt cv key transactional fn)
     (\<lambda>r. on_act (value_settled cv key r) some_world)"
  unfolding runAttempt_def
  by (intro hoare_if runTransactionalAttempt_settled hoare_case_sum hoare_case_prod failedAttempt_settled
      hoare_bind [OF get_act_keeps] hoare_bind [OF callStep_keeps] hoare_return
      hoare_bind [OF checkpointWrite_keeps [OF noted_ignores_stop recordSucceeded_settles [OF encodeResult_decodes]]])
    (auto simp: on_act_def value_settled_def split: sum.splits)

lemma markAttemptStarted_noted:
  "hoare (\<lambda>_. True) (markAttemptStarted key) (\<lambda>r. on_act (\<lambda>a. \<not> isl r \<longrightarrow> step_noted key a) some_world)"
  unfolding markAttemptStarted_def remember_def
  by (rule hoare_bind [where R = "\<lambda>_ _. True"], simp add: hoare_def split: prod.split,
      rule hoare_bind [where R = "\<lambda>_ _. True"], simp add: hoare_def split: prod.split)
    (auto simp: hoare_def run_act on_act_def step_noted_def fresh_checkpoint_def split: sum.split)

text \<open>What a finished step loop answers.\<close>

definition answer_settled :: "'v codec \<Rightarrow> string \<Rightarrow> 'v result option \<Rightarrow> activation \<times> world \<Rightarrow> bool" where
  "answer_settled cv key r s \<longleftrightarrow> (\<forall>v. r = Some (Inr v) \<longrightarrow> settled_step cv key v (fst s))"

lemma answer_settled_error [simp]: "answer_settled cv key None s" "answer_settled cv key (Some (Inl e)) s"
  by (simp_all add: answer_settled_def)

lemma hoare_any_bind: "(\<And>a. hoare (\<lambda>_. True) (f a) Q) \<Longrightarrow> hoare (\<lambda>_. True) (m \<bind> f) Q"
  by (rule hoare_bind [where R = "\<lambda>_ _. True"]) (simp_all add: hoare_def split: prod.split)

lemma step_loop_settled:
  "hoare (\<lambda>_. True) (step_loop fuel outside cv key retry transactional fn) (answer_settled cv key)"
proof (induction fuel)
  case 0
  show ?case by (auto intro: hoare_return)
next
  case (Suc fuel)
  show ?case unfolding step_loop.simps
  proof (intro hoare_any_bind [where m = stopped] hoare_case_option hoare_bind [OF markAttemptStarted_noted]
      hoare_case_sum hoare_bind [OF hoare_pre [OF runAttempt_settled]])
    fix result :: "'a attempt_result" and number :: int
    have again: "hoare (\<lambda>_. True) (do { x \<leftarrow> waitForRetry wakeAt; case x of Some e \<Rightarrow> State_Monad.return (Some (Inl e))
        | None \<Rightarrow> step_loop fuel outside cv key retry transactional fn }) (answer_settled cv key)" for wakeAt
      by (intro hoare_any_bind hoare_case_option Suc.IH hoare_return) simp
    show "hoare (on_act (value_settled cv key result) some_world)
     (case result of Stop e \<Rightarrow> State_Monad.return (Some (Inl e)) | Value v \<Rightarrow> State_Monad.return (Some (Inr v))
      | Failure failure \<Rightarrow> do {
          p \<leftarrow> recordFailedAttempt outside key number failure retry;
          (case p of Inl e \<Rightarrow> State_Monad.return (Some (Inl e)) | Inr (Final e) \<Rightarrow> State_Monad.return (Some (Inl e))
           | Inr (RetryAt wakeAt) \<Rightarrow> do { x \<leftarrow> waitForRetry wakeAt;
               case x of Some e \<Rightarrow> State_Monad.return (Some (Inl e))
               | None \<Rightarrow> step_loop fuel outside cv key retry transactional fn }) })
     (answer_settled cv key)"
    proof (cases result)
      case (Failure failure)
      show ?thesis unfolding Failure attempt_result.case
        by (rule hoare_pre [OF hoare_any_bind]) (auto split: sum.split retry_plan.split intro!: again hoare_return)
    qed (auto intro!: hoare_return simp: on_act_def value_settled_def answer_settled_def)
  qed (auto intro!: hoare_return simp: on_act_def)
qed

lemma recorded_kind:
  "hoare P (recorded key kind) (\<lambda>r s. \<forall>cp. r = Inr (Some cp) \<longrightarrow> a_checkpoints (fst s) key = Some cp \<and> cp_kind cp = kind)"
proof (rule hoareI)
  fix s r t
  assume "run_state (recorded key kind) s = (r, t)"
  then show "\<forall>cp. r = Inr (Some cp) \<longrightarrow> a_checkpoints (fst t) key = Some cp \<and> cp_kind cp = kind"
    by (cases s) (auto simp: recorded_def run_act split: option.splits if_splits prod.splits)
qed

lemma run_decodeRecorded:
  "unmarshal cv (text_or_empty raw) = Inr v \<Longrightarrow> run_state (decodeRecorded cv key raw) s = (Inr v, s)"
  by (simp add: decodeRecorded_def text_or_empty_def split: option.splits)

lemma decodeRecorded_settled:
  assumes "cp_kind cp = KindStep" "cp_status cp = StepSucceeded"
  shows "hoare (\<lambda>s. a_checkpoints (fst s) key = Some cp)
     (do { v \<leftarrow> decodeRecorded cv key (cp_output cp); State_Monad.return (Some v) }) (answer_settled cv key)"
proof (rule hoareI)
  fix s r t
  assume "a_checkpoints (fst s) key = Some cp"
    "run_state (do { v \<leftarrow> decodeRecorded cv key (cp_output cp); State_Monad.return (Some v) }) s = (r, t)"
  with assms show "answer_settled cv key r t"
    by (cases s) (auto simp: decodeRecorded_def answer_settled_def settled_step_def text_or_empty_def run_act
      split: sum.splits prod.splits)
qed

lemma runStep_settled:
  "hoare (\<lambda>_. True) (runStep fuel outside cv key options transactional fn) (answer_settled cv key)"
proof -
  have wait: "hoare (\<lambda>_. True) (do { x \<leftarrow> waitForRetry d; case x of Some e \<Rightarrow> State_Monad.return (Some (Inl e))
        | None \<Rightarrow> step_loop fuel outside cv key retry transactional fn }) (answer_settled cv key)" for d retry
    by (intro hoare_any_bind hoare_case_option step_loop_settled hoare_return) simp
  show ?thesis unfolding runStep_def Let_def
  proof (intro hoare_any_bind [where m = stopped] hoare_any_bind [where m = get_act] hoare_case_option
        hoare_bind [OF recorded_kind] hoare_case_sum, goal_cases)
    case (3 stop a r x cp)
    let ?retry = "the (sc_retry (stepConfig (a_def a) options))"
    have lost: "hoare (\<lambda>_. True) (do { p \<leftarrow> recordFailedAttempt outside key (cp_attempts cp) (Sentinel ErrAttemptLost) ?retry;
       (case p of Inl e \<Rightarrow> State_Monad.return (Some (Inl e)) | Inr (Final e) \<Rightarrow> State_Monad.return (Some (Inl e))
        | Inr (RetryAt d) \<Rightarrow> do { x \<leftarrow> waitForRetry d; case x of Some e \<Rightarrow> State_Monad.return (Some (Inl e))
        | None \<Rightarrow> step_loop fuel outside cv key ?retry transactional fn }) }) (answer_settled cv key)"
      by (rule hoare_any_bind) (auto split: sum.split retry_plan.split intro!: wait hoare_return)
    show ?case
    proof (cases "cp_status cp = StepSucceeded")
      case True
      show ?thesis
        by (rule hoare_assume [where A = "cp_kind cp = KindStep"])
          (auto simp: 3 True intro: hoare_pre [OF decodeRecorded_settled])
    next
      case False
      then show ?thesis
        by (cases "cp_status cp"; simp) (rule hoare_drop, auto intro: wait lost step_loop_settled hoare_return)+
    qed
  qed (auto intro: hoare_return hoare_drop [OF step_loop_settled])
qed

definition text_codec :: "string codec" where
  "text_codec = \<lparr>type_name = ''string'', marshal = Inr, unmarshal = Inr\<rparr>"

definition fresh_activation :: activation where
  "fresh_activation = stale_activation\<lparr>a_lease := 2\<rparr>"

definition sample_step :: "string result option act" where
  "sample_step = runStep 1 0 text_codec ''pay'' [] False (\<lambda>key. State_Monad.return (Returns (Inr ''7'')))"

lemma sample_step_run: "fst (run_state sample_step (fresh_activation, wf_world)) = Some (Inr ''7'')"
  by code_simp



end
