(* ===== verification/Workflow_Steps.thy ===== *)
theory Workflow_Steps
  imports Workflow_Replay
begin

text \<open>
  The retries of a step end: the number of attempts in the checkpoint row grows with every round of the
  step loop, and the policy's last attempt is final.
\<close>

section \<open>Between transactions\<close>

definition idle :: "(database \<Rightarrow> bool) \<Rightarrow> world \<Rightarrow> bool" where
  "idle Q w \<longleftrightarrow> snapshot w = None \<and> Q (db w)"

lemma act_idle:
  assumes "\<And>d0. Q d0 \<Longrightarrow> hoare (on_act A (untouched d0)) m R"
  shows "hoare (on_act A (idle Q)) m R"
proof (rule hoareI)
  fix s r t
  assume "on_act A (idle Q) s" "run_state m s = (r, t)"
  with hoareD [OF assms [of "db (snd s)"], of s r t] show "R r t" by (auto simp: on_act_def idle_def)
qed

text \<open>The checkpoint of a step has at least \<open>n\<close> attempts.\<close>

definition tried :: "string \<Rightarrow> string \<Rightarrow> int \<Rightarrow> database \<Rightarrow> bool" where
  "tried i key n d \<longleftrightarrow> (\<forall>s \<in> set (steps d). at_step i key s \<longrightarrow> n \<le> s_attempts s)
     \<and> (0 < n \<longrightarrow> (\<exists>s \<in> set (steps d). at_step i key s))"

lemma tried_sent [simp]: "tried i key n (sent d) = tried i key n d"
  by (simp add: tried_def)

lemma committed_idle: "committed (tried i key n) w \<Longrightarrow> idle (tried i key n) w"
  by (auto simp: committed_def idle_def)

lemma committed_idle2: "committed (\<lambda>d. Q \<and> tried i key n d) w \<Longrightarrow> Q \<and> idle (tried i key n) w"
  by (auto simp: committed_def idle_def)

lemma tried_upd:
  assumes "tried i key n d" "\<And>s. at_step i key (f s) = at_step i key s" "\<And>s. at_step i key s \<Longrightarrow> s_attempts s + c \<le> s_attempts (f s)"
    and "\<exists>s \<in> set (steps d). at_step i key s" "\<And>s. P s \<Longrightarrow> at_step i key s" "\<And>s. at_step i key s \<Longrightarrow> c \<le> 0 \<or> P s"
  shows "tried i key (n + c) (d\<lparr>steps := upd_where P f (steps d)\<rparr>)"
proof -
  define g where "g s = (if P s then f s else s)" for s
  have "n + c \<le> s_attempts (g s)" if "s \<in> set (steps d)" "at_step i key s" for s
    using assms(1) assms(3) [of s] assms(6) [of s] that by (force simp: tried_def g_def)
  moreover have "at_step i key (g s) = at_step i key s" for s using assms(2) by (simp add: g_def)
  moreover have "upd_where P f (steps d) = map g (steps d)" by (simp add: upd_where_def g_def)
  ultimately show ?thesis using assms(4) by (auto simp: tried_def)
qed

lemma at_step_fields:
  "at_step i key (start_attempt_row n s) = at_step i key s" "at_step i key (retry_step_row m d n s) = at_step i key s"
  "s_attempts (start_attempt_row n s) = s_attempts s + 1" "s_attempts (retry_step_row m d n s) = s_attempts s"
  by (simp_all add: at_step_def start_attempt_row_def retry_step_row_def)

abbreviation of_run :: "string \<Rightarrow> activation \<Rightarrow> bool" where
  "of_run i \<equiv> \<lambda>a. a_runID a = i"

lemma of_run_ignores_stop: "ignores_stop (of_run i)"
  by (simp add: ignores_stop_def)

section \<open>The parts of a round\<close>

lemma plain_upsert [simp]: "plain (upsert_step mk P f out)"
  by (simp add: plain_def upsert_step_def Let_def split: option.split)

lemma plain_update_returning [simp]: "plain (update_step_returning P f)"
  by (simp add: plain_def update_step_returning_def)

lemma query_row_replies:
  assumes "plain st" "\<And>w a. opened d0 n0 Q w \<Longrightarrow> fst (st w) = Some a \<Longrightarrow> R a (db (snd (st w)))"
  shows "hoare (opened d0 n0 Q) (query_row st) (replies d0 n0 R)"
  by (rule hoare_post [OF query_row_tx [where R = R and N = "\<lambda>_. True"]])
    (auto simp: assms aborted_def opened_def replies_def split: sum.splits)

lemma upsert_tried:
  assumes "tried i key n (db w)" "0 \<le> n"
    and "fst (upsert_step (\<lambda>w. (new_step i key KindStep StepRunning w)\<lparr>s_attempts := 1\<rparr>)
       P start_attempt_row (\<lambda>_. s_attempts) w) = Some number"
  shows "n + 1 \<le> number \<and> tried i key (n + 1) (db (snd (upsert_step
     (\<lambda>w. (new_step i key KindStep StepRunning w)\<lparr>s_attempts := 1\<rparr>) P start_attempt_row (\<lambda>_. s_attempts) w)))"
proof (cases "find (at_step i key) (steps (db w))")
  case None
  then have none: "\<forall>s \<in> set (steps (db w)). \<not> at_step i key s" by (simp add: find_None_iff)
  with assms(1,2) have "n = 0" by (force simp: tried_def)
  with assms None none show ?thesis by (auto simp: upsert_step_def new_step_def tried_def at_step_def Let_def)
next
  case (Some t)
  then have t: "t \<in> set (steps (db w))" "at_step i key t" by (auto dest: find_SomeD)
  with assms(1) have "n \<le> s_attempts t" by (simp add: tried_def)
  moreover have "tried i key (n + 1) ((db w)\<lparr>steps := upd_where (at_step i key) (start_attempt_row (now w)) (steps (db w))\<rparr>)"
    by (rule tried_upd [OF assms(1)]) (use t in \<open>auto simp: at_step_fields\<close>)
  ultimately show ?thesis using assms(3) Some by (auto simp: upsert_step_def new_step_def at_step_fields Let_def split: if_splits)
qed

lemma markAttemptStarted_tried:
  assumes "0 \<le> n"
  shows "hoare (on_act (of_run i) (idle (tried i key n))) (markAttemptStarted key)
    (\<lambda>r. on_act (of_run i) (\<lambda>w. \<forall>number. r = Inr number \<longrightarrow> n + 1 \<le> number \<and> idle (tried i key (n + 1)) w))"
  unfolding markAttemptStarted_def
proof (rule act_idle)
  fix d0
  assume d0: "tried i key n d0"
  let ?w = "\<lambda>a. in_world (query_row (upsert_step
       (\<lambda>w. (new_step (a_runID a) key KindStep StepRunning w)\<lparr>s_attempts := 1\<rparr>)
       (\<lambda>s. s_status s = StepRunning \<or> s_status s = StepRetrying) start_attempt_row (\<lambda>_. s_attempts)))"
  have up: "n + 1 \<le> number \<and> tried i key (n + 1) (db (snd (upsert_step
     (\<lambda>w. (new_step i key KindStep StepRunning w)\<lparr>s_attempts := 1\<rparr>) P start_attempt_row (\<lambda>_. s_attempts) w)))"
    if "opened d0 n0 (\<lambda>d. d = d0) w" "fst (upsert_step (\<lambda>w. (new_step i key KindStep StepRunning w)\<lparr>s_attempts := 1\<rparr>)
       P start_attempt_row (\<lambda>_. s_attempts) w) = Some number" for n0 w number P
    using that assms d0 by (intro upsert_tried) (auto simp: opened_def)
  have step: "hoare (on_act (of_run i) (untouched d0)) (checkpointWrite (?w a))
      (\<lambda>r. on_act (of_run i) (written d0 (\<lambda>v d. n + 1 \<le> v \<and> tried i key (n + 1) d) r))" if "a_runID a = i" for a
    unfolding that
    by (intro checkpointWrite_rule of_run_ignores_stop hoare_pre [OF act_in_world [OF query_row_replies]])
      (auto simp: on_act_def dest: up)
  show "hoare (on_act (of_run i) (untouched d0)) (do { a \<leftarrow> get_act; r \<leftarrow> checkpointWrite (?w a);
     (case r of
        Inl e \<Rightarrow> State_Monad.return (Inl e)
      | Inr number \<Rightarrow> do {
          remember key (fresh_checkpoint StepRunning number []);
          State_Monad.return (Inr number) }) })
    (\<lambda>r. on_act (of_run i) (\<lambda>w. \<forall>number. r = Inr number \<longrightarrow> n + 1 \<le> number \<and> idle (tried i key (n + 1)) w))"
    by (intro act_peek hoare_bind [OF step] act_case_written hoare_bind [OF act_remember] hoare_return)
      (auto simp: on_act_def dest: committed_idle2)
qed

text \<open>
  What the application promises of a step function: it leaves the step's checkpoint row alone, and it
  neither opens nor ends a transaction behind the back of the one it is given.
\<close>

definition leaves_step :: "string \<Rightarrow> string \<Rightarrow> (string \<Rightarrow> 'v result conduct io) \<Rightarrow> bool" where
  "leaves_step i key fn \<longleftrightarrow> (\<forall>k n. keeps (idle (tried i key n)) (fn k))
     \<and> (\<forall>k d. keeps (\<lambda>w. snapshot w = Some d) (fn k))"

lemma callStep_world:
  assumes "keeps W fn" "\<And>w l m. W w \<Longrightarrow> W (w\<lparr>logs := logs w @ [(l, m)]\<rparr>)"
  shows "hoare (on_act A W) (callStep fn) (\<lambda>_. on_act A W)"
  unfolding callStep_def
proof (rule hoare_bind [OF act_in_world [OF assms(1)]])
  fix r
  have "keeps W (log_msg l m)" for l m by (rule hoareI) (auto simp: run_log assms(2))
  then show "hoare (on_act A W) (case r of Returns q \<Rightarrow> State_Monad.return q
      | Panics p \<Rightarrow> do { in_world (log_msg LevelError ''workflow step panicked'');
          State_Monad.return (Inl (Errorf (''panic: '' @ p))) }) (\<lambda>_. on_act A W)"
    by (cases r) (auto intro!: hoare_return hoare_bind [OF act_in_world])
qed

text \<open>A failed attempt leaves the world as it is.\<close>

definition failure_in :: "string \<Rightarrow> (world \<Rightarrow> bool) \<Rightarrow> 'v attempt_result \<Rightarrow> activation \<times> world \<Rightarrow> bool" where
  "failure_in i W r s = (case r of Failure _ \<Rightarrow> on_act (of_run i) W s | _ \<Rightarrow> True)"

lemma failure_in_simps [simp]:
  "failure_in i W (Failure e) s = on_act (of_run i) W s" "failure_in i W (Stop e) s" "failure_in i W (Value v) s"
  by (simp_all add: failure_in_def)

lemma failedAttempt_world: "hoare (on_act (of_run i) W) (failedAttempt key e) (failure_in i W)"
  unfolding failedAttempt_def
proof (rule hoare_bind [OF act_get], rule hoare_bind [OF act_get_world])
  fix a w
  have stop: "hoare P (do { e' \<leftarrow> interruptAttempt key; State_Monad.return (Stop e') }) (failure_in i W)" for P
    by (auto simp: hoare_def split: prod.split)
  show "hoare (on_act (\<lambda>b. a_runID b = i \<and> b = a) W)
      (if runCtx_ended a w then do { e' \<leftarrow> interruptAttempt key; State_Monad.return (Stop e') }
       else State_Monad.return (Failure e)) (failure_in i W)"
    by (intro hoare_if stop hoare_return) (auto simp: on_act_def)
qed

lemma runAttempt_plain_tried:
  assumes "leaves_step i key fn"
  shows "hoare (on_act (of_run i) (idle (tried i key n))) (runAttempt cv key False fn)
     (failure_in i (idle (tried i key n)))"
proof -
  have call: "hoare (on_act (of_run i) (idle (tried i key n))) (callStep (fn k))
     (\<lambda>_. on_act (of_run i) (idle (tried i key n)))" for k
    using assms by (intro callStep_world) (auto simp: leaves_step_def idle_def)
  show ?thesis unfolding runAttempt_def if_False
    by (intro act_peek hoare_bind [OF call] hoare_case_sum hoare_case_prod failedAttempt_world hoare_return)
      (auto simp: hoare_def split: prod.split sum.split)
qed

lemma act_deferring_failure:
  assumes "hoare P m (failure_in i (undone d0))"
  shows "hoare P (act_deferring_rollback m) (failure_in i (untouched d0))"
  unfolding act_deferring_rollback_def
proof (rule hoare_bind [OF assms])
  fix r :: "'a attempt_result"
  have "hoare (undone d0) (State_Monad.update restore) (\<lambda>_. untouched d0)"
    by (rule hoare_update) (auto simp: restore_untouched)
  note restored = act_in_world [OF this, where A = "of_run i"]
  show "hoare (failure_in i (undone d0) r) (do { in_world (State_Monad.update restore); State_Monad.return r })
     (failure_in i (untouched d0))"
  proof (cases r)
    case (Failure e)
    then show ?thesis by (intro hoare_pre [OF hoare_bind [OF restored hoare_return]]) auto
  qed (auto simp: hoare_def split: prod.split)
qed

lemma runAttempt_transactional:
  assumes "leaves_step i key fn"
  shows "hoare (on_act (of_run i) (untouched d0)) (runTransactionalAttempt cv key fn) (failure_in i (untouched d0))"
proof -
  have call: "hoare (on_act (of_run i) (\<lambda>w. snapshot w = Some d0)) (callStep (fn k))
     (\<lambda>_. on_act (of_run i) (\<lambda>w. snapshot w = Some d0))" for k
    using assms by (intro callStep_world) (auto simp: leaves_step_def)
  have undo: "hoare (on_act (of_run i) (\<lambda>w. snapshot w = Some d0)) (do { rollback_now; failedAttempt key e })
      (failure_in i (undone d0))" for e
    by (rule hoare_bind [OF act_rollback hoare_post [OF failedAttempt_world]])
      (auto simp: restore_untouched failure_in_def on_act_def split: attempt_result.splits)
  have stop: "hoare P (do { s \<leftarrow> recordSucceededStepTx key out;
                   (case s of
                      Inl e \<Rightarrow> do { e' \<leftarrow> infrastructureFailure e; State_Monad.return (Stop e') }
                    | Inr _ \<Rightarrow> do {
                        k \<leftarrow> in_world commit_tx;
                        (case k of
                           Inl e \<Rightarrow> do { e' \<leftarrow> infrastructureFailure (g e); State_Monad.return (Stop e') }
                         | Inr _ \<Rightarrow> State_Monad.return (Value rec)) }) }) (failure_in i (undone d0))"
    for P out rec g
    by (auto simp: hoare_def split: prod.split sum.split)
  show ?thesis unfolding runTransactionalAttempt_def
    by (intro act_fenced of_run_ignores_stop act_deferring_failure)
      (auto simp: on_act_def opened_def intro!: hoare_return
        hoare_pre [OF act_peek [OF hoare_bind [OF call hoare_case_sum [OF undo hoare_case_sum [OF hoare_return hoare_case_prod [OF stop]]]]]])
qed

lemma runAttempt_tried:
  assumes "leaves_step i key fn"
  shows "hoare (on_act (of_run i) (idle (tried i key n))) (runAttempt cv key transactional fn)
     (failure_in i (idle (tried i key n)))"
proof (cases transactional)
  case True
  then have tx: "runAttempt cv key transactional fn = runTransactionalAttempt cv key fn"
    by (simp add: runAttempt_def)
  show ?thesis unfolding tx
    by (rule act_idle, rule hoare_post [OF runAttempt_transactional [OF assms]])
      (auto simp: failure_in_def on_act_def idle_def split: attempt_result.splits)
next
  case False
  with runAttempt_plain_tried [OF assms] show ?thesis by simp
qed

text \<open>Only an attempt before the last one is followed by another.\<close>

lemma update_returning_tried:
  assumes "tried i key n (db w)" "fst (update_step_returning (running_attempt i key number) (retry_step_row m delay) w) = Some cp"
  shows "tried i key n (db (snd (update_step_returning (running_attempt i key number) (retry_step_row m delay) w)))"
proof -
  from assms(2) have "\<exists>s \<in> set (steps (db w)). at_step i key s"
    by (auto simp: update_step_returning_def dest!: find_SomeD) (auto simp: running_attempt_def)
  with tried_upd [OF assms(1), where c = 0 and P = "running_attempt i key number"] show ?thesis
    by (simp add: update_step_returning_def at_step_fields running_attempt_def)
qed

lemma recordFailedAttempt_tried:
  "hoare (on_act (of_run i) (idle (tried i key n))) (recordFailedAttempt outside key number failure retry)
    (\<lambda>r s. \<forall>d. r = Inr (RetryAt d) \<longrightarrow> number < rt_MaxAttempts retry \<and> on_act (of_run i) (idle (tried i key n)) s)"
  unfolding recordFailedAttempt_def Let_def
proof (intro act_peek hoare_if, goal_cases)
  case (1 a)
  show ?case by (auto simp: hoare_def split: prod.split sum.split)
next
  case (2 a)
  show ?case
  proof (rule act_idle)
    fix d0
    assume d0: "tried i key n d0"
    have up: "tried i key n (db (snd (update_step_returning (running_attempt i key number) (retry_step_row m delay) w)))"
      if "opened d0 n0 (\<lambda>d. d = d0) w"
        "fst (update_step_returning (running_attempt i key number) (retry_step_row m delay) w) = Some cp" for n0 w m delay cp
      using that d0 by (intro update_returning_tried) (auto simp: opened_def)
    have step: "hoare (on_act (of_run i) (untouched d0))
       (checkpointWrite (in_world (query_row (update_step_returning (running_attempt (a_runID a) key number)
         (retry_step_row (err_text failure) (delayAfter outside retry number))))))
       (\<lambda>r. on_act (of_run i) (written d0 (\<lambda>v d. tried i key n d) r))"
      unfolding 2(1)
      by (intro checkpointWrite_rule of_run_ignores_stop hoare_pre [OF act_in_world [OF query_row_replies]])
        (auto simp: on_act_def dest: up)
    from 2(2) show "hoare (on_act (of_run i) (untouched d0)) (do { r \<leftarrow>
        checkpointWrite (in_world (query_row (update_step_returning (running_attempt (a_runID a) key number)
         (retry_step_row (err_text failure) (delayAfter outside retry number)))));
       (case r of
          Inl e \<Rightarrow> State_Monad.return (Inl e)
        | Inr cp \<Rightarrow> do { remember key cp; State_Monad.return (Inr (RetryAt (cp_wake cp))) }) })
       (\<lambda>r s. \<forall>d. r = Inr (RetryAt d) \<longrightarrow> number < rt_MaxAttempts retry \<and> on_act (of_run i) (idle (tried i key n)) s)"
      by (intro hoare_bind [OF step] act_case_written hoare_bind [OF act_remember] hoare_return)
        (auto simp: on_act_def dest: committed_idle)
  qed
qed

text \<open>Asking whether to stop, and waiting, change nothing in the tables.\<close>

lemma stopped_world: "ignores_stop A \<Longrightarrow> hoare (on_act A W) stopped (\<lambda>_. on_act A W)"
  unfolding stopped_def interruption_def record_interruption_def
  by (intro act_peek hoare_bind [OF act_get_world] hoare_if)
    (auto split: prod.split intro!: act_peek hoare_bind [OF recordStop_keeps] hoare_bind [OF act_stopState] hoare_return)

lemma waitForRetry_idle:
  "hoare (on_act (of_run i) (idle Q)) (waitForRetry d) (\<lambda>r s. r = None \<longrightarrow> on_act (of_run i) (idle Q) s)"
proof (rule hoareI)
  fix s r t
  assume s: "on_act (of_run i) (idle Q) s" and run: "run_state (waitForRetry d) s = (r, t)"
  show "r = None \<longrightarrow> on_act (of_run i) (idle Q) t"
  proof
    assume "r = None"
    with s run show "on_act (of_run i) (idle Q) t"
      by (cases s) (auto simp: waitForRetry_def run_act waitUntil_def State_Monad.update_def on_act_def idle_def
        stopped_def interruption_def record_interruption_def recordStop_def stopState_def
        split: option.splits if_splits prod.splits)
  qed
qed

section \<open>The loop\<close>

definition answered :: "'r option \<Rightarrow> 's \<Rightarrow> bool" where
  "answered r s \<longleftrightarrow> r \<noteq> None"

lemma answered_simps [simp]: "answered (Some x) s" "\<not> answered None s"
  by (simp_all add: answered_def)

lemma step_loop_ends:
  assumes fn: "leaves_step i key fn" and n: "0 \<le> n" and fuel: "0 < fuel" "rt_MaxAttempts retry \<le> int fuel + n"
  shows "hoare (on_act (of_run i) (idle (tried i key n))) (step_loop fuel outside cv key retry transactional fn)
     answered"
  using n fuel
proof (induction fuel arbitrary: n)
  case (Suc fuel)
  have again: "hoare (\<lambda>s. number < rt_MaxAttempts retry \<and> on_act (of_run i) (idle (tried i key (n + 1))) s)
     (do { x \<leftarrow> waitForRetry wakeAt; (case x of Some e \<Rightarrow> State_Monad.return (Some (Inl e))
        | None \<Rightarrow> step_loop fuel outside cv key retry transactional fn) }) answered"
    if "n + 1 \<le> number" for number wakeAt
  proof (rule hoare_assume)
    fix s
    assume "number < rt_MaxAttempts retry \<and> on_act (of_run i) (idle (tried i key (n + 1))) s"
    with Suc.prems(3) that show "0 < fuel" by simp
  next
    assume "0 < fuel"
    with Suc have IH: "hoare (on_act (of_run i) (idle (tried i key (n + 1))))
       (step_loop fuel outside cv key retry transactional fn) answered" by simp
    show ?thesis
      by (rule hoare_pre [OF hoare_bind [OF waitForRetry_idle]])
        (auto split: option.split intro: IH hoare_return)
  qed
  have failed: "hoare (on_act (of_run i) (idle (tried i key (n + 1))))
     (do { p \<leftarrow> recordFailedAttempt outside key number failure retry;
        (case p of
           Inl e \<Rightarrow> State_Monad.return (Some (Inl e))
         | Inr (Final e) \<Rightarrow> State_Monad.return (Some (Inl e))
         | Inr (RetryAt wakeAt) \<Rightarrow> do { x \<leftarrow> waitForRetry wakeAt; (case x of Some e \<Rightarrow> State_Monad.return (Some (Inl e))
             | None \<Rightarrow> step_loop fuel outside cv key retry transactional fn) }) }) answered"
    if "n + 1 \<le> number" for number failure
    by (rule hoare_bind [OF recordFailedAttempt_tried])
      (auto split: sum.split retry_plan.split intro!: hoare_return again [OF that])
  have round: "hoare (on_act (of_run i) (idle (tried i key (n + 1))))
     (do { result \<leftarrow> runAttempt cv key transactional fn;
        (case result of
           Stop e \<Rightarrow> State_Monad.return (Some (Inl e))
         | Value v \<Rightarrow> State_Monad.return (Some (Inr v))
         | Failure failure \<Rightarrow> do { p \<leftarrow> recordFailedAttempt outside key number failure retry;
             (case p of
                Inl e \<Rightarrow> State_Monad.return (Some (Inl e))
              | Inr (Final e) \<Rightarrow> State_Monad.return (Some (Inl e))
              | Inr (RetryAt wakeAt) \<Rightarrow> do { x \<leftarrow> waitForRetry wakeAt; (case x of Some e \<Rightarrow> State_Monad.return (Some (Inl e))
                  | None \<Rightarrow> step_loop fuel outside cv key retry transactional fn) }) }) }) answered"
    if "n + 1 \<le> number" for number
    by (rule hoare_bind [OF runAttempt_tried [OF fn]])
      (auto split: attempt_result.split intro!: hoare_return hoare_pre [OF failed [OF that]])
  have marked: "hoare (on_act (of_run i) (\<lambda>w. \<forall>number'. Inr number = Inr number' \<longrightarrow>
      n + 1 \<le> number' \<and> idle (tried i key (n + 1)) w)) m answered"
    if "n + 1 \<le> number \<Longrightarrow> hoare (on_act (of_run i) (idle (tried i key (n + 1)))) m answered"
    for number and m :: "'a result option act"
    by (rule hoare_assume [where A = "n + 1 \<le> number"])
      (auto simp: on_act_def intro: hoare_pre [OF that])
  show ?case unfolding step_loop.simps
    by (intro hoare_bind [OF stopped_world [OF of_run_ignores_stop]] hoare_case_option hoare_bind [OF markAttemptStarted_tried [OF Suc.prems(1)]]
        hoare_case_sum hoare_return) (auto simp only: answered_simps intro!: marked round)
qed simp

lemma recorded_world:
  "ignores_stop A \<Longrightarrow> hoare (on_act A W) (recorded key kind) (\<lambda>_. on_act A W)"
  unfolding recorded_def nonDeterminism_def
  by (intro act_peek hoare_case_option hoare_if stop_return_in hoare_return) (auto simp: on_act_def)

lemma runStep_ends:
  assumes fn: "leaves_step i key fn" and fuel: "0 < fuel" "rt_MaxAttempts (the (sc_retry (stepConfig d options))) \<le> int fuel"
  shows "hoare (on_act (\<lambda>a. a_runID a = i \<and> a_def a = d) (idle (tried i key 0)))
     (runStep fuel outside cv key options transactional fn) answered"
proof -
  let ?retry = "the (sc_retry (stepConfig d options))"
  let ?again = "step_loop fuel outside cv key ?retry transactional fn"
  let ?wait = "\<lambda>x. do { y \<leftarrow> waitForRetry x; case y of Some e \<Rightarrow> State_Monad.return (Some (Inl e)) | None \<Rightarrow> ?again }"
  define A where "A a \<longleftrightarrow> a_runID a = i \<and> a_def a = d" for a :: activation
  have A_def': "(\<lambda>a. a_runID a = i \<and> a_def a = d) = A" by (simp add: A_def fun_eq_iff)
  have again: "hoare (on_act (of_run i) (idle (tried i key 0))) ?again answered"
    using fn fuel by (intro step_loop_ends) auto
  have wait: "hoare (on_act (of_run i) (idle (tried i key 0))) (?wait x) answered" for x
    by (rule hoare_bind [OF waitForRetry_idle]) (auto split: option.split intro: again hoare_return)
  have lost: "hoare (on_act (of_run i) (idle (tried i key 0)))
     (do { p \<leftarrow> recordFailedAttempt outside key number failure ?retry;
        (case p of Inl e \<Rightarrow> State_Monad.return (Some (Inl e)) | Inr (Final e) \<Rightarrow> State_Monad.return (Some (Inl e))
         | Inr (RetryAt x) \<Rightarrow> ?wait x) }) answered" for number failure
    by (rule hoare_bind [OF recordFailedAttempt_tried])
      (auto split: sum.split retry_plan.split intro!: hoare_return hoare_pre [OF wait])
  have A: "ignores_stop A" by (simp add: ignores_stop_def A_def)
  have narrow: "hoare (on_act (of_run i) W) m answered \<Longrightarrow> hoare (on_act A W) m answered" for W and m :: "'a result option act"
    by (erule hoare_pre) (auto simp: on_act_def A_def)
  have decoded: "hoare P (do { v \<leftarrow> decodeRecorded cv key raw; State_Monad.return (Some v) }) answered" for P raw
    by (auto simp: hoare_def split: prod.split)
  have fields: "a_def a = d" if "A a" for a using that by (simp add: A_def)
  show ?thesis unfolding runStep_def Let_def A_def'
    by (intro hoare_bind [OF stopped_world [OF A]] hoare_case_option act_peek hoare_bind [OF recorded_world [OF A]] hoare_case_sum)
      (auto simp: fields split: step_status.split intro!: hoare_return narrow again wait lost decoded)
qed

text \<open>
  C15. A step is tried a bounded number of times. As long as the step function leaves the step's own
  checkpoint row and the transactions of its caller alone, \<open>runStep\<close> answers (a value, the final error, or
  the reason the activation stops) within as many rounds as its retry policy has attempts, whether the
  attempts fail, panic or are lost, and whatever database calls fail.
\<close>

theorem step_attempts_end:
  assumes "leaves_step (a_runID a) key fn" "snapshot w = None" "tried (a_runID a) key 0 (db w)"
    and "0 < fuel" "rt_MaxAttempts (the (sc_retry (stepConfig (a_def a) options))) \<le> int fuel"
  shows "\<exists>r s'. run_state (runStep fuel outside cv key options transactional fn) (a, w) = (Some r, s')"
proof -
  let ?run = "run_state (runStep fuel outside cv key options transactional fn) (a, w)"
  have "answered (fst ?run) (snd ?run)"
    by (rule hoareD [OF runStep_ends [OF assms(1,4,5)], where s = "(a, w)"])
      (use assms(2,3) in \<open>auto simp: on_act_def idle_def\<close>)
  then show ?thesis by (cases ?run) (auto simp: answered_def)
qed

theorem step_attempts_end_witness:
  "\<exists>r s'. run_state (runStep 3 0 text_codec ''pay'' [] True (\<lambda>_. State_Monad.return (Panics ''boom'')))
     (fresh_activation, wf_world) = (Some r, s')"
proof (rule step_attempts_end)
  show "leaves_step (a_runID fresh_activation) ''pay'' (\<lambda>_. State_Monad.return (Panics ''boom'') :: string result conduct io)"
    by (auto simp: leaves_step_def intro!: hoare_return)
  show "rt_MaxAttempts (the (sc_retry (stepConfig (a_def fresh_activation) []))) \<le> int 3"
    by (simp add: fresh_activation_def stale_activation_def new_activation_def sample_def_def stepConfig_def
      retry_withDefaults_def Let_def)
qed (simp_all add: wf_world_def initial_world_def empty_database_def tried_def)

end
