(* ===== verification/Workflow_Start.thy ===== *)
theory Workflow_Start
  imports Workflow_Steps
begin

text \<open>
  Starting runs: a run and the job that executes it appear together or not at all, and a key names one
  run.
\<close>

section \<open>Rules for calls inside a transaction\<close>

lemma query_checked_tx:
  assumes "plain st" "\<And>w a. opened d0 n0 Q w \<Longrightarrow> fst (st w) = Inr a \<Longrightarrow> R a (db (snd (st w)))"
  shows "hoare (opened d0 n0 Q) (query_checked st) (replies d0 n0 R)"
  unfolding query_checked_def
proof (rule hoare_bind)
  show "hoare (opened d0 n0 Q) (query st)
     (answers d0 n0 (\<lambda>x d. case x of Inl _ \<Rightarrow> True | Inr a \<Rightarrow> R a d))"
    by (rule query_tx [OF assms(1)]) (auto split: sum.split intro: assms(2))
  fix r
  show "hoare (answers d0 n0 (\<lambda>x d. case x of Inl _ \<Rightarrow> True | Inr a \<Rightarrow> R a d) r)
     (case r of Inl e \<Rightarrow> State_Monad.return (Inl e)
      | Inr (Inl e) \<Rightarrow> do {
          State_Monad.update (\<lambda>w. if snapshot w = None then w else w\<lparr>tx_aborted := True\<rparr>);
          State_Monad.return (Inl e) }
      | Inr (Inr a) \<Rightarrow> State_Monad.return (Inr a)) (replies d0 n0 R)"
    by (auto simp: answers_def aborted_def opened_def split: sum.split
      intro!: hoare_return hoare_bind [OF hoare_update [where Q = "\<lambda>_ w. snapshot w = Some d0"]])
qed

lemma plain_insert_job [simp]: "plain (insert_job q p m avail tr)"
  by (simp add: plain_def insert_job_def)

lemma plain_update_runs [simp]: "plain (update_runs P f)" "plain (update_steps P' f')"
  by (simp_all add: update_runs_def update_steps_def)

lemma plain_insert_run [simp]: "plain (insert_run_row mk)"
  by (simp add: plain_def insert_run_row_def Let_def)

lemma hoare_then_emit:
  "(\<And>w. P w \<Longrightarrow> opened d0 n0 (R a) w) \<Longrightarrow> hoare P (do { emit e; State_Monad.return (Inr a) }) (replies d0 n0 R)"
  by (rule hoare_pre [OF hoare_bind [OF opened_emit hoare_return]]) auto

lemma EnqueueTx_tx:
  assumes "0 < m"
  shows "hoare (opened d0 n0 Q)
     (EnqueueTx c x True \<lparr>ep_QueueName = q, ep_Payload = p, ep_AvailableAt = t, ep_MaxAttempts = m\<rparr>)
     (replies d0 n0 (\<lambda>j d. \<exists>d1. Q d1 \<and> d = d1\<lparr>jobs := jobs d1 @ [new_job j n0 q p m t (ctx_trace x)],
            outbox := outbox d1 @ [notify_payload q]\<rparr>))"
  unfolding EnqueueTx_def enqueueCore_def Let_def
  by (intro hoare_if hoare_return attempt_query_tx hoare_then_emit)
    (use assms in \<open>auto simp: insert_job_def opened_def opened_now\<close>)

lemma exec_tx:
  assumes "plain st" "\<And>w. opened d0 n0 Q w \<Longrightarrow> Q' (db (snd (st w)))"
    and "hoare (opened d0 n0 Q') k (replies d0 n0 R)"
  shows "hoare (opened d0 n0 Q) (exec st h k) (replies d0 n0 R)"
  unfolding exec_def by (rule attempt_query_tx [where R = "\<lambda>_. Q'"]) (use assms in auto)

text \<open>The frame of \<open>Start\<close>, \<open>Signal\<close> and other client calls: begin, body, commit.\<close>

lemma deferring_written:
  assumes "hoare P m (\<lambda>r w. case r of Inl _ \<Rightarrow> ending d0 (\<lambda>d. \<exists>v. R v d) w | Inr v \<Rightarrow> committed (R v) w)"
  shows "hoare P (deferring_rollback m) (written d0 R)"
  unfolding deferring_rollback_def
  by (rule hoare_bind [OF assms], rule hoare_bind [OF hoare_update hoare_return])
    (auto simp: written_def committed_def intro: ending_restore split: sum.splits)

lemma attempt_begin:
  assumes "\<And>e w. untouched d0 w \<Longrightarrow> Q (h e) w" "\<And>n0. hoare (opened d0 n0 (\<lambda>d. d = d0)) m Q"
  shows "hoare (untouched d0) (attempt begin_tx h (\<lambda>_. m)) Q"
proof (rule hoare_attempt)
  show "hoare (untouched d0) begin_tx (\<lambda>r w. case r of Inl e \<Rightarrow> Q (h e) w | Inr _ \<Rightarrow> \<exists>n0. opened d0 n0 (\<lambda>d. d = d0) w)"
    by (rule hoare_post [OF begin_untouched]) (use assms(1) in \<open>auto split: sum.splits\<close>)
qed (rule hoare_ex, rule assms(2))

lemma attempt_commit:
  assumes "\<And>e w. closed d0 P w \<Longrightarrow> Q (h e) w" "\<And>w. committed P w \<Longrightarrow> Q b w"
  shows "hoare (opened d0 n0 P) (attempt commit_tx h (\<lambda>_. State_Monad.return b)) Q"
proof (rule hoare_attempt)
  show "hoare (opened d0 n0 P) commit_tx (\<lambda>r w. case r of Inl e \<Rightarrow> Q (h e) w | Inr _ \<Rightarrow> committed P w)"
    by (rule hoare_post [OF commit_tx_rule]) (use assms(1) in \<open>auto split: sum.splits\<close>)
qed (rule hoare_return, rule assms(2))

lemma in_transaction_rule:
  assumes body: "\<And>n0. hoare (opened d0 n0 (\<lambda>d. d = d0)) m (replies d0 n0 R)"
  shows "hoare (untouched d0) (in_transaction what m) (written d0 R)"
  unfolding in_transaction_def
  by (intro attempt_begin deferring_written attempt_tx [OF body] attempt_commit)
    (auto simp: written_def closed_def ending_def)

section \<open>Starting a run\<close>

text \<open>
  What starting a run of \<open>d\<close> with input and configuration makes of the tables \<open>d0\<close> when it answers \<open>i\<close>:
  the run with the key is there already and nothing changes, or \<open>i\<close> is the new id and the run and its
  job are added, linked to each other.
\<close>

definition key_taken :: "wf_definition \<Rightarrow> start_config \<Rightarrow> database \<Rightarrow> bool" where
  "key_taken d config d0 \<longleftrightarrow> st_key config \<noteq> [] \<and> (\<exists>r \<in> set (runs d0). with_key (d_name d) (st_key config) r)"

definition run_added ::
  "wf_definition \<Rightarrow> string \<Rightarrow> start_config \<Rightarrow> string \<Rightarrow> string \<Rightarrow> string option \<Rightarrow> int \<Rightarrow> string \<Rightarrow> database \<Rightarrow> database \<Rightarrow> bool" where
  "run_added d input config parent parentStep trace n0 i d0 d1 \<longleftrightarrow> \<not> key_taken d config d0 \<and> i \<notin> set (map r_id (runs d0))
     \<and> (\<exists>j. d1 = d0\<lparr>runs := runs d0 @ [(new_run i d input config parent parentStep n0)\<lparr>r_job_id := Some j\<rparr>],
          jobs := jobs d0 @ [new_job j n0 (queueName d) (runJob_json i) runJobMaxAttempts None trace],
          outbox := outbox d0 @ [notify_payload (queueName d)]\<rparr>)"

definition run_started ::
  "wf_definition \<Rightarrow> string \<Rightarrow> start_config \<Rightarrow> string \<Rightarrow> string \<Rightarrow> string option \<Rightarrow> string result \<Rightarrow> int \<Rightarrow> database \<Rightarrow> string \<Rightarrow>
    database \<Rightarrow> bool" where
  "run_started d input config parent parentStep trace newID n0 d0 i d1 \<longleftrightarrow>
     (if key_taken d config d0
      then d1 = d0 \<and> (\<exists>r \<in> set (runs d0). with_key (d_name d) (st_key config) r \<and> r_id r = i)
      else newID = Inr i \<and> run_added d input config parent parentStep trace n0 i d0 d1)"

lemma same_key_taken:
  "list_ex (same_key (new_run i d input config parent parentStep n)) (runs d0) \<longleftrightarrow> key_taken d config d0"
  by (auto simp: key_taken_def list_ex_iff same_key_def new_run_def nonempty_def with_key_def)

lemma upd_where_append [simp]: "upd_where P f (xs @ ys) = upd_where P f xs @ upd_where P f ys"
  by (simp add: upd_where_def)

lemma plain_link [simp]: "plain (link_run_job i j)"
  by (simp add: link_run_job_def)

lemma enqueueRunJob_tx:
  assumes "i \<notin> set (map r_id (runs d0))"
  shows "hoare (opened d0 n0 (\<lambda>d1. d1 = d0\<lparr>runs := runs d0 @ [r]\<rparr> \<and> r_id r = i)) (enqueueRunJobTx c x i q)
     (replies d0 n0 (\<lambda>_ d1. \<exists>j. d1 = d0\<lparr>runs := runs d0 @ [r\<lparr>r_job_id := Some j\<rparr>],
          jobs := jobs d0 @ [new_job j n0 q (runJob_json i) runJobMaxAttempts None (ctx_trace x)],
          outbox := outbox d0 @ [notify_payload q]\<rparr>))"
proof -
  have others: "upd_where (\<lambda>r. r_id r = i) f (runs d0) = runs d0" for f
    using assms by (intro upd_where_none) auto
  show ?thesis unfolding enqueueRunJobTx_def
  proof (rule attempt_tx [OF EnqueueTx_tx])
    fix j
    let ?added = "d0\<lparr>runs := runs d0 @ [r\<lparr>r_job_id := Some j\<rparr>],
          jobs := jobs d0 @ [new_job j n0 q (runJob_json i) runJobMaxAttempts None (ctx_trace x)],
          outbox := outbox d0 @ [notify_payload q]\<rparr>"
    show "hoare (opened d0 n0 (\<lambda>d. \<exists>d1. (d1 = d0\<lparr>runs := runs d0 @ [r]\<rparr> \<and> r_id r = i) \<and>
       d = d1\<lparr>jobs := jobs d1 @ [new_job j n0 q (runJob_json i) runJobMaxAttempts None (ctx_trace x)],
         outbox := outbox d1 @ [notify_payload q]\<rparr>))
       (exec (link_run_job i j) (wrap ''workflow: link run job: '') (State_Monad.return (Inr ())))
       (replies d0 n0 (\<lambda>_ d1. \<exists>j. d1 = d0\<lparr>runs := runs d0 @ [r\<lparr>r_job_id := Some j\<rparr>],
          jobs := jobs d0 @ [new_job j n0 q (runJob_json i) runJobMaxAttempts None (ctx_trace x)],
          outbox := outbox d0 @ [notify_payload q]\<rparr>))"
      by (rule exec_tx [where Q' = "\<lambda>d. d = ?added"])
        (auto simp: link_run_job_def update_runs_def on_db_def opened_def others upd_where_def [of _ _ "[r]"] intro!: hoare_return)
  qed (simp_all add: runJobMaxAttempts_def)
qed

lemma new_run_id [simp]: "r_id (new_run i d input config parent parentStep n) = i"
  by (simp add: new_run_def)

lemma insert_run_cases:
  assumes "fst (insert_run_row mk w) = Inr a" "mk (now w) = r" "r_id r = i"
  shows "case a of None \<Rightarrow> snd (insert_run_row mk w) = w \<and> list_ex (same_key r) (runs (db w))
     | Some j \<Rightarrow> j = i \<and> snd (insert_run_row mk w) = w\<lparr>db := (db w)\<lparr>runs := runs (db w) @ [r]\<rparr>\<rparr>
         \<and> \<not> list_ex (same_key r) (runs (db w)) \<and> i \<notin> set (map r_id (runs (db w)))"
  using assms by (auto simp: insert_run_row_def Let_def split: if_splits)

lemma insertRun_tx:
  "hoare (opened d0 n0 (\<lambda>d. d = d0)) (insertRun c x newID d input config parent parentStep)
     (replies d0 n0 (run_started d input config parent parentStep (ctx_trace x) newID n0 d0))"
proof (cases newID)
  case (Inl e)
  then show ?thesis by (auto simp: insertRun_def opened_def intro: hoare_return)
next
  case (Inr i)
  let ?new = "new_run i d input config parent parentStep n0"
  let ?R = "\<lambda>a d1. case a of None \<Rightarrow> d1 = d0 \<and> key_taken d config d0
     | Some j \<Rightarrow> j = i \<and> d1 = d0\<lparr>runs := runs d0 @ [?new]\<rparr> \<and> \<not> key_taken d config d0 \<and> i \<notin> set (map r_id (runs d0))"
  have ins: "hoare (opened d0 n0 (\<lambda>d. d = d0)) (query_checked (insert_run_row (new_run i d input config parent parentStep)))
     (replies d0 n0 ?R)"
  proof (rule query_checked_tx)
    fix w a
    assume w: "opened d0 n0 (\<lambda>d. d = d0) w"
      and a: "fst (insert_run_row (new_run i d input config parent parentStep) w) = Inr a"
    from insert_run_cases [OF a refl] opened_now [OF w] w
    show "?R a (db (snd (insert_run_row (new_run i d input config parent parentStep) w)))"
      by (auto simp: opened_def same_key_taken split: option.splits)
  qed simp
  have found: "hoare (opened d0 n0 (\<lambda>d1. d1 = d0 \<and> key_taken d config d0))
     (attempt (query_row (select_run (with_key (d_name d) (st_key config)) r_id)) (\<lambda>e. Inl (h e)) (\<lambda>runID. State_Monad.return (Inr runID)))
     (replies d0 n0 (run_started d input config parent parentStep (ctx_trace x) newID n0 d0))" for h
    by (rule attempt_query_row_tx [where R = "run_started d input config parent parentStep (ctx_trace x) newID n0 d0"])
      (auto simp: select_run_def opened_def run_started_def dest!: find_SomeD intro: hoare_return)
  have added: "hoare (opened d0 n0 (\<lambda>d1. j = i \<and> d1 = d0\<lparr>runs := runs d0 @ [?new]\<rparr> \<and> \<not> key_taken d config d0
      \<and> i \<notin> r_id ` set (runs d0)))
     (attempt (enqueueRunJobTx c x j (queueName d)) Inl (\<lambda>_. State_Monad.return (Inr j)))
     (replies d0 n0 (run_started d input config parent parentStep (ctx_trace x) newID n0 d0))" for j
  proof (rule hoare_assume)
    show "j = i \<and> \<not> key_taken d config d0 \<and> i \<notin> r_id ` set (runs d0)"
      if "opened d0 n0 (\<lambda>d1. j = i \<and> d1 = d0\<lparr>runs := runs d0 @ [?new]\<rparr> \<and> \<not> key_taken d config d0
        \<and> i \<notin> r_id ` set (runs d0)) s" for s using that by (simp add: opened_def)
    assume A: "j = i \<and> \<not> key_taken d config d0 \<and> i \<notin> r_id ` set (runs d0)"
    then have j: "j = i" by simp
    show ?thesis unfolding j
      by (rule attempt_tx [OF hoare_pre [OF enqueueRunJob_tx [where r = ?new]]])
        (use A in \<open>auto simp: run_started_def run_added_def Inr opened_def intro!: hoare_return\<close>)
  qed
  show ?thesis unfolding insertRun_def Inr sum.case
    by (rule hoare_bind [OF ins]) (auto split: sum.split option.split intro!: hoare_return found [unfolded Inr] added [unfolded Inr])
qed

definition start_config_of :: "start_option list \<Rightarrow> start_config" where
  "start_config_of options = fold applyToStart options \<lparr>st_key = [], st_timeout = 0\<rparr>"

text \<open>What \<open>Start\<close> makes of the tables \<open>d0\<close>, in a transaction that began at some time \<open>n0\<close>.\<close>

definition start_effect ::
  "ctx \<Rightarrow> string result \<Rightarrow> wf_definition \<Rightarrow> 'i codec \<Rightarrow> 'i \<Rightarrow> start_option list \<Rightarrow> database \<Rightarrow> string \<Rightarrow> database \<Rightarrow> bool" where
  "start_effect x newID d ci input options d0 i d1 \<longleftrightarrow> (\<exists>n0 encoded. marshal_storable ci input = Inr encoded
     \<and> run_started d encoded (start_config_of options) [] [] (ctx_trace x) newID n0 d0 i d1)"

lemma Start_rule:
  "hoare (untouched d0) (Start c x newID d ci input options) (written d0 (start_effect x newID d ci input options d0))"
  unfolding Start_def
proof (rule in_transaction_rule)
  fix n0
  show "hoare (opened d0 n0 (\<lambda>d. d = d0)) (StartTx c x newID d ci input options)
      (replies d0 n0 (start_effect x newID d ci input options d0))"
  proof (cases "marshal_storable ci input")
    case (Inl e)
    then show ?thesis by (auto simp: StartTx_def opened_def intro: hoare_return)
  next
    case (Inr encoded)
    then have run: "StartTx c x newID d ci input options = insertRun c x newID d encoded (start_config_of options) [] []"
      by (simp add: StartTx_def start_config_of_def)
    show ?thesis unfolding run
      by (rule hoare_post [OF insertRun_tx], erule replies_mono) (auto simp: start_effect_def Inr)
  qed
qed

definition sample_start :: "string result io" where
  "sample_start = Start sample_wf_client background (Inr ''r7'') sample_def text_codec ''1'' [StartKey ''k'']"

lemma sample_start_run: "fst (run_state sample_start wf_world) = Inr ''r7''"
  by code_simp

lemma sample_start_eq: "\<exists>w'. run_state sample_start wf_world = (Inr ''r7'', w')"
  using sample_start_run by (metis prod.collapse)

text \<open>
  C10. \<open>Start\<close> is all or nothing. When it returns a run id, either the workflow's run with that key was
  there and no table changed, or exactly one run was added, pending and with the encoded input, together
  with exactly one job for the workflow's queue that names it and that it names. After an error nothing
  changed, unless only the confirmation of the commit was lost, and then all of it is there.
\<close>

theorem start_atomic:
  assumes "snapshot w = None" "run_state (Start c x newID d ci input options) w = (r, w')"
  shows "snapshot w' = None \<and> (case r of
      Inr i \<Rightarrow> \<exists>d1. start_effect x newID d ci input options (db w) i d1 \<and> db w' = sent d1
    | Inl _ \<Rightarrow> db w' = db w \<or> (\<exists>i d1. start_effect x newID d ci input options (db w) i d1 \<and> db w' = sent d1))"
  using hoareD [OF Start_rule _ assms(2)] assms(1)
  by (auto simp: written_def committed_def closed_def split: sum.splits)

theorem start_atomic_witness:
  "\<exists>w' d1. run_state sample_start wf_world = (Inr ''r7'', w') \<and> db w' = sent d1
     \<and> start_effect background (Inr ''r7'') sample_def text_codec ''1'' [StartKey ''k''] (db wf_world) ''r7'' d1"
proof -
  obtain w' where "run_state sample_start wf_world = (Inr ''r7'', w')" using sample_start_eq by blast
  moreover from start_atomic [OF _ this [unfolded sample_start_def]] obtain d1 where "db w' = sent d1"
    "start_effect background (Inr ''r7'') sample_def text_codec ''1'' [StartKey ''k''] (db wf_world) ''r7'' d1"
    by (auto simp: wf_world_def initial_world_def)
  ultimately show ?thesis by blast
qed

section \<open>Keys\<close>

definition keys_unique :: "run list \<Rightarrow> bool" where
  "keys_unique rs \<longleftrightarrow> (\<forall>nm k. \<forall>r \<in> set rs. \<forall>q \<in> set rs. with_key nm k r \<and> with_key nm k q \<longrightarrow> r_id r = r_id q)"

lemma keys_uniqueD:
  "keys_unique rs \<Longrightarrow> r \<in> set rs \<Longrightarrow> q \<in> set rs \<Longrightarrow> with_key nm k r \<Longrightarrow> with_key nm k q \<Longrightarrow> r_id r = r_id q"
  unfolding keys_unique_def by blast

lemma with_key_new:
  "with_key nm k ((new_run i d input config parent parentStep n)\<lparr>r_job_id := j\<rparr>) \<longleftrightarrow>
     nm = d_name d \<and> k = st_key config \<and> k \<noteq> []"
  by (auto simp: with_key_def new_run_def nonempty_def)

lemma run_added_keys:
  assumes "run_added d input config parent parentStep tr n0 i d0 d1" "keys_unique (runs d0)"
  shows "keys_unique (runs d1)"
proof -
  obtain j where "runs d1 = runs d0 @ [(new_run i d input config parent parentStep n0)\<lparr>r_job_id := Some j\<rparr>]"
    and "\<not> key_taken d config d0" using assms(1) by (auto simp: run_added_def)
  with assms(2) show ?thesis unfolding keys_unique_def
    by (auto simp: with_key_new key_taken_def)
qed

lemma run_started_key:
  assumes "run_started d input config parent parentStep tr newID n0 d0 i d1" "st_key config \<noteq> []" "keys_unique (runs d0)"
  shows "(\<exists>r \<in> set (runs d1). with_key (d_name d) (st_key config) r \<and> r_id r = i) \<and> keys_unique (runs d1)"
proof (cases "key_taken d config d0")
  case True
  with assms show ?thesis by (auto simp: run_started_def)
next
  case False
  with assms(1) have added: "run_added d input config parent parentStep tr n0 i d0 d1" by (simp add: run_started_def)
  then obtain j where "runs d1 = runs d0 @ [(new_run i d input config parent parentStep n0)\<lparr>r_job_id := Some j\<rparr>]"
    by (auto simp: run_added_def)
  with run_added_keys [OF added assms(3)] assms(2) show ?thesis by (auto simp: with_key_new)
qed

definition names_run :: "wf_definition \<Rightarrow> string \<Rightarrow> string \<Rightarrow> world \<Rightarrow> bool" where
  "names_run d key i w \<longleftrightarrow> snapshot w = None \<and> keys_unique (runs (db w))
     \<and> (\<exists>r \<in> set (runs (db w)). with_key (d_name d) key r \<and> r_id r = i)"

lemma Start_names:
  assumes "snapshot w = None" "keys_unique (runs (db w))" "st_key (start_config_of options) \<noteq> []"
    and "run_state (Start c x newID d ci input options) w = (Inr i, w1)"
  shows "names_run d (st_key (start_config_of options)) i w1"
proof -
  from hoareD [OF Start_rule _ assms(4)] assms(1) obtain d1 where w1: "snapshot w1 = None" "db w1 = sent d1"
    and "start_effect x newID d ci input options (db w) i d1" by (auto simp: written_def committed_def)
  then obtain n0 encoded
    where "run_started d encoded (start_config_of options) [] [] (ctx_trace x) newID n0 (db w) i d1"
    by (auto simp: start_effect_def)
  from run_started_key [OF this assms(3,2)] w1 show ?thesis by (simp add: names_run_def)
qed

lemma Start_again:
  assumes "names_run d (st_key (start_config_of options)) i w" "st_key (start_config_of options) \<noteq> []"
    and "run_state (Start c x newID d ci input options) w = (Inr i', w1)"
  shows "i' = i \<and> db w1 = sent (db w)"
proof -
  from assms(1,2) have taken: "key_taken d (start_config_of options) (db w)"
    by (auto simp: names_run_def key_taken_def)
  from hoareD [OF Start_rule _ assms(3)] assms(1)
  obtain d1 n0 encoded where "db w1 = sent d1"
    "run_started d encoded (start_config_of options) [] [] (ctx_trace x) newID n0 (db w) i' d1"
    by (auto simp: written_def committed_def names_run_def start_effect_def)
  with taken assms(1) show ?thesis by (auto simp: run_started_def names_run_def dest: keys_uniqueD)
qed

lemma RunByKey_finds:
  assumes "names_run d key i w" "run_state (RunByKey c d key) w = (r, w1)"
  shows "case r of Inr i' \<Rightarrow> i' = i | Inl e \<Rightarrow> \<not> errors_is e ErrRunNotFound"
proof -
  from assms(1) obtain q where q: "q \<in> set (runs (db w))" "with_key (d_name d) key q" "r_id q = i" "keys_unique (runs (db w))"
    by (auto simp: names_run_def)
  have found: "\<exists>q'. find (with_key (d_name d) key) (runs (db w)) = Some q' \<and> r_id q' = i"
  proof (cases "find (with_key (d_name d) key) (runs (db w))")
    case None
    with q show ?thesis by (auto simp: find_None_iff)
  next
    case (Some q')
    with q show ?thesis by (auto dest!: find_SomeD dest: keys_uniqueD)
  qed
  obtain oc w0 where rt: "round_trip w = (oc, w0)" by (cases "round_trip w")
  with assms found round_trip_frame [OF rt] show ?thesis
    by (cases oc) (auto simp: RunByKey_def run_attempt query_row_def run_query select_run_def split: if_splits)
qed

text \<open>
  C17. A key names one run. When \<open>Start\<close> with a key returned a run, then as long as that run is in the table
  every further \<open>Start\<close> of a workflow with that name and key, with whatever input, returns the same run and
  changes nothing, and \<open>RunByKey\<close> finds it and never reports \<open>ErrRunNotFound\<close>.
\<close>

theorem start_key_round_trip:
  assumes "snapshot w = None" "keys_unique (runs (db w))" "st_key (start_config_of options) = key" "key \<noteq> []"
    and "run_state (Start c x newID d ci input options) w = (Inr i, w1)"
  shows "names_run d key i w1 \<and> (\<forall>w2. names_run d key i w2 \<longrightarrow>
     (\<forall>newID' input' options' i' w3. st_key (start_config_of options') = key \<longrightarrow>
        run_state (Start c x newID' d ci input' options') w2 = (Inr i', w3) \<longrightarrow> i' = i \<and> db w3 = sent (db w2))
     \<and> (case fst (run_state (RunByKey c d key) w2) of Inr i' \<Rightarrow> i' = i | Inl e \<Rightarrow> \<not> errors_is e ErrRunNotFound))"
proof (intro conjI allI impI)
  show "names_run d key i w1" using Start_names [OF assms(1,2) _ assms(5)] assms(3,4) by simp
next
  fix w2 newID' input' options' i' w3
  assume w2: "names_run d key i w2" and key: "st_key (start_config_of options') = key"
    and again: "run_state (Start c x newID' d ci input' options') w2 = (Inr i', w3)"
  from Start_again [OF w2 [folded key] _ again] key assms(4)
  show "i' = i" "db w3 = sent (db w2)" by simp_all
next
  fix w2
  assume "names_run d key i w2"
  then show "case fst (run_state (RunByKey c d key) w2) of Inr i' \<Rightarrow> i' = i | Inl e \<Rightarrow> \<not> errors_is e ErrRunNotFound"
    by (cases "run_state (RunByKey c d key) w2") (auto dest: RunByKey_finds)
qed

theorem start_key_round_trip_witness:
  "\<exists>w'. run_state sample_start wf_world = (Inr ''r7'', w') \<and> names_run sample_def ''k'' ''r7'' w'"
proof -
  obtain w' where run: "run_state sample_start wf_world = (Inr ''r7'', w')" using sample_start_eq by blast
  have "names_run sample_def ''k'' ''r7'' w'"
    by (rule start_key_round_trip [OF _ _ _ _ run [unfolded sample_start_def], THEN conjunct1])
      (simp_all add: wf_world_def initial_world_def keys_unique_def start_config_of_def)
  with run show ?thesis by blast
qed

end
