(* ===== verification/Workflow_Cancel.thy ===== *)
theory Workflow_Cancel
  imports Workflow_Start
begin

text \<open>
  Cancelling a run tree. The level-by-level query computes the descendants of the run, and one round of
  the loop of \<open>cancelTreeTx\<close> cancels all that are unfinished, so the second look finds nothing and the
  loop ends.
\<close>

section \<open>The tree\<close>

definition parent_of :: "run list \<Rightarrow> (string \<times> string) set" where
  "parent_of rs = {(p, i). \<exists>r \<in> set rs. r_parent_run_id r = Some p \<and> r_id r = i}"

definition in_tree :: "run list \<Rightarrow> string \<Rightarrow> string \<Rightarrow> bool" where
  "in_tree rs root i \<longleftrightarrow> root \<in> set (map r_id rs) \<and> (root, i) \<in> (parent_of rs)\<^sup>*"

lemma parent_of_finite: "finite (parent_of rs)" "card (parent_of rs) \<le> length rs"
proof -
  let ?f = "\<lambda>r. (the (r_parent_run_id r), r_id r)"
  have sub: "parent_of rs \<subseteq> ?f ` set rs" by (force simp: parent_of_def)
  then show "finite (parent_of rs)" by (rule finite_subset) simp
  have "card (parent_of rs) \<le> card (?f ` set rs)" using sub by (intro card_mono) simp_all
  also have "\<dots> \<le> length rs" by (metis card_image_le card_length finite_set le_trans)
  finally show "card (parent_of rs) \<le> length rs" .
qed

lemma set_children_of: "set (children_of rs level) = parent_of rs `` set level"
  by (auto simp: children_of_def parent_of_def split: option.splits)

lemma tree_levels_relpow: "set (concat (tree_levels k rs level)) = (\<Union>n \<in> {..<k}. (parent_of rs ^^ n) `` set level)"
proof (induction k arbitrary: level)
  case (Suc k)
  show ?case
  proof (cases "level = []")
    case False
    have "(\<Union>n \<in> {..<Suc k}. (parent_of rs ^^ n) `` set level)
        = set level \<union> (\<Union>n \<in> {..<k}. (parent_of rs ^^ n) `` (parent_of rs `` set level))"
    proof -
      have "{..<Suc k} = insert 0 (Suc ` {..<k})" by (auto simp: lessThan_Suc_eq_insert_0)
      moreover have "(parent_of rs ^^ Suc n) `` set level = (parent_of rs ^^ n) `` (parent_of rs `` set level)" for n
        by (simp only: relpow.simps relpow_commute [symmetric] relcomp_Image)
      ultimately show ?thesis by (simp del: relpow.simps(2))
    qed
    with False Suc.IH show ?thesis by (simp add: set_children_of)
  qed simp
qed simp

lemma run_tree_set: "set (concat (run_tree rs root)) = {i. in_tree rs root i}"
proof -
  have roots: "set (map r_id (filter (\<lambda>r. r_id r = root) rs)) = (if root \<in> set (map r_id rs) then {root} else {})" by auto
  have star: "(parent_of rs)\<^sup>* = (\<Union>n \<in> {..<Suc (length rs)}. parent_of rs ^^ n)"
  proof
    show "(parent_of rs)\<^sup>* \<subseteq> (\<Union>n \<in> {..<Suc (length rs)}. parent_of rs ^^ n)"
      unfolding rtrancl_finite_eq_relpow [OF parent_of_finite(1)] using parent_of_finite(2) [of rs] by fastforce
    show "(\<Union>n \<in> {..<Suc (length rs)}. parent_of rs ^^ n) \<subseteq> (parent_of rs)\<^sup>*"
      by (auto intro: relpow_imp_rtrancl)
  qed
  show ?thesis unfolding run_tree_def tree_levels_relpow roots in_tree_def star by auto
qed

section \<open>One round\<close>

text \<open>The tables after the runs with ids in \<open>I\<close> were cancelled and the jobs with ids in \<open>J\<close> woken.\<close>

definition due_later :: "int set \<Rightarrow> int \<Rightarrow> job \<Rightarrow> bool" where
  "due_later J n j \<longleftrightarrow> ID j \<in> J \<and> Status j = StatusPending \<and> n < AvailableAt j"

definition cancelled_tables :: "int \<Rightarrow> database \<Rightarrow> string set \<Rightarrow> int set \<Rightarrow> database \<Rightarrow> bool" where
  "cancelled_tables n0 d0 I J d \<longleftrightarrow> runs d = upd_where (\<lambda>r. r_id r \<in> I) (cancel_row n0) (runs d0)
     \<and> jobs d = upd_where (due_later J n0) (wake_row n0) (jobs d0)
     \<and> steps d = steps d0 \<and> signals d = signals d0 \<and> schedules d = schedules d0"

lemma upd_again:
  assumes "\<And>r. P r \<Longrightarrow> \<not> Q (f r) \<or> f (f r) = f r"
  shows "upd_where Q f (upd_where P f rows) = upd_where (\<lambda>r. P r \<or> Q r) f rows"
  using assms by (auto simp: upd_where_def)

lemma cancel_more:
  assumes "cancelled_tables n0 d0 I J d"
  shows "cancelled_tables n0 d0 (insert i I) J (d\<lparr>runs := upd_where (\<lambda>r. r_id r = i) (cancel_row n0) (runs d)\<rparr>)"
proof -
  have "upd_where (\<lambda>r. r_id r = i) (cancel_row n0) (upd_where (\<lambda>r. r_id r \<in> I) (cancel_row n0) (runs d0))
      = upd_where (\<lambda>r. r_id r = i \<or> r_id r \<in> I) (cancel_row n0) (runs d0)"
    by (auto simp: upd_where_def cancel_row_def)
  with assms show ?thesis by (simp add: cancelled_tables_def)
qed

lemma wake_rows_due: "wake_rows i n d = update_jobs_notify (due_later {i} n) (wake_row n) d"
  by (simp add: wake_rows_def due_later_def [abs_def])

lemma wake_more:
  assumes "cancelled_tables n0 d0 I J d"
  shows "cancelled_tables n0 d0 I (insert i J) (snd (wake_rows i n0 d))"
proof -
  have "due_later {i} n0 (wake_row n0 j) = False" for j by (simp add: due_later_def wake_row_def)
  then have "upd_where (due_later {i} n0) (wake_row n0) (upd_where (due_later J n0) (wake_row n0) (jobs d0))
      = upd_where (\<lambda>j. due_later J n0 j \<or> due_later {i} n0 j) (wake_row n0) (jobs d0)" by (intro upd_again) simp
  moreover have "(\<lambda>j. due_later J n0 j \<or> due_later {i} n0 j) = due_later (insert i J) n0"
    by (auto simp: due_later_def)
  ultimately show ?thesis using assms by (simp add: cancelled_tables_def wake_rows_due update_jobs_notify_def)
qed

lemma cancelled_notify [simp]: "cancelled_tables n0 d0 I J (d\<lparr>outbox := out\<rparr>) = cancelled_tables n0 d0 I J d"
  by (simp add: cancelled_tables_def)

lemma WakeTx_rule:
  assumes "\<And>d. Q d \<Longrightarrow> Q' (snd (wake_rows j n0 d))"
  shows "hoare (opened d0 n0 Q) (WakeTx c True j) (replies d0 n0 (\<lambda>_. Q'))"
proof -
  have step: "Q' (snd (wake_rows j (now w) (db w)))" if "opened d0 n0 Q w" for w
    using assms [of "db w"] that by (simp add: opened_now [OF that] opened_def)
  show ?thesis unfolding WakeTx_def
    by (intro hoare_if hoare_return attempt_query_tx [where R = "\<lambda>_. Q'"]) (auto intro: step opened_snapshot)
qed

lemma WakeTx_cancelled:
  "hoare (opened d0 n0 (cancelled_tables n0 d0 I J)) (WakeTx c True j)
     (replies d0 n0 (\<lambda>_. cancelled_tables n0 d0 I (insert j J)))"
  by (rule WakeTx_rule) (rule wake_more)

lemma NotifyTx_tx:
  assumes "\<And>d out. Q d \<Longrightarrow> Q (d\<lparr>outbox := out\<rparr>)"
  shows "hoare (opened d0 n0 Q) (NotifyTx c True key) (replies d0 n0 (\<lambda>_. Q))"
  unfolding NotifyTx_def
  by (intro hoare_if hoare_return attempt_query_tx [where R = "\<lambda>_. Q"])
    (auto simp: opened_def on_db_def intro: assms)

lemma cancel_run_tx:
  "hoare (opened d0 n0 (cancelled_tables n0 d0 I J)) (cancel_run c (i, job))
     (replies d0 n0 (\<lambda>_. cancelled_tables n0 d0 (insert i I) (set_option job \<union> J)))"
proof -
  have step: "cancelled_tables n0 d0 (insert i I) J (db (snd (update_runs (\<lambda>r. r_id r = i) cancel_row w)))"
    if "opened d0 n0 (cancelled_tables n0 d0 I J) w" for w
    using cancel_more [of n0 d0 I J "db w" i] that by (simp add: update_runs_def on_db_def opened_now [OF that] opened_def)
  have wake: "hoare (opened d0 n0 (cancelled_tables n0 d0 (insert i I) J))
     (case job of None \<Rightarrow> State_Monad.return (Inr ()) | Some j \<Rightarrow> WakeTx (wc_queue c) True j)
     (replies d0 n0 (\<lambda>_. cancelled_tables n0 d0 (insert i I) (set_option job \<union> J)))"
    by (cases job) (auto intro: hoare_return WakeTx_cancelled)
  show ?thesis unfolding cancel_run_def prod.case
    by (rule exec_tx [where Q' = "cancelled_tables n0 d0 (insert i I) J"])
      (auto simp: step intro!: attempt_tx [OF wake] NotifyTx_tx)
qed

lemma cancel_runs_tx:
  "hoare (opened d0 n0 (cancelled_tables n0 d0 I J)) (cancel_runs c us)
     (replies d0 n0 (\<lambda>_. cancelled_tables n0 d0 (fst ` set us \<union> I) (\<Union> (set_option ` snd ` set us) \<union> J)))"
proof (induction us arbitrary: I J)
  case Nil
  show ?case by (auto intro: hoare_return)
next
  case (Cons u us)
  obtain i job where u: "u = (i, job)" by (cases u)
  have "fst ` set (u # us) \<union> I = fst ` set us \<union> insert i I"
    "\<Union> (set_option ` snd ` set (u # us)) \<union> J = \<Union> (set_option ` snd ` set us) \<union> (set_option job \<union> J)"
    by (auto simp: u)
  with Cons.IH [of "insert i I" "set_option job \<union> J"] show ?case unfolding u cancel_runs.simps
    by (intro attempt_tx [OF cancel_run_tx]) (auto simp: u)
qed

section \<open>The loop\<close>

text \<open>The ids and jobs of the unfinished runs of the tree, as the query lists them.\<close>

definition unfinished_in :: "run list \<Rightarrow> string \<Rightarrow> run set" where
  "unfinished_in rs root = {r \<in> set rs. in_tree rs root (r_id r) \<and> \<not> Finished (r_status r)}"

lemma unfinished_runs_set:
  "set (unfinished_runs rs (concat (run_tree rs root))) = (\<lambda>r. (r_id r, r_job_id r)) ` unfinished_in rs root"
  using run_tree_set [of rs root] by (auto simp: unfinished_runs_def unfinished_in_def)

lemma upd_where_tree:
  assumes "\<And>r. r_id (f r) = r_id r" "\<And>r. r_parent_run_id (f r) = r_parent_run_id r"
  shows "in_tree (upd_where P f rs) root i = in_tree rs root i"
proof -
  have edges: "parent_of qs = {(p, i). (Some p, i) \<in> set (map (\<lambda>r. (r_parent_run_id r, r_id r)) qs)}" for qs
    by (force simp: parent_of_def)
  have "parent_of (upd_where P f rs) = parent_of rs" unfolding edges
    by (subst map_upd_where) (simp_all add: assms)
  moreover have "map r_id (upd_where P f rs) = map r_id rs" using assms by (simp add: upd_where_def)
  ultimately show ?thesis by (simp add: in_tree_def)
qed

lemma cancelled_tree:
  assumes "cancelled_tables n0 d0 (r_id ` unfinished_in (runs d0) root) J d"
  shows "unfinished_in (runs d) root = {}"
proof -
  let ?I = "r_id ` unfinished_in (runs d0) root"
  have d: "runs d = upd_where (\<lambda>r. r_id r \<in> ?I) (cancel_row n0) (runs d0)" using assms by (simp add: cancelled_tables_def)
  have "Finished (r_status q)" if "q \<in> set (runs d)" "in_tree (runs d) root (r_id q)" for q
  proof -
    have "in_tree (runs d0) root (r_id q)" using that(2) unfolding d by (subst (asm) upd_where_tree) (simp_all add: cancel_row_def)
    with that(1) show ?thesis unfolding d
      by (auto simp: upd_where_def unfinished_in_def cancel_row_def Finished_def)
  qed
  then show ?thesis by (auto simp: unfinished_in_def)
qed

definition jobs_of :: "run set \<Rightarrow> int set" where
  "jobs_of rs = \<Union> ((\<lambda>r. set_option (r_job_id r)) ` rs)"

lemma nothing_cancelled: "cancelled_tables n0 d0 {} J d \<Longrightarrow> runs d = runs d0"
  by (simp add: cancelled_tables_def upd_where_none)

lemma unfinishedTree_tx:
  "hoare (opened d0 n0 Q) (unfinishedTreeTx root True) (replies d0 n0 (\<lambda>us d. Q d \<and>
     set us = (\<lambda>r. (r_id r, r_job_id r)) ` unfinished_in (runs d) root))"
  unfolding unfinishedTreeTx_def
  by (rule attempt_query_tx [where R = "\<lambda>us d. Q d \<and> set us = (\<lambda>r. (r_id r, r_job_id r)) ` unfinished_in (runs d) root"])
    (auto simp: plain_def select_unfinished_tree_def Let_def opened_def unfinished_runs_set intro: hoare_return)

definition tree_reply :: "database \<Rightarrow> int \<Rightarrow> (database \<Rightarrow> bool) \<Rightarrow> unit result option \<Rightarrow> world \<Rightarrow> bool" where
  "tree_reply d0 n0 Q r w = (case r of None \<Rightarrow> False | Some q \<Rightarrow> replies d0 n0 (\<lambda>_. Q) q w)"

lemma tree_reply_simps [simp]:
  "tree_reply d0 n0 Q (Some (Inl e)) w \<longleftrightarrow> snapshot w = Some d0"
  "tree_reply d0 n0 Q (Some (Inr u)) w \<longleftrightarrow> opened d0 n0 Q w"
  by (simp_all add: tree_reply_def)

lemma cancelTree_second:
  assumes "\<And>d. Q d \<Longrightarrow> unfinished_in (runs d) root = {}"
  shows "hoare (opened d0 n0 Q) (cancelTreeTx (Suc k) c root True) (tree_reply d0 n0 Q)"
  unfolding cancelTreeTx.simps
proof (rule attempt_tx [OF unfinishedTree_tx])
  fix us
  show "hoare (opened d0 n0 (\<lambda>d. Q d \<and> set us = (\<lambda>r. (r_id r, r_job_id r)) ` unfinished_in (runs d) root))
     (if us = [] then State_Monad.return (Some (Inr ()))
      else attempt (cancel_runs c us) (\<lambda>e. Some (Inl e)) (\<lambda>_. cancelTreeTx k c root True)) (tree_reply d0 n0 Q)"
  proof (rule hoare_assume [where A = "us = []"])
    show "us = []" if "opened d0 n0 (\<lambda>d. Q d \<and> set us = (\<lambda>r. (r_id r, r_job_id r)) ` unfinished_in (runs d) root) s" for s
      using that assms [of "db s"] by (auto simp: opened_def)
  qed (auto intro!: hoare_return elim: opened_mono)
qed simp

lemma cancelTree_tx:
  defines "U \<equiv> \<lambda>d0 root. unfinished_in (runs d0) root"
  shows "hoare (opened d0 n0 (cancelled_tables n0 d0 {} J)) (cancelTreeTx (Suc (Suc k)) c root True)
     (tree_reply d0 n0 (cancelled_tables n0 d0 (r_id ` U d0 root) (jobs_of (U d0 root) \<union> J)))"
proof -
  let ?Q = "cancelled_tables n0 d0 (r_id ` U d0 root) (jobs_of (U d0 root) \<union> J)"
  show ?thesis unfolding cancelTreeTx.simps(2) [of "Suc k"]
  proof (rule attempt_tx [OF unfinishedTree_tx])
    fix us
    show "hoare (opened d0 n0 (\<lambda>d. cancelled_tables n0 d0 {} J d \<and> set us = (\<lambda>r. (r_id r, r_job_id r)) ` unfinished_in (runs d) root))
     (if us = [] then State_Monad.return (Some (Inr ()))
      else attempt (cancel_runs c us) (\<lambda>e. Some (Inl e)) (\<lambda>_. cancelTreeTx (Suc k) c root True)) (tree_reply d0 n0 ?Q)"
    proof (rule hoare_assume [where A = "set us = (\<lambda>r. (r_id r, r_job_id r)) ` U d0 root"])
      show "set us = (\<lambda>r. (r_id r, r_job_id r)) ` U d0 root"
        if "opened d0 n0 (\<lambda>d. cancelled_tables n0 d0 {} J d \<and> set us = (\<lambda>r. (r_id r, r_job_id r)) ` unfinished_in (runs d) root) s" for s
        using that by (auto simp: opened_def U_def dest: nothing_cancelled)
      assume us: "set us = (\<lambda>r. (r_id r, r_job_id r)) ` U d0 root"
      then have sets: "fst ` set us \<union> {} = r_id ` U d0 root" "\<Union> (set_option ` snd ` set us) \<union> J = jobs_of (U d0 root) \<union> J"
        by (auto simp: jobs_of_def image_image)
      have done': "cancelled_tables n0 d0 {} J d \<Longrightarrow> us = [] \<Longrightarrow> ?Q d" for d
        using us by (auto simp: jobs_of_def)
      note round = cancel_runs_tx [where I = "{}" and J = J and us = us and ?d0.0 = d0 and ?n0.0 = n0, unfolded sets]
      have rest: "hoare (opened d0 n0 ?Q) (cancelTreeTx (Suc k) c root True) (tree_reply d0 n0 ?Q)"
        by (rule cancelTree_second) (auto simp: U_def dest: cancelled_tree)
      show ?thesis
        by (intro hoare_if hoare_return attempt_tx [OF hoare_pre [OF round] rest])
          (auto elim: opened_mono dest: done')
    qed
  qed simp
qed

section \<open>Cancelling a run\<close>

definition rows_of :: "run list \<Rightarrow> string \<Rightarrow> run set" where
  "rows_of rs i = {r \<in> set rs. r_id r = i}"

text \<open>
  What \<open>Cancel\<close> does to the tables: exactly the unfinished runs of the tree are cancelled, their jobs are
  due at once, and at most the job of the parent is woken too.
\<close>

definition parent_jobs :: "database \<Rightarrow> string \<Rightarrow> int set" where
  "parent_jobs d0 root = jobs_of {r \<in> set (runs d0). \<exists>q \<in> rows_of (runs d0) root. r_parent_run_id q = Some (r_id r)}"

definition cancel_effect :: "string \<Rightarrow> database \<Rightarrow> database \<Rightarrow> bool" where
  "cancel_effect root d0 d \<longleftrightarrow> (\<exists>n0 J. J \<subseteq> parent_jobs d0 root \<and> cancelled_tables n0 d0 (r_id ` unfinished_in (runs d0) root) (jobs_of (unfinished_in (runs d0) root) \<union> J) d)"

lemma cancel_effectI:
  "J \<subseteq> parent_jobs d0 root \<Longrightarrow>
   cancelled_tables n0 d0 (r_id ` unfinished_in (runs d0) root) (jobs_of (unfinished_in (runs d0) root) \<union> J) d \<Longrightarrow>
   cancel_effect root d0 d"
  unfolding cancel_effect_def by blast

lemma cancelled_start: "cancelled_tables n0 d0 {} {} d0"
  by (simp add: cancelled_tables_def due_later_def upd_where_none)

text \<open>Waking the parent: at most its job changes.\<close>

lemma wakeParent_cancelled:
  "hoare (opened d0 n0 (\<lambda>d. d = d0)) (wakeParentTx c p)
     (replies d0 n0 (\<lambda>_ d. \<exists>J. J \<subseteq> jobs_of (rows_of (runs d0) p) \<and> cancelled_tables n0 d0 {} J d))"
proof -
  let ?R = "\<lambda>_ d. \<exists>J. J \<subseteq> jobs_of (rows_of (runs d0) p) \<and> cancelled_tables n0 d0 {} J d"
  have stay: "opened d0 n0 (?R ()) w" if "opened d0 n0 Q' w" "\<And>d. Q' d \<Longrightarrow> d = d0" for w Q'
    by (rule opened_mono [OF that(1)]) (auto dest: that(2) intro: exI [of _ "{}"] cancelled_start)
  have wake: "hoare (opened d0 n0 (\<lambda>d. d = d0 \<and> (\<exists>r \<in> set (runs d). r_id r = p \<and> r_status r = st \<and> r_job_id r = Some j)))
     (WakeTx (wc_queue c) True j) (replies d0 n0 ?R)" for st j
  proof (rule hoare_assume [where A = "{j} \<subseteq> jobs_of (rows_of (runs d0) p)"])
    assume j: "{j} \<subseteq> jobs_of (rows_of (runs d0) p)"
    have "replies d0 n0 ?R a w" if "replies d0 n0 (\<lambda>_. cancelled_tables n0 d0 {} {j}) a w" for a w
      by (rule replies_mono [OF that]) (use j in blast)
    from hoare_post [OF WakeTx_cancelled [where I = "{}" and J = "{}"] this]
    show ?thesis by (rule hoare_pre) (auto simp: opened_def cancelled_start)
  qed (auto simp: opened_def jobs_of_def rows_of_def)
  show ?thesis unfolding wakeParentTx_def lockRunToNotifyTx_def
    by (intro hoare_lockRun hoare_return)
      (auto simp: aborted_def split: option.split intro!: hoare_return wake intro: stay)
qed

text \<open>The answers of \<open>Cancel\<close>, before and after the deferred rollback.\<close>

definition cancel_answer :: "string \<Rightarrow> database \<Rightarrow> (world \<Rightarrow> bool) \<Rightarrow> (world \<Rightarrow> bool) \<Rightarrow> unit result option \<Rightarrow> world \<Rightarrow> bool" where
  "cancel_answer root d0 kept failed r w = (case r of
       None \<Rightarrow> False
     | Some (Inl _) \<Rightarrow> failed w
     | Some (Inr _) \<Rightarrow> \<exists>q \<in> rows_of (runs d0) root. r_status q = RunCancelled \<and> kept w
         \<or> \<not> Finished (r_status q) \<and> committed (cancel_effect root d0) w)"

lemma cancel_answer_simps [simp]:
  "cancel_answer root d0 kept failed (Some (Inl e)) w = failed w"
  "cancel_answer root d0 kept failed (Some (Inr u)) w = (\<exists>q \<in> rows_of (runs d0) root. r_status q = RunCancelled \<and> kept w
         \<or> \<not> Finished (r_status q) \<and> committed (cancel_effect root d0) w)"
  by (simp_all add: cancel_answer_def)

lemma deferring_cancel:
  assumes "hoare P m (cancel_answer root d0 (undone d0) (ending d0 (cancel_effect root d0)))"
  shows "hoare P (deferring_rollback m) (cancel_answer root d0 (untouched d0) (closed d0 (cancel_effect root d0)))"
  unfolding deferring_rollback_def
proof (rule hoare_bind [OF assms], rule hoare_bind [OF hoare_update hoare_return])
  fix r w
  assume "cancel_answer root d0 (undone d0) (ending d0 (cancel_effect root d0)) r w"
  moreover have "restore w = w" if "committed (cancel_effect root d0) w" using that by (simp add: committed_def)
  moreover have "untouched d0 (restore w)" if "undone d0 w" using that by (auto simp: restore_untouched)
  ultimately show "cancel_answer root d0 (untouched d0) (closed d0 (cancel_effect root d0)) r (restore w)"
    by (auto simp: cancel_answer_def intro: ending_restore split: option.splits sum.splits)
qed

lemma opened_ex: "(\<And>x. hoare (opened d0 n0 (Q x)) m R) \<Longrightarrow> hoare (opened d0 n0 (\<lambda>d. \<exists>x. Q x d)) m R"
  by (fastforce simp: hoare_def opened_def)

lemma opened_assume:
  "(A \<Longrightarrow> hoare (opened d0 n0 Q) m R) \<Longrightarrow> hoare (opened d0 n0 (\<lambda>d. A \<and> Q d)) m R"
  by (fastforce simp: hoare_def opened_def)

text \<open>The tables before the tree is cancelled: at most the parent was woken.\<close>

abbreviation parent_woken :: "string \<Rightarrow> database \<Rightarrow> int \<Rightarrow> database \<Rightarrow> bool" where
  "parent_woken root d0 n0 d \<equiv> \<exists>J. J \<subseteq> parent_jobs d0 root \<and> cancelled_tables n0 d0 {} J d"

lemma cancel_tree_and_commit:
  assumes "q \<in> rows_of (runs d0) root" "\<not> Finished (r_status q)"
  shows "hoare (opened d0 n0 (parent_woken root d0 n0))
     (do {
        r \<leftarrow> cancelTreeTx (Suc (Suc k)) c root True;
        (case r of
           None \<Rightarrow> State_Monad.return None
         | Some (Inl e) \<Rightarrow> State_Monad.return (Some (Inl e))
         | Some (Inr _) \<Rightarrow> attempt commit_tx (\<lambda>e. Some (Inl (wrap ''workflow: commit cancel: '' e)))
             (\<lambda>_. State_Monad.return (Some (Inr ())))) })
     (cancel_answer root d0 (undone d0) (ending d0 (cancel_effect root d0)))"
proof -
  have tree: "hoare (opened d0 n0 (parent_woken root d0 n0)) (cancelTreeTx (Suc (Suc k)) c root True)
     (tree_reply d0 n0 (cancel_effect root d0))"
    by (intro opened_ex opened_assume hoare_post [OF cancelTree_tx])
      (auto simp: tree_reply_def split: option.splits elim!: replies_mono intro: cancel_effectI)
  have commit: "hoare (opened d0 n0 (cancel_effect root d0)) (attempt commit_tx (\<lambda>e. Some (Inl (h e))) (\<lambda>_. State_Monad.return (Some (Inr ()))))
     (cancel_answer root d0 (undone d0) (ending d0 (cancel_effect root d0)))" for h
    by (rule attempt_commit) (use assms in \<open>auto simp: closed_ending\<close>)
  show ?thesis
    by (rule hoare_bind [OF tree])
      (auto simp: tree_reply_def ending_def split: option.split sum.split intro!: hoare_return hoare_pre [OF commit])
qed

lemma attempt_lockRun:
  assumes "\<And>e w. snapshot w = Some d0 \<Longrightarrow> P (h e) w"
    and "\<And>st j. hoare (opened d0 n0 (\<lambda>d. Q d \<and> (\<exists>r \<in> set (runs d). r_id r = i \<and> r_status r = st \<and> r_job_id r = j))) (k (st, j)) P"
  shows "hoare (opened d0 n0 Q) (attempt (lockRun i) h k) P"
  unfolding attempt_def
  by (intro hoare_lockRun hoare_return) (auto simp: opened_def aborted_def intro: assms)

text \<open>The run is locked and its status read.\<close>

lemma cancel_locked:
  "hoare (opened d0 n0 (parent_woken root d0 n0))
     (attempt (lockRunTx root) (\<lambda>e. Some (Inl e)) (\<lambda>(status, _).
        if status = RunCancelled then State_Monad.return (Some (Inr ()))
        else if status = RunSucceeded \<or> status = RunFailed then State_Monad.return (Some (Inl (msg status)))
        else do {
          r \<leftarrow> cancelTreeTx (Suc (Suc k)) c root True;
          (case r of
             None \<Rightarrow> State_Monad.return None
           | Some (Inl e) \<Rightarrow> State_Monad.return (Some (Inl e))
           | Some (Inr _) \<Rightarrow> attempt commit_tx (\<lambda>e. Some (Inl (wrap ''workflow: commit cancel: '' e)))
               (\<lambda>_. State_Monad.return (Some (Inr ())))) }))
     (cancel_answer root d0 (undone d0) (ending d0 (cancel_effect root d0)))"
  unfolding lockRunTx_def
proof (rule attempt_lockRun, goal_cases)
  case (2 st j)
  show ?case
  proof (rule hoare_assume [where A = "\<exists>q \<in> rows_of (runs d0) root. r_status q = st"])
    show "\<exists>q \<in> rows_of (runs d0) root. r_status q = st"
      if "opened d0 n0 (\<lambda>d. parent_woken root d0 n0 d \<and> (\<exists>r \<in> set (runs d). r_id r = root \<and> r_status r = st \<and> r_job_id r = j)) s" for s
      using that by (auto simp: opened_def rows_of_def dest!: nothing_cancelled)
    assume "\<exists>q \<in> rows_of (runs d0) root. r_status q = st"
    then obtain q where q: "q \<in> rows_of (runs d0) root" "r_status q = st" by blast
    show ?thesis unfolding prod.case
    proof (intro hoare_if hoare_return)
      assume "st \<noteq> RunCancelled" "\<not> (st = RunSucceeded \<or> st = RunFailed)"
      with q have "\<not> Finished (r_status q)" by (simp add: Finished_def)
      note cancel_tree_and_commit [OF q(1) this]
      then show "hoare (opened d0 n0 (\<lambda>d. parent_woken root d0 n0 d \<and>
            (\<exists>r \<in> set (runs d). r_id r = root \<and> r_status r = st \<and> r_job_id r = j)))
         (do {
          r \<leftarrow> cancelTreeTx (Suc (Suc k)) c root True;
          (case r of
             None \<Rightarrow> State_Monad.return None
           | Some (Inl e) \<Rightarrow> State_Monad.return (Some (Inl e))
           | Some (Inr _) \<Rightarrow> attempt commit_tx (\<lambda>e. Some (Inl (wrap ''workflow: commit cancel: '' e)))
               (\<lambda>_. State_Monad.return (Some (Inr ())))) })
         (cancel_answer root d0 (undone d0) (ending d0 (cancel_effect root d0)))"
        by (rule hoare_pre) (erule opened_mono, blast)
    qed (use q in \<open>auto simp: opened_def ending_def\<close>)
  qed
qed (simp add: ending_def)

lemma opened_found:
  "opened d0 n0 (\<lambda>d. d = d0) w \<Longrightarrow> r \<in> set (runs (db w)) \<Longrightarrow> r_id r = root \<Longrightarrow>
   db w = d0 \<and> (\<exists>q \<in> rows_of (runs d0) root. r_parent_run_id q = r_parent_run_id r)"
  by (auto simp: opened_def rows_of_def)

lemma Cancel_rule:
  "hoare (untouched d0) (Cancel (Suc (Suc k)) c root)
     (cancel_answer root d0 (untouched d0) (closed d0 (cancel_effect root d0)))"
  unfolding Cancel_def
proof (intro attempt_begin deferring_cancel, goal_cases)
  case (2 n0)
  let ?Found = "\<lambda>parent d. d = d0 \<and> (\<exists>q \<in> rows_of (runs d0) root. r_parent_run_id q = parent)"
  have wake: "hoare (opened d0 n0 (?Found parent))
      (case parent of None \<Rightarrow> State_Monad.return (Inr ()) | Some p \<Rightarrow> wakeParentTx c p)
      (replies d0 n0 (\<lambda>_. parent_woken root d0 n0))" for parent
  proof (cases parent)
    case None
    then show ?thesis
      by (auto simp: opened_def intro!: hoare_return exI [of _ "{}"] cancelled_start)
  next
    case (Some p)
    show ?thesis unfolding Some option.case
    proof (rule hoare_assume [where A = "jobs_of (rows_of (runs d0) p) \<subseteq> parent_jobs d0 root"])
      assume "jobs_of (rows_of (runs d0) p) \<subseteq> parent_jobs d0 root"
      then have "replies d0 n0 (\<lambda>_. parent_woken root d0 n0) a w"
        if "replies d0 n0 (\<lambda>_ d. \<exists>J. J \<subseteq> jobs_of (rows_of (runs d0) p) \<and> cancelled_tables n0 d0 {} J d) a w" for a w
        by (intro replies_mono [OF that]) blast
      from hoare_post [OF wakeParent_cancelled this]
      show "hoare (opened d0 n0 (?Found (Some p))) (wakeParentTx c p) (replies d0 n0 (\<lambda>_. parent_woken root d0 n0))"
        by (rule hoare_pre) (auto elim: opened_mono)
    qed (auto simp: opened_def jobs_of_def rows_of_def parent_jobs_def)
  qed
  show ?case
    by (rule attempt_query_row_tx [where R = ?Found])
      (auto simp: select_run_def opened_snapshot ending_def dest!: find_SomeD intro!: attempt_tx [OF wake] cancel_locked
        elim!: opened_found)
qed (auto simp: closed_def)

text \<open>With unique ids, the rows that change are the unfinished runs of the tree themselves.\<close>

definition tree_cancelled :: "string \<Rightarrow> database \<Rightarrow> database \<Rightarrow> bool" where
  "tree_cancelled root d0 d \<longleftrightarrow> (\<exists>n J. J \<subseteq> parent_jobs d0 root
     \<and> runs d = upd_where (\<lambda>r. in_tree (runs d0) root (r_id r) \<and> \<not> Finished (r_status r)) (cancel_row n) (runs d0)
     \<and> jobs d = upd_where (due_later (jobs_of (unfinished_in (runs d0) root) \<union> J) n) (wake_row n) (jobs d0)
     \<and> steps d = steps d0 \<and> signals d = signals d0 \<and> schedules d = schedules d0)"

lemma upd_where_cong: "(\<And>r. r \<in> set rows \<Longrightarrow> P r = Q r) \<Longrightarrow> upd_where P f rows = upd_where Q f rows"
  by (simp add: upd_where_def)

lemma effect_tree_cancelled:
  assumes "distinct (map r_id (runs d0))" "cancel_effect root d0 d"
  shows "tree_cancelled root d0 (sent d)"
proof -
  from assms(2) obtain n J where J: "J \<subseteq> parent_jobs d0 root"
    and c: "cancelled_tables n d0 (r_id ` unfinished_in (runs d0) root) (jobs_of (unfinished_in (runs d0) root) \<union> J) d"
    by (auto simp: cancel_effect_def)
  have "upd_where (\<lambda>r. r_id r \<in> r_id ` unfinished_in (runs d0) root) (cancel_row n) (runs d0)
      = upd_where (\<lambda>r. in_tree (runs d0) root (r_id r) \<and> \<not> Finished (r_status r)) (cancel_row n) (runs d0)"
    using assms(1) by (intro upd_where_cong) (auto simp: unfinished_in_def distinct_map inj_on_def image_iff)
  with J c show ?thesis unfolding tree_cancelled_def
    by (intro exI [of _ n] exI [of _ J]) (simp add: cancelled_tables_def)
qed

text \<open>
  C11. \<open>Cancel\<close> cancels exactly the run tree. It always returns (two looks at the tree are enough). When it
  succeeds, the run was cancelled already and nothing changed, or it was unfinished and in one transaction
  every unfinished run that descends from it, at any depth, and no other run became cancelled, their waiting
  jobs became due so that workers notice, at most the parent's job was woken, and no other table changed.
  After an error nothing changed, or only the confirmation of the commit was lost.
\<close>

theorem cancel_exact:
  assumes "snapshot w = None" "distinct (map r_id (runs (db w)))" "run_state (Cancel (Suc (Suc fuel)) c root) w = (r, w')"
  shows "snapshot w' = None \<and> (case r of
      None \<Rightarrow> False
    | Some (Inr _) \<Rightarrow> \<exists>q \<in> set (runs (db w)). r_id q = root \<and> (r_status q = RunCancelled \<and> db w' = db w
        \<or> \<not> Finished (r_status q) \<and> tree_cancelled root (db w) (db w'))
    | Some (Inl _) \<Rightarrow> db w' = db w \<or> tree_cancelled root (db w) (db w'))"
proof -
  have "cancel_answer root (db w) (untouched (db w)) (closed (db w) (cancel_effect root (db w))) r w'"
    using hoareD [OF Cancel_rule _ assms(3)] assms(1) by simp
  with effect_tree_cancelled [OF assms(2)] show ?thesis
    by (auto simp: cancel_answer_def closed_def committed_def rows_of_def split: option.splits sum.splits)
qed

theorem cancel_exact_witness:
  "\<exists>w'. run_state (Cancel 2 sample_wf_client ''r1'') wf_world = (Some (Inr ()), w')
     \<and> tree_cancelled ''r1'' (db wf_world) (db w')"
proof -
  have "fst (run_state (Cancel 2 sample_wf_client ''r1'') wf_world) = Some (Inr ())" by code_simp
  then obtain w' where run: "run_state (Cancel (Suc (Suc 0)) sample_wf_client ''r1'') wf_world = (Some (Inr ()), w')"
    by (cases "run_state (Cancel 2 sample_wf_client ''r1'') wf_world") (auto simp: numeral_2_eq_2)
  from cancel_exact [OF _ _ run] run show ?thesis
    by (auto simp: numeral_2_eq_2 wf_world_def initial_world_def sample_run_def)
qed

end
