(* ===== verification/Workflow_Takeover.thy ===== *)
theory Workflow_Takeover
  imports Workflow_Cancel
begin

text \<open>
  How an activation begins and how it ends: taking a run over supersedes every earlier activation, and
  finishing writes the run's final status together with the acknowledgement of its job.
\<close>

section \<open>Calls on the claim\<close>

lemma plain_select_claim [simp]: "plain (select_claim mine)"
  by (simp add: plain_def select_claim_def)

text \<open>\<open>LockClaimTx\<close> succeeds only for the claim's holder and changes nothing.\<close>

lemma LockClaim_tx:
  "hoare (opened d0 n0 Q) (LockClaimTx c True mine)
     (replies d0 n0 (\<lambda>_ d. Q d \<and> (\<exists>j \<in> set (jobs d). holds_claim mine j)))"
  unfolding LockClaimTx_def
  by (intro hoare_if hoare_return
      attempt_query_row_tx [where R = "\<lambda>_ d. Q d \<and> (\<exists>j \<in> set (jobs d). holds_claim mine j)"])
    (auto simp: select_claim_def opened_def split: if_splits)

lemma AckTx_tx:
  assumes "\<And>d. Q d \<Longrightarrow> Q' (d\<lparr>jobs := upd_where (is_processing i) (ack_row n0) (jobs d)\<rparr>)"
  shows "hoare (opened d0 n0 Q) (AckTx c True i) (replies d0 n0 (\<lambda>_. Q'))"
proof -
  have step: "Q' (snd (update_jobs (is_processing i) (ack_row (now w)) (db w)))" if "opened d0 n0 Q w" for w
    using that assms [of "db w"] by (simp add: opened_now [OF that] update_jobs_def opened_def)
  show ?thesis unfolding AckTx_def ackCore_def
    by (intro hoare_if hoare_return attempt_query_tx [where R = "\<lambda>_. Q'"] hoare_then_emit)
      (auto intro: step opened_snapshot)
qed

section \<open>Taking a run over\<close>

definition run_taken :: "string \<Rightarrow> job \<Rightarrow> database \<Rightarrow> run \<Rightarrow> database \<Rightarrow> bool" where
  "run_taken runID job d0 row d \<longleftrightarrow> (\<exists>n0. \<exists>r \<in> set (runs d0). activatable runID (ID job) r \<and> row = activate_row n0 r
     \<and> (\<exists>j \<in> set (jobs d0). holds_claim job j)
     \<and> d = d0\<lparr>runs := upd_where (activatable runID (ID job)) (activate_row n0) (runs d0)\<rparr>)"

definition run_gone :: "string \<Rightarrow> job \<Rightarrow> database \<Rightarrow> database \<Rightarrow> bool" where
  "run_gone runID job d0 d \<longleftrightarrow> (\<forall>r \<in> set (runs d0). \<not> activatable runID (ID job) r) \<and> (\<exists>n0. d = d0\<lparr>jobs := upd_where (is_processing (ID job)) (ack_row n0) (jobs d0)\<rparr>)"

lemma plain_activate [simp]: "plain (activate_run runID j)"
  by (simp add: plain_def activate_run_def)

text \<open>What the activation knows of the tables after taking the run over.\<close>

definition reads_checkpoints :: "activation \<Rightarrow> string \<Rightarrow> database \<Rightarrow> bool" where
  "reads_checkpoints a runID d \<longleftrightarrow> (\<forall>key cp. a_checkpoints a key = Some cp \<longrightarrow>
     (\<exists>s \<in> set (steps d). at_step runID key s \<and> cp_kind cp = s_kind s \<and> cp_status cp = s_status s
        \<and> cp_attempts cp = s_attempts s \<and> cp_output cp = s_output s))
     \<and> (\<forall>s \<in> set (steps d). s_run_id s = runID \<longrightarrow> a_checkpoints a (s_name s) \<noteq> None)"

lemma loaded_checkpoints:
  assumes "cps = map (\<lambda>s. (s_name s, scanCheckpoint w s)) (filter (\<lambda>s. s_run_id s = runID) (steps d))"
  shows "reads_checkpoints (new_activation c def config job runID row deadline cps) runID d"
proof -
  have "\<exists>s \<in> set (steps d). at_step runID key s \<and> cp = scanCheckpoint w s" if "map_of (rev cps) key = Some cp" for key cp
    using map_of_SomeD [OF that] assms by (auto simp: at_step_def)
  moreover have "map_of (rev cps) (s_name s) \<noteq> None" if "s \<in> set (steps d)" "s_run_id s = runID" for s
  proof -
    from that assms have "(s_name s, scanCheckpoint w s) \<in> set cps" by auto
    then have "s_name s \<in> fst ` set (rev cps)" by force
    then show ?thesis by (simp only: map_of_eq_None_iff) simp
  qed
  ultimately show ?thesis by (fastforce simp: reads_checkpoints_def new_activation_def scanCheckpoint_def)
qed

text \<open>The answers of \<open>beginActivation\<close>, before (\<open>ending\<close>) and after (\<open>closed\<close>) the deferred rollback.\<close>

definition begun ::
  "string \<Rightarrow> job \<Rightarrow> database \<Rightarrow> ((database \<Rightarrow> bool) \<Rightarrow> world \<Rightarrow> bool) \<Rightarrow> activation option result \<Rightarrow> world \<Rightarrow> bool" where
  "begun runID job d0 close r w = (case r of
       Inr (Some a) \<Rightarrow> a_runID a = runID \<and> a_job a = job \<and> (\<exists>row. a_lease a = r_lease row
         \<and> committed (run_taken runID job d0 row) w) \<and> reads_checkpoints a runID (db w)
     | _ \<Rightarrow> close (\<lambda>d. run_gone runID job d0 d \<or> (isl r \<and> (\<exists>row. run_taken runID job d0 row d))) w)"

lemma begun_simps:
  "begun runID job d0 close (Inl e) w = close (\<lambda>d. run_gone runID job d0 d \<or> (\<exists>row. run_taken runID job d0 row d)) w"
  "begun runID job d0 close (Inr None) w = close (run_gone runID job d0) w"
  by (simp_all add: begun_def)

lemma sent_sent [simp]: "sent (sent d) = sent d"
  by (simp add: sent_def)

lemma committed_query:
  "hoare (committed Q) (query (\<lambda>w. (g w, w))) (\<lambda>r w. committed Q w \<and> (\<forall>x. r = Inr x \<longrightarrow> (\<exists>w0. steps (db w0) = steps (db w) \<and> x = g w0)))"
proof (rule hoareI)
  fix w r w'
  assume w: "committed Q w" and run: "run_state (query (\<lambda>w. (g w, w))) w = (r, w')"
  obtain oc w1 where rt: "round_trip w = (oc, w1)" by (cases "round_trip w")
  note f = round_trip_frame [OF rt]
  have w1: "committed Q w1" using w f by (simp add: committed_def)
  then have pub: "db (publish w1) = db w1" by (auto simp: committed_def publish_def sent_def)
  from run rt w1 show "committed Q w' \<and> (\<forall>x. r = Inr x \<longrightarrow> (\<exists>w0. steps (db w0) = steps (db w') \<and> x = g w0))"
    by (cases oc) (auto simp: run_query end_statement_def committed_def pub split: if_splits intro: exI [of _ w1])
qed

lemma deferring_begun:
  assumes "hoare P m (begun runID job d0 (ending d0))"
  shows "hoare P (deferring_rollback m) (begun runID job d0 (closed d0))"
  unfolding deferring_rollback_def
proof (rule hoare_bind [OF assms], rule hoare_bind [OF hoare_update hoare_return])
  fix r w
  assume b: "begun runID job d0 (ending d0) r w"
  have "restore w = w" if "committed Q w" for Q using that by (simp add: committed_def)
  with b show "begun runID job d0 (closed d0) r (restore w)"
    by (auto simp: begun_def intro: ending_restore split: sum.splits option.splits)
qed

text \<open>The statement that takes the run: the row it returns and what it changes.\<close>

lemma activate_taken:
  assumes "opened d0 n0 (\<lambda>d. d = d0 \<and> (\<exists>j \<in> set (jobs d). holds_claim job j)) w"
    and "fst (activate_run runID (ID job) w) = Some (row, deadline)"
  shows "run_taken runID job d0 row (db (snd (activate_run runID (ID job) w)))"
proof -
  from assms(2) obtain r where "find (activatable runID (ID job)) (runs (db w)) = Some r" "row = activate_row (now w) r"
    by (auto simp: activate_run_def)
  with assms(1) show ?thesis
    by (auto simp: run_taken_def activate_run_def opened_def dest!: find_SomeD)
qed

lemma loadCheckpoints_begun:
  "hoare (committed (run_taken runID job d0 row))
     (attempt (loadCheckpoints runID) Inl (\<lambda>cps. State_Monad.return
        (Inr (Some (new_activation c def config job runID row deadline cps)))))
     (begun runID job d0 (ending d0))"
proof (rule hoareI)
  let ?g = "\<lambda>w. map (\<lambda>s. (s_name s, scanCheckpoint w s)) (filter (\<lambda>s. s_run_id s = runID) (steps (db w)))"
  have sel: "select_checkpoints runID = (\<lambda>w. (?g w, w))" by (simp add: select_checkpoints_def fun_eq_iff)
  fix w r w'
  assume w: "committed (run_taken runID job d0 row) w"
    and run: "run_state (attempt (loadCheckpoints runID) Inl (\<lambda>cps. State_Monad.return
        (Inr (Some (new_activation c def config job runID row deadline cps))))) w = (r, w')"
  obtain q u where q: "run_state (query (select_checkpoints runID)) w = (q, u)" by fastforce
  from hoareD [OF committed_query w q [unfolded sel]]
  have u: "committed (run_taken runID job d0 row) u" "q = Inr cps \<Longrightarrow> \<exists>w0. steps (db w0) = steps (db u) \<and> cps = ?g w0" for cps
    by simp_all
  show "begun runID job d0 (ending d0) r w'"
  proof (cases q)
    case (Inl e)
    with run q have "r = Inl (wrap ''workflow: load checkpoints: '' e)" "w' = u"
      by (simp_all add: loadCheckpoints_def run_attempt)
    with u(1) show ?thesis by (auto simp: begun_simps ending_def closed_def committed_def)
  next
    case (Inr cps)
    with run q have r: "r = Inr (Some (new_activation c def config job runID row deadline cps))" "w' = u"
      by (simp_all add: loadCheckpoints_def run_attempt)
    from u(2) [OF Inr] obtain w0 where "steps (db w0) = steps (db u)" "cps = ?g w0" by blast
    then have "reads_checkpoints (new_activation c def config job runID row deadline cps) runID (db u)"
      by (intro loaded_checkpoints [of _ w0]) simp
    with u(1) r show ?thesis by (auto simp: begun_def new_activation_def)
  qed
qed

lemma no_rows_not_fault [simp]: "\<not> is_fault (Sentinel SqlErrNoRows)"
  using is_fault_not(2) [of "Sentinel SqlErrNoRows"] by auto

lemma beginActivation_rule:
  "hoare (untouched d0) (beginActivation c def config job runID) (begun runID job d0 (closed d0))"
  unfolding beginActivation_def Let_def
proof (intro attempt_begin deferring_begun, goal_cases)
  case (2 n0)
  let ?H = "\<lambda>d. d = d0 \<and> (\<exists>j \<in> set (jobs d). holds_claim job j)"
  let ?G = "\<lambda>d. d = d0 \<and> (\<forall>r \<in> set (runs d0). \<not> activatable runID (ID job) r)"
  have gone: "hoare (opened d0 n0 ?G) (attempt (AckTx (wc_queue c) True (ID job)) Inl (\<lambda>_.
        attempt commit_tx Inl (\<lambda>_. State_Monad.return (Inr None)))) (begun runID job d0 (ending d0))"
    by (rule attempt_tx [OF AckTx_tx [where Q' = "run_gone runID job d0"]], force simp: run_gone_def, rule attempt_commit)
      (auto simp: begun_simps ending_def closed_def committed_def)
  have taken: "hoare (opened d0 n0 (run_taken runID job d0 row))
      (attempt commit_tx (\<lambda>e. Inl (h e)) (\<lambda>_. attempt (loadCheckpoints runID) Inl (\<lambda>cps. State_Monad.return
         (Inr (Some (new_activation c def config job runID row deadline cps)))))) (begun runID job d0 (ending d0))" for row deadline h
    by (rule hoare_attempt [where R = "\<lambda>_. committed (run_taken runID job d0 row)"], rule hoare_post [OF commit_tx_rule])
      (auto simp: begun_simps ending_def closed_def split: sum.splits intro: loadCheckpoints_begun)
  have row: "hoare (opened d0 n0 ?H) (query_row (activate_run runID (ID job))) (\<lambda>r w. case r of
      Inl e \<Rightarrow> is_fault e \<and> aborted d0 w \<or> e = Sentinel SqlErrNoRows \<and> opened d0 n0 ?G w
    | Inr a \<Rightarrow> opened d0 n0 (run_taken runID job d0 (fst a)) w)"
  proof (rule query_row_tx)
    show "run_taken runID job d0 (fst a) (db (snd (activate_run runID (ID job) w)))"
      if "opened d0 n0 ?H w" "fst (activate_run runID (ID job) w) = Some a" for w a
      using activate_taken [of d0 n0 job w runID "fst a" "snd a"] that by simp
    show "db (snd (activate_run runID (ID job) w)) = d0 \<and> (\<forall>r \<in> set (runs d0). \<not> activatable runID (ID job) r)"
      if "opened d0 n0 ?H w" "fst (activate_run runID (ID job) w) = None" for w
      using that by (auto simp: activate_run_def opened_def find_None_iff upd_where_none)
  qed simp
  have query: "hoare (opened d0 n0 ?H) (do { r \<leftarrow> query_row (activate_run runID (ID job));
      (case r of
         Inl e \<Rightarrow>
           if errors_is e SqlErrNoRows
           then attempt (AckTx (wc_queue c) True (ID job)) Inl (\<lambda>_. attempt commit_tx Inl (\<lambda>_. State_Monad.return (Inr None)))
           else State_Monad.return (Inl (wrap (''workflow: begin run '' @ runID @ '': '') e))
       | Inr (row, deadline) \<Rightarrow>
           attempt commit_tx (\<lambda>e. Inl (wrap (''workflow: commit run '' @ runID @ '' start: '') e)) (\<lambda>_.
             attempt (loadCheckpoints runID) Inl (\<lambda>cps. State_Monad.return
               (Inr (Some (new_activation c def config job runID row deadline cps)))))) })
     (begun runID job d0 (ending d0))"
  proof (rule hoare_bind [OF row], rule hoare_case_sum, goal_cases)
    case (1 r e)
    show ?case unfolding 1 sum.case
      by (rule hoare_if; rule hoare_assume [where A = "\<not> is_fault e \<or> \<not> errors_is e SqlErrNoRows"])
        (auto simp: begun_simps aborted_def opened_def ending_def intro!: hoare_pre [OF gone] hoare_return)
  next
    case (2 r x)
    then show ?case by (cases x) (simp add: taken)
  qed
  show ?case
  proof (rule hoare_bind [OF LockClaim_tx], rule hoare_case_sum, goal_cases)
    case (1 r e)
    then show ?case by (auto simp: begun_simps ending_def intro!: hoare_return)
  next
    case (2 r x)
    show ?case unfolding 2 replies_simps by (rule query)
  qed
qed (auto simp: begun_simps closed_def)

lemma taken_owned:
  assumes "distinct (map r_id (runs d0))" "run_taken runID job d0 row d" "a_runID a = runID" "a_lease a = r_lease row"
  shows "owns a (sent d)" "a_runID b = runID \<Longrightarrow> a_lease b \<noteq> a_lease a \<Longrightarrow> superseded b (sent d)"
    "\<exists>r \<in> set (runs d0). activatable runID (ID job) r \<and> a_lease a = r_lease r + 1"
    "\<exists>j \<in> set (jobs d0). holds_claim job j" "steps (sent d) = steps d0" "jobs (sent d) = jobs d0"
proof -
  from assms(2) obtain n0 r where r: "r \<in> set (runs d0)" "activatable runID (ID job) r" "row = activate_row n0 r"
    and claim: "\<exists>j \<in> set (jobs d0). holds_claim job j"
    and d: "d = d0\<lparr>runs := upd_where (activatable runID (ID job)) (activate_row n0) (runs d0)\<rparr>"
    by (auto simp: run_taken_def)
  have only: "q = r" if "q \<in> set (runs d0)" "r_id q = runID" for q
    using that r assms(1) by (auto simp: distinct_map inj_on_def activatable_def)
  have rows: "set (runs d) = activate_row n0 ` {q \<in> set (runs d0). activatable runID (ID job) q}
      \<union> {q \<in> set (runs d0). \<not> activatable runID (ID job) q}" by (auto simp: d set_upd_where)
  show "owns a (sent d)" using r assms(3,4)
    by (auto simp: owns_def rows owned_by_def activate_row_def activatable_def intro!: bexI [of _ "activate_row n0 r"])
  show "superseded b (sent d)" if "a_runID b = runID" "a_lease b \<noteq> a_lease a"
    unfolding superseded_def sent_fields
  proof
    fix q
    assume "q \<in> set (runs d)"
    then consider p where "p \<in> set (runs d0)" "activatable runID (ID job) p" "q = activate_row n0 p"
      | "q \<in> set (runs d0)" "\<not> activatable runID (ID job) q" by (auto simp: rows)
    then show "\<not> owned_by b q"
    proof cases
      case (1 p)
      then have "p = r" by (intro only) (simp_all add: activatable_def)
      with 1 r(3) that assms(4) show ?thesis by (simp add: owned_by_def)
    next
      case 2
      then have "q \<noteq> r" using r(2) by blast
      with only [of q] 2 that(1) show ?thesis by (auto simp: owned_by_def)
    qed
  qed
  show "\<exists>r \<in> set (runs d0). activatable runID (ID job) r \<and> a_lease a = r_lease r + 1"
    using r assms(4) by (auto simp: activate_row_def)
  show "\<exists>j \<in> set (jobs d0). holds_claim job j" "steps (sent d) = steps d0" "jobs (sent d) = jobs d0"
    using claim by (simp_all add: d)
qed


definition held_job :: job where
  "held_job = claim_row ''w1'' 7 (new_job 1 0 ''q'' ''{}'' 5 None None)"

definition held_world :: world where
  "held_world = wf_world\<lparr>db := (db wf_world)\<lparr>jobs := [held_job]\<rparr>\<rparr>"

definition sample_takeover :: "activation option result io" where
  "sample_takeover = beginActivation sample_wf_client sample_def sample_wf_config held_job ''r1''"

lemma sample_takeover_run:
  "case fst (run_state sample_takeover held_world) of Inr (Some a) \<Rightarrow> a_lease a = 3 | _ \<Rightarrow> False"
  by code_simp


section \<open>Finishing a run\<close>

text \<open>
  The tables after an activation settled the run: the final row and the acknowledged job together, or
  only the job when the run was cancelled; the parent's job may be woken.
\<close>

definition settled_tables :: "activation \<Rightarrow> (int \<Rightarrow> run \<Rightarrow> run) \<Rightarrow> database \<Rightarrow> database \<Rightarrow> bool" where
  "settled_tables a f d0 d \<longleftrightarrow> (\<exists>n J. \<exists>q \<in> set (runs d0). owned_by a q
     \<and> jobs d = upd_where (is_processing (ID (a_job a))) (ack_row n) (upd_where (due_later J n) (wake_row n) (jobs d0))
     \<and> J \<subseteq> jobs_of (rows_of (runs d0) (a_parentRunID a))
     \<and> steps d = steps d0 \<and> signals d = signals d0 \<and> schedules d = schedules d0
     \<and> (r_status q = RunCancelled \<and> runs d = runs d0
        \<or> r_status q = RunRunning \<and> (\<exists>j \<in> set (jobs d0). holds_claim (a_job a) j)
          \<and> runs d = upd_where (\<lambda>r. r_id r = a_runID a) (f n) (runs d0)))"

lemma wake_keeps_claim:
  "(\<exists>j \<in> set (upd_where (due_later J n) (wake_row n) rows). holds_claim mine j) \<Longrightarrow> \<exists>j \<in> set rows. holds_claim mine j"
  by (auto simp: upd_where_def holds_claim_def wake_row_def)

lemma settled_outbox: "settled_tables a f d0 d \<Longrightarrow> settled_tables a f d0 (d\<lparr>outbox := out\<rparr>)"
  by (simp add: settled_tables_def)

text \<open>The tables once the parent's job may have been woken.\<close>

definition parent_due :: "activation \<Rightarrow> int \<Rightarrow> database \<Rightarrow> database \<Rightarrow> bool" where
  "parent_due a n0 d0 d \<longleftrightarrow> (\<exists>J. J \<subseteq> jobs_of (rows_of (runs d0) (a_parentRunID a)) \<and> cancelled_tables n0 d0 {} J d)"

lemma parent_due_start: "parent_due a n0 d0 d0"
  by (auto simp: parent_due_def intro: exI [of _ "{}"] cancelled_start)

lemma parent_due_runs: "parent_due a n0 d0 d \<Longrightarrow> runs d = runs d0"
  by (auto simp: parent_due_def dest: nothing_cancelled)

lemma settledI:
  assumes "parent_due a n d0 d1" "q \<in> set (runs d0)" "owned_by a q"
    and "jobs d = upd_where (is_processing (ID (a_job a))) (ack_row n) (jobs d1)"
    and "steps d = steps d1" "signals d = signals d1" "schedules d = schedules d1"
    and "r_status q = RunCancelled \<and> runs d = runs d0
        \<or> r_status q = RunRunning \<and> (\<exists>j \<in> set (jobs d1). holds_claim (a_job a) j)
          \<and> runs d = upd_where (\<lambda>r. r_id r = a_runID a) (f n) (runs d0)"
  shows "settled_tables a f d0 d"
proof -
  from assms(1) obtain J where "J \<subseteq> jobs_of (rows_of (runs d0) (a_parentRunID a))"
    and d1: "cancelled_tables n d0 {} J d1" by (auto simp: parent_due_def)
  moreover from d1 have "(\<exists>j \<in> set (jobs d1). holds_claim mine j) \<Longrightarrow> \<exists>j \<in> set (jobs d0). holds_claim mine j" for mine
    using wake_keeps_claim [of J n "jobs d0" mine] by (simp add: cancelled_tables_def)
  ultimately show ?thesis using assms(2-) unfolding settled_tables_def
    by (intro exI [of _ n] exI [of _ J] bexI [of _ q]) (auto simp: cancelled_tables_def)
qed

text \<open>In the transaction of \<open>finish\<close>: before and after the update of the run.\<close>

definition finishing :: "activation \<Rightarrow> int \<Rightarrow> database \<Rightarrow> database \<Rightarrow> bool" where
  "finishing a n0 d0 d \<longleftrightarrow> parent_due a n0 d0 d \<and> (\<exists>j \<in> set (jobs d). holds_claim (a_job a) j)"

definition final_row :: "activation \<Rightarrow> (int \<Rightarrow> run \<Rightarrow> run) \<Rightarrow> int \<Rightarrow> database \<Rightarrow> database \<Rightarrow> bool" where
  "final_row a f n0 d0 d \<longleftrightarrow> (\<exists>d1. finishing a n0 d0 d1
     \<and> d = d1\<lparr>runs := upd_where (\<lambda>r. r_id r = a_runID a) (f n0) (runs d0)\<rparr>)"

lemma final_update_tx:
  "hoare (opened d0 n0 (finishing a n0 d0)) (exec (update_runs (\<lambda>r. r_id r = a_runID a) f) h (State_Monad.return (Inr ())))
     (replies d0 n0 (\<lambda>_. final_row a f n0 d0))"
proof (rule exec_tx [where Q' = "final_row a f n0 d0"])
  show "final_row a f n0 d0 (db (snd (update_runs (\<lambda>r. r_id r = a_runID a) f w)))" if "opened d0 n0 (finishing a n0 d0) w" for w
    using that parent_due_runs [of a n0 d0 "db w"] unfolding final_row_def
    by (intro exI [of _ "db w"]) (simp add: update_runs_def on_db_def opened_now [OF that] opened_def finishing_def)
qed (auto intro: hoare_return)

lemma final_ack_tx:
  assumes q: "q \<in> set (runs d0)" "owned_by a q" "r_status q = RunRunning"
  shows "hoare (opened d0 n0 (final_row a f n0 d0)) (AckTx c True (ID (a_job a))) (replies d0 n0 (\<lambda>_. settled_tables a f d0))"
  by (rule AckTx_tx) (use q in \<open>auto simp: final_row_def finishing_def intro!: settledI\<close>)

lemma finish_owned_tx:
  assumes q: "q \<in> set (runs d0)" "owned_by a q" "r_status q = RunRunning"
  shows "hoare (opened d0 n0 (parent_due a n0 d0))
     (finish_owned (exec (update_runs (\<lambda>r. r_id r = a_runID a) f) h (State_Monad.return (Inr ()))) (State_Monad.return ()) a)
     (\<lambda>_. ending d0 (settled_tables a f d0))"
proof -
  have commit: "hoare (opened d0 n0 (settled_tables a f d0))
      (attempt commit_tx h' (\<lambda>_. do { State_Monad.return (); State_Monad.return Handled }))
      (\<lambda>_. ending d0 (settled_tables a f d0))" for h'
    by simp (rule attempt_commit; auto intro: endings)
  have tail: "hoare (opened d0 n0 (finishing a n0 d0)) (attempt (exec (update_runs (\<lambda>r. r_id r = a_runID a) f) h (State_Monad.return (Inr ()))) h1 (\<lambda>_.
      attempt (AckTx (wc_queue (a_client a)) True (ID (a_job a))) (\<lambda>e. e) (\<lambda>_.
      attempt (NotifyTx (wc_queue (a_client a)) True (runNotifyKey (a_runID a))) (\<lambda>e. e) (\<lambda>_.
      attempt commit_tx h' (\<lambda>_. do { State_Monad.return (); State_Monad.return Handled })))))
      (\<lambda>_. ending d0 (settled_tables a f d0))" for h1 h'
    by (intro attempt_tx [OF final_update_tx] attempt_tx [OF final_ack_tx [OF q]] attempt_tx [OF NotifyTx_tx] commit)
      (auto simp: ending_def intro: settled_outbox)
  show ?thesis unfolding finish_owned_def Let_def
  proof (rule hoare_bind [OF LockClaim_tx], rule hoare_case_sum, goal_cases)
    case (1 l e)
    show ?case unfolding 1 replies_simps by (rule hoare_return) (simp add: ending_def)
  next
    case (2 l x)
    show ?case unfolding 2 replies_simps by (rule tail [unfolded finishing_def])
  qed
qed

lemma select_owned_in:
  assumes "\<And>d. Q d \<Longrightarrow> runs d = runs d0"
  shows "hoare (opened d0 n0 Q) (query_row (select_run (owned_by a) r_status)) (replies d0 n0
     (\<lambda>st d. Q d \<and> (\<exists>q \<in> set (runs d0). owned_by a q \<and> r_status q = st)))"
  by (rule query_row_replies) (use assms in \<open>auto simp: select_run_def opened_def dest!: find_SomeD\<close>)

lemma act_replies:
  assumes "hoare W m (replies d0 n0 R)"
    and "\<And>e. hoare (on_act A (\<lambda>w. snapshot w = Some d0)) (F e) Q" "\<And>x. hoare (on_act A (opened d0 n0 (R x))) (G x) Q"
  shows "hoare (on_act A W) (do { r \<leftarrow> in_world m; (case r of Inl e \<Rightarrow> F e | Inr x \<Rightarrow> G x) }) Q"
  by (rule hoare_bind [OF act_in_world [OF assms(1)]], rule act_case_replies) (rule assms)+

lemma act_assume:
  "(B \<Longrightarrow> hoare (on_act A (opened d0 n0 Q)) m R) \<Longrightarrow> hoare (on_act A (opened d0 n0 (\<lambda>d. Q d \<and> B))) m R"
  by (rule hoare_assume [where A = B]) (auto simp: on_act_def opened_def elim!: hoare_pre)

lemma acknowledge_tx:
  assumes "act_core a = act_core a0" "q \<in> set (runs d0)" "owned_by a0 q" "r_status q = RunCancelled"
  shows "hoare (on_act (same_act a0) (opened d0 n0 (parent_due a0 n0 d0))) acknowledgeCancellationTx
     (\<lambda>_. on_act (same_act a0) (ending d0 (settled_tables a0 f d0)))"
  unfolding acknowledgeCancellationTx_def
proof (intro act_with_core, goal_cases)
  case (1 b)
  then have b: "ID (a_job b) = ID (a_job a0)" by (simp add: act_core_def)
  have ack: "hoare (opened d0 n0 (parent_due a0 n0 d0)) (AckTx (wc_queue (a_client b)) True (ID (a_job b)))
      (replies d0 n0 (\<lambda>_. settled_tables a0 f d0))"
    unfolding b by (rule AckTx_tx, rule settledI) (use assms parent_due_runs in auto)
  show ?case
    by (intro act_replies [OF ack] act_commit hoare_bind [OF act_recordStop] hoare_return)
      (auto simp: on_act_def ending_def committed_def closed_def)
qed

lemma wake_parent_due:
  assumes "a_parentRunID a = a_parentRunID a0"
  shows "hoare (on_act A (opened d0 n0 (\<lambda>d. d = d0)))
     (if a_parentRunID a \<noteq> [] then in_world (wakeParentTx c (a_parentRunID a)) else State_Monad.return (Inr ()))
     (\<lambda>r. on_act A (replies d0 n0 (\<lambda>_. parent_due a0 n0 d0) r))"
proof (intro hoare_if)
  have "hoare (opened d0 n0 (\<lambda>d. d = d0)) (wakeParentTx c (a_parentRunID a)) (replies d0 n0 (\<lambda>_. parent_due a0 n0 d0))"
    unfolding parent_due_def assms by (rule wakeParent_cancelled)
  then show "hoare (on_act A (opened d0 n0 (\<lambda>d. d = d0))) (in_world (wakeParentTx c (a_parentRunID a)))
      (\<lambda>r. on_act A (replies d0 n0 (\<lambda>_. parent_due a0 n0 d0) r))" by (rule act_in_world)
qed (auto intro!: hoare_return simp: on_act_def opened_def parent_due_start)

lemma finish_rule:
  "hoare (on_act (same_act a0) (untouched d0))
     (finish (exec (update_runs (\<lambda>r. r_id r = a_runID a0) f) h (State_Monad.return (Inr ()))) (State_Monad.return ()))
     (\<lambda>_. on_act (same_act a0) (closed d0 (settled_tables a0 f d0)))"
  unfolding finish_def
proof (intro act_with_core act_transaction act_deferring_rule, goal_cases)
  case (1 a e)
  show ?case by (rule hoare_return) (auto simp: on_act_def closed_def)
next
  case (2 a n0)
  then have a: "a_client a = a_client a0" "a_job a = a_job a0" "a_runID a = a_runID a0" "a_lease a = a_lease a0"
    "a_parentRunID a = a_parentRunID a0" by (simp_all add: act_core_def)
  have owned: "owned_by a = owned_by a0" by (simp add: owned_by_def fun_eq_iff a)
  let ?Q = "parent_due a0 n0 d0" and ?E = "\<lambda>_. on_act (same_act a0) (ending d0 (settled_tables a0 f d0))"
  have cancelled: "hoare (on_act (same_act a0) (opened d0 n0 ?Q))
     (do { r \<leftarrow> acknowledgeCancellationTx; State_Monad.return (case r of Inl e \<Rightarrow> e | Inr _ \<Rightarrow> Handled) }) ?E"
    if "\<exists>q \<in> set (runs d0). owned_by a q \<and> r_status q = RunCancelled"
    using that 2 unfolding owned
    by (elim bexE conjE) (rule hoare_bind [OF acknowledge_tx hoare_return]; simp)
  have running: "hoare (on_act (same_act a0) (opened d0 n0 ?Q)) (in_world (finish_owned (exec (update_runs
        (\<lambda>r. r_id r = a_runID a0) f) h (State_Monad.return (Inr ()))) (State_Monad.return ()) a)) ?E"
    if "\<exists>q \<in> set (runs d0). owned_by a q \<and> r_status q = RunRunning"
  proof -
    have same: "finish_owned u k a = finish_owned u k a0" for u k by (simp add: finish_owned_def a)
    from that obtain q where "q \<in> set (runs d0)" "owned_by a0 q" "r_status q = RunRunning" unfolding owned by blast
    from act_in_world [OF finish_owned_tx [OF this]] show ?thesis unfolding same .
  qed
  show ?case
    by (intro hoare_bind [OF wake_parent_due [OF a(5)]] act_case_replies act_replies [OF select_owned_in] hoare_return act_assume hoare_if)
      (auto simp: on_act_def ending_def opened_def dest: parent_due_runs intro: cancelled running)
qed

text \<open>
  The answer \<open>Handled\<close> of the activation that owns the run and holds the claim means that the transaction
  committed: no other path returns that error.
\<close>

definition handled_if :: "(world \<Rightarrow> bool) \<Rightarrow> err \<Rightarrow> world \<Rightarrow> bool" where
  "handled_if C r w \<longleftrightarrow> (r = Handled \<longrightarrow> C w)"

lemma handled_ifI: "r \<noteq> Handled \<Longrightarrow> handled_if C r w"
  by (simp add: handled_if_def)

lemma not_handled [simp]: "Wrapf p e q \<noteq> Handled" "Sentinel x \<noteq> Handled" "tx_is_nil \<noteq> Handled"
  by (simp_all add: Handled_def tx_is_nil_def)

lemma handled_attempt:
  assumes "hoare W m (replies d0 n0 R)" "yields m (\<lambda>r. \<forall>e. r = Inl e \<longrightarrow> h e \<noteq> Handled)"
    and "\<And>x. hoare (opened d0 n0 (R x)) (k x) (handled_if C)"
  shows "hoare W (attempt m h k) (handled_if C)"
proof (rule hoare_attempt [where R = "\<lambda>x. opened d0 n0 (R x)"])
  show "hoare W m (\<lambda>r w. case r of Inl e \<Rightarrow> handled_if C (h e) w | Inr x \<Rightarrow> opened d0 n0 (R x) w)"
    by (rule hoare_post [OF hoare_pre [OF hoare_conj [OF assms(1,2)]]])
      (auto simp: replies_def handled_ifI split: sum.splits)
qed (rule assms)

lemma yields_any: "(\<And>r. G r) \<Longrightarrow> yields m G"
  by (simp add: hoare_def split: prod.split)

lemma yields_not_handled:
  "yields (AckTx c True i) (\<lambda>r. \<forall>e. r = Inl e \<longrightarrow> e \<noteq> Handled)"
  "yields (NotifyTx c True k) (\<lambda>r. \<forall>e. r = Inl e \<longrightarrow> e \<noteq> Handled)"
  "yields (WakeTx c True i) (\<lambda>r. \<forall>e. r = Inl e \<longrightarrow> e \<noteq> Handled)"
  "yields (lockRun p) (\<lambda>r. \<forall>e. r = Inl e \<longrightarrow> e \<noteq> Handled)"
  unfolding AckTx_def ackCore_def NotifyTx_def WakeTx_def lockRun_def
  by (intro hoare_if yields_return yields_attempt yields_bind; simp)+

lemma yields_wakeParent: "yields (wakeParentTx c p) (\<lambda>r. \<forall>e. r = Inl e \<longrightarrow> e \<noteq> Handled)"
  unfolding wakeParentTx_def lockRunToNotifyTx_def
  by (rule yields_bind_strong [OF yields_not_handled(4)])
    (auto split: sum.split option.split intro!: yields_return hoare_if yields_not_handled(3))

text \<open>The holder of the claim passes \<open>LockClaimTx\<close> unless the call itself fails.\<close>

lemma LockClaim_held:
  assumes "\<And>d. Q d \<Longrightarrow> \<exists>j \<in> set (jobs d). holds_claim mine j"
  shows "hoare (opened d0 n0 Q) (LockClaimTx c True mine) (\<lambda>r w. case r of
     Inl e \<Rightarrow> \<not> errors_is e ErrJobNotFound \<and> e \<noteq> Handled | Inr _ \<Rightarrow> opened d0 n0 Q w)"
  unfolding LockClaimTx_def
proof (intro hoare_if hoare_attempt [where R = "\<lambda>_. opened d0 n0 Q"] hoare_return, goal_cases)
  case 3
  show ?case
  proof (rule hoare_post [OF query_row_tx [where R = "\<lambda>_. Q" and N = "\<lambda>_. False"]], goal_cases)
    case (3 w)
    with assms [of "db w"] show ?case by (auto simp: select_claim_def opened_def find_None_iff split: if_splits)
  qed (auto simp: select_claim_def opened_def split: sum.splits if_splits)
qed (auto simp: tx_is_nil_def)

lemma parent_due_claim:
  assumes "\<exists>j \<in> set (jobs d0). holds_claim mine j" "parent_due a n0 d0 d"
  shows "\<exists>j \<in> set (jobs d). holds_claim mine j"
proof -
  from assms obtain j J where j: "j \<in> set (jobs d0)" "holds_claim mine j"
    and d: "jobs d = upd_where (due_later J n0) (wake_row n0) (jobs d0)" by (auto simp: parent_due_def cancelled_tables_def)
  then have "\<not> due_later J n0 j" by (auto simp: due_later_def holds_claim_def)
  with j show ?thesis by (force simp: d set_upd_where)
qed

lemma finish_owned_handled:
  assumes q: "q \<in> set (runs d0)" "owned_by a q" "r_status q = RunRunning"
    and claim: "\<exists>j \<in> set (jobs d0). holds_claim (a_job a) j"
  shows "hoare (opened d0 n0 (parent_due a n0 d0))
     (finish_owned (exec (update_runs (\<lambda>r. r_id r = a_runID a) f) h (State_Monad.return (Inr ()))) (State_Monad.return ()) a)
     (handled_if (committed (settled_tables a f d0)))"
proof -
  let ?C = "committed (settled_tables a f d0)"
  have commit: "hoare (opened d0 n0 (settled_tables a f d0))
      (attempt commit_tx (wrap t) (\<lambda>_. do { State_Monad.return (); State_Monad.return Handled })) (handled_if ?C)" for t
    by simp (rule attempt_commit; simp add: handled_if_def)
  have tail: "hoare (opened d0 n0 (finishing a n0 d0)) (attempt (exec (update_runs (\<lambda>r. r_id r = a_runID a) f) h (State_Monad.return (Inr ()))) (wrap t) (\<lambda>_.
      attempt (AckTx (wc_queue (a_client a)) True (ID (a_job a))) (\<lambda>e. e) (\<lambda>_.
      attempt (NotifyTx (wc_queue (a_client a)) True (runNotifyKey (a_runID a))) (\<lambda>e. e) (\<lambda>_.
      attempt commit_tx (wrap t') (\<lambda>_. do { State_Monad.return (); State_Monad.return Handled })))))
      (handled_if ?C)" for t t'
    by (intro handled_attempt [OF final_update_tx] handled_attempt [OF final_ack_tx [OF q]] handled_attempt [OF NotifyTx_tx]
        commit yields_not_handled yields_any) (auto intro: settled_outbox)
  show ?thesis unfolding finish_owned_def Let_def
  proof (rule hoare_bind [OF LockClaim_held], goal_cases)
    case (2 l)
    show ?case
    proof (rule hoare_case_sum, goal_cases)
      case (1 e)
      then show ?case by (auto intro!: hoare_return simp: handled_if_def)
    next
      case (2 x)
      show ?case unfolding 2 sum.case
        by (rule hoare_pre [OF tail]) (erule opened_mono, simp add: finishing_def parent_due_claim [OF claim])
    qed
  qed (rule parent_due_claim [OF claim])
qed

lemma act_deferring_handled:
  assumes "hoare P m (\<lambda>r. on_act A (handled_if (committed S) r))"
  shows "hoare P (act_deferring_rollback m) (\<lambda>r. on_act A (handled_if (committed S) r))"
  unfolding act_deferring_rollback_def
proof (rule hoare_bind [OF assms])
  fix r
  have "hoare (handled_if (committed S) r) (State_Monad.update restore) (\<lambda>_. handled_if (committed S) r)"
    by (rule hoare_update) (auto simp: handled_if_def committed_def)
  then show "hoare (on_act A (handled_if (committed S) r)) (do { in_world (State_Monad.update restore); State_Monad.return r })
     (\<lambda>r. on_act A (handled_if (committed S) r))"
    by (intro hoare_bind [OF act_in_world] hoare_return)
qed

lemma select_running:
  assumes "\<And>d. Q d \<Longrightarrow> runs d = runs d0" "q \<in> set (runs d0)" "owned_by a q" "r_status q = RunRunning" "distinct (map r_id (runs d0))"
  shows "hoare (opened d0 n0 Q) (query_row (select_run (owned_by a) r_status)) (\<lambda>r w. case r of
     Inl e \<Rightarrow> \<not> errors_is e SqlErrNoRows | Inr st \<Rightarrow> st = RunRunning \<and> opened d0 n0 Q w)"
proof (rule hoare_post [OF query_row_tx [where R = "\<lambda>st d. st = RunRunning \<and> Q d" and N = "\<lambda>_. False"]], goal_cases)
  case (2 w st)
  then have rows: "runs (db w) = runs d0" using assms(1) by (simp add: opened_def)
  with 2 obtain r where "r \<in> set (runs d0)" "owned_by a r" "st = r_status r"
    by (auto simp: select_run_def dest!: find_SomeD)
  moreover from this assms(2,3,5) have "r = q" by (auto simp: owned_by_def distinct_map inj_on_def)
  ultimately show ?case using 2 assms(4) by (simp add: select_run_def opened_def)
next
  case (3 w)
  with assms(1-3) show ?case by (auto simp: select_run_def opened_def find_None_iff)
next
  case (4 r w)
  then show ?case by (auto simp: opened_def split: sum.splits)
qed simp

lemma finish_handled:
  assumes q: "q \<in> set (runs d0)" "owned_by a0 q" "r_status q = RunRunning" "distinct (map r_id (runs d0))"
    and claim: "\<exists>j \<in> set (jobs d0). holds_claim (a_job a0) j"
  shows "hoare (on_act (same_act a0) (untouched d0))
     (finish (exec (update_runs (\<lambda>r. r_id r = a_runID a0) f) h (State_Monad.return (Inr ()))) (State_Monad.return ()))
     (\<lambda>r. on_act (same_act a0) (handled_if (committed (settled_tables a0 f d0)) r))"
  unfolding finish_def
proof (intro act_with_core act_transaction act_deferring_handled, goal_cases)
  case (1 a e)
  show ?case by (rule hoare_return) (auto simp: on_act_def handled_if_def)
next
  case (2 a n0)
  then have a: "a_client a = a_client a0" "a_job a = a_job a0" "a_runID a = a_runID a0" "a_lease a = a_lease a0"
    "a_parentRunID a = a_parentRunID a0" by (simp_all add: act_core_def)
  have owned: "owned_by a = owned_by a0" by (simp add: owned_by_def fun_eq_iff a)
  have same: "finish_owned u k a = finish_owned u k a0" for u k by (simp add: finish_owned_def a)
  let ?E = "\<lambda>r. on_act (same_act a0) (handled_if (committed (settled_tables a0 f d0)) r)"
  have parent: "yields (if a_parentRunID a \<noteq> [] then in_world (wakeParentTx (a_client a) (a_parentRunID a)) else State_Monad.return (Inr ()))
     (\<lambda>r. \<forall>e. r = Inl e \<longrightarrow> e \<noteq> Handled)"
    by (intro hoare_if yields_in_world yields_wakeParent yields_return) simp
  have locked: "hoare (on_act (same_act a0) (opened d0 n0 (parent_due a0 n0 d0))) (in_world (query_row (select_run (owned_by a0) r_status)))
     (\<lambda>r. on_act (same_act a0) (\<lambda>w. case r of Inl e \<Rightarrow> \<not> errors_is e SqlErrNoRows
        | Inr st \<Rightarrow> st = RunRunning \<and> opened d0 n0 (parent_due a0 n0 d0) w))"
    by (rule act_in_world, rule select_running [OF parent_due_runs q])
  show ?case
  proof (rule hoare_bind [OF hoare_pre [OF hoare_conj [OF wake_parent_due [OF a(5)] parent]]], simp, rule hoare_case_sum, goal_cases)
    case (1 p e)
    then show ?case by (auto intro!: hoare_return simp: on_act_def handled_if_def)
  next
    case (2 p x)
    show ?case unfolding 2 owned same
    proof (rule hoare_bind [OF hoare_pre [OF locked]], goal_cases)
      case (2 r)
      show ?case
      proof (cases r)
        case (Inl e)
        then show ?thesis by (auto intro!: hoare_return simp: on_act_def handled_if_def)
      next
        case (Inr st)
        show ?thesis unfolding Inr sum.case
          by (rule hoare_assume [where A = "st = RunRunning"])
            (auto simp: on_act_def intro!: hoare_pre [OF act_in_world [OF finish_owned_handled [OF q(1-3) claim]]])
      qed
    qed (auto simp: on_act_def)
  qed
qed

lemma finishSucceeded_run:
  "run_state (finishSucceeded result) (a, w) = run_state (finish (exec (update_runs (\<lambda>r. r_id r = a_runID a) (succeed_row result))
     (\<lambda>e. e) (State_Monad.return (Inr ()))) (State_Monad.return ())) (a, w)"
  by (simp add: finishSucceeded_def run_act)

text \<open>
  C8. A run finishes together with its job. Whatever calls fail, after \<open>finishSucceeded\<close> either no table
  changed, or in one transaction the activation still owned the running run and held its job's claim, the
  run became succeeded with the output, the job was acknowledged and at most the parent's job was woken;
  or, when the run had been cancelled meanwhile, only its job was acknowledged. When the activation owns
  the running run and holds the claim, the answer \<open>Handled\<close> means that all of this was committed.
\<close>

theorem finish_with_job:
  assumes "snapshot w = None" "distinct (map r_id (runs (db w)))"
    and "run_state (finishSucceeded result) (a, w) = (r, (a', w'))"
  shows "snapshot w' = None \<and> (db w' = db w \<or> (\<exists>d. settled_tables a (succeed_row result) (db w) d \<and> db w' = sent d))
     \<and> (r = Handled \<and> owns a (db w) \<and> (\<exists>j \<in> set (jobs (db w)). holds_claim (a_job a) j) \<longrightarrow>
        (\<exists>d. settled_tables a (succeed_row result) (db w) d \<and> db w' = sent d))"
proof -
  note run = assms(3) [unfolded finishSucceeded_run]
  have start: "on_act (same_act a) (untouched (db w)) (a, w)" using assms(1) by (simp add: on_act_def)
  from hoareD [OF finish_rule start run]
  have "snapshot w' = None \<and> (db w' = db w \<or> (\<exists>d. settled_tables a (succeed_row result) (db w) d \<and> db w' = sent d))"
    by (auto simp: on_act_def closed_def)
  moreover have "\<exists>d. settled_tables a (succeed_row result) (db w) d \<and> db w' = sent d"
    if handled: "r = Handled" and q: "q \<in> set (runs (db w))" "owned_by a q" "r_status q = RunRunning"
      and claim: "\<exists>j \<in> set (jobs (db w)). holds_claim (a_job a) j" for q
    using hoareD [OF finish_handled [OF q assms(2) claim] start run] handled
    by (auto simp: on_act_def handled_if_def committed_def)
  ultimately show ?thesis unfolding owns_def by blast
qed

theorem finish_with_job_witness:
  "\<exists>r a' w' d. run_state (finishSucceeded ''42'') (fresh_activation\<lparr>a_job := held_job\<rparr>, held_world) = (r, (a', w'))
     \<and> map r_status (runs (db w')) = [RunSucceeded]
     \<and> settled_tables (fresh_activation\<lparr>a_job := held_job\<rparr>) (succeed_row ''42'') (db held_world) d \<and> db w' = sent d"
proof -
  let ?run = "run_state (finishSucceeded ''42'') (fresh_activation\<lparr>a_job := held_job\<rparr>, held_world)"
  have status: "map r_status (runs (db (snd (snd ?run)))) = [RunSucceeded]" by code_simp
  obtain r a' w' where run: "?run = (r, (a', w'))" by (metis prod.collapse)
  have before: "map r_status (runs (db held_world)) = [RunRunning]"
    by (simp add: held_world_def wf_world_def sample_run_def)
  have "snapshot held_world = None" by (simp add: held_world_def wf_world_def initial_world_def)
  moreover have "distinct (map r_id (runs (db held_world)))" by (simp add: held_world_def wf_world_def)
  ultimately show ?thesis using finish_with_job [OF _ _ run] status before run by auto
qed

end
