(* ===== verification/Workflow_Signals.thy ===== *)
theory Workflow_Signals
  imports Workflow_Takeover
begin

text \<open>
  Signals: sending one stores it and makes the job of a run that waits for it due, receiving takes the
  oldest unreceived one exactly once.
\<close>

section \<open>Sending\<close>

text \<open>The run \<open>runID\<close> as the sender's row lock reads it, and the jobs that are woken for it.\<close>

definition locked_as :: "string \<Rightarrow> run_status \<Rightarrow> int option \<Rightarrow> database \<Rightarrow> bool" where
  "locked_as runID st j d \<longleftrightarrow> (\<exists>r \<in> set (runs d). r_id r = runID \<and> r_status r = st \<and> r_job_id r = j)"

definition awakened :: "string \<Rightarrow> string \<Rightarrow> run_status \<Rightarrow> int option \<Rightarrow> database \<Rightarrow> int set" where
  "awakened runID name st j d = (if st = RunWaiting \<and> list_ex (awaits runID name) (steps d) then set_option j else {})"

text \<open>The tables after a signal was stored, and after the receiver was woken.\<close>

definition signal_added :: "string \<Rightarrow> string \<Rightarrow> string \<Rightarrow> database \<Rightarrow> database \<Rightarrow> bool" where
  "signal_added runID name payload d0 d \<longleftrightarrow> (\<exists>i t. signals d = signals d0 @ [\<lparr>g_id = i, g_run_id = runID, g_name = name,
     g_payload = payload, g_received_by = None, g_created_at = t\<rparr>]) \<and> runs d = runs d0 \<and> steps d = steps d0
     \<and> schedules d = schedules d0"

definition signal_sent :: "string \<Rightarrow> string \<Rightarrow> string \<Rightarrow> database \<Rightarrow> database \<Rightarrow> bool" where
  "signal_sent runID name payload d0 d \<longleftrightarrow> (\<exists>n st j. locked_as runID st j d0 \<and> \<not> Finished st
     \<and> signal_added runID name payload d0 d
     \<and> jobs d = upd_where (due_later (awakened runID name st j d0) n) (wake_row n) (jobs d0))"

lemma plain_signals [simp]: "plain (insert_signal i name payload)" "plain (select_awaited i name)"
  by (simp_all add: plain_def insert_signal_def select_awaited_def)

lemma due_none: "upd_where (due_later {} n) f rows = rows"
  by (rule upd_where_none) (simp add: due_later_def)

text \<open>The last part of \<open>SignalTx\<close>: is the signal awaited, and if so, wake the receiver.\<close>

lemma wake_receiver_tx:
  assumes "locked_as runID st j d0" "\<not> Finished st"
  shows "hoare (opened d0 n0 (\<lambda>d. signal_added runID name payload d0 d \<and> jobs d = jobs d0))
     (attempt (query (select_awaited runID name)) (\<lambda>e. Inl (h e)) (\<lambda>awaited.
        case j of Some i \<Rightarrow> if st = RunWaiting \<and> awaited then WakeTx (wc_queue c) True i else State_Monad.return (Inr ())
         | None \<Rightarrow> State_Monad.return (Inr ())))
     (replies d0 n0 (\<lambda>_. signal_sent runID name payload d0))"
    (is "hoare (opened d0 n0 ?S) _ ?post")
proof (rule attempt_query_tx [where R = "\<lambda>aw d. ?S d \<and> aw = list_ex (awaits runID name) (steps d0)"], goal_cases)
  case (3 aw)
  let ?P = "\<lambda>d. ?S d \<and> aw = list_ex (awaits runID name) (steps d0)"
  have sent: "signal_sent runID name payload d0 d"
    if "signal_added runID name payload d0 d" "jobs d = upd_where (due_later J n) (wake_row n) (jobs d0)"
      "J = awakened runID name st j d0" for d J n
    using that assms unfolding signal_sent_def by blast
  have stay: "hoare (opened d0 n0 ?P) (State_Monad.return (Inr ())) ?post" if "\<not> (st = RunWaiting \<and> aw \<and> j \<noteq> None)"
  proof (rule hoare_return)
    fix w
    assume "opened d0 n0 ?P w"
    then show "?post (Inr ()) w" unfolding replies_simps
      by (rule opened_mono, intro sent [of _ "{}" 0]) (use that in \<open>auto simp: due_none awakened_def\<close>)
  qed
  have wake: "hoare (opened d0 n0 ?P) (WakeTx (wc_queue c) True i) ?post" if "st = RunWaiting" "aw" "j = Some i" for i
    by (rule WakeTx_rule, intro sent [of _ "{i}" n0])
      (use that in \<open>auto simp: wake_rows_due update_jobs_notify_def signal_added_def awakened_def\<close>)
  show ?case
  proof (cases "st = RunWaiting \<and> aw \<and> j \<noteq> None")
    case True
    with wake show ?thesis by auto
  next
    case False
    with stay [OF False] show ?thesis by (cases j) (auto cong: conj_cong)
  qed
qed (auto simp: select_awaited_def opened_def signal_added_def)

lemma SignalTx_tx:
  assumes "marshal_storable cv v = Inr payload"
  shows "hoare (opened d0 n0 (\<lambda>d. d = d0)) (SignalTx c runID name cv v)
     (replies d0 n0 (\<lambda>_. signal_sent runID name payload d0))"
proof -
  let ?S = "\<lambda>d. signal_added runID name payload d0 d \<and> jobs d = jobs d0"
  let ?L = "\<lambda>st j d. d = d0 \<and> (\<exists>r \<in> set (runs d). r_id r = runID \<and> r_status r = st \<and> r_job_id r = j)"
  have send: "hoare (opened d0 n0 (?L st j)) (exec (insert_signal runID name payload) h
       (attempt (query (select_awaited runID name)) (\<lambda>e. Inl (h' e)) (\<lambda>awaited.
        case j of Some i \<Rightarrow> if st = RunWaiting \<and> awaited then WakeTx (wc_queue c) True i else State_Monad.return (Inr ())
         | None \<Rightarrow> State_Monad.return (Inr ())))) (replies d0 n0 (\<lambda>_. signal_sent runID name payload d0))"
    if "\<not> Finished st" for st j h h'
  proof (rule hoare_assume [where A = "locked_as runID st j d0"])
    assume "locked_as runID st j d0"
    from this that show ?thesis
      by (intro exec_tx [where Q' = ?S] wake_receiver_tx) (auto simp: opened_def insert_signal_def signal_added_def)
  qed (auto simp: locked_as_def opened_def)
  show ?thesis unfolding SignalTx_def assms sum.case lockRunToNotifyTx_def
    by (intro hoare_if attempt_lockRun hoare_return) (auto intro!: hoare_if hoare_return send simp: opened_def)
qed

definition sample_signal :: "unit result io" where
  "sample_signal = Signal sample_wf_client ''r1'' ''go'' text_codec ''7''"

text \<open>A run that waits for a signal, and its job that is due at some later time.\<close>

definition waiting_world :: world where
  "waiting_world = wf_world\<lparr>db := (db wf_world)\<lparr>runs := [sample_run\<lparr>r_status := RunWaiting\<rparr>],
     jobs := [new_job 1 0 ''q'' ''{}'' 5 (Some 99) None], steps := [receive_step ''r1'' ''go'' ''go'' Forever wf_world]\<rparr>\<rparr>"

lemma sample_signal_run: "case run_state sample_signal waiting_world of
    (r, w') \<Rightarrow> r = Inr () \<and> map AvailableAt (jobs (db w')) = [now waiting_world]"
  by code_simp



section \<open>Receiving\<close>

lemma arg_min_list_least: "xs \<noteq> [] \<Longrightarrow> y \<in> set xs \<Longrightarrow> f (arg_min_list f xs) \<le> (f y :: int)"
  using f_arg_min_list_f [of xs f] by simp

text \<open>
  What receiving for the checkpoint \<open>cp\<close> of the step \<open>key\<close> makes of the tables: the oldest receivable signal
  is marked, the step succeeded with its payload, everything else is as before.
\<close>

definition oldest_receivable :: "string \<Rightarrow> checkpoint \<Rightarrow> signal_row list \<Rightarrow> signal_row \<Rightarrow> bool" where
  "oldest_receivable runID cp rows g \<longleftrightarrow> g \<in> set rows \<and> receivable runID cp g
     \<and> (\<forall>h \<in> set rows. receivable runID cp h \<longrightarrow> g_id g \<le> g_id h)"

definition signal_taken :: "string \<Rightarrow> string \<Rightarrow> checkpoint \<Rightarrow> database \<Rightarrow> string option \<Rightarrow> database \<Rightarrow> bool" where
  "signal_taken runID key cp d0 r d = (case r of
       None \<Rightarrow> d = d0 \<and> (\<forall>g \<in> set (signals d0). \<not> receivable runID cp g)
     | Some p \<Rightarrow> \<exists>n g. oldest_receivable runID cp (signals d0) g \<and> p = g_payload g
         \<and> d = d0\<lparr>signals := upd_where (\<lambda>h. g_id h = g_id g) (\<lambda>h. h\<lparr>g_received_by := Some key\<rparr>) (signals d0),
              steps := upd_where (at_step runID key) (complete_row StepSucceeded (Some p) n) (steps d0)\<rparr>)"

lemma take_signal_taken:
  assumes "list_ex (at_step runID key) (steps (db w))"
  shows "signal_taken runID key cp (db w) (fst (take_signal runID key cp w)) (db (snd (take_signal runID key cp w)))"
proof (cases "filter (receivable runID cp) (signals (db w))")
  case Nil
  then show ?thesis by (auto simp: take_signal_def signal_taken_def filter_empty_conv)
next
  case (Cons h hs)
  let ?gs = "filter (receivable runID cp) (signals (db w))" and ?g = "arg_min_list g_id (h # hs)"
  from Cons have "?g \<in> set ?gs" by (simp only: Cons arg_min_list_in list.distinct not_False_eq_True)
  moreover have "g_id ?g \<le> g_id y" if "y \<in> set ?gs" for y
    using that unfolding Cons by (intro arg_min_list_least) auto
  ultimately have "oldest_receivable runID cp (signals (db w)) ?g" by (simp add: oldest_receivable_def)
  with assms Cons show ?thesis
    by (auto simp: take_signal_def signal_taken_def Let_def simp del: arg_min_list.simps)
qed

lemma plain_take [simp]: "plain (take_signal runID key cp)"
  by (auto simp: plain_def take_signal_def Let_def split: list.split)

lemma receiveSignal_rule:
  assumes "list_ex (at_step (a_runID a0) key) (steps d0)"
  shows "hoare (on_act (same_act a0) (untouched d0)) (receiveSignal key cp) (\<lambda>r. on_act
     (\<lambda>a. \<forall>p. r = Inr (Some p) \<longrightarrow> a_checkpoints a key = Some (cp\<lparr>cp_status := StepSucceeded, cp_output := Some p\<rparr>))
     (written d0 (\<lambda>r d. owns a0 d0 \<and> signal_taken (a_runID a0) key cp d0 r d) r))"
  unfolding receiveSignal_def
proof (rule act_peek)
  fix a
  assume "act_core a = act_core a0"
  then have a: "a_runID a = a_runID a0" by (simp add: act_core_def)
  let ?R = "\<lambda>r d. owns a0 d0 \<and> signal_taken (a_runID a0) key cp d0 r d"
  have body: "hoare (on_act (\<lambda>a. act_core a = act_core a0 \<and> owns a d0) (opened d0 n0 (\<lambda>d. d = d0)))
      (in_world (query (take_signal (a_runID a0) key cp))) (\<lambda>r. on_act (same_act a0) (replies d0 n0 ?R r))" for n0
  proof (rule hoare_assume [where A = "owns a0 d0"])
    assume "owns a0 d0"
    then have "hoare (opened d0 n0 (\<lambda>d. d = d0)) (query (take_signal (a_runID a0) key cp)) (answers d0 n0 ?R)"
      by (intro query_tx) (use assms take_signal_taken [of "a_runID a0" key _ cp] in \<open>auto simp: opened_def\<close>)
    then show ?thesis
      by (rule hoare_post [OF hoare_pre [OF act_in_world [of _ _ _ "same_act a0"]]])
        (auto simp: on_act_def answers_def aborted_def replies_def split: sum.splits)
  qed (auto simp: on_act_def owns_def owned_by_def act_core_def)
  have remembered: "hoare (on_act (same_act a0) (written d0 ?R (Inr (Some p))))
      (do { remember key (cp\<lparr>cp_status := StepSucceeded, cp_output := Some p\<rparr>); State_Monad.return (Inr (Some p)) })
      (\<lambda>r. on_act (\<lambda>a. \<forall>p. r = Inr (Some p) \<longrightarrow> a_checkpoints a key = Some (cp\<lparr>cp_status := StepSucceeded, cp_output := Some p\<rparr>))
        (written d0 ?R r))" for p
    by (rule hoareI) (auto simp: remember_def run_simps on_act_def written_def)
  show "hoare (on_act (same_act a0) (untouched d0))
     (do { r \<leftarrow> checkpointWrite (in_world (query (take_signal (a_runID a) key cp)));
       (case r of
        Inr (Some payload) \<Rightarrow> do {
          remember key (cp\<lparr>cp_status := StepSucceeded, cp_output := Some payload\<rparr>);
          State_Monad.return (Inr (Some payload)) }
      | _ \<Rightarrow> State_Monad.return r) })
     (\<lambda>r. on_act (\<lambda>a. \<forall>p. r = Inr (Some p) \<longrightarrow> a_checkpoints a key = Some (cp\<lparr>cp_status := StepSucceeded, cp_output := Some p\<rparr>))
        (written d0 ?R r))"
    unfolding a
  proof (rule hoare_bind [OF checkpointWrite_rule [OF _ body]], goal_cases)
    case (2 r)
    show ?case
    proof (cases "\<exists>p. r = Inr (Some p)")
      case True
      with remembered show ?thesis by auto
    next
      case False
      then show ?thesis by (auto split: sum.split option.split intro!: hoare_return simp: on_act_def)
    qed
  qed (simp add: ignores_stop_def)
qed

text \<open>Marking the oldest receivable signal takes exactly that one out of the receivable ones.\<close>

lemma mark_removes:
  assumes "distinct (map g_id rows)" "g \<in> set rows" "receivable runID cp g"
  shows "filter (receivable runID cp) (upd_where (\<lambda>h. g_id h = g_id g) (\<lambda>h. h\<lparr>g_received_by := Some key\<rparr>) rows)
     = remove1 g (filter (receivable runID cp) rows)"
  using assms
proof (induction rows)
  case (Cons h rows)
  show ?case
  proof (cases "h = g")
    case True
    with Cons.prems have "g_id h \<notin> g_id ` set rows" by simp
    then have "upd_where (\<lambda>h. g_id h = g_id g) (\<lambda>h. h\<lparr>g_received_by := Some key\<rparr>) rows = rows"
      using True by (intro upd_where_none) (metis imageI)
    with True Cons.prems show ?thesis by (simp add: upd_where_def receivable_def)
  next
    case False
    with Cons.prems have "g_id h \<noteq> g_id g" by force
    with False Cons show ?thesis by (auto simp: upd_where_def)
  qed
qed simp

lemma signal_taken_some:
  assumes "signal_taken runID key cp d0 (Some p) d" "distinct (map g_id (signals d0))"
  shows "\<exists>g. oldest_receivable runID cp (signals d0) g \<and> p = g_payload g
      \<and> filter (receivable runID cp) (signals d) = remove1 g (filter (receivable runID cp) (signals d0))"
    and "runs d = runs d0" "jobs d = jobs d0"
    and "\<forall>s \<in> set (steps d). at_step runID key s \<longrightarrow> s_status s = StepSucceeded \<and> s_output s = Some p"
proof -
  from assms(1) obtain n g where g: "oldest_receivable runID cp (signals d0) g" "p = g_payload g"
    and d: "d = d0\<lparr>signals := upd_where (\<lambda>h. g_id h = g_id g) (\<lambda>h. h\<lparr>g_received_by := Some key\<rparr>) (signals d0),
      steps := upd_where (at_step runID key) (complete_row StepSucceeded (Some p) n) (steps d0)\<rparr>"
    by (auto simp: signal_taken_def)
  have "filter (receivable runID cp) (signals d) = remove1 g (filter (receivable runID cp) (signals d0))"
    using mark_removes [OF assms(2)] g(1) by (simp add: d oldest_receivable_def)
  with g show "\<exists>g. oldest_receivable runID cp (signals d0) g \<and> p = g_payload g
      \<and> filter (receivable runID cp) (signals d) = remove1 g (filter (receivable runID cp) (signals d0))" by blast
  show "runs d = runs d0" "jobs d = jobs d0"
    "\<forall>s \<in> set (steps d). at_step runID key s \<longrightarrow> s_status s = StepSucceeded \<and> s_output s = Some p"
    by (auto simp: d upd_where_def complete_row_def split: if_splits)
qed

text \<open>
  C19. Receiving a signal. If the receive's checkpoint row is there, then \<open>receiveSignal\<close> answers a payload
  only for the owner of the run; it is the payload of the oldest receivable signal of that name (not
  received yet, and sent no later than the deadline), exactly that signal is not receivable any more, the
  step has succeeded with it both in the table and in memory, and runs and jobs are as before. It answers
  nothing only if no signal is receivable, and after an error either nothing happened or all of it.
\<close>

theorem receive_takes_oldest:
  assumes "snapshot w = None" "distinct (map g_id (signals (db w)))"
    and "list_ex (at_step (a_runID a) key) (steps (db w))"
    and "run_state (receiveSignal key cp) (a, w) = (r, (a', w'))"
  shows "snapshot w' = None \<and> (r = Inr None \<longrightarrow> filter (receivable (a_runID a) cp) (signals (db w)) = [])
     \<and> (\<forall>p. r = Inr (Some p) \<longrightarrow> owns a (db w)
        \<and> a_checkpoints a' key = Some (cp\<lparr>cp_status := StepSucceeded, cp_output := Some p\<rparr>)
        \<and> runs (db w') = runs (db w) \<and> jobs (db w') = jobs (db w)
        \<and> (\<forall>s \<in> set (steps (db w')). at_step (a_runID a) key s \<longrightarrow> s_status s = StepSucceeded \<and> s_output s = Some p)
        \<and> (\<exists>g. oldest_receivable (a_runID a) cp (signals (db w)) g \<and> p = g_payload g
             \<and> filter (receivable (a_runID a) cp) (signals (db w'))
                 = remove1 g (filter (receivable (a_runID a) cp) (signals (db w)))))
     \<and> (isl r \<longrightarrow> db w' = db w \<or> (\<exists>q d. signal_taken (a_runID a) key cp (db w) q d \<and> db w' = sent d))"
proof -
  let ?R = "\<lambda>r d. owns a (db w) \<and> signal_taken (a_runID a) key cp (db w) r d"
  from hoareD [OF receiveSignal_rule [OF assms(3)] _ assms(4)] assms(1)
  have out: "written (db w) ?R r w'"
    "\<And>p. r = Inr (Some p) \<Longrightarrow> a_checkpoints a' key = Some (cp\<lparr>cp_status := StepSucceeded, cp_output := Some p\<rparr>)"
    by (auto simp: on_act_def)
  show ?thesis
  proof (cases r)
    case (Inl e)
    with out(1) show ?thesis by (auto simp: written_def closed_def)
  next
    case (Inr q)
    with out(1) obtain d where w': "snapshot w' = None" "db w' = sent d" "?R q d" by (auto simp: written_def committed_def)
    show ?thesis
    proof (cases q)
      case None
      with w' Inr show ?thesis by (auto simp: signal_taken_def filter_empty_conv)
    next
      case (Some p)
      with w' have d: "signal_taken (a_runID a) key cp (db w) (Some p) d" by simp
      show ?thesis using w' Some Inr out(2) [of p] signal_taken_some [OF d assms(2)] by simp
    qed
  qed
qed

text \<open>The run owns two signals of the name; the one with the smaller id is taken.\<close>

definition signalled_world :: world where
  "signalled_world = wf_world\<lparr>db := (db wf_world)\<lparr>steps := [receive_step ''r1'' ''go'' ''go'' Forever wf_world],
     signals := [\<lparr>g_id = 2, g_run_id = ''r1'', g_name = ''go'', g_payload = ''b'', g_received_by = None, g_created_at = 2\<rparr>,
       \<lparr>g_id = 1, g_run_id = ''r1'', g_name = ''go'', g_payload = ''a'', g_received_by = None, g_created_at = 1\<rparr>]\<rparr>\<rparr>"

definition sample_receive :: "string option result act" where
  "sample_receive = receiveSignal ''go'' (scanCheckpoint wf_world (receive_step ''r1'' ''go'' ''go'' Forever wf_world))"

lemma sample_receive_run: "fst (run_state sample_receive (fresh_activation, signalled_world)) = Inr (Some ''a'')"
  by code_simp

theorem receive_takes_oldest_witness:
  "\<exists>a' w'. run_state sample_receive (fresh_activation, signalled_world) = (Inr (Some ''a''), (a', w'))
     \<and> owns fresh_activation (db signalled_world) \<and> runs (db w') = [sample_run]"
proof -
  obtain a' w' where run: "run_state sample_receive (fresh_activation, signalled_world) = (Inr (Some ''a''), (a', w'))"
    using sample_receive_run by (cases "run_state sample_receive (fresh_activation, signalled_world)") auto
  have pre: "snapshot signalled_world = None" "distinct (map g_id (signals (db signalled_world)))"
    "list_ex (at_step (a_runID fresh_activation) ''go'') (steps (db signalled_world))"
    "runs (db signalled_world) = [sample_run]" by code_simp+
  from receive_takes_oldest [OF pre(1-3) run [unfolded sample_receive_def]] run pre(4) show ?thesis by auto
qed

end
