(* ===== verification/Workflow_Purge.thy ===== *)
theory Workflow_Purge
  imports Workflow_Inspect Workflow_Signals
begin

text \<open>
  Purging deletes whole trees of finished runs and nothing else, and listing runs answers the matching
  ones, with the search text taken literally.
\<close>

section \<open>Purging\<close>

text \<open>
  The tables after \<open>k\<close> runs were purged: the trees of \<open>roots\<close> are gone with their steps and signals. The
  roots are top-level runs finished before the cutoff, their trees are finished, they are at most
  \<open>Limit\<close>, and without a limit they are all of these.
\<close>

definition old_tree :: "wf_purge_params \<Rightarrow> int \<Rightarrow> run list \<Rightarrow> run \<Rightarrow> bool" where
  "old_tree p n rs r \<longleftrightarrow> finished_before (wp_OlderThan p) n r \<and> top_level rs r
     \<and> (\<forall>q \<in> set rs. in_tree rs (r_id r) (r_id q) \<longrightarrow> Finished (r_status q))"

definition purged :: "wf_purge_params \<Rightarrow> database \<Rightarrow> int \<Rightarrow> database \<Rightarrow> bool" where
  "purged p d0 k d \<longleftrightarrow> (\<exists>n roots dead. d = delete_runs dead d0 \<and> k = count_where (\<lambda>r. r_id r \<in> set dead) (runs d0)
     \<and> set dead = {i. \<exists>r \<in> set roots. in_tree (runs d0) (r_id r) i}
     \<and> (\<forall>r \<in> set roots. r \<in> set (runs d0) \<and> old_tree p n (runs d0) r)
     \<and> (0 < wp_Limit p \<longrightarrow> int (length roots) \<le> wp_Limit p)
     \<and> (wp_Limit p \<le> 0 \<longrightarrow> (\<forall>r \<in> set (runs d0). old_tree p n (runs d0) r \<longrightarrow> r \<in> set roots)))"

lemma tree_ids_set: "set (tree_ids rs root) = {i. in_tree rs root i}"
  unfolding tree_ids_def by (rule run_tree_set)

lemma purgeable_tree_iff:
  "purgeable_tree rs root \<longleftrightarrow> (\<forall>q \<in> set rs. in_tree rs root (r_id q) \<longrightarrow> Finished (r_status q))"
  by (simp add: purgeable_tree_def tree_ids_set list_all_iff)

definition found_roots :: "(run list \<Rightarrow> run list) \<Rightarrow> wf_purge_params \<Rightarrow> int \<Rightarrow> run list \<Rightarrow> run list" where
  "found_roots visit p n rs = (let found = sort_key (\<lambda>r. case r_completed_at r of None \<Rightarrow> 0 | Some t \<Rightarrow> t)
       (visit (filter (old_tree p n rs) rs)) in if 0 < wp_Limit p then take (nat (wp_Limit p)) found else found)"

lemma roots_to_purge_found: "roots_to_purge visit p n rs = map r_id (found_roots visit p n rs)"
  by (simp add: roots_to_purge_def found_roots_def old_tree_def [abs_def] purgeable_tree_iff Let_def)

lemma found_roots_old:
  assumes "\<And>xs. set (visit xs) = set xs"
  shows "r \<in> set (found_roots visit p n rs) \<Longrightarrow> r \<in> set rs \<and> old_tree p n rs r"
    and "wp_Limit p \<le> 0 \<Longrightarrow> r \<in> set rs \<Longrightarrow> old_tree p n rs r \<Longrightarrow> r \<in> set (found_roots visit p n rs)"
    and "0 < wp_Limit p \<Longrightarrow> int (length (found_roots visit p n rs)) \<le> wp_Limit p"
  using assms by (auto simp: found_roots_def Let_def dest!: in_set_takeD split: if_splits)

lemma set_first_occurrences [simp]: "set (first_occurrences xs) = set xs"
  by (simp add: first_occurrences_def)

lemma dead_ids_set:
  assumes "distinct (map r_id rs)" "\<And>r. r \<in> set roots \<Longrightarrow> r \<in> set rs \<and> old_tree p n rs r"
  shows "set (dead_ids p n (first_occurrences (map r_id roots)) rs) = {i. \<exists>r \<in> set roots. in_tree rs (r_id r) i}"
proof -
  have "r \<in> set rs \<and> r_id r \<in> r_id ` set roots \<and> finished_before (wp_OlderThan p) n r \<and> purgeable_tree rs (r_id r) \<longleftrightarrow> r \<in> set roots" for r
  proof
    assume r: "r \<in> set rs \<and> r_id r \<in> r_id ` set roots \<and> finished_before (wp_OlderThan p) n r \<and> purgeable_tree rs (r_id r)"
    then obtain q where "q \<in> set roots" "r_id r = r_id q" by auto
    with r assms show "r \<in> set roots" by (metis (no_types) distinct_map inj_onD)
  qed (use assms(2) in \<open>auto simp: old_tree_def purgeable_tree_iff\<close>)
  then show ?thesis
    by (auto simp: dead_ids_def tree_ids_set split: if_splits)
qed

lemma purgedI:
  assumes "distinct (map r_id (runs d0))" "\<And>xs. set (visit xs) = set xs"
    and dead: "dead = dead_ids p n (first_occurrences (roots_to_purge visit p n (runs d0))) (runs d0)"
  shows "purged p d0 (count_where (\<lambda>r. r_id r \<in> set dead) (runs d0)) (delete_runs dead d0)"
proof -
  let ?roots = "found_roots visit p n (runs d0)"
  have "set dead = {i. \<exists>r \<in> set ?roots. in_tree (runs d0) (r_id r) i}"
    unfolding dead roots_to_purge_found by (rule dead_ids_set [OF assms(1)]) (rule found_roots_old [OF assms(2)])
  then show ?thesis unfolding purged_def
    using found_roots_old [OF assms(2), where p = p and n = n and rs = "runs d0"]
    by (intro exI [of _ n] exI [of _ ?roots] exI [of _ dead]) blast
qed

text \<open>Locking reads only, and its second look finds nothing new.\<close>

definition locked_trees :: "database \<Rightarrow> int \<Rightarrow> bool \<Rightarrow> unit result option \<Rightarrow> world \<Rightarrow> bool" where
  "locked_trees d0 n0 enough r w = (case r of
       None \<Rightarrow> \<not> enough \<and> snapshot w = Some d0
     | Some (Inl _) \<Rightarrow> snapshot w = Some d0
     | Some (Inr _) \<Rightarrow> opened d0 n0 (\<lambda>d. d = d0) w)"

lemma lockTreesTx_rule:
  "hoare (opened d0 n0 (\<lambda>d. d = d0)) (lockTreesTx fuel roots locked)
     (locked_trees d0 n0 (2 \<le> fuel \<or> 1 \<le> fuel \<and> set (concat (map (tree_ids (runs d0)) roots)) \<subseteq> set locked))"
proof (induction fuel arbitrary: locked)
  case 0
  show ?case by (auto intro!: hoare_return simp: locked_trees_def opened_def)
next
  case (Suc fuel)
  let ?ids = "concat (map (tree_ids (runs d0)) (sort roots))"
  show ?case unfolding lockTreesTx.simps
  proof (rule attempt_query_tx [where R = "\<lambda>ids d. d = d0 \<and> ids = ?ids"], goal_cases)
    case (3 ids)
    show ?case
    proof (rule hoare_assume [where A = "ids = ?ids"])
      assume ids: "ids = ?ids"
      show ?thesis
      proof (rule hoare_if, goal_cases)
        case 1
        show ?case by (rule hoare_return) (auto simp: locked_trees_def opened_def)
      next
        case 2
        then have "\<not> set (concat (map (tree_ids (runs d0)) roots)) \<subseteq> set locked" by (auto simp: ids list_all_iff)
        moreover have "set (concat (map (tree_ids (runs d0)) roots)) \<subseteq> set (locked @ first_occurrences ids)" by (auto simp: ids)
        ultimately show ?case
          by (intro hoare_pre [OF hoare_post [OF Suc.IH]]) (auto simp: locked_trees_def opened_def split: option.splits)
      qed
    qed (simp add: opened_def)
  qed (auto simp: plain_def opened_def locked_trees_def)
qed

text \<open>What \<open>Purge\<close> answers, before (\<open>ending\<close>) and after (\<open>closed\<close>) the deferred rollback.\<close>

definition purge_answer ::
  "wf_purge_params \<Rightarrow> database \<Rightarrow> bool \<Rightarrow> (world \<Rightarrow> bool) \<Rightarrow> ((database \<Rightarrow> bool) \<Rightarrow> world \<Rightarrow> bool) \<Rightarrow> int result option \<Rightarrow> world \<Rightarrow> bool" where
  "purge_answer p d0 enough still close r w = (case r of
       None \<Rightarrow> \<not> enough \<and> still w
     | Some (Inl _) \<Rightarrow> close (\<lambda>d. \<exists>k. purged p d0 k d) w
     | Some (Inr k) \<Rightarrow> committed (purged p d0 k) w \<or> k = 0 \<and> purged p d0 0 d0 \<and> still w)"

lemma deferring_purge:
  assumes "hoare P m (purge_answer p d0 enough (\<lambda>w. snapshot w = Some d0) (ending d0))"
  shows "hoare P (deferring_rollback m) (purge_answer p d0 enough (untouched d0) (closed d0))"
  unfolding deferring_rollback_def
proof (rule hoare_bind [OF assms], rule hoare_bind [OF hoare_update hoare_return])
  fix r w
  assume b: "purge_answer p d0 enough (\<lambda>w. snapshot w = Some d0) (ending d0) r w"
  have "restore w = w" if "committed Q w" for Q using that by (simp add: committed_def)
  moreover have "untouched d0 (restore w)" if "snapshot w = Some d0" using that by (simp add: restore_untouched)
  ultimately show "purge_answer p d0 enough (untouched d0) (closed d0) r (restore w)"
    using b by (auto simp: purge_answer_def intro: ending_restore split: option.splits sum.splits)
qed

lemma plain_delete_trees [simp]: "plain (delete_trees p roots)"
  by (simp add: delete_trees_def)

lemma no_dead_ids [simp]: "dead_ids p n [] rs = []" "delete_runs [] d = d" "count_where (\<lambda>r. False) rs = 0"
  by (simp_all add: dead_ids_def delete_runs_def del_where_def count_where_def)

lemma wf_Purge_rule:
  assumes ids: "distinct (map r_id (runs d0))" and visit: "\<And>xs. set (visit xs) = set xs"
  shows "hoare (untouched d0) (wf_Purge visit fuel p) (purge_answer p d0 (2 \<le> fuel) (untouched d0) (closed d0))"
  unfolding wf_Purge_def
proof (intro attempt_begin deferring_purge, goal_cases)
  case (1 e w)
  then show ?case by (simp add: purge_answer_def closed_def)
next
  case (2 n0)
  let ?E = "purge_answer p d0 (2 \<le> fuel) (\<lambda>w. snapshot w = Some d0) (ending d0)"
  let ?found = "roots_to_purge visit p n0 (runs d0)"
  let ?dead = "dead_ids p n0 (first_occurrences ?found) (runs d0)"
  note purged = purgedI [OF ids visit refl, of p n0]
  have delete: "hoare (opened d0 n0 (\<lambda>d. d = d0)) (attempt (query (delete_trees p (first_occurrences ?found))) (\<lambda>e. Some (Inl (h e))) (\<lambda>deleted.
      attempt commit_tx (\<lambda>e. Some (Inl (h' e))) (\<lambda>_. State_Monad.return (Some (Inr deleted))))) ?E" for h h'
  proof (rule attempt_query_tx [where R = "\<lambda>k d. purged p d0 k d"], goal_cases)
    case (2 w)
    then show ?case using purged by (simp add: opened_now [OF 2] delete_trees_def on_db_def Let_def opened_def)
  next
    case (3 k)
    show ?case
      by (rule attempt_commit) (auto simp: purge_answer_def ending_def closed_def)
  qed (auto simp: purge_answer_def ending_def)
  show ?case
  proof (rule attempt_query_tx [where R = "\<lambda>found d. d = d0 \<and> found = ?found"], goal_cases)
    case (2 w)
    then show ?case by (simp add: opened_now [OF 2] opened_def)
  next
    case (3 found)
    show ?case
    proof (rule hoare_assume [where A = "found = ?found"])
      assume found: "found = ?found"
      have none: "purged p d0 0 d0" if "first_occurrences found = []"
        using purged unfolding that [unfolded found] by simp
      show ?thesis unfolding Let_def found
      proof (rule hoare_if, goal_cases)
        case 1
        then show ?case using none by (auto intro!: hoare_return simp: found purge_answer_def opened_def)
      next
        case 2
        show ?case
        proof (rule hoare_bind [OF hoare_pre [OF lockTreesTx_rule [where ?d0.0 = d0 and ?n0.0 = n0]]], goal_cases)
          case (2 l)
          consider "l = None" | e where "l = Some (Inl e)" | "l = Some (Inr ())" by (cases l) (auto, metis sum.exhaust old.unit.exhaust)
          then show ?case
            by cases (auto intro!: hoare_return hoare_pre [OF delete] simp: locked_trees_def purge_answer_def ending_def)
        qed (auto elim: opened_mono)
      qed
    qed (simp add: opened_def)
  qed (auto simp: plain_def purge_answer_def ending_def)
qed


text \<open>A finished run with a finished child goes as a whole; a finished run above an unfinished one stays.\<close>

definition old_run :: "string \<Rightarrow> string option \<Rightarrow> run_status \<Rightarrow> run" where
  "old_run i parent st = sample_run\<lparr>r_id := i, r_parent_run_id := parent, r_status := st, r_completed_at := Some (- 5)\<rparr>"

definition purge_world :: world where
  "purge_world = wf_world\<lparr>db := (db wf_world)\<lparr>runs := [old_run ''a'' None RunSucceeded, old_run ''b'' (Some ''a'') RunFailed,
     old_run ''c'' None RunSucceeded, old_run ''d'' (Some ''c'') RunRunning]\<rparr>\<rparr>"

definition sample_purge :: "int result option io" where
  "sample_purge = wf_Purge id 2 \<lparr>wp_OlderThan = 0, wp_Limit = 0\<rparr>"

lemma sample_purge_run:
  "fst (run_state sample_purge purge_world) = Some (Inr 2)"
  "map r_id (runs (db (snd (run_state sample_purge purge_world)))) = [''c'', ''d'']"
  by code_simp+


end
