(* ===== verification/Workflow_Retry.thy ===== *)
theory Workflow_Retry
  imports Workflow_Cancel
begin

text \<open>
  Retrying a run. \<open>retryTx\<close> walks down the child steps of the run to the children that failed or were
  cancelled, forgets what was interrupted and makes every run on the way pending again with a new job.
  What the steps completed is kept, so the workflow function resumes where it failed.
\<close>

section \<open>The effect on the tables\<close>

definition retryable :: "run \<Rightarrow> bool" where
  "retryable r \<longleftrightarrow> r_status r = RunFailed \<or> r_status r = RunCancelled"

text \<open>The children of a run that have to be retried with it, as a set.\<close>

definition open_child :: "string \<Rightarrow> step \<Rightarrow> string \<Rightarrow> bool" where
  "open_child i s k \<longleftrightarrow> s_run_id s = i \<and> s_kind s = KindChild \<and> (s_status s = StepWaiting \<or> s_status s = StepFailed)
     \<and> s_child_run_id s = Some k"

definition unretried :: "database \<Rightarrow> string \<Rightarrow> string set" where
  "unretried d i = {k. (\<exists>s \<in> set (steps d). open_child i s k) \<and> (\<exists>r \<in> set (runs d). r_id r = k \<and> retryable r)}"

lemma set_children_to_retry: "set (children_to_retry i d) = unretried d i"
  by (auto simp: children_to_retry_def unretried_def open_child_def retryable_def)

text \<open>A row is as before or was failed or cancelled and has been reset.\<close>

definition reset_from :: "int \<Rightarrow> string set \<Rightarrow> run \<Rightarrow> run \<Rightarrow> bool" where
  "reset_from n A r r' \<longleftrightarrow> r' = r \<or> retryable r \<and> r_id r \<in> A \<and> (\<exists>j. r' = (reset_run n r)\<lparr>r_job_id := j\<rparr>)"

text \<open>A step that a retry forgets, and what becomes of a step it keeps.\<close>

definition forgotten :: "step \<Rightarrow> bool" where
  "forgotten s \<longleftrightarrow> s_kind s = KindStep \<and> (s_status s = StepFailed \<or> s_status s = StepRunning \<or> s_status s = StepRetrying)"

definition failed_child :: "step \<Rightarrow> bool" where
  "failed_child s \<longleftrightarrow> s_kind s = KindChild \<and> s_status s = StepFailed"

definition steps_reset :: "int \<Rightarrow> string set \<Rightarrow> step list \<Rightarrow> step list \<Rightarrow> bool" where
  "steps_reset n A ss ss' \<longleftrightarrow>
     (\<forall>s \<in> set ss. s \<in> set ss' \<or> s_run_id s \<in> A \<and> (forgotten s \<or> failed_child s \<and> reset_child_step n s \<in> set ss'))
     \<and> (\<forall>s' \<in> set ss'. \<exists>s \<in> set ss. s' = s \<or> s_run_id s \<in> A \<and> failed_child s \<and> s' = reset_child_step n s)"

definition jobs_added :: "job list \<Rightarrow> job list \<Rightarrow> bool" where
  "jobs_added js js' \<longleftrightarrow> (\<exists>new. js' = js @ new \<and> (\<forall>j \<in> set new. Status j = StatusPending))"

definition retry_effect :: "int \<Rightarrow> string set \<Rightarrow> database \<Rightarrow> database \<Rightarrow> bool" where
  "retry_effect n A d0 d \<longleftrightarrow> list_all2 (reset_from n A) (runs d0) (runs d) \<and> steps_reset n A (steps d0) (steps d)
     \<and> jobs_added (jobs d0) (jobs d) \<and> signals d = signals d0 \<and> schedules d = schedules d0"

text \<open>A run that can be executed again: pending, with a pending job of its workflow's queue.\<close>

definition resumed :: "string \<Rightarrow> database \<Rightarrow> bool" where
  "resumed i d \<longleftrightarrow> (\<exists>r \<in> set (runs d). r_id r = i \<and> r_status r = RunPending \<and> (\<exists>j \<in> set (jobs d).
     r_job_id r = Some (ID j) \<and> Status j = StatusPending \<and> Payload j = runJob_json i
     \<and> QueueName j = queueName \<lparr>d_name = r_workflow r, d_version = r_version r, d_retry = NoRetry\<rparr>))"

text \<open>
  The tables during a retry: \<open>A\<close> are the runs whose retry has begun, \<open>B\<close> those whose retry is complete,
  \<open>X\<close> bounds the children still to retry.
\<close>

definition retrying :: "int \<Rightarrow> database \<Rightarrow> string set \<Rightarrow> string set \<Rightarrow> (string \<Rightarrow> string set) \<Rightarrow> database \<Rightarrow> bool" where
  "retrying n d0 A B X d \<longleftrightarrow> retry_effect n (A \<union> B) d0 d \<and> (\<forall>b \<in> B. resumed b d \<and> unretried d b = {})
     \<and> (\<forall>i. unretried d i \<subseteq> X i)"

lemma reset_from_id: "reset_from n A r r' \<Longrightarrow> r_id r' = r_id r \<and> r_workflow r' = r_workflow r \<and> r_version r' = r_version r"
  by (auto simp: reset_from_def reset_run_def)

lemma runs_reset_ids: "list_all2 (reset_from n A) rs rs' \<Longrightarrow> map r_id rs' = map r_id rs"
  by (induction rule: list_all2_induct) (auto dest: reset_from_id)

lemma runs_reset_row: "list_all2 (reset_from n A) rs rs' \<Longrightarrow> r' \<in> set rs' \<Longrightarrow> \<exists>r \<in> set rs. reset_from n A r r'"
  by (induction rule: list_all2_induct) auto

lemma reset_from_retryable: "reset_from n A r r' \<Longrightarrow> retryable r' \<Longrightarrow> r' = r"
  by (auto simp: reset_from_def retryable_def reset_run_def)

lemma reset_from_mono: "reset_from n A r r' \<Longrightarrow> A \<subseteq> A' \<Longrightarrow> reset_from n A' r r'"
  by (auto simp: reset_from_def)

lemma reset_run_job:
  "reset_run n r = (reset_run n r)\<lparr>r_job_id := r_job_id r\<rparr>"
  "reset_run n ((reset_run n r)\<lparr>r_job_id := j\<rparr>) = (reset_run n r)\<lparr>r_job_id := j\<rparr>"
  by (cases r; simp add: reset_run_def)+

lemma reset_from_again:
  assumes "reset_from n A r r'" "retryable r" "r_id r \<in> A"
  shows "reset_from n A r (reset_run n r')" "reset_from n A r (r'\<lparr>r_job_id := j\<rparr>) \<or> r' = r"
proof -
  from assms(1) consider "r' = r" | j where "r' = (reset_run n r)\<lparr>r_job_id := j\<rparr>" unfolding reset_from_def by blast
  then show "reset_from n A r (reset_run n r')"
    using reset_run_job(1) [of n r] by cases (use assms in \<open>auto simp: reset_from_def reset_run_job(2)\<close>)
  from assms show "reset_from n A r (r'\<lparr>r_job_id := j\<rparr>) \<or> r' = r" unfolding reset_from_def by auto
qed

lemma steps_reset_mono:
  assumes "steps_reset n A ss ss'" "A \<subseteq> A'"
  shows "steps_reset n A' ss ss'"
  unfolding steps_reset_def
proof (intro conjI ballI)
  fix s assume "s \<in> set ss"
  with assms show "s \<in> set ss' \<or> s_run_id s \<in> A' \<and> (forgotten s \<or> failed_child s \<and> reset_child_step n s \<in> set ss')"
    unfolding steps_reset_def by fast
next
  fix s' assume "s' \<in> set ss'"
  then obtain s where "s \<in> set ss" "s' = s \<or> s_run_id s \<in> A \<and> failed_child s \<and> s' = reset_child_step n s"
    using assms(1) unfolding steps_reset_def by fast
  with assms(2) show "\<exists>s \<in> set ss. s' = s \<or> s_run_id s \<in> A' \<and> failed_child s \<and> s' = reset_child_step n s"
    by (intro bexI [of _ s]) auto
qed

lemma effect_mono:
  assumes "retry_effect n A d0 d" "A \<subseteq> A'"
  shows "retry_effect n A' d0 d"
proof -
  have "list_all2 (reset_from n A') (runs d0) (runs d)"
    using assms by (auto simp: retry_effect_def elim: list_all2_mono intro: reset_from_mono)
  with assms show ?thesis by (auto simp: retry_effect_def intro: steps_reset_mono)
qed

lemma retrying_start: "retrying n d0 {} {} (unretried d0) d0"
  by (auto simp: retrying_def retry_effect_def reset_from_def steps_reset_def jobs_added_def list_all2_same)

section \<open>The statements\<close>

text \<open>Children to retry only become fewer.\<close>

lemma unretried_shrinks:
  assumes "\<And>s' k. s' \<in> set (steps d') \<Longrightarrow> open_child i s' k \<Longrightarrow> \<exists>s \<in> set (steps d). open_child i s k"
    and "\<And>r'. r' \<in> set (runs d') \<Longrightarrow> retryable r' \<Longrightarrow> \<exists>r \<in> set (runs d). r_id r = r_id r' \<and> retryable r"
  shows "unretried d' i \<subseteq> unretried d i"
  using assms unfolding unretried_def by blast

lemma steps_reset_delete:
  assumes "steps_reset n A ss ss'" "i \<in> A"
  shows "steps_reset n A ss (del_where (interrupted_step i) ss')"
  using assms unfolding steps_reset_def
  by (auto simp: del_where_def forgotten_def interrupted_step_def reset_child_step_def failed_child_def)

lemma steps_reset_children:
  assumes "steps_reset n A ss ss'" "i \<in> A"
  shows "steps_reset n A ss (upd_where (\<lambda>s. s_run_id s = i \<and> failed_child s) (reset_child_step n) ss')"
proof -
  have old: "s' \<in> set ss \<and> s_run_id s' \<in> A" if "s' \<in> set ss'" "s_run_id s' = i" "failed_child s'" for s'
    using assms that unfolding steps_reset_def by (fastforce simp: reset_child_step_def failed_child_def)
  have new: "\<not> failed_child (reset_child_step n s)" for s by (simp add: failed_child_def reset_child_step_def)
  have upd: "set (upd_where P f ss') = f ` {s \<in> set ss'. P s} \<union> {s \<in> set ss'. \<not> P s}" for P f
    by (auto simp: upd_where_def)
  show ?thesis unfolding steps_reset_def
  proof (intro conjI ballI)
    fix s assume "s \<in> set ss"
    with assms new show "s \<in> set (upd_where (\<lambda>s. s_run_id s = i \<and> failed_child s) (reset_child_step n) ss')
      \<or> s_run_id s \<in> A \<and> (forgotten s \<or> failed_child s
         \<and> reset_child_step n s \<in> set (upd_where (\<lambda>s. s_run_id s = i \<and> failed_child s) (reset_child_step n) ss'))"
      unfolding steps_reset_def upd by blast
  next
    fix s' assume "s' \<in> set (upd_where (\<lambda>s. s_run_id s = i \<and> failed_child s) (reset_child_step n) ss')"
    with assms old show "\<exists>s \<in> set ss. s' = s \<or> s_run_id s \<in> A \<and> failed_child s \<and> s' = reset_child_step n s"
      unfolding steps_reset_def upd by blast
  qed
qed

text \<open>Each statement of \<open>retryTx\<close> keeps \<open>retrying\<close>.\<close>

lemma retrying_delete:
  assumes "retrying n d0 A B X d"
  shows "retrying n d0 (insert i A) B X (d\<lparr>steps := del_where (interrupted_step i) (steps d)\<rparr>)"
proof -
  let ?d = "d\<lparr>steps := del_where (interrupted_step i) (steps d)\<rparr>"
  have "unretried ?d k \<subseteq> unretried d k" for k by (rule unretried_shrinks) (auto simp: del_where_def)
  moreover have "retry_effect n (insert i A \<union> B) d0 ?d"
    using assms effect_mono [of n "A \<union> B" d0 d "insert i A \<union> B"] unfolding retrying_def
    by (auto simp: retry_effect_def intro!: steps_reset_delete)
  ultimately show ?thesis using assms unfolding retrying_def by (auto simp: resumed_def) blast
qed

lemma retrying_children:
  assumes "retrying n d0 A B X d" "i \<in> A"
  shows "retrying n d0 A B X (d\<lparr>steps := upd_where (\<lambda>s. s_run_id s = i \<and> s_kind s = KindChild \<and> s_status s = StepFailed)
     (reset_child_step n) (steps d)\<rparr>)"
proof -
  let ?d = "d\<lparr>steps := upd_where (\<lambda>s. s_run_id s = i \<and> failed_child s) (reset_child_step n) (steps d)\<rparr>"
  have "unretried ?d k \<subseteq> unretried d k" for k
    by (rule unretried_shrinks)
      (auto simp: upd_where_def open_child_def failed_child_def reset_child_step_def split: if_splits)
  moreover have "retry_effect n (A \<union> B) d0 ?d"
    using assms unfolding retrying_def by (auto simp: retry_effect_def intro!: steps_reset_children)
  ultimately show ?thesis using assms unfolding retrying_def
    by (auto simp: resumed_def failed_child_def) blast
qed

lemma runs_reset_upd:
  assumes "list_all2 (reset_from n A) rs rs'" "\<And>r r'. reset_from n A r r' \<Longrightarrow> r \<in> set rs \<Longrightarrow> r' \<in> set rs' \<Longrightarrow> P r' \<Longrightarrow> reset_from n A r (f r')"
  shows "list_all2 (reset_from n A) rs (upd_where P f rs')"
  using assms(1) assms(2) by (induction rule: list_all2_induct) (auto simp: upd_where_def)

text \<open>Resetting the rows of \<open>i\<close>, which were failed or cancelled when the retry began.\<close>

lemma retrying_reset:
  assumes "retrying n d0 A B X d" "i \<in> A" "\<And>r. r \<in> set (runs d0) \<Longrightarrow> r_id r = i \<Longrightarrow> retryable r"
  shows "retrying n d0 A B X (d\<lparr>runs := upd_where (\<lambda>r. r_id r = i) (reset_run n) (runs d)\<rparr>)"
proof -
  let ?d = "d\<lparr>runs := upd_where (\<lambda>r. r_id r = i) (reset_run n) (runs d)\<rparr>"
  have "unretried ?d k \<subseteq> unretried d k" for k
    by (rule unretried_shrinks) (auto simp: upd_where_def retryable_def reset_run_def split: if_splits)
  moreover have "list_all2 (reset_from n (A \<union> B)) (runs d0) (runs ?d)"
  proof (simp, rule runs_reset_upd)
    show "list_all2 (reset_from n (A \<union> B)) (runs d0) (runs d)" using assms(1) by (simp add: retrying_def retry_effect_def)
    show "reset_from n (A \<union> B) r (reset_run n r')" if "reset_from n (A \<union> B) r r'" "r \<in> set (runs d0)" "r' \<in> set (runs d)" "r_id r' = i" for r r'
      by (rule reset_from_again(1) [OF that(1)]) (use that assms(2,3) reset_from_id [OF that(1)] in auto)
  qed
  moreover have "resumed b ?d" if resumed: "resumed b d" for b
  proof -
    from resumed obtain r j where r: "r \<in> set (runs d)" "r_id r = b" "r_status r = RunPending"
      and j: "j \<in> set (jobs d)" "r_job_id r = Some (ID j)" "Status j = StatusPending" "Payload j = runJob_json b"
        "QueueName j = queueName \<lparr>d_name = r_workflow r, d_version = r_version r, d_retry = NoRetry\<rparr>" by (auto simp: resumed_def)
    let ?r = "if r_id r = i then reset_run n r else r"
    have "?r \<in> set (runs ?d)" using r(1) by (simp add: upd_where_def)
    with r j show ?thesis unfolding resumed_def by (intro bexI [of _ ?r]) (auto simp: reset_run_def intro!: bexI [of _ j])
  qed
  ultimately show ?thesis using assms(1) unfolding retrying_def retry_effect_def by (simp, blast)
qed

text \<open>With the new job linked, the retry of \<open>i\<close> is complete.\<close>

definition run_of_job :: "string \<Rightarrow> string \<Rightarrow> int \<Rightarrow> database \<Rightarrow> bool" where
  "run_of_job i name version d \<longleftrightarrow> i \<in> set (map r_id (runs d))
     \<and> (\<forall>r \<in> set (runs d). r_id r = i \<longrightarrow> r_status r = RunPending \<and> r_workflow r = name \<and> r_version r = version)"

lemma retrying_linked:
  assumes d: "retrying n d0 (insert i A) B X d" and i: "run_of_job i name version d" and "unretried d i = {}"
    and old: "\<And>r. r \<in> set (runs d0) \<Longrightarrow> r_id r = i \<Longrightarrow> retryable r"
    and j: "Status j = StatusPending" "Payload j = runJob_json i"
      "QueueName j = queueName \<lparr>d_name = name, d_version = version, d_retry = p\<rparr>"
  shows "retrying n d0 A (insert i B) X (d\<lparr>jobs := jobs d @ [j], outbox := out,
     runs := upd_where (\<lambda>r. r_id r = i) (\<lambda>r. r\<lparr>r_job_id := Some (ID j)\<rparr>) (runs d)\<rparr>)" (is "retrying n d0 A _ X ?d")
proof -
  have rows: "set (runs ?d) = (\<lambda>r. if r_id r = i then r\<lparr>r_job_id := Some (ID j)\<rparr> else r) ` set (runs d)" by (simp add: upd_where_def)
  have fewer: "unretried ?d k \<subseteq> unretried d k" for k
    by (rule unretried_shrinks) (auto simp: upd_where_def retryable_def split: if_splits)
  have "list_all2 (reset_from n (insert i A \<union> B)) (runs d0) (runs ?d)"
  proof (simp, rule runs_reset_upd)
    show "list_all2 (reset_from n (insert i (A \<union> B))) (runs d0) (runs d)" using d by (simp add: retrying_def retry_effect_def)
    fix r r' assume r: "reset_from n (insert i (A \<union> B)) r r'" "r \<in> set (runs d0)" "r' \<in> set (runs d)" "r_id r' = i"
    then have r_old: "r_id r = i" "retryable r" using old reset_from_id [OF r(1)] by auto
    moreover have "r' \<noteq> r" using r_old(2) r(3,4) i by (auto simp: run_of_job_def retryable_def)
    ultimately show "reset_from n (insert i (A \<union> B)) r (r'\<lparr>r_job_id := Some (ID j)\<rparr>)"
      using reset_from_again(2) [OF r(1)] by blast
  qed
  moreover have "jobs_added (jobs d0) (jobs ?d)" using d j(1) by (auto simp: retrying_def retry_effect_def jobs_added_def)
  moreover have "resumed i ?d"
  proof -
    from i obtain r where r: "r \<in> set (runs d)" "r_id r = i" "r_status r = RunPending" "r_workflow r = name" "r_version r = version"
      by (auto simp: run_of_job_def)
    then have "r\<lparr>r_job_id := Some (ID j)\<rparr> \<in> set (runs ?d)" unfolding rows by force
    with r j show ?thesis unfolding resumed_def
      by (intro bexI [of _ "r\<lparr>r_job_id := Some (ID j)\<rparr>"]) (auto simp: queueName_def)
  qed
  moreover have "resumed b ?d" if "resumed b d" "b \<noteq> i" for b
  proof -
    from that(1) obtain r k where r: "r \<in> set (runs d)" "r_id r = b" "r_status r = RunPending"
      and k: "k \<in> set (jobs d)" "r_job_id r = Some (ID k)" "Status k = StatusPending" "Payload k = runJob_json b"
        "QueueName k = queueName \<lparr>d_name = r_workflow r, d_version = r_version r, d_retry = NoRetry\<rparr>" by (auto simp: resumed_def)
    have "r \<in> set (runs ?d)" using r that(2) unfolding rows by force
    with r k show ?thesis unfolding resumed_def by (intro bexI [of _ r]) auto
  qed
  moreover have "unretried ?d b = {}" if "b \<in> insert i B" for b
    using that fewer [of b] d assms(3) by (auto simp: retrying_def)
  moreover have "unretried ?d k \<subseteq> X k" for k using fewer [of k] d by (auto simp: retrying_def)
  moreover have "resumed b d" if "b \<in> B" for b using d that by (simp add: retrying_def)
  moreover have "steps_reset n (insert i A \<union> B) (steps d0) (steps ?d) \<and> signals ?d = signals d0 \<and> schedules ?d = schedules d0"
    using d by (simp add: retrying_def retry_effect_def)
  ultimately show ?thesis unfolding retrying_def retry_effect_def Un_insert_left Un_insert_right by blast
qed

section \<open>The recursion\<close>

lemma retrying_weaken: "retrying n d0 A B X d \<Longrightarrow> (\<And>i. X i \<subseteq> X' i) \<Longrightarrow> retrying n d0 A B X' d"
  unfolding retrying_def by (meson order_trans)

lemma retrying_narrow: "retrying n d0 A B X d \<Longrightarrow> unretried d i \<subseteq> Y \<Longrightarrow> retrying n d0 A B (X(i := Y)) d"
  by (simp add: retrying_def)

lemma distinct_id_eq: "distinct (map r_id rs) \<Longrightarrow> r \<in> set rs \<Longrightarrow> q \<in> set rs \<Longrightarrow> r_id r = r_id q \<Longrightarrow> r = q"
  by (simp add: distinct_map inj_on_def)

text \<open>Runs whose retry is complete are not found again.\<close>

lemma retried_not_found:
  assumes "retrying n d0 A B X d" "distinct (map r_id (runs d0))" "X i \<subseteq> B"
  shows "unretried d i = {}"
proof -
  have d: "distinct (map r_id (runs d))"
    using assms(1,2) runs_reset_ids unfolding retrying_def retry_effect_def by metis
  have "\<not> retryable r" if "r \<in> set (runs d)" "r_id r \<in> B" for r
    using assms(1) that distinct_id_eq [OF d that(1)] unfolding retrying_def resumed_def
    by (fastforce simp: retryable_def)
  moreover have "unretried d i \<subseteq> B" using assms(1,3) by (auto simp: retrying_def)
  ultimately show ?thesis unfolding unretried_def by blast
qed

text \<open>Fuel: \<open>rank\<close> decreases from a run to the children that have to be retried with it.\<close>

definition ranked :: "(string \<Rightarrow> string set) \<Rightarrow> (string \<Rightarrow> nat) \<Rightarrow> bool" where
  "ranked X rank \<longleftrightarrow> (\<forall>i. \<forall>k \<in> X i. rank k < rank i)"

definition retry_answer ::
  "database \<Rightarrow> int \<Rightarrow> string set \<Rightarrow> string set \<Rightarrow> (string \<Rightarrow> string set) \<Rightarrow> string set \<Rightarrow> (string \<Rightarrow> nat) \<Rightarrow> nat \<Rightarrow>
    unit result option \<Rightarrow> world \<Rightarrow> bool" where
  "retry_answer d0 n A B X I rank fuel r w = (case r of
      None \<Rightarrow> snapshot w = Some d0 \<and> (ranked X rank \<longrightarrow> (\<exists>k \<in> I. fuel \<le> rank k))
    | Some q \<Rightarrow> replies d0 n (\<lambda>_ d. \<exists>B'. B \<union> I \<subseteq> B' \<and> retrying n d0 A B' X d) q w)"

lemma plain_delete_steps [simp]: "plain (delete_steps P)"
  by (simp add: delete_steps_def)

lemma childrenToRetry_tx:
  "hoare (opened d0 n Q) (childrenToRetryTx i) (replies d0 n (\<lambda>cs d. Q d \<and> set cs = unretried d i))"
  unfolding childrenToRetryTx_def
  by (rule attempt_query_tx [where R = "\<lambda>cs d. Q d \<and> set cs = unretried d i"])
    (auto simp: opened_def set_children_to_retry plain_read intro: hoare_return)

text \<open>The last statements: the run is reset and gets its job.\<close>

lemma enqueue_retried:
  assumes old: "\<And>r. r \<in> set (runs d0) \<Longrightarrow> r_id r = i \<Longrightarrow> retryable r"
  shows "hoare (opened d0 n (\<lambda>d. retrying n d0 (insert i A) B (X(i := {})) d \<and> run_of_job i name version d))
     (enqueueRunJobTx c x i (queueName \<lparr>d_name = name, d_version = version, d_retry = p\<rparr>))
     (replies d0 n (\<lambda>_. retrying n d0 A (insert i B) X))"
  unfolding enqueueRunJobTx_def
proof (rule attempt_tx [OF EnqueueTx_tx], goal_cases)
  case (2 j)
  let ?q = "queueName \<lparr>d_name = name, d_version = version, d_retry = p\<rparr>"
  let ?k = "new_job j n ?q (runJob_json i) runJobMaxAttempts None (ctx_trace x)"
  have k: "ID ?k = j" "Status ?k = StatusPending" "Payload ?k = runJob_json i" "QueueName ?k = ?q" by (simp_all add: new_job_def)
  have "retrying n d0 A (insert i B) X (d\<lparr>jobs := jobs d @ [?k], outbox := out,
        runs := upd_where (\<lambda>r. r_id r = i) (\<lambda>r. r\<lparr>r_job_id := Some j\<rparr>) (runs d)\<rparr>)"
    if d: "retrying n d0 (insert i A) B (X(i := {})) d" "run_of_job i name version d" for d out
  proof -
    have "unretried d i = {}" using d(1) by (auto simp: retrying_def split: if_splits)
    from retrying_linked [OF d this old k(2-4), unfolded k(1)] show ?thesis by (rule retrying_weaken) simp_all
  qed
  then show ?case
    by (intro exec_tx [where Q' = "retrying n d0 A (insert i B) X"] replies_return)
      (auto simp: opened_def link_run_job_def update_runs_def on_db_def)
qed (auto simp: runJobMaxAttempts_def)

text \<open>What follows the children: their steps and the run are reset, the run gets its job.\<close>

lemma finish_retried:
  assumes old: "\<And>r. r \<in> set (runs d0) \<Longrightarrow> r_id r = i \<Longrightarrow> retryable r \<and> r_workflow r = name \<and> r_version r = version"
    and "i \<in> set (map r_id (runs d0))" "B \<subseteq> B'"
  shows "hoare (opened d0 n (retrying n d0 (insert i A) B' (X(i := {}))))
     (attempt (query (update_steps (\<lambda>s. s_run_id s = i \<and> s_kind s = KindChild \<and> s_status s = StepFailed) reset_child_step))
        (\<lambda>e. Some (Inl (h e))) (\<lambda>_.
      attempt (query (update_runs (\<lambda>r. r_id r = i) reset_run)) (\<lambda>e. Some (Inl (h' e))) (\<lambda>_. do {
        q \<leftarrow> enqueueRunJobTx c x i (queueName \<lparr>d_name = name, d_version = version, d_retry = p\<rparr>);
        State_Monad.return (Some q) })))
     (retry_answer d0 n A B X {i} rank fuel)"
proof (rule attempt_query_tx [where R = "\<lambda>_. retrying n d0 (insert i A) B' (X(i := {}))"], goal_cases)
  case (2 w)
  then show ?case
    using retrying_children [of n d0 "insert i A" B' "X(i := {})" "db w" i]
    by (simp add: update_steps_def on_db_def opened_now) (simp add: opened_def)
next
  case (3 a)
  show ?case
  proof (rule attempt_query_tx [where R = "\<lambda>_ d. retrying n d0 (insert i A) B' (X(i := {})) d \<and> run_of_job i name version d"], goal_cases)
  case (2 w)
  then have d: "retrying n d0 (insert i A) B' (X(i := {})) (db w)" by (simp add: opened_def)
  have same: "r_workflow r = name \<and> r_version r = version" if "r \<in> set (runs (db w))" "r_id r = i" for r
    using d that old runs_reset_row reset_from_id unfolding retrying_def retry_effect_def by metis
  have "i \<in> set (map r_id (runs (db w)))"
    using d assms(2) runs_reset_ids unfolding retrying_def retry_effect_def by metis
  moreover have "map r_id (upd_where (\<lambda>r. r_id r = i) (reset_run m) (runs (db w))) = map r_id (runs (db w))" for m
    by (simp add: upd_where_def reset_run_def)
  moreover have "r_status q = RunPending \<and> r_workflow q = name \<and> r_version q = version"
    if q: "q \<in> set (upd_where (\<lambda>r. r_id r = i) (reset_run m) (runs (db w)))" "r_id q = i" for q m
  proof -
    from q(1) obtain r where r: "r \<in> set (runs (db w))" "q = (if r_id r = i then reset_run m r else r)" by (auto simp: upd_where_def)
    with q(2) have "r_id r = i" by (cases "r_id r = i") (simp_all add: reset_run_def)
    with r same [of r] show ?thesis by (simp add: reset_run_def)
  qed
  ultimately have "run_of_job i name version (db (snd (update_runs (\<lambda>r. r_id r = i) reset_run w)))"
    unfolding run_of_job_def update_runs_def on_db_def by simp
  then show ?case
    using retrying_reset [OF d, of i] old 2
    by (auto simp: update_runs_def on_db_def opened_now)
next
  case (3 a)
  show ?case
    by (rule hoare_bind [OF enqueue_retried hoare_return])
      (use assms in \<open>auto simp: retry_answer_def elim!: replies_mono intro!: exI [of _ "insert i B'"]\<close>)
  qed (auto simp: retry_answer_def)
qed (auto simp: retry_answer_def)

lemma retry_answer_weaken:
  assumes "retry_answer d0 n A B' X I rank fuel r w" "insert i B \<subseteq> B'"
  shows "retry_answer d0 n A B X (insert i I) rank fuel r w"
proof (cases r)
  case None
  with assms(1) show ?thesis by (auto simp: retry_answer_def)
next
  case (Some q)
  with assms(1) have "replies d0 n (\<lambda>_ d. \<exists>B''. B' \<union> I \<subseteq> B'' \<and> retrying n d0 A B'' X d) q w" by (simp add: retry_answer_def)
  then have "replies d0 n (\<lambda>_ d. \<exists>B''. B \<union> insert i I \<subseteq> B'' \<and> retrying n d0 A B'' X d) q w"
    by (rule replies_mono) (use assms(2) in blast)
  with Some show ?thesis by (simp add: retry_answer_def)
qed

lemma retry_children_step:
  assumes first: "\<And>B. hoare (opened d0 n (retrying n d0 A B X)) (retryTx fuel c x i) (retry_answer d0 n A B X {i} rank fuel)"
    and rest: "\<And>B. hoare (opened d0 n (retrying n d0 A B X)) (retry_children fuel c x is) (retry_answer d0 n A B X (set is) rank fuel)"
  shows "hoare (opened d0 n (retrying n d0 A B X)) (retry_children fuel c x (i # is)) (retry_answer d0 n A B X (insert i (set is)) rank fuel)"
  unfolding retry_children.simps
proof (rule hoare_bind [OF first], intro hoare_case_option hoare_case_sum hoare_return, goal_cases)
  case (3 r y z)
  have "hoare (\<lambda>w. \<exists>B'. insert i B \<subseteq> B' \<and> opened d0 n (retrying n d0 A B' X) w) (retry_children fuel c x is)
      (retry_answer d0 n A B X (insert i (set is)) rank fuel)"
  proof (rule hoare_ex, rule hoare_assume)
    fix B' assume "insert i B \<subseteq> B'"
    then show "hoare (\<lambda>w. insert i B \<subseteq> B' \<and> opened d0 n (retrying n d0 A B' X) w) (retry_children fuel c x is)
        (retry_answer d0 n A B X (insert i (set is)) rank fuel)"
      by (intro hoare_conseq [OF rest [of B']] retry_answer_weaken) auto
  qed blast
  then show ?case by (rule hoare_pre) (use 3 in \<open>auto simp: retry_answer_def opened_def\<close>)
qed (auto simp: retry_answer_def)

text \<open>Retrying one run, given what retrying its children does.\<close>

lemma retry_with_children:
  assumes ids: "distinct (map r_id (runs d0))" and q: "q \<in> set (runs d0)" "r_id q = i" "retryable q"
    and children: "\<And>A B X. hoare (opened d0 n (retrying n d0 A B X)) (retry_children fuel c x cs) (retry_answer d0 n A B X (set cs) rank fuel)"
  shows "hoare (opened d0 n (\<lambda>d. retrying n d0 (insert i A) B X d \<and> set cs = unretried d i))
     (do {
        r \<leftarrow> retry_children fuel c x cs;
        (case r of
            None \<Rightarrow> State_Monad.return None
          | Some (Inl e) \<Rightarrow> State_Monad.return (Some (Inl e))
          | Some (Inr _) \<Rightarrow>
              attempt (query (update_steps (\<lambda>s. s_run_id s = i \<and> s_kind s = KindChild \<and> s_status s = StepFailed) reset_child_step))
                (\<lambda>e. Some (Inl (h e))) (\<lambda>_.
              attempt (query (update_runs (\<lambda>r. r_id r = i) reset_run)) (\<lambda>e. Some (Inl (h' e))) (\<lambda>_. do {
                  q \<leftarrow> enqueueRunJobTx c x i (queueName \<lparr>d_name = r_workflow q, d_version = r_version q, d_retry = p\<rparr>);
                  State_Monad.return (Some q) }))) })
     (retry_answer d0 n A B X {i} rank (Suc fuel))"
proof (rule hoare_assume)
  let ?X = "X(i := set cs)"
  show "set cs \<subseteq> X i" if "opened d0 n (\<lambda>d. retrying n d0 (insert i A) B X d \<and> set cs = unretried d i) w" for w
    using that by (auto simp: opened_def retrying_def)
  assume sub: "set cs \<subseteq> X i"
  have pre: "opened d0 n (retrying n d0 (insert i A) B ?X) w"
    if "opened d0 n (\<lambda>d. retrying n d0 (insert i A) B X d \<and> set cs = unretried d i) w" for w
    using that by (auto simp: opened_def intro: retrying_narrow)
  have old: "retryable r \<and> r_workflow r = r_workflow q \<and> r_version r = r_version q" if "r \<in> set (runs d0)" "r_id r = i" for r
    using distinct_id_eq [OF ids that(1) q(1)] that(2) q by simp
  show ?thesis
  proof (rule hoare_bind [OF hoare_pre [OF children pre]], assumption,
      intro hoare_case_option hoare_case_sum hoare_return, goal_cases)
    case (1 r w)
    have "ranked X rank \<Longrightarrow> ranked ?X rank" using sub by (auto simp: ranked_def)
    with 1 sub show ?case by (auto simp: retry_answer_def ranked_def) (meson Suc_leI le_less_trans subsetD)
  next
    case (3 r y z)
    let ?P = "\<lambda>B' w. B \<union> set cs \<subseteq> B' \<and> opened d0 n (retrying n d0 (insert i A) B' ?X) w"
    have "retrying n d0 (insert i A) B' (X(i := {})) d" if "retrying n d0 (insert i A) B' ?X d" "B \<union> set cs \<subseteq> B'" for d B'
    proof -
      have "unretried d i = {}" using retried_not_found [OF that(1) ids] that(2) by simp
      then show ?thesis using retrying_narrow [OF that(1), of i "{}"] by simp
    qed
    then have "hoare (?P B') m (retry_answer d0 n A B X {i} rank (Suc fuel))"
      if "hoare (opened d0 n (retrying n d0 (insert i A) B' (X(i := {})))) m (retry_answer d0 n A B X {i} rank (Suc fuel))" for B' m
      by (intro hoare_pre [OF that]) (auto simp: opened_def)
    note ready = this
    show ?case
      by (rule hoare_pre [where P' = "\<lambda>w. \<exists>B'. ?P B' w"], rule hoare_ex, rule hoare_assume, erule conjunct1,
          rule ready, rule finish_retried [OF old])
        (use q 3 in \<open>auto simp: retry_answer_def opened_def\<close>)
  qed (auto simp: retry_answer_def)
qed

lemma retry_found:
  assumes ids: "distinct (map r_id (runs d0))" and q: "q \<in> set (runs d0)" "r_id q = i" "retryable q"
    and children: "\<And>A B X cs. hoare (opened d0 n (retrying n d0 A B X)) (retry_children fuel c x cs) (retry_answer d0 n A B X (set cs) rank fuel)"
  shows "hoare (opened d0 n (retrying n d0 A B X))
     (attempt (query (delete_steps (interrupted_step i))) (\<lambda>e. Some (Inl (h1 e))) (\<lambda>_.
      attempt (childrenToRetryTx i) (\<lambda>e. Some (Inl e)) (\<lambda>cs. do {
        r \<leftarrow> retry_children fuel c x cs;
        (case r of
            None \<Rightarrow> State_Monad.return None
          | Some (Inl e) \<Rightarrow> State_Monad.return (Some (Inl e))
          | Some (Inr _) \<Rightarrow>
              attempt (query (update_steps (\<lambda>s. s_run_id s = i \<and> s_kind s = KindChild \<and> s_status s = StepFailed) reset_child_step))
                (\<lambda>e. Some (Inl (h e))) (\<lambda>_.
              attempt (query (update_runs (\<lambda>r. r_id r = i) reset_run)) (\<lambda>e. Some (Inl (h' e))) (\<lambda>_. do {
                  q \<leftarrow> enqueueRunJobTx c x i (queueName \<lparr>d_name = r_workflow q, d_version = r_version q, d_retry = p\<rparr>);
                  State_Monad.return (Some q) }))) })))
     (retry_answer d0 n A B X {i} rank (Suc fuel))"
proof (rule attempt_query_tx [where R = "\<lambda>_. retrying n d0 (insert i A) B X"], goal_cases)
  case (3 a)
  show ?case
    by (rule attempt_tx [OF childrenToRetry_tx retry_with_children [OF ids q children]]) (simp add: retry_answer_def)
qed (auto simp: delete_steps_def on_db_def opened_def retry_answer_def intro: retrying_delete)

lemma retryTx_step:
  assumes ids: "distinct (map r_id (runs d0))"
    and children: "\<And>A B X cs. hoare (opened d0 n (retrying n d0 A B X)) (retry_children fuel c x cs) (retry_answer d0 n A B X (set cs) rank fuel)"
  shows "hoare (opened d0 n (retrying n d0 A B X)) (retryTx (Suc fuel) c x i) (retry_answer d0 n A B X {i} rank (Suc fuel))"
  unfolding retryTx.simps lockRunTx_def
proof (rule attempt_lockRun, goal_cases)
  case (2 st j)
  let ?Q = "retrying n d0 A B X"
  have row: "\<exists>q \<in> set (runs d0). r_id q = i \<and> (retryable r \<longrightarrow> r = q) \<and> r_workflow r = r_workflow q \<and> r_version r = r_version q"
    if "?Q d" "r \<in> set (runs d)" "r_id r = i" for d r
  proof -
    from that obtain q where "q \<in> set (runs d0)" "reset_from n (A \<union> B) q r"
      using runs_reset_row unfolding retrying_def retry_effect_def by metis
    with that(3) show ?thesis using reset_from_id reset_from_retryable by (intro bexI [of _ q]) fastforce+
  qed
  show ?case unfolding prod.case
  proof (rule hoare_if, goal_cases)
    case 2
    then have st: "st = RunFailed \<or> st = RunCancelled" by simp
    show ?case
    proof (rule hoare_assume [where A = "\<exists>q \<in> set (runs d0). r_id q = i \<and> retryable q"], goal_cases)
      case (1 w)
      with st row show ?case unfolding opened_def retryable_def by metis
    next
      case 2
      then obtain q where q: "q \<in> set (runs d0)" "r_id q = i" "retryable q" by blast
      have found: "r_workflow r = r_workflow q \<and> r_version r = r_version q" if "?Q d" "r \<in> set (runs d)" "r_id r = i" for d r
        using row [OF that] distinct_id_eq [OF ids _ q(1)] q(2) by metis
      show ?case
      proof (rule attempt_query_row_tx [where R = "\<lambda>(name, version) d. ?Q d \<and> name = r_workflow q \<and> version = r_version q"], goal_cases)
        case (3 v)
        show ?case
        proof (rule hoare_assume [where A = "v = (r_workflow q, r_version q)"], goal_cases)
          case 2
          then show ?case by (simp only: prod.case) (rule hoare_pre [OF retry_found [OF ids q children]], auto simp: opened_def)
        qed (auto simp: opened_def)
      qed (auto simp: select_run_def plain_read opened_def retry_answer_def found dest!: find_SomeD)
    qed
  qed (auto simp: retry_answer_def opened_def intro!: hoare_return)
qed (simp add: retry_answer_def)

lemma retry_all_children:
  assumes "\<And>i B. hoare (opened d0 n (retrying n d0 A B X)) (retryTx fuel c x i) (retry_answer d0 n A B X {i} rank fuel)"
  shows "hoare (opened d0 n (retrying n d0 A B X)) (retry_children fuel c x cs) (retry_answer d0 n A B X (set cs) rank fuel)"
proof (induction cs arbitrary: B)
  case Nil
  show ?case by (auto simp: retry_answer_def opened_def intro!: hoare_return)
next
  case (Cons i cs)
  then show ?case using retry_children_step [OF assms] by simp
qed

lemma retry_rule:
  assumes ids: "distinct (map r_id (runs d0))"
  shows "hoare (opened d0 n (retrying n d0 A B X)) (retryTx fuel c x i) (retry_answer d0 n A B X {i} rank fuel)"
proof (induction fuel arbitrary: i A B X)
  case 0
  show ?case by (auto simp: retry_answer_def opened_def intro!: hoare_return)
next
  case (Suc fuel)
  show ?case by (rule retryTx_step [OF ids retry_all_children [OF Suc]])
qed

section \<open>Retrying a run\<close>

definition retried :: "string \<Rightarrow> database \<Rightarrow> database \<Rightarrow> bool" where
  "retried i d0 d \<longleftrightarrow> (\<exists>n B. i \<in> B \<and> retry_effect n B d0 d \<and> (\<forall>b \<in> B. resumed b d \<and> unretried d b = {}))"

lemma retried_sent: "retried i d0 d \<Longrightarrow> retried i d0 (sent d)"
  by (simp add: retried_def retry_effect_def resumed_def unretried_def)

definition retry_done :: "database \<Rightarrow> string \<Rightarrow> (string \<Rightarrow> nat) \<Rightarrow> nat \<Rightarrow> unit result option \<Rightarrow> world \<Rightarrow> bool" where
  "retry_done d0 i rank fuel r w = (case r of
      None \<Rightarrow> untouched d0 w \<and> (ranked (unretried d0) rank \<longrightarrow> fuel \<le> rank i)
    | Some (Inl _) \<Rightarrow> closed d0 (retried i d0) w
    | Some (Inr _) \<Rightarrow> committed (retried i d0) w)"

lemma restored:
  "snapshot w = Some d0 \<Longrightarrow> snapshot (restore w) = None" "snapshot w = Some d0 \<Longrightarrow> db (restore w) = d0"
  "committed Q w \<Longrightarrow> committed Q (restore w)"
  by (auto simp: restore_def committed_def)

lemma Retry_rule:
  assumes "distinct (map r_id (runs d0))"
  shows "hoare (untouched d0) (wf_Retry fuel c x i) (retry_done d0 i rank fuel)"
  unfolding wf_Retry_def
proof (rule attempt_begin, goal_cases)
  case (2 n)
  let ?body = "\<lambda>r w. case r of
      None \<Rightarrow> snapshot w = Some d0 \<and> (ranked (unretried d0) rank \<longrightarrow> fuel \<le> rank i)
    | Some (Inl _) \<Rightarrow> ending d0 (retried i d0) w
    | Some (Inr _) \<Rightarrow> committed (retried i d0) w"
  have start: "hoare (opened d0 n (\<lambda>d. d = d0)) (retryTx fuel c x i) (retry_answer d0 n {} {} (unretried d0) {i} rank fuel)"
    by (rule hoare_pre [OF retry_rule [OF assms]]) (auto simp: opened_def retrying_start)
  show ?case unfolding deferring_rollback_def
  proof (rule hoare_bind [where R = ?body])
    fix r
    show "hoare (?body r) (do { State_Monad.update restore; State_Monad.return r }) (retry_done d0 i rank fuel)"
      by (rule hoare_bind [OF hoare_update hoare_return])
        (auto simp: retry_done_def restored ending_restore split: option.splits sum.splits)
  next
    show "hoare (opened d0 n (\<lambda>d. d = d0)) (do {
       r \<leftarrow> retryTx fuel c x i;
       (case r of
          None \<Rightarrow> State_Monad.return None
        | Some (Inl e) \<Rightarrow> State_Monad.return (Some (Inl e))
        | Some (Inr _) \<Rightarrow> attempt commit_tx (\<lambda>e. Some (Inl (wrap ''workflow: commit retry: '' e)))
            (\<lambda>_. State_Monad.return (Some (Inr ())))) }) ?body"
    proof (rule hoare_bind [OF start], intro hoare_case_option hoare_case_sum hoare_return, goal_cases)
      case (3 r y z)
      have "opened d0 n (retried i d0) w" if "retry_answer d0 n {} {} (unretried d0) {i} rank fuel r w" for w
      proof -
        from that 3 have "opened d0 n (\<lambda>d. \<exists>B. {i} \<subseteq> B \<and> retrying n d0 {} B (unretried d0) d) w" by (simp add: retry_answer_def)
        then show ?thesis by (rule opened_mono) (auto simp: retried_def retrying_def)
      qed
      then show ?case by (rule hoare_pre [OF attempt_commit, rotated 2]) (simp_all add: closed_ending)
    qed (auto simp: retry_answer_def ending_def)
  qed
qed (simp add: retry_done_def closed_def)

text \<open>The children to retry with a run. Without a cycle, counting what is below a run ranks the runs.\<close>

definition retry_edges :: "database \<Rightarrow> (string \<times> string) set" where
  "retry_edges d = {(i, k). k \<in> unretried d i}"

lemma retry_edges_ranked:
  assumes "acyclic (retry_edges d)"
  shows "ranked (unretried d) (\<lambda>i. card ((retry_edges d)\<^sup>+ `` {i}))" "card ((retry_edges d)\<^sup>+ `` {i}) \<le> length (runs d)"
proof -
  let ?E = "retry_edges d"
  have sub: "?E\<^sup>+ `` {i} \<subseteq> r_id ` set (runs d)" for i
  proof
    fix k assume "k \<in> ?E\<^sup>+ `` {i}"
    then obtain j where "(j, k) \<in> ?E" by (auto elim: tranclE)
    then show "k \<in> r_id ` set (runs d)" by (auto simp: retry_edges_def unretried_def)
  qed
  then have fin: "finite (?E\<^sup>+ `` {i})" for i by (rule finite_subset) simp
  show "card (?E\<^sup>+ `` {i}) \<le> length (runs d)"
    using card_mono [OF finite_imageI [OF finite_set] sub [of i]] card_image_le [OF finite_set, of r_id "runs d"]
      card_length [of "runs d"] by (meson order_trans)
  have "?E\<^sup>+ `` {k} \<subset> ?E\<^sup>+ `` {i}" if "(i, k) \<in> ?E" for i k
  proof
    show "?E\<^sup>+ `` {k} \<subseteq> ?E\<^sup>+ `` {i}" using that by (auto intro: trancl_into_trancl2)
    show "?E\<^sup>+ `` {k} \<noteq> ?E\<^sup>+ `` {i}" using that assms by (auto simp: acyclic_def)
  qed
  then have "card (?E\<^sup>+ `` {k}) < card (?E\<^sup>+ `` {i})" if "(i, k) \<in> ?E" for i k
    using that by (intro psubset_card_mono fin)
  moreover have "(i, k) \<in> ?E" if "k \<in> unretried d i" for i k using that by (simp add: retry_edges_def)
  ultimately show "ranked (unretried d) (\<lambda>i. card (?E\<^sup>+ `` {i}))" by (simp add: ranked_def)
qed


text \<open>A run that failed with its child, after a step that succeeded.\<close>

definition failed_family :: world where
  "failed_family = (let
       member = (\<lambda>i p. (new_run i sample_def ''{}'' \<lparr>st_key = [], st_timeout = 0\<rparr> p ''child'' 1)\<lparr>r_status := RunFailed, r_error := Some ''boom'', r_completed_at := Some 2\<rparr>);
       step = (\<lambda>i name kind status child. (new_step i name kind status initial_world)\<lparr>s_child_run_id := child\<rparr>) in
     initial_world\<lparr>db := empty_database\<lparr>runs := [member ''r1'' [], member ''r2'' ''r1''],
       steps := [step ''r1'' ''charge'' KindStep StepSucceeded None, step ''r1'' ''child'' KindChild StepFailed (Some ''r2''),
         step ''r2'' ''ship'' KindStep StepFailed None]\<rparr>\<rparr>)"

lemma failed_family_run:
  "fst (run_state (wf_Retry 3 sample_wf_client background ''r1'') failed_family) = Some (Inr ())"
  "map (\<lambda>s. (s_name s, s_status s)) (steps (db (snd (run_state (wf_Retry 3 sample_wf_client background ''r1'') failed_family))))
     = [(''charge'', StepSucceeded), (''child'', StepWaiting)]"
  "snapshot failed_family = None" "distinct (map r_id (runs (db failed_family)))"
  by code_simp+


end
