(* ===== verification/Schema.thy ===== *)
theory Schema
  imports Workflow_Start
begin

text \<open>
  The schema: \<open>EnsureSchema\<close> of \<open>queue/queue.go\<close> and of \<open>workflow/schema.go\<close> over the catalog of the
  database. The statements are the DDL the code sends, of which the tables with their columns and the
  indexes are kept; a statement batch of one call takes effect as a whole or not at all.
\<close>

section \<open>Statements\<close>

type_synonym ddl = "catalog \<Rightarrow> err + catalog"

definition undefined_table :: "string \<Rightarrow> err" where
  "undefined_table t = PgError ''42P01'' (''relation '' @ t @ '' does not exist'')"

definition undefined_column :: err where
  "undefined_column = PgError ''42703'' ''column does not exist''"

definition create_table :: "string \<Rightarrow> string list \<Rightarrow> ddl" where
  "create_table t cols cat = Inr (case map_of (ct_tables cat) t of
       Some _ \<Rightarrow> cat | None \<Rightarrow> cat\<lparr>ct_tables := (t, cols) # ct_tables cat\<rparr>)"

definition add_column :: "string \<Rightarrow> string \<Rightarrow> ddl" where
  "add_column t col cat = (case map_of (ct_tables cat) t of
       None \<Rightarrow> Inl (undefined_table t)
     | Some cols \<Rightarrow> Inr (if col \<in> set cols then cat else cat\<lparr>ct_tables := (t, cols @ [col]) # ct_tables cat\<rparr>))"

definition create_index :: "string \<Rightarrow> string \<Rightarrow> string list \<Rightarrow> ddl" where
  "create_index i t cols cat = (case map_of (ct_tables cat) t of
       None \<Rightarrow> Inl (undefined_table t)
     | Some present \<Rightarrow>
         if i \<in> set (ct_indexes cat) then Inr cat
         else if set cols \<subseteq> set present then Inr (cat\<lparr>ct_indexes := ct_indexes cat @ [i]\<rparr>)
         else Inl undefined_column)"

fun batch :: "ddl list \<Rightarrow> ddl" where
  "batch [] cat = Inr cat"
| "batch (s # ss) cat = (case s cat of Inl e \<Rightarrow> Inl e | Inr cat' \<Rightarrow> batch ss cat')"

definition exec_ddl :: "ddl list \<Rightarrow> unit result statement" where
  "exec_ddl ss w = (case batch ss (catalog w) of Inl e \<Rightarrow> (Inl e, w) | Inr cat \<Rightarrow> (Inr (), w\<lparr>catalog := cat\<rparr>))"

definition read_version :: "string \<Rightarrow> int option statement" where
  "read_version meta w = (map_of (ct_versions (catalog w)) meta, w)"

definition record_version :: "string \<Rightarrow> int \<Rightarrow> unit statement" where
  "record_version meta v w = ((), w\<lparr>catalog := (catalog w)\<lparr>ct_versions := (meta, v) # ct_versions (catalog w)\<rparr>\<rparr>)"

section \<open>The queue's schema\<close>

definition schemaVersion :: int where
  "schemaVersion = 4"

definition migrateV1 :: "unit result io" where
  "migrateV1 = attempt (query_checked (exec_ddl
       [create_table ''pgqueue_jobs'' [''id'', ''queue_name'', ''payload'', ''status'', ''attempts'', ''max_attempts'',
          ''available_at'', ''claimed_by'', ''claimed_at'', ''done_at'', ''last_error'', ''created_at'', ''updated_at''],
        create_index ''idx_pgqueue_pending_due'' ''pgqueue_jobs'' [''queue_name'', ''available_at'', ''id'', ''status''],
        create_index ''idx_pgqueue_processing'' ''pgqueue_jobs'' [''queue_name'', ''claimed_at'', ''status'']]))
     (\<lambda>e. Inl (wrap ''pgqueue: migrate v1: '' e)) (\<lambda>_. State_Monad.return (Inr ()))"

definition migrateV2 :: "unit result io" where
  "migrateV2 = attempt (query_checked (exec_ddl [add_column ''pgqueue_jobs'' ''claims'']))
     (\<lambda>e. Inl (wrap ''pgqueue: migrate v2: '' e)) (\<lambda>_. State_Monad.return (Inr ()))"

definition migrateV3 :: "unit result io" where
  "migrateV3 = attempt (query_checked (exec_ddl [add_column ''pgqueue_jobs'' ''trace_context'']))
     (\<lambda>e. Inl (wrap ''pgqueue: migrate v3: '' e)) (\<lambda>_. State_Monad.return (Inr ()))"

definition migrateV4 :: "unit result io" where
  "migrateV4 = attempt (query_checked (exec_ddl
       [create_index ''idx_pgqueue_finished'' ''pgqueue_jobs'' [''status'', ''updated_at'']]))
     (\<lambda>e. Inl (wrap ''pgqueue: migrate v4: '' e)) (\<lambda>_. State_Monad.return (Inr ()))"

text \<open>A migration that the recorded version may make unnecessary.\<close>

definition unless_applied :: "int \<Rightarrow> int \<Rightarrow> unit result io \<Rightarrow> unit result io" where
  "unless_applied current v m = (if current < v then m else State_Monad.return (Inr ()))"

text \<open>Reading the version: no row leaves it at 0.\<close>

definition current_version :: "string \<Rightarrow> int result io" where
  "current_version meta = do {
     r \<leftarrow> query_row (read_version meta);
     State_Monad.return (case r of Inl e \<Rightarrow> if errors_is e SqlErrNoRows then Inr 0 else Inl e | Inr v \<Rightarrow> Inr v) }"

definition EnsureSchema :: "client option \<Rightarrow> unit result io" where
  "EnsureSchema c = (if nil_db c then State_Monad.return (Inl (Sentinel ErrNilDB)) else
     attempt (query_checked (exec_ddl [create_table ''pgqueue_meta'' [''key'', ''value'']]))
       (\<lambda>e. Inl (wrap ''pgqueue: create meta table: '' e)) (\<lambda>_.
     attempt (current_version ''pgqueue_meta'') (\<lambda>e. Inl (wrap ''pgqueue: read schema version: '' e)) (\<lambda>currentVersion.
     attempt (unless_applied currentVersion 1 migrateV1) Inl (\<lambda>_.
     attempt (unless_applied currentVersion 2 migrateV2) Inl (\<lambda>_.
     attempt (unless_applied currentVersion 3 migrateV3) Inl (\<lambda>_.
     attempt (unless_applied currentVersion 4 migrateV4) Inl (\<lambda>_.
     attempt (query (record_version ''pgqueue_meta'' schemaVersion)) (\<lambda>e. Inl (wrap ''pgqueue: upsert schema version: '' e))
       (\<lambda>_. State_Monad.return (Inr ())))))))))"

section \<open>The schema of workflows\<close>

definition schemaV1 :: "ddl list" where
  "schemaV1 =
     [create_table ''pgworkflow_runs'' [''id'', ''workflow'', ''version'', ''key'', ''status'', ''input'', ''output'', ''error'',
        ''timed_out'', ''parent_run_id'', ''parent_step'', ''job_id'', ''lease'', ''deadline_at'', ''wake_at'', ''created_at'',
        ''started_at'', ''completed_at'', ''updated_at''],
      create_index ''pgworkflow_runs_key'' ''pgworkflow_runs'' [''workflow'', ''key''],
      create_index ''pgworkflow_runs_by_workflow'' ''pgworkflow_runs'' [''workflow'', ''status'', ''created_at''],
      create_index ''pgworkflow_runs_by_status'' ''pgworkflow_runs'' [''status'', ''created_at''],
      create_index ''pgworkflow_runs_newest'' ''pgworkflow_runs'' [''created_at'', ''id''],
      create_index ''pgworkflow_runs_by_job'' ''pgworkflow_runs'' [''job_id'', ''status''],
      create_index ''pgworkflow_runs_by_parent'' ''pgworkflow_runs'' [''parent_run_id''],
      create_index ''pgworkflow_runs_finished'' ''pgworkflow_runs'' [''completed_at''],
      create_table ''pgworkflow_steps'' [''run_id'', ''name'', ''kind'', ''status'', ''attempts'', ''output'', ''error'', ''wake_at'',
        ''child_run_id'', ''signal'', ''created_at'', ''completed_at'', ''updated_at''],
      create_table ''pgworkflow_signals'' [''id'', ''run_id'', ''name'', ''payload'', ''received_by'', ''created_at''],
      create_index ''pgworkflow_signals_by_run'' ''pgworkflow_signals'' [''run_id'', ''name'', ''id'']]"

definition wf_schemaVersion :: int where
  "wf_schemaVersion = 1"

definition wf_EnsureSchema :: "unit result io" where
  "wf_EnsureSchema =
     attempt (query_checked (exec_ddl [create_table ''pgworkflow_meta'' [''key'', ''value'']]))
       (\<lambda>e. Inl (wrap ''workflow: create meta table: '' e)) (\<lambda>_.
     attempt (current_version ''pgworkflow_meta'') (\<lambda>e. Inl (wrap ''workflow: read schema version: '' e)) (\<lambda>current.
     attempt (unless_applied current 1 (query_checked (exec_ddl schemaV1)))
       (\<lambda>e. Inl (wrap ''workflow: migrate to schema 1: '' e)) (\<lambda>_.
     attempt (query (record_version ''pgworkflow_meta'' wf_schemaVersion)) (\<lambda>e. Inl (wrap ''workflow: record schema version: '' e))
       (\<lambda>_. State_Monad.return (Inr ())))))"

end
