(* ===== verification/Schema_Properties.thy ===== *)
theory Schema_Properties
  imports Schema
begin

text \<open>
  Migrations can be interrupted anywhere and repeated: a recorded version always means that everything up
  to it is there, nothing is ever dropped, and a call that succeeds leaves the schema complete.
\<close>

section \<open>What a schema consists of\<close>

datatype schema_object = Column string string | Index string

fun has_object :: "catalog \<Rightarrow> schema_object \<Rightarrow> bool" where
  "has_object cat (Column t c) = (case map_of (ct_tables cat) t of None \<Rightarrow> False | Some cols \<Rightarrow> c \<in> set cols)"
| "has_object cat (Index i) = (i \<in> set (ct_indexes cat))"

definition jobs_columns :: "string list" where
  "jobs_columns = [''id'', ''queue_name'', ''payload'', ''status'', ''attempts'', ''max_attempts'',
     ''available_at'', ''claimed_by'', ''claimed_at'', ''done_at'', ''last_error'', ''created_at'', ''updated_at'']"

definition runs_columns :: "string list" where
  "runs_columns = [''id'', ''workflow'', ''version'', ''key'', ''status'', ''input'', ''output'', ''error'',
     ''timed_out'', ''parent_run_id'', ''parent_step'', ''job_id'', ''lease'', ''deadline_at'', ''wake_at'', ''created_at'',
     ''started_at'', ''completed_at'', ''updated_at'']"

definition steps_columns :: "string list" where
  "steps_columns = [''run_id'', ''name'', ''kind'', ''status'', ''attempts'', ''output'', ''error'', ''wake_at'',
     ''child_run_id'', ''signal'', ''created_at'', ''completed_at'', ''updated_at'']"

definition signals_columns :: "string list" where
  "signals_columns = [''id'', ''run_id'', ''name'', ''payload'', ''received_by'', ''created_at'']"

text \<open>The objects of each version of the two schemas.\<close>

definition queue_objects :: "int \<Rightarrow> schema_object set" where
  "queue_objects v = (if v = 1 then Column ''pgqueue_jobs'' ` set jobs_columns \<union> Index ` {''idx_pgqueue_pending_due'', ''idx_pgqueue_processing''}
     else if v = 2 then {Column ''pgqueue_jobs'' ''claims''} else if v = 3 then {Column ''pgqueue_jobs'' ''trace_context''}
     else if v = 4 then {Index ''idx_pgqueue_finished''} else {})"

definition workflow_objects :: "int \<Rightarrow> schema_object set" where
  "workflow_objects v = (if v = 1 then Column ''pgworkflow_runs'' ` set runs_columns \<union> Column ''pgworkflow_steps'' ` set steps_columns
       \<union> Column ''pgworkflow_signals'' ` set signals_columns
       \<union> Index ` {''pgworkflow_runs_key'', ''pgworkflow_runs_by_workflow'', ''pgworkflow_runs_by_status'', ''pgworkflow_runs_newest'',
           ''pgworkflow_runs_by_job'', ''pgworkflow_runs_by_parent'', ''pgworkflow_runs_finished'', ''pgworkflow_signals_by_run''}
     else {})"

definition up_to :: "(int \<Rightarrow> schema_object set) \<Rightarrow> int \<Rightarrow> schema_object set" where
  "up_to objs v = (\<Union>k \<in> {1..v}. objs k)"

text \<open>
  A sound catalog: a table of the packages has all columns it is created with, and a version that is
  recorded means that the objects of all versions up to it are there.
\<close>

definition created_tables :: "(string \<times> string list) list" where
  "created_tables = [(''pgqueue_jobs'', jobs_columns), (''pgworkflow_runs'', runs_columns), (''pgworkflow_steps'', steps_columns),
     (''pgworkflow_signals'', signals_columns)]"

definition version_holds :: "string \<Rightarrow> (int \<Rightarrow> schema_object set) \<Rightarrow> catalog \<Rightarrow> bool" where
  "version_holds meta objs cat = (case map_of (ct_versions cat) meta of None \<Rightarrow> True | Some v \<Rightarrow> \<forall>x \<in> up_to objs v. has_object cat x)"

definition sound_catalog :: "catalog \<Rightarrow> bool" where
  "sound_catalog cat \<longleftrightarrow> (\<forall>(t, cols) \<in> set created_tables. map_of (ct_tables cat) t \<noteq> None \<longrightarrow> (\<forall>c \<in> set cols. has_object cat (Column t c)))
     \<and> version_holds ''pgqueue_meta'' queue_objects cat \<and> version_holds ''pgworkflow_meta'' workflow_objects cat"

text \<open>The catalog on the way: sound, nothing of \<open>cat0\<close> dropped, the objects of \<open>K\<close> there.\<close>

definition migrating :: "catalog \<Rightarrow> schema_object set \<Rightarrow> catalog \<Rightarrow> bool" where
  "migrating cat0 K cat \<longleftrightarrow> sound_catalog cat \<and> (\<forall>x. has_object cat0 x \<or> x \<in> K \<longrightarrow> has_object cat x)"

section \<open>Statements\<close>

definition provides :: "catalog \<Rightarrow> schema_object set \<Rightarrow> ddl \<Rightarrow> schema_object set \<Rightarrow> bool" where
  "provides cat0 K s L \<longleftrightarrow> (\<forall>cat. migrating cat0 K cat \<longrightarrow> (\<exists>cat'. s cat = Inr cat' \<and> migrating cat0 L cat'))"

lemma version_grown:
  "version_holds meta objs cat \<Longrightarrow> (\<And>x. has_object cat x \<Longrightarrow> has_object cat' x) \<Longrightarrow> ct_versions cat' = ct_versions cat \<Longrightarrow> version_holds meta objs cat'"
  by (auto simp: version_holds_def split: option.splits)

lemma migrating_grown:
  assumes "migrating cat0 K cat" "\<And>x. has_object cat x \<Longrightarrow> has_object cat' x" "ct_versions cat' = ct_versions cat"
    and "\<And>x. x \<in> L \<Longrightarrow> x \<in> K \<or> has_object cat' x"
    and "\<And>t cols. (t, cols) \<in> set created_tables \<Longrightarrow> map_of (ct_tables cat) t = None \<Longrightarrow> map_of (ct_tables cat') t \<noteq> None
      \<Longrightarrow> (\<forall>c \<in> set cols. has_object cat' (Column t c))"
  shows "migrating cat0 L cat'"
proof -
  have "version_holds meta objs cat \<Longrightarrow> version_holds meta objs cat'" for meta objs
    using version_grown [OF _ assms(2,3)] .
  moreover have "\<forall>c \<in> set cols. has_object cat' (Column t c)"
    if "(t, cols) \<in> set created_tables" "map_of (ct_tables cat') t \<noteq> None" for t cols
  proof (cases "map_of (ct_tables cat) t = None")
    case False
    with that(1) assms(1) have "\<forall>c \<in> set cols. has_object cat (Column t c)" by (fastforce simp: migrating_def sound_catalog_def)
    with assms(2) show ?thesis by blast
  qed (use assms(5) that in blast)
  ultimately have "sound_catalog cat'" using assms(1) unfolding migrating_def sound_catalog_def by blast
  with assms(1,2,4) show ?thesis unfolding migrating_def by blast
qed

lemma migrating_more: "migrating cat0 K cat \<Longrightarrow> (\<And>x. x \<in> L \<Longrightarrow> x \<in> K \<or> has_object cat x) \<Longrightarrow> migrating cat0 L cat"
  unfolding migrating_def by blast

lemma provides_create_table:
  assumes "(t, cols) \<in> set created_tables"
  shows "provides cat0 K (create_table t cols) (K \<union> Column t ` set cols)"
  unfolding provides_def
proof (intro allI impI)
  fix cat assume cat: "migrating cat0 K cat"
  have one: "cols' = cols" if "(t, cols') \<in> set created_tables" for cols' using assms that by (auto simp: created_tables_def)
  show "\<exists>cat'. create_table t cols cat = Inr cat' \<and> migrating cat0 (K \<union> Column t ` set cols) cat'"
  proof (cases "map_of (ct_tables cat) t")
    case None
    have keeps: "has_object (cat\<lparr>ct_tables := (t, cols) # ct_tables cat\<rparr>) x" if "has_object cat x" for x
      using that None by (cases x) (auto split: option.splits)
    have "migrating cat0 (K \<union> Column t ` set cols) (cat\<lparr>ct_tables := (t, cols) # ct_tables cat\<rparr>)"
      by (rule migrating_grown [OF cat keeps]) (auto split: if_splits dest: one)
    with None show ?thesis by (simp add: create_table_def)
  next
    case (Some cols')
    with cat assms have "\<forall>c \<in> set cols. has_object cat (Column t c)" by (fastforce simp: migrating_def sound_catalog_def)
    with cat Some show ?thesis by (auto simp: create_table_def migrating_def)
  qed
qed

lemma provides_create_other:
  assumes "t \<notin> fst ` set created_tables"
  shows "provides cat0 K (create_table t cols) K"
  unfolding provides_def
proof (intro allI impI)
  fix cat assume cat: "migrating cat0 K cat"
  have keeps: "has_object (cat\<lparr>ct_tables := (t, cols) # ct_tables cat\<rparr>) x" if "has_object cat x" "map_of (ct_tables cat) t = None" for x
    using that by (cases x) (auto split: option.splits)
  show "\<exists>cat'. create_table t cols cat = Inr cat' \<and> migrating cat0 K cat'"
  proof (cases "map_of (ct_tables cat) t")
    case None
    have "migrating cat0 K (cat\<lparr>ct_tables := (t, cols) # ct_tables cat\<rparr>)"
    proof (rule migrating_grown [OF cat keeps [OF _ None]])
      fix u cols' assume "(u, cols') \<in> set created_tables"
      then have "u \<noteq> t" using assms by force
      moreover assume "map_of (ct_tables cat) u = None" "map_of (ct_tables (cat\<lparr>ct_tables := (t, cols) # ct_tables cat\<rparr>)) u \<noteq> None"
      ultimately show "\<forall>c \<in> set cols'. has_object (cat\<lparr>ct_tables := (t, cols) # ct_tables cat\<rparr>) (Column u c)" by simp
    qed simp_all
    with None show ?thesis by (simp add: create_table_def)
  qed (use cat in \<open>simp add: create_table_def\<close>)
qed

lemma provides_add_column:
  assumes "Column t c \<in> K"
  shows "provides cat0 K (add_column t col) (insert (Column t col) K)"
  unfolding provides_def
proof (intro allI impI)
  fix cat assume cat: "migrating cat0 K cat"
  with assms obtain cols where cols: "map_of (ct_tables cat) t = Some cols" by (fastforce simp: migrating_def split: option.splits)
  have keeps: "has_object (cat\<lparr>ct_tables := (t, cols @ [col]) # ct_tables cat\<rparr>) x" if "has_object cat x" for x
    using that cols by (cases x) (auto split: option.splits)
  show "\<exists>cat'. add_column t col cat = Inr cat' \<and> migrating cat0 (insert (Column t col) K) cat'"
  proof (cases "col \<in> set cols")
    case True
    have "migrating cat0 (insert (Column t col) K) cat" by (rule migrating_more [OF cat]) (use cols True in auto)
    with cols True show ?thesis by (simp add: add_column_def)
  next
    case False
    have "migrating cat0 (insert (Column t col) K) (cat\<lparr>ct_tables := (t, cols @ [col]) # ct_tables cat\<rparr>)"
      by (rule migrating_grown [OF cat keeps]) (use cols in \<open>auto split: if_splits\<close>)
    with cols False show ?thesis by (simp add: add_column_def)
  qed
qed

lemma provides_create_index:
  assumes "cols \<noteq> []" "Column t ` set cols \<subseteq> K"
  shows "provides cat0 K (create_index i t cols) (insert (Index i) K)"
  unfolding provides_def
proof (intro allI impI)
  fix cat assume cat: "migrating cat0 K cat"
  have all: "has_object cat (Column t c)" if "c \<in> set cols" for c using cat assms(2) that unfolding migrating_def by blast
  with assms(1) obtain present where present: "map_of (ct_tables cat) t = Some present"
    by (cases cols) (fastforce split: option.splits)+
  with all have sub: "set cols \<subseteq> set present" by auto
  have keeps: "has_object (cat\<lparr>ct_indexes := ct_indexes cat @ [i]\<rparr>) x" if "has_object cat x" for x
    using that by (cases x) auto
  show "\<exists>cat'. create_index i t cols cat = Inr cat' \<and> migrating cat0 (insert (Index i) K) cat'"
  proof (cases "i \<in> set (ct_indexes cat)")
    case True
    have "migrating cat0 (insert (Index i) K) cat" by (rule migrating_more [OF cat]) (use True in auto)
    with present True show ?thesis by (simp add: create_index_def)
  next
    case False
    have "migrating cat0 (insert (Index i) K) (cat\<lparr>ct_indexes := ct_indexes cat @ [i]\<rparr>)"
      by (rule migrating_grown [OF cat keeps]) auto
    with present sub False show ?thesis by (simp add: create_index_def)
  qed
qed

lemma batch_end: "provides cat0 K (batch []) K"
  by (simp add: provides_def)

lemma batch_step: "provides cat0 K s L \<Longrightarrow> provides cat0 L (batch ss) M \<Longrightarrow> provides cat0 K (batch (s # ss)) M"
  by (fastforce simp: provides_def)

lemmas batch_table = batch_step [OF provides_create_table, rotated]
lemmas batch_other = batch_step [OF provides_create_other, rotated]
lemmas batch_column = batch_step [OF provides_add_column, rotated]
lemmas batch_index = batch_step [OF provides_create_index, rotated 2]

section \<open>Calls\<close>

text \<open>
  Outside of transactions, with the rows of the tables as in \<open>d\<close>; when \<open>ok\<close> is set, no call fails any more.
\<close>

definition serving :: "bool \<Rightarrow> database \<Rightarrow> (catalog \<Rightarrow> bool) \<Rightarrow> world \<Rightarrow> bool" where
  "serving ok d P w \<longleftrightarrow> snapshot w = None \<and> sent (db w) = sent d \<and> (ok \<longrightarrow> script w = [] \<and> \<not> tx_aborted w) \<and> P (catalog w)"

definition migrated :: "bool \<Rightarrow> database \<Rightarrow> catalog \<Rightarrow> schema_object set \<Rightarrow> 'a result \<Rightarrow> world \<Rightarrow> bool" where
  "migrated ok d cat0 L r w = (case r of Inl _ \<Rightarrow> \<not> ok \<and> serving ok d (migrating cat0 {}) w | Inr _ \<Rightarrow> serving ok d (migrating cat0 L) w)"

lemma serving_mono: "serving ok d P w \<Longrightarrow> (\<And>cat. P cat \<Longrightarrow> Q cat) \<Longrightarrow> serving ok d Q w"
  by (auto simp: serving_def)

lemma serving_round_trip:
  assumes "serving ok d P w" "round_trip w = (oc, w1)"
  shows "serving ok d P w1" "ok \<Longrightarrow> oc = Succeeds \<and> \<not> tx_aborted w1"
  using assms by (auto simp: serving_def round_trip_def split: list.splits)

lemma serving_end: "serving ok d P w \<Longrightarrow> serving ok d P (end_statement w)"
  by (auto simp: serving_def end_statement_def publish_def sent_def)

text \<open>A statement on the catalog.\<close>

lemma serving_query:
  assumes st: "\<And>w. serving ok d P w \<Longrightarrow> serving ok d (R (fst (st w))) (snd (st w))"
    and z: "\<And>cat. P cat \<Longrightarrow> Z cat" "\<And>a cat. R a cat \<Longrightarrow> Z cat"
  shows "hoare (serving ok d P) (query st) (\<lambda>r w. case r of Inl e \<Rightarrow> \<not> ok \<and> serving ok d Z w | Inr a \<Rightarrow> serving ok d (R a) w)"
proof (rule hoareI)
  fix w r w' assume w: "serving ok d P w" and run: "run_state (query st) w = (r, w')"
  obtain oc w1 where rt: "round_trip w = (oc, w1)" by (cases "round_trip w")
  note w1 = serving_round_trip [OF w rt]
  have idle: "snapshot w1 = None" using w1(1) by (simp add: serving_def)
  have fails: "serving ok d Z w1" "serving ok d Z (end_statement (snd (st w1)))"
    using serving_mono [OF w1(1) z(1)] serving_mono [OF serving_end [OF st [OF w1(1)]] z(2)] by simp_all
  show "case r of Inl e \<Rightarrow> \<not> ok \<and> serving ok d Z w' | Inr a \<Rightarrow> serving ok d (R a) w'"
    using run rt w1(2) idle fails serving_end [OF st [OF w1(1)]]
    by (cases oc) (auto simp: run_query split: if_splits prod.splits)
qed

lemma ddl_call:
  assumes "provides cat0 K (batch ss) L"
  shows "hoare (serving ok d (migrating cat0 K)) (query_checked (exec_ddl ss)) (migrated ok d cat0 L)"
  unfolding query_checked_def
proof (rule hoare_bind)
  let ?R = "\<lambda>a cat. case a of Inl e \<Rightarrow> False | Inr _ \<Rightarrow> migrating cat0 L cat"
  have any: "migrating cat0 {} cat" if "migrating cat0 K cat \<or> migrating cat0 L cat" for cat
    using that by (auto simp: migrating_def)
  show "hoare (serving ok d (migrating cat0 K)) (query (exec_ddl ss))
     (\<lambda>r w. case r of Inl e \<Rightarrow> \<not> ok \<and> serving ok d (migrating cat0 {}) w | Inr a \<Rightarrow> serving ok d (?R a) w)"
  proof (rule serving_query [where R = ?R])
    fix w assume w: "serving ok d (migrating cat0 K) w"
    then obtain cat' where "batch ss (catalog w) = Inr cat'" "migrating cat0 L cat'"
      using assms by (auto simp: provides_def serving_def)
    with w show "serving ok d (?R (fst (exec_ddl ss w))) (snd (exec_ddl ss w))" by (simp add: exec_ddl_def serving_def)
  qed (use any in \<open>auto split: sum.splits\<close>)
  fix r :: "unit result result"
  consider e where "r = Inl e" | e where "r = Inr (Inl e)" | a where "r = Inr (Inr a)" by (metis sum.exhaust)
  then show "hoare (\<lambda>w. case r of Inl e \<Rightarrow> \<not> ok \<and> serving ok d (migrating cat0 {}) w | Inr a \<Rightarrow> serving ok d (?R a) w)
     (case r of Inl e \<Rightarrow> State_Monad.return (Inl e)
      | Inr (Inl e) \<Rightarrow> do {
          State_Monad.update (\<lambda>w. if snapshot w = None then w else w\<lparr>tx_aborted := True\<rparr>);
          State_Monad.return (Inl e) }
      | Inr (Inr a) \<Rightarrow> State_Monad.return (Inr a)) (migrated ok d cat0 L)"
    by cases (auto simp: migrated_def serving_def intro!: hoare_return hoareI)
qed

lemma migrated_attempt:
  assumes "hoare P m (migrated ok d cat0 L)" "hoare (serving ok d (migrating cat0 L)) k (migrated ok d cat0 M)"
  shows "hoare P (attempt m (\<lambda>e. Inl (h e)) (\<lambda>_. k)) (migrated ok d cat0 M)"
  by (rule hoare_attempt [where R = "\<lambda>_. serving ok d (migrating cat0 L)"])
    (use assms in \<open>auto simp: migrated_def split: sum.splits elim!: hoare_post\<close>)

lemma migrated_return: "L \<subseteq> K \<Longrightarrow> hoare (serving ok d (migrating cat0 K)) (State_Monad.return (Inr ())) (migrated ok d cat0 L)"
  by (rule hoare_return) (auto simp: migrated_def elim!: serving_mono intro: migrating_more)

lemma unless_applied_rule:
  assumes "hoare (serving ok d (migrating cat0 K)) m (migrated ok d cat0 L)" "v \<le> current \<Longrightarrow> L \<subseteq> K"
  shows "hoare (serving ok d (migrating cat0 K)) (unless_applied current v m) (migrated ok d cat0 L)"
  unfolding unless_applied_def using assms by (intro hoare_if migrated_return) auto

text \<open>The two packages with the row that records their version.\<close>

definition package :: "string \<Rightarrow> (int \<Rightarrow> schema_object set) \<Rightarrow> bool" where
  "package meta objs \<longleftrightarrow> meta = ''pgqueue_meta'' \<and> objs = queue_objects \<or> meta = ''pgworkflow_meta'' \<and> objs = workflow_objects"

lemma package_version:
  assumes "package meta objs" "migrating cat0 K cat" "map_of (ct_versions cat) meta = Some v"
  shows "migrating cat0 (K \<union> up_to objs v) cat"
proof (rule migrating_more [OF assms(2)])
  have "version_holds meta objs cat" using assms(1,2) by (auto simp: package_def migrating_def sound_catalog_def)
  then show "x \<in> K \<or> has_object cat x" if "x \<in> K \<union> up_to objs v" for x
    using that assms(3) by (auto simp: version_holds_def)
qed

lemma current_version_rule:
  assumes "package meta objs"
  shows "hoare (serving ok d (migrating cat0 K)) (current_version meta)
     (\<lambda>r w. case r of Inl _ \<Rightarrow> \<not> ok \<and> serving ok d (migrating cat0 {}) w | Inr v \<Rightarrow> serving ok d (migrating cat0 (K \<union> up_to objs v)) w)"
  unfolding current_version_def
proof (rule hoareI)
  fix w r w'
  assume w: "serving ok d (migrating cat0 K) w"
    and run: "run_state (do { r \<leftarrow> query_row (read_version meta);
        State_Monad.return (case r of Inl e \<Rightarrow> if errors_is e SqlErrNoRows then Inr 0 else Inl e | Inr v \<Rightarrow> Inr v) }) w = (r, w')"
  obtain q where q: "run_state (query (read_version meta)) w = (q, w')"
    and r: "r = (case q of Inl e \<Rightarrow> if errors_is e SqlErrNoRows then Inr 0 else Inl e | Inr None \<Rightarrow> Inr 0 | Inr (Some v) \<Rightarrow> Inr v)"
    using run by (cases "run_state (query (read_version meta)) w")
      (auto simp: query_row_def run_simps split: sum.splits option.splits prod.splits)
  let ?R = "\<lambda>a. migrating cat0 (K \<union> (case a of None \<Rightarrow> {} | Some v \<Rightarrow> up_to objs v))"
  have "hoare (serving ok d (migrating cat0 K)) (query (read_version meta))
     (\<lambda>r w. case r of Inl e \<Rightarrow> \<not> ok \<and> serving ok d (migrating cat0 {}) w | Inr a \<Rightarrow> serving ok d (?R a) w)"
    by (rule serving_query [where R = ?R])
      (auto simp: read_version_def serving_def intro: package_version [OF assms] migrating_more split: option.splits)
  from hoareD [OF this w q] have "case q of Inl e \<Rightarrow> \<not> ok \<and> serving ok d (migrating cat0 {}) w' | Inr a \<Rightarrow> serving ok d (?R a) w'" .
  then show "case r of Inl _ \<Rightarrow> \<not> ok \<and> serving ok d (migrating cat0 {}) w' | Inr v \<Rightarrow> serving ok d (migrating cat0 (K \<union> up_to objs v)) w'"
    using query_fault [of "read_version meta" w _ w'] q
    by (auto simp: r up_to_def split: sum.splits option.splits)
qed

definition complete_schema :: "string \<Rightarrow> (int \<Rightarrow> schema_object set) \<Rightarrow> int \<Rightarrow> catalog \<Rightarrow> bool" where
  "complete_schema meta objs v cat \<longleftrightarrow> map_of (ct_versions cat) meta = Some v \<and> (\<forall>x \<in> up_to objs v. has_object cat x)"

definition ensured :: "bool \<Rightarrow> database \<Rightarrow> catalog \<Rightarrow> (catalog \<Rightarrow> bool) \<Rightarrow> unit result \<Rightarrow> world \<Rightarrow> bool" where
  "ensured ok d cat0 C r w = (case r of Inl _ \<Rightarrow> \<not> ok \<and> serving ok d (migrating cat0 {}) w
     | Inr _ \<Rightarrow> serving ok d (\<lambda>cat. migrating cat0 {} cat \<and> C cat) w)"

lemma has_object_versions [simp]: "has_object (cat\<lparr>ct_versions := vs\<rparr>) x = has_object cat x"
  by (cases x) simp_all

lemma record_version_rule:
  assumes "package meta objs" "up_to objs v \<subseteq> K"
  shows "hoare (serving ok d (migrating cat0 K)) (attempt (query (record_version meta v)) (\<lambda>e. Inl (h e)) (\<lambda>_. State_Monad.return (Inr ())))
     (ensured ok d cat0 (complete_schema meta objs v))"
proof (rule hoare_attempt [where R = "\<lambda>_. serving ok d (\<lambda>cat. migrating cat0 {} cat \<and> complete_schema meta objs v cat)"])
  let ?C = "\<lambda>cat. migrating cat0 {} cat \<and> complete_schema meta objs v cat"
  have "?C (cat\<lparr>ct_versions := (meta, v) # ct_versions cat\<rparr>)" if cat: "migrating cat0 K cat" for cat
  proof -
    let ?cat = "cat\<lparr>ct_versions := (meta, v) # ct_versions cat\<rparr>"
    have here: "\<forall>x \<in> up_to objs v. has_object ?cat x" using cat assms(2) by (auto simp: migrating_def)
    have "version_holds m os ?cat" if "version_holds m os cat" "m = meta \<Longrightarrow> os = objs" for m os
      using that here by (auto simp: version_holds_def split: option.splits)
    moreover have "''pgqueue_meta'' = meta \<Longrightarrow> queue_objects = objs" "''pgworkflow_meta'' = meta \<Longrightarrow> workflow_objects = objs"
      using assms(1) by (auto simp: package_def)
    ultimately have "sound_catalog ?cat" using cat unfolding migrating_def sound_catalog_def has_object_versions by simp
    with cat here show ?thesis unfolding migrating_def complete_schema_def by simp
  qed
  then show "hoare (serving ok d (migrating cat0 K)) (query (record_version meta v))
     (\<lambda>r w. case r of Inl e \<Rightarrow> ensured ok d cat0 (complete_schema meta objs v) (Inl (h e)) w | Inr a \<Rightarrow> serving ok d ?C w)"
    by (intro hoare_post [OF serving_query [where R = "\<lambda>_. ?C" and Z = "migrating cat0 {}"]])
      (auto simp: ensured_def record_version_def serving_def intro: migrating_more split: sum.splits)
qed (auto simp: ensured_def intro: hoare_return)

section \<open>Ensuring the schemas\<close>

lemma ensured_attempt:
  assumes "hoare P m (migrated ok d cat0 L)" "hoare (serving ok d (migrating cat0 L)) k (ensured ok d cat0 C)"
  shows "hoare P (attempt m (\<lambda>e. Inl (h e)) (\<lambda>_. k)) (ensured ok d cat0 C)"
  by (rule hoare_attempt [where R = "\<lambda>_. serving ok d (migrating cat0 L)"])
    (use assms in \<open>auto simp: migrated_def ensured_def split: sum.splits elim!: hoare_post\<close>)

lemma ensured_version:
  assumes "package meta objs" "\<And>v. hoare (serving ok d (migrating cat0 (K \<union> up_to objs v))) (k v) (ensured ok d cat0 C)"
  shows "hoare (serving ok d (migrating cat0 K)) (attempt (current_version meta) (\<lambda>e. Inl (h e)) k) (ensured ok d cat0 C)"
proof (rule hoare_attempt [OF _ assms(2)])
  show "hoare (serving ok d (migrating cat0 K)) (current_version meta)
     (\<lambda>r w. case r of Inl e \<Rightarrow> ensured ok d cat0 C (Inl (h e)) w | Inr v \<Rightarrow> serving ok d (migrating cat0 (K \<union> up_to objs v)) w)"
    by (rule hoare_post [OF current_version_rule [OF assms(1)]]) (auto simp: ensured_def split: sum.splits)
qed

text \<open>The migrations, each with the objects it relies on.\<close>

lemmas ddl_intros = batch_table batch_index batch_column batch_end

lemma create_meta:
  "provides cat0 K (batch [create_table ''pgqueue_meta'' cols]) K"
  "provides cat0 K (batch [create_table ''pgworkflow_meta'' cols]) K"
  by (rule batch_other [OF batch_end]; simp add: created_tables_def)+

lemma queue_migrations:
  "hoare (serving ok d (migrating cat0 K)) migrateV1 (migrated ok d cat0 (K \<union> queue_objects 1))"
  "queue_objects 1 \<subseteq> K \<Longrightarrow> hoare (serving ok d (migrating cat0 K)) migrateV2 (migrated ok d cat0 (K \<union> queue_objects 2))"
  "queue_objects 1 \<subseteq> K \<Longrightarrow> hoare (serving ok d (migrating cat0 K)) migrateV3 (migrated ok d cat0 (K \<union> queue_objects 3))"
  "queue_objects 1 \<subseteq> K \<Longrightarrow> hoare (serving ok d (migrating cat0 K)) migrateV4 (migrated ok d cat0 (K \<union> queue_objects 4))"
  unfolding migrateV1_def migrateV2_def migrateV3_def migrateV4_def
  by (rule migrated_attempt [OF ddl_call migrated_return], (rule ddl_intros)+;
      auto simp: created_tables_def jobs_columns_def queue_objects_def)+

lemma workflow_migration:
  "hoare (serving ok d (migrating cat0 K)) (query_checked (exec_ddl schemaV1)) (migrated ok d cat0 (K \<union> workflow_objects 1))"
proof -
  have "\<exists>L. provides cat0 K (batch schemaV1) L \<and> K \<union> workflow_objects 1 \<subseteq> L"
    unfolding schemaV1_def
    by (intro exI conjI, (rule ddl_intros)+)
      (auto simp: created_tables_def runs_columns_def steps_columns_def signals_columns_def workflow_objects_def)
  then obtain L where L: "provides cat0 K (batch schemaV1) L" "K \<union> workflow_objects 1 \<subseteq> L" by blast
  show ?thesis
    by (rule hoare_post [OF ddl_call [OF L(1)]])
      (use L(2) in \<open>auto simp: migrated_def split: sum.splits elim!: serving_mono intro: migrating_more\<close>)
qed

lemma unless_migrated:
  assumes "hoare (serving ok d (migrating cat0 K)) m (migrated ok d cat0 (K \<union> objs v))" "1 \<le> v" "up_to objs current \<subseteq> K"
  shows "hoare (serving ok d (migrating cat0 K)) (unless_applied current v m) (migrated ok d cat0 (K \<union> objs v))"
proof (rule unless_applied_rule [OF assms(1)])
  assume "v \<le> current"
  then have "objs v \<subseteq> up_to objs current" using assms(2) UN_upper [of v "{1..current}" objs] by (simp add: up_to_def)
  with assms(3) show "K \<union> objs v \<subseteq> K" by blast
qed

lemma queue_unless:
  "up_to queue_objects v \<subseteq> K \<Longrightarrow> hoare (serving ok d (migrating cat0 K)) (unless_applied v 1 migrateV1) (migrated ok d cat0 (K \<union> queue_objects 1))"
  "up_to queue_objects v \<subseteq> K \<Longrightarrow> queue_objects 1 \<subseteq> K \<Longrightarrow>
     hoare (serving ok d (migrating cat0 K)) (unless_applied v 2 migrateV2) (migrated ok d cat0 (K \<union> queue_objects 2))"
  "up_to queue_objects v \<subseteq> K \<Longrightarrow> queue_objects 1 \<subseteq> K \<Longrightarrow>
     hoare (serving ok d (migrating cat0 K)) (unless_applied v 3 migrateV3) (migrated ok d cat0 (K \<union> queue_objects 3))"
  "up_to queue_objects v \<subseteq> K \<Longrightarrow> queue_objects 1 \<subseteq> K \<Longrightarrow>
     hoare (serving ok d (migrating cat0 K)) (unless_applied v 4 migrateV4) (migrated ok d cat0 (K \<union> queue_objects 4))"
  by (rule unless_migrated [where objs = queue_objects], rule queue_migrations; simp)+

lemma up_to_last:
  "up_to queue_objects schemaVersion = queue_objects 1 \<union> queue_objects 2 \<union> queue_objects 3 \<union> queue_objects 4"
  "up_to workflow_objects wf_schemaVersion = workflow_objects 1"
proof -
  have "{1..4 :: int} = {1, 2, 3, 4}" "{1..1 :: int} = {1}" by auto
  then show "up_to queue_objects schemaVersion = queue_objects 1 \<union> queue_objects 2 \<union> queue_objects 3 \<union> queue_objects 4"
    "up_to workflow_objects wf_schemaVersion = workflow_objects 1"
    by (auto simp: up_to_def schemaVersion_def wf_schemaVersion_def)
qed

lemma EnsureSchema_rule:
  assumes "\<not> nil_db c"
  shows "hoare (serving ok d (migrating cat0 {})) (EnsureSchema c)
     (ensured ok d cat0 (complete_schema ''pgqueue_meta'' queue_objects schemaVersion))"
proof -
  have p: "package ''pgqueue_meta'' queue_objects" by (simp add: package_def)
  show ?thesis unfolding EnsureSchema_def if_not_P [OF assms]
    by (rule ensured_attempt [OF ddl_call [OF create_meta(1)]], rule ensured_version [OF p],
        rule ensured_attempt [OF queue_unless(1)], blast, rule ensured_attempt [OF queue_unless(2)], blast, blast,
        rule ensured_attempt [OF queue_unless(3)], blast, blast, rule ensured_attempt [OF queue_unless(4)], blast, blast,
        rule record_version_rule [OF p])
      (auto simp: up_to_last)
qed

lemma wf_EnsureSchema_rule:
  "hoare (serving ok d (migrating cat0 {})) wf_EnsureSchema
     (ensured ok d cat0 (complete_schema ''pgworkflow_meta'' workflow_objects wf_schemaVersion))"
proof -
  have p: "package ''pgworkflow_meta'' workflow_objects" by (simp add: package_def)
  show ?thesis unfolding wf_EnsureSchema_def
    by (rule ensured_attempt [OF ddl_call [OF create_meta(2)]], rule ensured_version [OF p],
        rule ensured_attempt [OF unless_migrated [where objs = workflow_objects, OF workflow_migration]], simp, simp, rule record_version_rule [OF p])
      (simp add: up_to_last)
qed

text \<open>
  C36. Migrations can be interrupted and repeated. Whatever calls of \<open>EnsureSchema\<close> of the queue or of the
  workflows fail, before or after their effect, the catalog stays sound: no table, column or index is
  dropped, no row changes, and a recorded version still means that everything up to it is there. When the
  call succeeds, every object of the latest version is there and that version is recorded; when no call
  fails, it succeeds, from any sound catalog, also one that an interrupted call has left.
\<close>

theorem migrations_resumable:
  assumes "snapshot w = None" "sound_catalog (catalog w)" "run_state m w = (r, w')"
    and "m = EnsureSchema c \<and> \<not> nil_db c \<and> C = complete_schema ''pgqueue_meta'' queue_objects schemaVersion
       \<or> m = wf_EnsureSchema \<and> C = complete_schema ''pgworkflow_meta'' workflow_objects wf_schemaVersion"
  shows "snapshot w' = None \<and> sent (db w') = sent (db w) \<and> sound_catalog (catalog w')
     \<and> (\<forall>x. has_object (catalog w) x \<longrightarrow> has_object (catalog w') x)
     \<and> (r = Inr () \<longrightarrow> C (catalog w')) \<and> (script w = [] \<and> \<not> tx_aborted w \<longrightarrow> r = Inr ())"
proof -
  let ?ok = "script w = [] \<and> \<not> tx_aborted w"
  have rule: "hoare (serving ?ok (db w) (migrating (catalog w) {})) m (ensured ?ok (db w) (catalog w) C)"
    using assms(4) EnsureSchema_rule wf_EnsureSchema_rule by blast
  have "serving ?ok (db w) (migrating (catalog w) {}) w" using assms(1,2) by (simp add: serving_def migrating_def)
  from hoareD [OF rule this assms(3)] show ?thesis
    by (cases r) (auto simp: ensured_def serving_def migrating_def)
qed

text \<open>The first migration is cut off after it took effect; the next call completes the schema.\<close>

definition fresh_world :: world where
  "fresh_world = initial_world\<lparr>script := [(0, Succeeds), (0, Succeeds), (0, FailsAfter BadConn)]\<rparr>"

definition interrupted_world :: world where
  "interrupted_world = snd (run_state (EnsureSchema (Some sample_client)) fresh_world)"

lemma interrupted_world_facts:
  "snapshot interrupted_world = None" "script interrupted_world = [] \<and> \<not> tx_aborted interrupted_world"
  "ct_versions (catalog interrupted_world) = []" "\<not> nil_db (Some sample_client)" "snapshot fresh_world = None"
  by code_simp+

theorem migrations_resumable_witness:
  "complete_schema ''pgqueue_meta'' queue_objects schemaVersion (catalog (snd (run_state (EnsureSchema (Some sample_client)) interrupted_world)))"
proof -
  have fresh: "sound_catalog (catalog fresh_world)"
    by (simp add: fresh_world_def initial_world_def sound_catalog_def version_holds_def)
  note use = migrations_resumable [OF _ _ prod.collapse [symmetric], where m = "EnsureSchema (Some sample_client)"
      and c = "Some sample_client" and C = "complete_schema ''pgqueue_meta'' queue_objects schemaVersion"]
  have "sound_catalog (catalog interrupted_world)"
    using use [OF interrupted_world_facts(5) fresh] interrupted_world_facts(4) unfolding interrupted_world_def by blast
  from use [OF interrupted_world_facts(1) this] interrupted_world_facts(2,4) show ?thesis by blast
qed

end
