(* ===== verification/Http.thy ===== *)
theory Http
  imports Queue_Listing
begin

text \<open>
  The parts of Go's standard library the two dashboards are written against: a request as
  \<open>net/http\<close> hands it to a handler, the routing of \<open>http.ServeMux\<close>, the responses of \<open>http.Error\<close> and
  \<open>http.NotFound\<close>, and \<open>strconv.Atoi\<close>. Handlers are programs over the world of the database.
\<close>

section \<open>Requests and responses\<close>

text \<open>
  A request: \<open>rq_path\<close> are the segments of its clean path, the last one empty after a trailing slash;
  \<open>rq_basic\<close> is what \<open>BasicAuth\<close> returns, \<open>rq_form\<close> the values \<open>FormValue\<close> looks through, or \<open>None\<close> when
  \<open>ParseForm\<close> fails; header names are in canonical form.
\<close>

record request =
  rq_method :: string
  rq_path :: "string list"
  rq_host :: string
  rq_headers :: "(string \<times> string) list"
  rq_query :: "(string \<times> string) list"
  rq_form :: "(string \<times> string) list option"
  rq_body :: string
  rq_basic :: "(string \<times> string) option"
  rq_ctx :: ctx

text \<open>\<open>Header.Get\<close>, \<open>Values.Get\<close> and \<open>FormValue\<close>: the first value, or the empty string.\<close>

definition get_value :: "(string \<times> string) list \<Rightarrow> string \<Rightarrow> string" where
  "get_value values key = (case map_of values key of None \<Rightarrow> [] | Some v \<Rightarrow> v)"

text \<open>A value as \<open>encoding/json\<close> writes it.\<close>

datatype json = JNull | JBool bool | JNum int | JStr string | JArr "json list" | JObj "(string \<times> json) list"

datatype body = Text string | Json json

record response =
  rs_status :: int
  rs_headers :: "(string \<times> string) list"
  rs_body :: body

type_synonym handler = "string \<Rightarrow> request \<Rightarrow> response io"

definition http_Error :: "string \<Rightarrow> int \<Rightarrow> response" where
  "http_Error message code = \<lparr>rs_status = code,
     rs_headers = [(''Content-Type'', ''text/plain; charset=utf-8''), (''X-Content-Type-Options'', ''nosniff'')],
     rs_body = Text (message @ [CHR 10])\<rparr>"

definition http_NotFound :: response where
  "http_NotFound = http_Error ''404 page not found'' 404"

definition with_header :: "string \<times> string \<Rightarrow> response \<Rightarrow> response" where
  "with_header h rs = rs\<lparr>rs_headers := h # rs_headers rs\<rparr>"

section \<open>Numbers\<close>

text \<open>\<open>strconv.Atoi\<close> and \<open>strconv.ParseInt(s, 10, 64)\<close>: a sign, decimal digits, and the range of \<open>int64\<close>.\<close>

definition is_digit :: "char \<Rightarrow> bool" where
  "is_digit c \<longleftrightarrow> 48 \<le> (of_char c :: nat) \<and> of_char c \<le> (57 :: nat)"

definition digits_value :: "string \<Rightarrow> int" where
  "digits_value ds = foldl (\<lambda>v c. 10 * v + (of_char c - 48)) 0 ds"

definition split_sign :: "string \<Rightarrow> bool \<times> string" where
  "split_sign s = (case s of [] \<Rightarrow> (False, [])
     | c # t \<Rightarrow> if c = CHR ''-'' then (True, t) else if c = CHR ''+'' then (False, t) else (False, s))"

definition Atoi :: "string \<Rightarrow> int option" where
  "Atoi s = (case split_sign s of (negative, ds) \<Rightarrow>
     if ds = [] \<or> \<not> list_all is_digit ds then None
     else let v = (if negative then - digits_value ds else digits_value ds) in
       if - (2 ^ 63) \<le> v \<and> v < 2 ^ 63 then Some v else None)"

text \<open>Arithmetic on \<open>int64\<close> wraps around.\<close>

definition wrap64 :: "int \<Rightarrow> int" where
  "wrap64 i = (i + 2 ^ 63) mod 2 ^ 64 - 2 ^ 63"

lemma wrap64_id: "- (2 ^ 63) \<le> i \<Longrightarrow> i < 2 ^ 63 \<Longrightarrow> wrap64 i = i"
  by (simp add: wrap64_def)

lemma wrap64_range: "- (2 ^ 63) \<le> wrap64 i \<and> wrap64 i < 2 ^ 63"
  using pos_mod_bound [of "2 ^ 64" "i + 2 ^ 63"] pos_mod_sign [of "2 ^ 64" "i + 2 ^ 63"]
  unfolding wrap64_def by simp

lemma Atoi_range: "Atoi s = Some i \<Longrightarrow> - (2 ^ 63) \<le> i \<and> i < 2 ^ 63"
  by (auto simp: Atoi_def Let_def split: prod.splits if_splits)

lemma digits_value_snoc: "digits_value (ds @ [c]) = 10 * digits_value ds + (of_char c - 48)"
  by (simp add: digits_value_def)

lemma of_char_digit_int: "n < 10 \<Longrightarrow> (of_char (digit n) :: int) = 48 + int n"
  using of_char_digit [of n] by (metis of_nat_of_char of_nat_add of_nat_numeral)

lemma digits_value_dec_nat: "digits_value (dec_nat n) = int n"
proof (induction n rule: dec_nat.induct)
  case (1 n)
  show ?case
  proof (cases "n < 10")
    case True
    then show ?thesis by (subst dec_nat.simps) (simp add: digits_value_def of_char_digit_int)
  next
    case False
    with "1.IH" show ?thesis
      by (subst dec_nat.simps) (simp add: digits_value_snoc of_char_digit_int zdiv_int zmod_int)
  qed
qed

lemma dec_nat_nonempty [simp]: "dec_nat n \<noteq> []"
  by (subst dec_nat.simps) simp

lemma dec_nat_digits: "list_all is_digit (dec_nat n)"
  using dec_nat_chars by (auto simp: list_all_iff is_digit_def)

lemma split_sign_digits: "ds \<noteq> [] \<Longrightarrow> list_all is_digit ds \<Longrightarrow> split_sign ds = (False, ds)"
  by (cases ds) (auto simp: split_sign_def is_digit_def)

text \<open>What \<open>%d\<close> prints of an \<open>int64\<close>, \<open>Atoi\<close> reads back.\<close>

lemma Atoi_dec_int: "- (2 ^ 63) \<le> i \<Longrightarrow> i < 2 ^ 63 \<Longrightarrow> Atoi (dec_int i) = Some i"
proof (cases "i < 0")
  case True
  moreover assume "- (2 ^ 63) \<le> i" "i < 2 ^ 63"
  moreover have "split_sign (CHR ''-'' # dec_nat (nat (- i))) = (True, dec_nat (nat (- i)))" by (simp add: split_sign_def)
  ultimately show ?thesis
    by (simp add: Atoi_def dec_int_def dec_nat_digits digits_value_dec_nat Let_def)
next
  case False
  moreover assume "- (2 ^ 63) \<le> i" "i < 2 ^ 63"
  ultimately show ?thesis
    by (simp add: Atoi_def dec_int_def dec_nat_digits digits_value_dec_nat split_sign_digits Let_def)
qed

section \<open>Routing\<close>

text \<open>
  A pattern: a method and segments; \<open>Wild\<close> is \<open>{id}\<close>, which matches one segment that is not empty, and
  \<open>Rest\<close> is a trailing slash, which matches every path below. A pattern with \<open>GET\<close> also serves \<open>HEAD\<close>.
\<close>

datatype seg = Lit string | Wild | Rest

type_synonym route = "string \<times> seg list \<times> handler"

fun match_path :: "seg list \<Rightarrow> string list \<Rightarrow> string list option" where
  "match_path [] [] = Some []"
| "match_path [Rest] (x # xs) = Some []"
| "match_path (Lit s # ps) (x # xs) = (if s = x then match_path ps xs else None)"
| "match_path (Wild # ps) (x # xs) = (if x \<noteq> [] then map_option ((#) x) (match_path ps xs) else None)"
| "match_path _ _ = None"

text \<open>At every segment a literal goes before a wildcard, and a wildcard before a trailing slash.\<close>

fun seg_rank :: "seg \<Rightarrow> nat" where
  "seg_rank (Lit _) = 0"
| "seg_rank Wild = 1"
| "seg_rank Rest = 2"

definition candidates :: "route list \<Rightarrow> string \<Rightarrow> string list \<Rightarrow> route list" where
  "candidates routes method path = filter (\<lambda>(m, ps, _). m = method \<and> match_path ps path \<noteq> None) routes"

definition pick :: "route list \<Rightarrow> string \<Rightarrow> string list \<Rightarrow> route option" where
  "pick routes method path = (case candidates routes method path of [] \<Rightarrow> None
     | c # cs \<Rightarrow> Some (arg_min_list (\<lambda>(_, ps, _). map seg_rank ps) (c # cs)))"

definition find_route :: "route list \<Rightarrow> string \<Rightarrow> string list \<Rightarrow> route option" where
  "find_route routes method path = (case pick routes method path of Some x \<Rightarrow> Some x
     | None \<Rightarrow> if method = ''HEAD'' then pick routes ''GET'' path else None)"

text \<open>
  A path that only a shorter subtree serves, while its own subtree is registered, is redirected there.
  A path served under other methods only is answered with 405.
\<close>

definition slash_redirect :: "route list \<Rightarrow> string \<Rightarrow> string list \<Rightarrow> seg list \<Rightarrow> bool" where
  "slash_redirect routes method path ps \<longleftrightarrow> last ps = Rest \<and> last path \<noteq> []
     \<and> (case find_route routes method (path @ [[]]) of None \<Rightarrow> False
        | Some (_, qs, _) \<Rightarrow> last qs = Rest \<and> length qs = length path + 1)"

definition ServeHTTP :: "route list \<Rightarrow> request \<Rightarrow> response io" where
  "ServeHTTP routes r = (case find_route routes (rq_method r) (rq_path r) of
       Some (_, ps, h) \<Rightarrow>
         if slash_redirect routes (rq_method r) (rq_path r) ps
         then State_Monad.return (http_Error ''Moved Permanently'' 301)
         else h (case match_path ps (rq_path r) of Some (v # _) \<Rightarrow> v | _ \<Rightarrow> []) r
     | None \<Rightarrow> State_Monad.return
         (if list_ex (\<lambda>(_, ps, _). match_path ps (rq_path r) \<noteq> None) routes
          then http_Error ''Method Not Allowed'' 405 else http_NotFound))"

lemma find_route_in: "find_route routes method path = Some (m, ps, h) \<Longrightarrow>
   (m, ps, h) \<in> set routes \<and> (m = method \<or> method = ''HEAD'' \<and> m = ''GET'')"
proof -
  have pick: "(m, ps, h) \<in> set routes \<and> m = mt" if "pick routes mt path = Some (m, ps, h)" for mt
  proof -
    from that have "(m, ps, h) \<in> set (candidates routes mt path)"
      using arg_min_list_in [of "candidates routes mt path" "\<lambda>(_, ps, _). map seg_rank ps"]
      by (auto simp: pick_def split: list.splits)
    then show ?thesis by (auto simp: candidates_def)
  qed
  assume "find_route routes method path = Some (m, ps, h)"
  then show ?thesis by (auto simp: find_route_def split: option.splits if_splits dest: pick)
qed

text \<open>What holds of the answer of every handler and of the mux's own answers holds of every response.\<close>

lemma ServeHTTP_rule:
  assumes "\<And>m ps h v. (m, ps, h) \<in> set routes \<Longrightarrow> m = rq_method r \<or> rq_method r = ''HEAD'' \<and> m = ''GET'' \<Longrightarrow> hoare P (h v r) Q"
    and "\<And>w message code. P w \<Longrightarrow> 300 \<le> code \<Longrightarrow> code < 500 \<Longrightarrow> Q (http_Error message code) w"
  shows "hoare P (ServeHTTP routes r) Q"
  unfolding ServeHTTP_def
proof (cases "find_route routes (rq_method r) (rq_path r)")
  case (Some x)
  obtain m ps h where x: "x = (m, ps, h)" by (cases x)
  note r = find_route_in [OF Some [unfolded x]]
  show "hoare P (case find_route routes (rq_method r) (rq_path r) of
       Some (_, ps, h) \<Rightarrow>
         if slash_redirect routes (rq_method r) (rq_path r) ps
         then State_Monad.return (http_Error ''Moved Permanently'' 301)
         else h (case match_path ps (rq_path r) of Some (v # _) \<Rightarrow> v | _ \<Rightarrow> []) r
     | None \<Rightarrow> State_Monad.return
         (if list_ex (\<lambda>(_, ps, _). match_path ps (rq_path r) \<noteq> None) routes
          then http_Error ''Method Not Allowed'' 405 else http_NotFound)) Q"
    unfolding Some x option.case prod.case
    using assms(1) [OF r [THEN conjunct1]] r assms(2) by (auto intro!: hoare_return)
qed (auto intro!: hoare_return assms(2) simp: http_NotFound_def)

end
