(* ===== verification/Payload.thy ===== *)
theory Payload
  imports Http
begin

text \<open>
  How the dashboards show bytes, \<open>adminui/payload.go\<close> and the previews of \<open>queue/dashboard.go\<close>: text that
  is cut at a byte limit without cutting a character in two, and base64 for what is not text.
\<close>

section \<open>Base64\<close>

definition b64_char :: "nat \<Rightarrow> char" where
  "b64_char n = char_of (if n < 26 then 65 + n else if n < 52 then 71 + n else if n < 62 then n - 4
     else if n = 62 then 43 else 47)"

text \<open>\<open>base64.StdEncoding.EncodeToString\<close>.\<close>

fun base64 :: "string \<Rightarrow> string" where
  "base64 [] = []"
| "base64 [a] = [b64_char (byte a div 4), b64_char (byte a mod 4 * 16), CHR ''='', CHR ''='']"
| "base64 [a, b] = [b64_char (byte a div 4), b64_char (byte a mod 4 * 16 + byte b div 16),
     b64_char (byte b mod 16 * 4), CHR ''='']"
| "base64 (a # b # c # s) = [b64_char (byte a div 4), b64_char (byte a mod 4 * 16 + byte b div 16),
     b64_char (byte b mod 16 * 4 + byte c div 64), b64_char (byte c mod 64)] @ base64 s"

text \<open>The decoding of RFC 4648, on what the encoder writes.\<close>

definition b64_value :: "char \<Rightarrow> nat" where
  "b64_value c = (let n = byte c in
     if 65 \<le> n \<and> n \<le> 90 then n - 65 else if 97 \<le> n \<and> n \<le> 122 then n - 71
     else if 48 \<le> n \<and> n \<le> 57 then n + 4 else if n = 43 then 62 else 63)"

fun unbase64 :: "string \<Rightarrow> string" where
  "unbase64 (p # q # r # s # t) =
     (let i = b64_value p; j = b64_value q; k = b64_value r; l = b64_value s in
      if r = CHR ''='' then [char_of (i * 4 + j div 16)]
      else if s = CHR ''='' then [char_of (i * 4 + j div 16), char_of (j mod 16 * 16 + k div 4)]
      else [char_of (i * 4 + j div 16), char_of (j mod 16 * 16 + k div 4), char_of (k mod 4 * 64 + l)] @ unbase64 t)"
| "unbase64 _ = []"

lemma b64_inverse: "n < 64 \<Longrightarrow> b64_value (b64_char n) = n"
  by (auto simp: b64_value_def b64_char_def Let_def)

lemma b64_not_pad: "n < 64 \<Longrightarrow> b64_char n \<noteq> CHR ''=''"
proof
  assume "n < 64" "b64_char n = CHR ''=''"
  then have "byte (b64_char n) = 61" by simp
  then show False using \<open>n < 64\<close> by (auto simp: b64_char_def split: if_splits)
qed

lemma b64_parts: "byte c div 4 < 64" "byte c div 16 < 16" "byte c div 64 < 4"
  using byte_less [of c] by (simp_all add: less_mult_imp_div_less)

lemma b64_sixteen: "x < 4 \<Longrightarrow> y < 16 \<Longrightarrow> x * 16 + y < (64 :: nat)" "x < 16 \<Longrightarrow> y < 4 \<Longrightarrow> x * 4 + y < (64 :: nat)"
  by simp_all

lemma b64_bytes:
  "byte a mod 4 * 16 < 64" "byte a mod 4 * 16 + byte b div 16 < 64"
  "byte b mod 16 * 4 < 64" "byte b mod 16 * 4 + byte c div 64 < 64"
  using b64_parts b64_sixteen [of "byte a mod 4" 0] b64_sixteen [of "byte b mod 16" 0] by (auto intro: b64_sixteen)

lemma b64_join:
  "(x * 16 + byte b div 16) div 16 = x" "(x * 16 + byte b div 16) mod 16 = byte b div 16"
  "(x * 4 + byte c div 64) div 4 = x" "(x * 4 + byte c div 64) mod 4 = byte c div 64"
  using b64_parts(2) [of b] b64_parts(3) [of c] by simp_all

lemma unbase64_base64: "unbase64 (base64 s) = s"
proof (induction s rule: base64.induct)
  case (4 a b c s)
  then show ?case using b64_not_pad [OF b64_bytes(4)] b64_not_pad [of "byte c mod 64"]
    by (simp add: Let_def b64_inverse b64_bytes b64_parts b64_join del: div_mult_self3 div_mult_self4 mod_mult_self3 mod_mult_self4)
next
  case (3 a b)
  then show ?case using b64_not_pad [OF b64_bytes(3)]
    by (simp add: Let_def b64_inverse b64_bytes b64_parts b64_join del: div_mult_self3 div_mult_self4 mod_mult_self3 mod_mult_self4)
qed (simp_all add: Let_def b64_inverse b64_bytes b64_parts)

section \<open>Text\<close>

text \<open>\<open>utf8.RuneStart\<close> is the negation of \<open>cont\<close>; \<open>utf8.FullRune\<close>: a complete or an invalid sequence begins here.\<close>

definition full_rune :: "string \<Rightarrow> bool" where
  "full_rune s = (case s of [] \<Rightarrow> False
     | c # t \<Rightarrow> (case lead (byte c) of (n, lo, hi) \<Rightarrow>
         if n \<le> length s then True
         else (case t of [] \<Rightarrow> False
           | c1 # t1 \<Rightarrow> if byte c1 < lo \<or> hi < byte c1 then True
               else (case t1 of [] \<Rightarrow> False | c2 # _ \<Rightarrow> \<not> cont c2))))"

function trim_from :: "nat \<Rightarrow> string \<Rightarrow> string" where
  "trim_from steps_back v =
     (if 4 \<le> steps_back \<or> length v < steps_back then v
      else let start = length v - steps_back in
        if \<not> cont (v ! start) then (if full_rune (drop start v) then v else take start v)
        else trim_from (Suc steps_back) v)"
  by pat_completeness auto
termination
  by (relation "measure (\<lambda>(k, _). 4 - k)") auto

declare trim_from.simps [simp del]

definition trimPartialRune :: "string \<Rightarrow> string" where
  "trimPartialRune v = trim_from 1 v"

text \<open>\<open>isPrintableText\<close> of \<open>adminui\<close> and \<open>isPrintableUTF8\<close> of \<open>queue\<close>, which does not ask for valid UTF-8.\<close>

definition printable_rune :: "nat \<Rightarrow> bool" where
  "printable_rune r \<longleftrightarrow> 32 \<le> r \<or> r = 10 \<or> r = 13 \<or> r = 9"

definition isPrintableUTF8 :: "string \<Rightarrow> bool" where
  "isPrintableUTF8 s \<longleftrightarrow> list_all (\<lambda>p. printable_rune (fst p)) (rune_parts s)"

definition isPrintableText :: "string \<Rightarrow> bool" where
  "isPrintableText v \<longleftrightarrow> (if \<not> list_all (\<lambda>p. \<not> bad_part p) (rune_parts v) then False
     else list_all (\<lambda>p. printable_rune (fst p)) (rune_parts v))"

section \<open>Previews\<close>

definition maxPayloadBytes :: nat where "maxPayloadBytes = 1048576"
definition previewBytes :: nat where "previewBytes = 120"
definition previewFetchBytes :: nat where "previewFetchBytes = previewBytes + 1"

record encoded_payload =
  pl_text :: string
  pl_encoding :: string
  pl_size :: nat
  pl_truncated :: bool

text \<open>\<open>valid\<close> stands for \<open>json.Valid\<close>.\<close>

definition encodePayload :: "(string \<Rightarrow> bool) \<Rightarrow> string \<Rightarrow> nat \<Rightarrow> encoded_payload" where
  "encodePayload valid head totalBytes =
     (let truncated = maxPayloadBytes < totalBytes;
          shown = take maxPayloadBytes head;
          text = (if truncated then trimPartialRune shown else shown);
          answer = (\<lambda>encoding t. \<lparr>pl_text = t, pl_encoding = encoding, pl_size = totalBytes, pl_truncated = truncated\<rparr>) in
      if \<not> truncated \<and> valid text then answer ''json'' text
      else if isPrintableText text then answer ''text'' text
      else answer ''base64'' (base64 shown))"

definition previewPayload :: "string \<Rightarrow> nat \<Rightarrow> string" where
  "previewPayload head totalBytes =
     (if totalBytes = 0 then []
      else let shown = take previewBytes head;
               long = previewBytes < totalBytes;
               text = (if long then trimPartialRune shown else shown);
               suffix = (if long then ''...'' else []) in
        if isPrintableText text then text @ suffix
        else ''base64:'' @ base64 shown @ suffix)"

text \<open>The ellipsis \<open>U+2026\<close> in UTF-8.\<close>

definition truncateText :: "string \<Rightarrow> nat \<Rightarrow> string" where
  "truncateText text limit = (if length text \<le> limit then text
     else trimPartialRune (take limit text) @ [CHR 0xE2, CHR 0x80, CHR 0xA6])"

text \<open>\<open>payloadPreview\<close> of the queue's own dashboard.\<close>

definition payloadPreview :: "string \<Rightarrow> string" where
  "payloadPreview payload =
     (if payload = [] then []
      else if isPrintableUTF8 payload then (if 120 < length payload then take 120 payload @ ''...'' else payload)
      else ''base64:'' @ base64 payload)"

text \<open>\<open>decode\<close> reads the field \<open>run_id\<close> of a JSON object.\<close>

definition workflowRunIDOfJob :: "(string \<Rightarrow> string option) \<Rightarrow> string \<Rightarrow> string \<Rightarrow> string option" where
  "workflowRunIDOfJob decode queue payload =
     (if \<not> has_prefix ''pgworkflow:'' queue then None
      else (case decode payload of None \<Rightarrow> None | Some i \<Rightarrow> if i = [] then None else Some i))"

section \<open>Cutting text\<close>

lemma lead_range:
  "lead b = (n, lo, hi) \<Longrightarrow> n = 0 \<or> n = 1 \<and> b < 128 \<or> (n = 2 \<or> n = 3 \<or> n = 4) \<and> 194 \<le> b \<and> 128 \<le> lo \<and> hi \<le> 191"
  by (auto simp: lead_def split: if_splits)

text \<open>The bytes of one rune: a lead byte, a second byte in its range, and continuation bytes.\<close>

definition rune_bytes :: "char \<Rightarrow> string \<Rightarrow> bool" where
  "rune_bytes c t \<longleftrightarrow> (\<exists>n lo hi. lead (byte c) = (n, lo, hi) \<and> n = Suc (length t)
     \<and> (case t of [] \<Rightarrow> True | c1 # u \<Rightarrow> lo \<le> byte c1 \<and> byte c1 \<le> hi \<and> list_all cont u))"

lemma decode_runeD:
  assumes "decode_rune (c # s) = (r, m)" "\<not> bad_part (r, take m (c # s))"
  shows "\<exists>k. m = Suc k \<and> k \<le> length s \<and> rune_bytes c (take k s)"
proof -
  obtain n lo hi where l: "lead (byte c) = (n, lo, hi)" by (cases "lead (byte c)")
  consider "n = 0" | "n = 1" | "n = 2" | "n = 3" | "n = 4" using lead_range [OF l] by blast
  then show ?thesis
  proof cases
    case 1
    then show ?thesis using assms l by (simp add: bad_part_def)
  next
    case 2
    then show ?thesis using assms l by (auto simp: rune_bytes_def)
  next
    case 3
    then show ?thesis using assms l
      by (cases s) (auto simp: rune_bytes_def bad_part_def split: if_splits intro!: exI [of _ 1])
  next
    case 4
    then show ?thesis using assms l
      by (cases s; cases "tl s") (auto simp: rune_bytes_def bad_part_def split: if_splits intro!: exI [of _ 2])
  next
    case 5
    then show ?thesis using assms l
      by (cases s; cases "tl s"; cases "tl (tl s)")
        (auto simp: rune_bytes_def bad_part_def numeral_3_eq_3 split: if_splits intro!: exI [of _ 3])
  qed
qed

lemma rune_bytes_shape: "rune_bytes c t \<Longrightarrow> \<not> cont c \<and> list_all cont t \<and> length t \<le> 3"
  by (cases t) (auto simp: rune_bytes_def cont_def dest!: lead_range)

lemma decode_runeI:
  assumes "rune_bytes c t"
  shows "\<exists>r. (\<forall>u. decode_rune (c # t @ u) = (r, Suc (length t))) \<and> \<not> bad_part (r, c # t)"
proof -
  obtain n lo hi where l: "lead (byte c) = (n, lo, hi)" and n: "n = Suc (length t)"
    and range: "case t of [] \<Rightarrow> True | c1 # u \<Rightarrow> lo \<le> byte c1 \<and> byte c1 \<le> hi \<and> list_all cont u"
    using assms by (auto simp: rune_bytes_def)
  consider "t = []" "byte c < 128" | c1 where "t = [c1]" | c1 c2 where "t = [c1, c2]" | c1 c2 c3 where "t = [c1, c2, c3]"
    using lead_range [OF l] n by (cases t; cases "tl t"; cases "tl (tl t)"; cases "tl (tl (tl t))") auto
  then show ?thesis by cases (use l n range in \<open>auto simp: bad_part_def\<close>)
qed

lemma rune_bytes_full: "rune_bytes c t \<Longrightarrow> full_rune (c # t)"
  by (auto simp: rune_bytes_def full_rune_def)

lemma rune_bytes_partial: "rune_bytes c (y @ z) \<Longrightarrow> z \<noteq> [] \<Longrightarrow> \<not> full_rune (c # y)"
  by (cases y; cases "tl y") (auto simp: rune_bytes_def full_rune_def split: prod.splits)

lemma valid_utf8_Nil [simp]: "valid_utf8 []"
  by (simp add: valid_utf8_def rune_parts.simps)

lemma rune_parts_Cons:
  assumes "rune_bytes c t"
  shows "\<exists>r. (\<forall>u. rune_parts (c # t @ u) = (r, c # t) # rune_parts u) \<and> \<not> bad_part (r, c # t)"
proof -
  obtain r where "\<And>u. decode_rune (c # t @ u) = (r, Suc (length t))" "\<not> bad_part (r, c # t)"
    using decode_runeI [OF assms] by blast
  then show ?thesis by (subst rune_parts.simps) (auto simp del: decode_rune.simps)
qed

lemma valid_Cons: "rune_bytes c t \<Longrightarrow> valid_utf8 (c # t @ u) \<longleftrightarrow> valid_utf8 u"
  by (drule rune_parts_Cons) (auto simp: valid_utf8_def)

lemma valid_split:
  assumes "valid_utf8 s" "s \<noteq> []"
  shows "\<exists>c t u. s = c # t @ u \<and> rune_bytes c t \<and> valid_utf8 u"
proof -
  obtain c s' where s: "s = c # s'" using assms(2) by (cases s) auto
  obtain r m where d: "decode_rune s = (r, m)" by (cases "decode_rune s")
  have "\<not> bad_part (r, take m s)" using assms d by (subst (asm) valid_utf8_def, subst (asm) rune_parts.simps) auto
  then obtain k where "m = Suc k" "k \<le> length s'" "rune_bytes c (take k s')" using decode_runeD [OF d [unfolded s]] s by auto
  then have "s = c # take k s' @ drop k s'" "rune_bytes c (take k s')" by (simp_all add: s)
  with assms(1) valid_Cons show ?thesis by metis
qed

lemma valid_induct [consumes 1, case_names Nil rune]:
  assumes "valid_utf8 s" "P []" "\<And>c t u. rune_bytes c t \<Longrightarrow> valid_utf8 u \<Longrightarrow> P u \<Longrightarrow> P (c # t @ u)"
  shows "P s"
  using assms(1)
proof (induction "length s" arbitrary: s rule: less_induct)
  case less
  show ?case
  proof (cases "s = []")
    case False
    then obtain c t u where "s = c # t @ u" "rune_bytes c t" "valid_utf8 u" using valid_split [OF less.prems] by blast
    with less.hyps assms(3) show ?thesis by auto
  qed (simp add: assms(2))
qed

lemma valid_append: "valid_utf8 x \<Longrightarrow> valid_utf8 y \<Longrightarrow> valid_utf8 (x @ y)"
  by (induction x rule: valid_induct) (simp_all add: valid_Cons [unfolded append_assoc])

text \<open>A cut through valid text leaves whole runes and at most one partial one at the end.\<close>

lemma cut_valid:
  assumes "valid_utf8 u" "v @ w = u" "v \<noteq> []"
  shows "\<exists>x c y z. v = x @ c # y \<and> valid_utf8 x \<and> rune_bytes c (y @ z)"
  using assms
proof (induction u arbitrary: v rule: valid_induct)
  case (rune c t u)
  show ?case
  proof (cases "Suc (length t) < length v")
    case True
    define v' where "v' = drop (Suc (length t)) v"
    have v: "v = c # t @ v'" using rune.prems(1) True unfolding v'_def
      by (metis append_Cons append_eq_append_conv_if append_take_drop_id length_Cons less_imp_le_nat not_less)
    with rune.prems(1) True have "v' @ w = u" "v' \<noteq> []" by auto
    from rune.IH [OF this] obtain x d y z where "v' = x @ d # y" "valid_utf8 x" "rune_bytes d (y @ z)" by blast
    moreover from this have "valid_utf8 (c # t @ x)" using rune.hyps(1) by (simp add: valid_Cons)
    ultimately show ?thesis using v by (metis append_Cons append_assoc)
  next
    case False
    from rune.prems obtain y where v: "v = c # y" by (cases v) auto
    with rune.prems False have "y = take (length y) t" by (auto simp: append_eq_append_conv_if not_less split: if_splits)
    then have "t = y @ drop (length y) t" by (metis append_take_drop_id)
    with v rune.hyps(1) show ?thesis by (intro exI [of _ "[]"] exI [of _ c] exI [of _ y] exI [of _ "drop (length y) t"]) simp
  qed
qed simp

text \<open>The loop stops at the last byte that starts a rune, if it is one of the last three.\<close>

lemma trim_from_start:
  assumes "\<not> cont c" "list_all cont y" "k \<le> Suc (length y)" "1 \<le> k"
  shows "trim_from k (x @ c # y) =
    (if 3 \<le> length y \<or> full_rune (c # y) then x @ c # y else x)"
  using assms(3,4)
proof (induction "Suc (length y) - k" arbitrary: k)
  case 0
  then have "k = Suc (length y)" by simp
  then show ?case using assms(1) by (subst trim_from.simps) (auto simp: Let_def)
next
  case (Suc d)
  then have k: "k \<le> length y" by simp
  have at: "length (x @ c # y) - k = length x + Suc (length y - k)" using k by simp
  then have "(x @ c # y) ! (length (x @ c # y) - k) = y ! (length y - k)" by (simp only: nth_append_length_plus nth_Cons_Suc)
  then have "cont ((x @ c # y) ! (length (x @ c # y) - k))" using assms(2) k Suc.prems by (simp add: list_all_length)
  moreover have "trim_from (Suc k) (x @ c # y) = (if 3 \<le> length y \<or> full_rune (c # y) then x @ c # y else x)"
    by (rule Suc.hyps) (use Suc k in auto)
  ultimately show ?case using k by (subst trim_from.simps) (auto simp: Let_def)
qed

lemma trim_cut:
  assumes "\<not> cont c" "list_all cont y"
  shows "trimPartialRune (x @ c # y) = (if 3 \<le> length y \<or> full_rune (c # y) then x @ c # y else x)"
  unfolding trimPartialRune_def by (rule trim_from_start [OF assms]) simp_all

lemma trimPartialRune_cut:
  assumes "valid_utf8 (v @ w)"
  shows "valid_utf8 (trimPartialRune v) \<and> (\<exists>y. v = trimPartialRune v @ y \<and> length y \<le> 3)"
proof (cases "v = []")
  case True
  then show ?thesis by (simp add: trimPartialRune_def trim_from.simps)
next
  case False
  from cut_valid [OF assms refl this] obtain x c y z where v: "v = x @ c # y" and x: "valid_utf8 x" and r: "rune_bytes c (y @ z)"
    by blast
  have s: "\<not> cont c" "list_all cont y" "length y + length z \<le> 3" using rune_bytes_shape [OF r] by auto
  show ?thesis
  proof (cases "z = []")
    case True
    then have "valid_utf8 (x @ c # y)" using valid_append [OF x] r valid_Cons [of c y "[]"] by simp
    with True r show ?thesis by (simp add: v trim_cut [OF s(1,2)] rune_bytes_full)
  next
    case False
    then have "length y \<le> 2" using s(3) by (cases z) auto
    with x rune_bytes_partial [OF r False] show ?thesis by (simp add: v trim_cut [OF s(1,2)])
  qed
qed

lemma rune_parts_append: "valid_utf8 x \<Longrightarrow> rune_parts (x @ y) = rune_parts x @ rune_parts y"
proof (induction x rule: valid_induct)
  case (rune c t u)
  then show ?case using rune_parts_Cons [OF rune.hyps(1)] by auto
qed (simp add: rune_parts.simps)

lemma isPrintableText_iff: "isPrintableText v \<longleftrightarrow> valid_utf8 v \<and> isPrintableUTF8 v"
  by (auto simp: isPrintableText_def isPrintableUTF8_def valid_utf8_def list_all_iff)

text \<open>A limit cuts printable text to printable text and loses at most three bytes more.\<close>

lemma printable_cut:
  assumes "isPrintableText (v @ w)"
  shows "isPrintableText (trimPartialRune v) \<and> (\<exists>y. v = trimPartialRune v @ y \<and> length y \<le> 3)"
proof -
  have "valid_utf8 (v @ w)" using assms by (simp add: isPrintableText_iff)
  note cut = trimPartialRune_cut [OF this]
  then obtain y where v: "v = trimPartialRune v @ y" by blast
  have "rune_parts (v @ w) = rune_parts (trimPartialRune v) @ rune_parts (y @ w)"
    using rune_parts_append [of "trimPartialRune v" "y @ w"] cut v by (metis append_assoc)
  with assms cut show ?thesis by (simp add: isPrintableText_iff isPrintableUTF8_def)
qed

lemma printable_take: "isPrintableText payload \<Longrightarrow> isPrintableText (trimPartialRune (take n payload))"
  using printable_cut [of "take n payload" "drop n payload"] by simp

lemma printable_loss: "isPrintableText payload \<Longrightarrow> \<exists>y. take n payload = trimPartialRune (take n payload) @ y \<and> length y \<le> 3"
  using printable_cut [of "take n payload" "drop n payload"] by simp

lemma trim_prefix: "\<exists>y. v = trimPartialRune v @ y"
proof -
  have "\<exists>y. v = trim_from k v @ y" for k
    by (induction k v rule: trim_from.induct) (subst trim_from.simps, auto simp: Let_def, metis append_take_drop_id)
  then show ?thesis by (simp add: trimPartialRune_def)
qed


text \<open>A text of 121 bytes whose 120th byte is the first half of a character.\<close>

definition cut_text :: string where
  "cut_text = replicate 119 CHR ''a'' @ [CHR 0xC3, CHR 0xA9]"

lemma cut_text_facts: "isPrintableText cut_text" "previewBytes < length cut_text"
proof -
  have parts: "rune_parts (CHR ''a'' # u) = (97, ''a'') # rune_parts u" for u
    by (subst rune_parts.simps) (simp add: lead_def)
  have one: "isPrintableText (CHR ''a'' # u) = isPrintableText u" for u
    by (simp add: isPrintableText_def parts bad_part_def printable_rune_def)
  have more: "isPrintableText (replicate n CHR ''a'' @ x) = isPrintableText x" for n x
    by (induction n) (simp_all add: one)
  have "rune_parts [CHR 0xC3, CHR 0xA9] = [(233, [CHR 0xC3, CHR 0xA9])]"
    by (subst rune_parts.simps) (simp add: lead_def, simp add: rune_parts.simps)
  then have "isPrintableText [CHR 0xC3, CHR 0xA9]" by (simp add: isPrintableText_def bad_part_def printable_rune_def)
  then show "isPrintableText cut_text" by (simp only: cut_text_def more)
qed (simp add: cut_text_def previewBytes_def)


end
