(* ===== verification/Dashboard.thy ===== *)
theory Dashboard
  imports Payload
begin

text \<open>
  The queue's own dashboard, \<open>queue/dashboard.go\<close>: its construction from options and environment, the
  routes behind basic authentication and the check against cross-site requests, and every handler. The
  HTML templates are a parameter: what a template writes for its data, and the error it stops with.
\<close>

section \<open>Construction\<close>

definition defaultDashboardListLimit :: int where "defaultDashboardListLimit = 50"
definition maxDashboardListLimit :: int where "maxDashboardListLimit = 100"

record dashboard =
  dd_client :: "client option"
  dd_token :: string
  dd_enableEnqueue :: bool
  dd_listLimit :: int

record dashboard_options =
  do_Token :: string
  do_Limit :: int
  do_TokenEnv :: string
  do_EnableEnqueueAPI :: "bool option"
  do_EnableAPIEnv :: string

definition parseBoolDefault :: "string \<Rightarrow> bool \<Rightarrow> bool" where
  "parseBoolDefault raw fallback = (let v = trim_space (to_lower raw) in
     if v \<in> set [''1'', ''true'', ''t'', ''yes'', ''y'', ''on''] then True
     else if v \<in> set [''0'', ''false'', ''f'', ''no'', ''n'', ''off''] then False
     else fallback)"

text \<open>\<open>env\<close> is \<open>os.Getenv\<close>, \<open>parsed\<close> the error of parsing the embedded template, if any.\<close>

definition NewDashboardFromEnvWithOptions ::
  "(string \<Rightarrow> string) \<Rightarrow> err option \<Rightarrow> client option \<Rightarrow> dashboard_options \<Rightarrow> dashboard result" where
  "NewDashboardFromEnvWithOptions env parsed c opts =
     (if nil_db c then Inl (Sentinel ErrNilDB)
      else
        let given = trim_space (do_Token opts);
            token = (if given = [] then trim_space (env (if do_TokenEnv opts = [] then ''PGKIT_DASHBOARD_TOKEN'' else do_TokenEnv opts))
                     else given) in
        if token = [] then Inl (Errorf ''pgqueue: missing dashboard token'')
        else (case parsed of Some e \<Rightarrow> Inl (wrap ''pgqueue: parse dashboard template: '' e)
          | None \<Rightarrow>
            let enable = (case do_EnableEnqueueAPI opts of Some b \<Rightarrow> b
                  | None \<Rightarrow> let raw = trim_space (env (if do_EnableAPIEnv opts = [] then ''PGKIT_DASHBOARD_ENABLE_API''
                                                  else do_EnableAPIEnv opts))
                      in if raw \<noteq> [] then parseBoolDefault raw True else True);
                limit = (if do_Limit opts \<le> 0 then defaultDashboardListLimit else do_Limit opts) in
            Inr \<lparr>dd_client = c, dd_token = token, dd_enableEnqueue = enable,
              dd_listLimit = (if maxDashboardListLimit < limit then maxDashboardListLimit else limit)\<rparr>))"

definition NewDashboardFromEnv :: "(string \<Rightarrow> string) \<Rightarrow> err option \<Rightarrow> client option \<Rightarrow> dashboard result" where
  "NewDashboardFromEnv env parsed c = NewDashboardFromEnvWithOptions env parsed c
     \<lparr>do_Token = [], do_Limit = 0, do_TokenEnv = [], do_EnableEnqueueAPI = None, do_EnableAPIEnv = []\<rparr>"

section \<open>What the templates show\<close>

record dashboard_row =
  dr_ID :: int
  dr_Queue :: string
  dr_Status :: string
  dr_Attempts :: string
  dr_AvailableAt :: string
  dr_ClaimedBy :: string
  dr_Payload :: string
  dr_LastError :: string
  dr_CanReplay :: bool
  dr_CanDelete :: bool

record jobs_view =
  jv_rows :: "dashboard_row list"
  jv_total :: int
  jv_offset :: int
  jv_limit :: int
  jv_has_prev :: bool
  jv_has_next :: bool
  jv_prev_offset :: int
  jv_next_offset :: int
  jv_filters :: "string \<times> string \<times> string"

record advisory_lock =
  al_PID :: int
  al_Mode :: string
  al_Granted :: bool
  al_ClassID :: int
  al_ObjectID :: int
  al_ObjectSubID :: int

datatype dashboard_view =
    IndexView bool int | JobsView jobs_view | RowView dashboard_row | LocksView "advisory_lock list"

text \<open>
  What stands outside: the templates, the local time format of \<open>time.RFC3339\<close>, the JSON decoding of a
  body and the process ids behind lock owners.
\<close>

record enqueue_request =
  er_QueueName :: string
  er_Payload :: string
  er_MaxAttempts :: int
  er_DelaySeconds :: int

record dashboard_env =
  de_tmpl :: "dashboard_view \<Rightarrow> string \<times> err option"
  de_time :: "int \<Rightarrow> string"
  de_decode :: "string \<Rightarrow> enqueue_request option"
  de_pid :: "lock_owner \<Rightarrow> int"

definition nullStringOrDash :: "string option \<Rightarrow> string" where
  "nullStringOrDash v = (case v of None \<Rightarrow> ''-'' | Some s \<Rightarrow> if s = [] then ''-'' else s)"

definition buildDashboardRow :: "dashboard_env \<Rightarrow> job \<Rightarrow> dashboard_row" where
  "buildDashboardRow v j = \<lparr>dr_ID = ID j, dr_Queue = QueueName j, dr_Status = status_text (Status j),
     dr_Attempts = dec_int (Attempts j) @ ''/'' @ dec_int (MaxAttempts j), dr_AvailableAt = de_time v (AvailableAt j),
     dr_ClaimedBy = nullStringOrDash (ClaimedBy j), dr_Payload = payloadPreview (Payload j),
     dr_LastError = nullStringOrDash (LastError j),
     dr_CanReplay = (Status j = StatusDone \<or> Status j = StatusFailed), dr_CanDelete = (Status j \<noteq> StatusProcessing)\<rparr>"

text \<open>An error after the template wrote something only adds to what was sent with status 200.\<close>

definition html :: "string \<Rightarrow> response" where
  "html t = \<lparr>rs_status = 200, rs_headers = [(''Content-Type'', ''text/html; charset=utf-8'')], rs_body = Text t\<rparr>"

definition ExecuteTemplate :: "dashboard_env \<Rightarrow> dashboard_view \<Rightarrow> string option \<Rightarrow> response io" where
  "ExecuteTemplate v view logged = (case de_tmpl v view of
       (out, None) \<Rightarrow> State_Monad.return (html out)
     | (out, Some e) \<Rightarrow> do {
         (case logged of None \<Rightarrow> State_Monad.return () | Some m \<Rightarrow> log_msg LevelError m);
         State_Monad.return (if out = [] then http_Error ''internal error'' 500
           else html (out @ ''internal error'' @ [CHR 10])) })"

section \<open>Reading requests\<close>

record jobs_query =
  jq_QueueName :: string
  jq_Status :: string
  jq_Search :: string
  jq_Offset :: int
  jq_Limit :: int
  jq_Page :: int

definition query_number :: "request \<Rightarrow> string \<Rightarrow> int option" where
  "query_number r key = (let v = trim_space (get_value (rq_query r) key) in if v = [] then None else Atoi v)"

definition readJobsQuery :: "dashboard \<Rightarrow> request \<Rightarrow> jobs_query" where
  "readJobsQuery d r =
     (let limit0 = (case query_number r ''limit'' of None \<Rightarrow> dd_listLimit d | Some n \<Rightarrow> n);
          limit1 = (if limit0 \<le> 0 then dd_listLimit d else limit0);
          limit = (if maxDashboardListLimit < limit1 then maxDashboardListLimit else limit1);
          offset0 = (case query_number r ''offset'' of None \<Rightarrow> 0 | Some n \<Rightarrow> n);
          offset = (if offset0 < 0 then 0 else offset0);
          search = trim_space (get_value (rq_query r) ''search'') in
      \<lparr>jq_QueueName = trim_space (get_value (rq_query r) ''queue''), jq_Status = trim_space (get_value (rq_query r) ''status''),
       jq_Search = (if maxSearchLength < length search then take maxSearchLength search else search),
       jq_Offset = offset, jq_Limit = limit, jq_Page = offset div limit + 1\<rparr>)"

definition parsePathID :: "string \<Rightarrow> int option" where
  "parsePathID raw = (case Atoi (trim_space raw) of None \<Rightarrow> None | Some i \<Rightarrow> if i \<le> 0 then None else Some i)"

text \<open>\<open>time.Now().UTC().Add(time.Duration(seconds) * time.Second)\<close>, stored in microseconds.\<close>

definition delayed_until :: "int \<Rightarrow> world \<Rightarrow> int option" where
  "delayed_until seconds w = (if 0 < seconds then Some (clock w + wrap64 (seconds * 1000000000) div 1000) else None)"

section \<open>Guards\<close>

definition unauthorized :: response where
  "unauthorized = with_header (''Www-Authenticate'', ''Basic realm=\"pgqueue-dashboard\"'') (http_Error ''unauthorized'' 401)"

definition dash_requireToken :: "dashboard \<Rightarrow> handler \<Rightarrow> handler" where
  "dash_requireToken d next v r = (case rq_basic r of
       None \<Rightarrow> State_Monad.return unauthorized
     | Some (user, pass) \<Rightarrow> if pass \<noteq> dd_token d \<or> user = [] then State_Monad.return unauthorized else next v r)"

definition dash_same_origin :: "request \<Rightarrow> bool" where
  "dash_same_origin r \<longleftrightarrow> (let origin = get_value (rq_headers r) ''Origin'' in
     origin \<noteq> [] \<and> rq_host r \<noteq> [] \<and> contains origin (rq_host r))"

definition dash_requireCSRF :: "handler \<Rightarrow> handler" where
  "dash_requireCSRF next v r = (if get_value (rq_headers r) ''Hx-Request'' = ''true'' then next v r
     else if dash_same_origin r then next v r
     else State_Monad.return (http_Error ''forbidden: missing CSRF token'' 403))"

section \<open>Handlers\<close>

definition internal_error :: "string \<Rightarrow> response io" where
  "internal_error message = do { log_msg LevelError message; State_Monad.return (http_Error ''internal error'' 500) }"

definition handleIndex :: "dashboard_env \<Rightarrow> dashboard \<Rightarrow> handler" where
  "handleIndex v d _ r = ExecuteTemplate v (IndexView (dd_enableEnqueue d) (dd_listLimit d)) (Some ''render dashboard index failed'')"

definition jobs_fragment :: "dashboard_env \<Rightarrow> jobs_query \<Rightarrow> job list \<Rightarrow> int \<Rightarrow> jobs_view" where
  "jobs_fragment v q js count =
     (let next = wrap64 (jq_Offset q + jq_Limit q) in
      \<lparr>jv_rows = map (buildDashboardRow v) js, jv_total = count, jv_offset = jq_Offset q, jv_limit = jq_Limit q,
       jv_has_prev = (0 < jq_Offset q), jv_has_next = (next < count),
       jv_prev_offset = max (jq_Offset q - jq_Limit q) 0, jv_next_offset = next,
       jv_filters = (jq_QueueName q, jq_Status q, jq_Search q)\<rparr>)"

definition jobs_params :: "jobs_query \<Rightarrow> list_jobs_params" where
  "jobs_params q = \<lparr>lj_Limit = jq_Limit q, lj_QueueName = jq_QueueName q, lj_Status = jq_Status q,
     lj_Offset = jq_Offset q, lj_Search = jq_Search q\<rparr>"

definition handleJobsFragment :: "dashboard_env \<Rightarrow> dashboard \<Rightarrow> handler" where
  "handleJobsFragment v d _ r = (let q = readJobsQuery d r in do {
     js \<leftarrow> ListJobs (dd_client d) (jobs_params q);
     (case js of Inl e \<Rightarrow> internal_error ''list jobs failed''
      | Inr rows \<Rightarrow> do {
          counted \<leftarrow> CountJobs (dd_client d) (jobs_params q);
          (case counted of Inl e \<Rightarrow> internal_error ''count jobs failed''
           | Inr n \<Rightarrow> ExecuteTemplate v (JobsView (jobs_fragment v q rows n)) (Some ''render jobs fragment failed'')) }) })"

definition handleJobRowFragment :: "dashboard_env \<Rightarrow> dashboard \<Rightarrow> handler" where
  "handleJobRowFragment v d raw r = (case parsePathID raw of
       None \<Rightarrow> State_Monad.return (http_Error ''invalid job id'' 400)
     | Some i \<Rightarrow> do {
         g \<leftarrow> GetJob (dd_client d) i;
         (case g of
            Inl e \<Rightarrow> if errors_is e ErrJobNotFound then State_Monad.return (http_Error ''not found'' 404)
              else internal_error ''get job failed''
          | Inr j \<Rightarrow> ExecuteTemplate v (RowView (buildDashboardRow v j)) (Some ''render job row failed'')) })"

definition handleReplayJob :: "dashboard_env \<Rightarrow> dashboard \<Rightarrow> handler" where
  "handleReplayJob v d raw r = (case parsePathID raw of
       None \<Rightarrow> State_Monad.return (http_Error ''invalid job id'' 400)
     | Some i \<Rightarrow> do {
         a \<leftarrow> ReplayJob (dd_client d) i;
         (case a of
            Inl e \<Rightarrow> if errors_is e ErrJobNotFound then State_Monad.return (http_Error ''job not replayable'' 409)
              else internal_error ''replay job failed''
          | Inr _ \<Rightarrow> do {
              g \<leftarrow> GetJob (dd_client d) i;
              (case g of Inl e \<Rightarrow> internal_error ''get replayed job failed''
               | Inr j \<Rightarrow> ExecuteTemplate v (RowView (buildDashboardRow v j)) None) }) })"

definition handleDeleteJob :: "dashboard \<Rightarrow> handler" where
  "handleDeleteJob d raw r = (case parsePathID raw of
       None \<Rightarrow> State_Monad.return (http_Error ''invalid job id'' 400)
     | Some i \<Rightarrow> do {
         a \<leftarrow> DeleteJob (dd_client d) i;
         (case a of
            Inl e \<Rightarrow> if errors_is e ErrJobNotFound then State_Monad.return (http_Error ''not found'' 404)
              else if errors_is e ErrJobBusy then State_Monad.return (http_Error ''job is processing'' 409)
              else internal_error ''delete job failed''
          | Inr _ \<Rightarrow> State_Monad.return \<lparr>rs_status = 200, rs_headers = [], rs_body = Text []\<rparr>) })"

text \<open>\<open>pg_locks\<close>: a lock on a 64-bit key shows its halves as unsigned numbers.\<close>

definition lock_row :: "(lock_owner \<Rightarrow> int) \<Rightarrow> int \<times> lock_owner \<Rightarrow> advisory_lock" where
  "lock_row pid l = \<lparr>al_PID = pid (snd l), al_Mode = ''ExclusiveLock'', al_Granted = True,
     al_ClassID = fst l div 2 ^ 32 mod 2 ^ 32, al_ObjectID = fst l mod 2 ^ 32, al_ObjectSubID = 1\<rparr>"

definition listAdvisoryLocks :: "(lock_owner \<Rightarrow> int) \<Rightarrow> advisory_lock list result io" where
  "listAdvisoryLocks pid = attempt (query (\<lambda>w. (sort_key al_PID (map (lock_row pid) (advisory w)), w)))
     (\<lambda>e. Inl (wrap ''query pg_locks: '' e)) (\<lambda>ls. State_Monad.return (Inr ls))"

definition handleLocksFragment :: "dashboard_env \<Rightarrow> dashboard \<Rightarrow> handler" where
  "handleLocksFragment v d _ r = do {
     g \<leftarrow> listAdvisoryLocks (de_pid v);
     (case g of Inl e \<Rightarrow> internal_error ''list advisory locks failed''
      | Inr ls \<Rightarrow> ExecuteTemplate v (LocksView ls) (Some ''render locks fragment failed'')) }"

definition form_number :: "(string \<times> string) list \<Rightarrow> string \<Rightarrow> int \<Rightarrow> int option" where
  "form_number form key fallback = (let v = trim_space (get_value form key) in if v = [] then Some fallback else Atoi v)"

definition handleEnqueue :: "dashboard \<Rightarrow> handler" where
  "handleEnqueue d _ r =
     (if \<not> dd_enableEnqueue d then State_Monad.return (http_Error ''enqueue API disabled'' 404)
      else (case rq_form r of None \<Rightarrow> State_Monad.return (http_Error ''invalid form'' 400)
        | Some form \<Rightarrow>
          (case form_number form ''max_attempts'' defaultMaxAttempts of
             None \<Rightarrow> State_Monad.return (http_Error ''max_attempts must be an integer'' 400)
           | Some attempts \<Rightarrow>
             (case form_number form ''delay_seconds'' 0 of
                None \<Rightarrow> State_Monad.return (http_Error ''delay_seconds must be an integer'' 400)
              | Some seconds \<Rightarrow> do {
                  w \<leftarrow> State_Monad.get;
                  a \<leftarrow> Enqueue (dd_client d) (rq_ctx r) \<lparr>ep_QueueName = trim_space (get_value form ''queue''),
                    ep_Payload = get_value form ''payload'', ep_AvailableAt = delayed_until seconds w, ep_MaxAttempts = attempts\<rparr>;
                  (case a of
                     Inl e \<Rightarrow> do { log_msg LevelWarn ''enqueue from dashboard form failed''; State_Monad.return (http_Error ''enqueue failed'' 400) }
                   | Inr i \<Rightarrow> do { log_msg LevelInfo ''job enqueued from dashboard form'';
                       State_Monad.return (html (''<div class=\"text-emerald-700\">Enqueued job id '' @ dec_int i @ ''</div>'')) }) }))))"

definition handleEnqueueAPI :: "dashboard_env \<Rightarrow> dashboard \<Rightarrow> handler" where
  "handleEnqueueAPI v d _ r =
     (if \<not> dd_enableEnqueue d then State_Monad.return (http_Error ''enqueue API disabled'' 404)
      else (case de_decode v (rq_body r) of None \<Rightarrow> State_Monad.return (http_Error ''invalid json body'' 400)
        | Some b \<Rightarrow> do {
            w \<leftarrow> State_Monad.get;
            a \<leftarrow> Enqueue (dd_client d) (rq_ctx r) \<lparr>ep_QueueName = trim_space (er_QueueName b),
              ep_Payload = er_Payload b, ep_AvailableAt = delayed_until (er_DelaySeconds b) w, ep_MaxAttempts = er_MaxAttempts b\<rparr>;
            (case a of
               Inl e \<Rightarrow> do { log_msg LevelWarn ''enqueue from dashboard api failed''; State_Monad.return (http_Error ''enqueue failed'' 400) }
             | Inr i \<Rightarrow> State_Monad.return \<lparr>rs_status = 201, rs_headers = [(''Content-Type'', ''application/json'')],
                 rs_body = Json (JObj [(''id'', JNum i)])\<rparr>) }))"

definition dash_Handler :: "dashboard_env \<Rightarrow> dashboard \<Rightarrow> route list" where
  "dash_Handler v d =
     [(''GET'', [Rest], dash_requireToken d (handleIndex v d)),
      (''GET'', [Lit ''fragment'', Lit ''jobs''], dash_requireToken d (handleJobsFragment v d)),
      (''GET'', [Lit ''fragment'', Lit ''jobs'', Wild], dash_requireToken d (handleJobRowFragment v d)),
      (''GET'', [Lit ''fragment'', Lit ''locks''], dash_requireToken d (handleLocksFragment v d))]
     @ (if dd_enableEnqueue d then
          [(''POST'', [Lit ''enqueue''], dash_requireToken d (dash_requireCSRF (handleEnqueue d))),
           (''POST'', [Lit ''api'', Lit ''jobs''], dash_requireToken d (dash_requireCSRF (handleEnqueueAPI v d)))] else [])
     @ [(''POST'', [Lit ''jobs'', Wild, Lit ''replay''], dash_requireToken d (dash_requireCSRF (handleReplayJob v d))),
        (''DELETE'', [Lit ''jobs'', Wild], dash_requireToken d (dash_requireCSRF (handleDeleteJob d)))]"

end
