(* ===== verification/Admin_Queries.thy ===== *)
theory Admin_Queries
  imports Dashboard Workflow_Inspect
begin

text \<open>
  The admin interface's view of the queue: \<open>adminui/params.go\<close>, \<open>adminui/queue_queries.go\<close>,
  \<open>adminui/locks.go\<close> and the queue's part of \<open>adminui/overview.go\<close>. Each query is a statement over the
  tables, each answer the JSON object its struct is written as. Instants are microseconds since 1970.
\<close>

section \<open>Instants\<close>

text \<open>The civil date of a day since 1970-01-01.\<close>

definition civil_date :: "int \<Rightarrow> int \<times> int \<times> int" where
  "civil_date day =
     (let z = day + 719468; era = z div 146097; doe = z mod 146097;
          yoe = (doe - doe div 1460 + doe div 36524 - doe div 146096) div 365;
          doy = doe - (365 * yoe + yoe div 4 - yoe div 100);
          mp = (5 * doy + 2) div 153;
          m = (if mp < 10 then mp + 3 else mp - 9) in
      (yoe + era * 400 + (if m \<le> 2 then 1 else 0), m, doy - (153 * mp + 2) div 5 + 1))"

definition padded :: "nat \<Rightarrow> int \<Rightarrow> string" where
  "padded width i = (let s = dec_int i in replicate (width - length s) CHR ''0'' @ s)"

text \<open>\<open>2006-01-02T15:04:05\<close> of an instant in UTC.\<close>

definition utc_seconds :: "int \<Rightarrow> string" where
  "utc_seconds t = (let secs = t div 1000000; sod = secs mod 86400 in
     case civil_date (secs div 86400) of (y, m, d) \<Rightarrow>
       padded 4 y @ ''-'' @ padded 2 m @ ''-'' @ padded 2 d @ ''T'' @ padded 2 (sod div 3600) @ '':''
         @ padded 2 (sod div 60 mod 60) @ '':'' @ padded 2 (sod mod 60))"

definition formatTime :: "int \<Rightarrow> string" where
  "formatTime t = utc_seconds t @ ''.'' @ padded 3 (t div 1000 mod 1000) @ ''Z''"

text \<open>\<open>time.RFC3339Nano\<close> drops the zeros at the end of the fraction, and the point when none is left.\<close>

definition formatNow :: "int \<Rightarrow> string" where
  "formatNow t = (let fraction = rev (dropWhile (\<lambda>c. c = CHR ''0'') (rev (padded 6 (t mod 1000000)))) in
     utc_seconds t @ (if fraction = [] then [] else ''.'' @ fraction) @ ''Z'')"

definition json_text :: "string option \<Rightarrow> json" where
  "json_text v = (case v of None \<Rightarrow> JNull | Some s \<Rightarrow> JStr s)"

definition formatNullTime :: "int option \<Rightarrow> string option" where
  "formatNullTime v = map_option formatTime v"

definition nullableText :: "string option \<Rightarrow> string option" where
  "nullableText v = (case v of None \<Rightarrow> None | Some s \<Rightarrow> if s = [] then None else Some s)"

definition optionalString :: "string \<Rightarrow> string option" where
  "optionalString v = (if v = [] then None else Some v)"

section \<open>Parameters\<close>

text \<open>
  What stands outside the admin interface: the host of a URL when it parses, JSON validity and decoding,
  the process behind a lock owner and what \<open>pg_stat_activity\<close> says of it.
\<close>

record session_info =
  si_application_name :: string
  si_state :: "string option"
  si_xact_start :: "int option"
  si_state_change :: "int option"
  si_wait_event_type :: "string option"
  si_wait_event :: "string option"

record admin_env =
  ae_url_host :: "string \<Rightarrow> string option"
  ae_json_valid :: "string \<Rightarrow> bool"
  ae_decode :: "string \<Rightarrow> enqueue_request option"
  ae_run_id :: "string \<Rightarrow> string option"
  ae_pid :: "lock_owner \<Rightarrow> int"
  ae_activity :: "int \<Rightarrow> session_info option"
  ae_file :: "string \<Rightarrow> string option"

record page_request =
  pr_limit :: int
  pr_offset :: int

definition queryInt :: "request \<Rightarrow> string \<Rightarrow> int \<Rightarrow> int" where
  "queryInt r key fallback = (let raw = trim_space (get_value (rq_query r) key) in
     if raw = [] then fallback else (case Atoi raw of None \<Rightarrow> fallback | Some v \<Rightarrow> v))"

definition pageRequest :: "int \<Rightarrow> request \<Rightarrow> page_request result" where
  "pageRequest listLimit r = (let offset = queryInt r ''offset'' 0 in
     if offset < 0 then Inl (Errorf ''offset must not be negative'')
     else Inr \<lparr>pr_limit = min (max (queryInt r ''limit'' listLimit) 1) 100, pr_offset = offset\<rparr>)"

definition queryText :: "request \<Rightarrow> string \<Rightarrow> string" where
  "queryText r key = trim_space (get_value (rq_query r) key)"

definition searchTerm :: "request \<Rightarrow> string result" where
  "searchTerm r = (let term = queryText r ''search'' in
     if maxSearchLength < length term then Inl (Errorf ''search is too long'') else Inr term)"

definition likePattern :: "string \<Rightarrow> string" where
  "likePattern term = ''%'' @ concat (map escape_like term) @ ''%''"

definition withSnapshot :: "'a result io \<Rightarrow> 'a result io" where
  "withSnapshot fn = attempt begin_tx Inl (\<lambda>_. deferring_rollback fn)"

definition queryNow :: "string result io" where
  "queryNow = attempt (query (\<lambda>w. (now w, w))) Inl (\<lambda>t. State_Monad.return (Inr (formatNow t)))"

section \<open>Jobs\<close>

definition newQueueJob :: "job \<Rightarrow> string \<Rightarrow> (string \<times> json) list" where
  "newQueueJob j preview =
     [(''id'', JNum (ID j)), (''queue_name'', JStr (QueueName j)), (''status'', JStr (status_text (Status j))),
      (''attempts'', JNum (Attempts j)), (''max_attempts'', JNum (MaxAttempts j)), (''claims'', JNum (Claims j)),
      (''available_at'', JStr (formatTime (AvailableAt j))), (''claimed_by'', json_text (ClaimedBy j)),
      (''claimed_at'', json_text (formatNullTime (ClaimedAt j))), (''done_at'', json_text (formatNullTime (DoneAt j))),
      (''last_error'', json_text (LastError j)), (''payload_preview'', JStr preview),
      (''created_at'', JStr (formatTime (CreatedAt j))), (''updated_at'', JStr (formatTime (UpdatedAt j)))]"

definition toQueueJob :: "job \<Rightarrow> json" where
  "toQueueJob j = JObj (newQueueJob j (payloadPreview (Payload j)))"

text \<open>A row of \<open>queueJobSelect\<close>: the job with the first bytes of its payload and its size.\<close>

record job_row =
  jr_job :: job
  jr_head :: string
  jr_size :: nat

definition select_job_row :: "nat \<Rightarrow> job \<Rightarrow> job_row" where
  "select_job_row bytes j = \<lparr>jr_job = j, jr_head = take bytes (Payload j), jr_size = length (Payload j)\<rparr>"

definition row_summary :: "job_row \<Rightarrow> (string \<times> json) list" where
  "row_summary row = newQueueJob (jr_job row) (previewPayload (take previewFetchBytes (jr_head row)) (jr_size row))"

definition row_detail :: "admin_env \<Rightarrow> job_row \<Rightarrow> json" where
  "row_detail v row = (let e = encodePayload (ae_json_valid v) (jr_head row) (jr_size row) in
     JObj (row_summary row @ [(''payload'', JStr (pl_text e)), (''payload_encoding'', JStr (pl_encoding e)),
       (''payload_bytes'', JNum (int (pl_size e))), (''payload_truncated'', JBool (pl_truncated e)),
       (''run_id'', json_text (workflowRunIDOfJob (ae_run_id v) (QueueName (jr_job row)) (jr_head row)))]))"

definition queryQueueJob :: "int \<Rightarrow> job_row result io" where
  "queryQueueJob i = attempt (query_row (\<lambda>w. (map_option (select_job_row maxPayloadBytes) (find (\<lambda>j. ID j = i) (jobs (db w))), w)))
     (\<lambda>e. Inl (if errors_is e SqlErrNoRows then Sentinel ErrJobNotFound else wrap ''adminui: queue job: '' e))
     (\<lambda>row. State_Monad.return (Inr row))"

section \<open>Counts\<close>

record queue_counts =
  qc_total :: int
  qc_pending :: int
  qc_processing :: int
  qc_done :: int
  qc_failed :: int
  qc_queues :: int
  qc_due :: int
  qc_oldest_due :: "int option"
  qc_locks :: int

definition due_job :: "int \<Rightarrow> job \<Rightarrow> bool" where
  "due_job n j \<longleftrightarrow> Status j = StatusPending \<and> AvailableAt j \<le> n"

definition oldest_due :: "int \<Rightarrow> job list \<Rightarrow> int option" where
  "oldest_due n js = (case map AvailableAt (filter (due_job n) js) of [] \<Rightarrow> None | t # ts \<Rightarrow> Some (foldl min t ts))"

definition count_jobs :: "int \<Rightarrow> job list \<Rightarrow> queue_counts" where
  "count_jobs n js = \<lparr>qc_total = int (length js), qc_pending = count_where (\<lambda>j. Status j = StatusPending) js,
     qc_processing = count_where (\<lambda>j. Status j = StatusProcessing) js, qc_done = count_where (\<lambda>j. Status j = StatusDone) js,
     qc_failed = count_where (\<lambda>j. Status j = StatusFailed) js, qc_queues = int (length (remdups (map QueueName js))),
     qc_due = count_where (due_job n) js, qc_oldest_due = oldest_due n js, qc_locks = 0\<rparr>"

definition queryAdvisoryLockCount :: "int result io" where
  "queryAdvisoryLockCount = attempt (query (\<lambda>w. (int (length (advisory w)), w)))
     (\<lambda>e. Inl (wrap ''adminui: advisory lock count: '' e)) (\<lambda>k. State_Monad.return (Inr k))"

definition queryQueueCounts :: "queue_counts result io" where
  "queryQueueCounts = attempt (query (\<lambda>w. (count_jobs (now w) (jobs (db w)), w)))
     (\<lambda>e. Inl (wrap ''adminui: queue counts: '' e)) (\<lambda>counts.
     attempt queryAdvisoryLockCount Inl (\<lambda>locks. State_Monad.return (Inr (counts\<lparr>qc_locks := locks\<rparr>))))"

definition queue_summary :: "queue_counts \<Rightarrow> json" where
  "queue_summary c = JObj [(''total_jobs'', JNum (qc_total c)), (''pending_jobs'', JNum (qc_pending c)),
     (''processing_jobs'', JNum (qc_processing c)), (''done_jobs'', JNum (qc_done c)), (''failed_jobs'', JNum (qc_failed c)),
     (''advisory_locks'', JNum (qc_locks c)), (''queues'', JNum (qc_queues c))]"

definition buildQueueSummary :: "json result io" where
  "buildQueueSummary = attempt queryQueueCounts Inl (\<lambda>c. State_Monad.return (Inr (queue_summary c)))"

section \<open>Throughput\<close>

record throughput_window =
  tw_bucketSeconds :: int
  tw_bucketCount :: nat

definition throughputWindows :: "string \<Rightarrow> throughput_window option" where
  "throughputWindows text = map_of
     [([], \<lparr>tw_bucketSeconds = 60, tw_bucketCount = 60\<rparr>), (''1h'', \<lparr>tw_bucketSeconds = 60, tw_bucketCount = 60\<rparr>),
      (''24h'', \<lparr>tw_bucketSeconds = 1800, tw_bucketCount = 48\<rparr>)] text"

text \<open>\<open>throughputSeriesSQL\<close>: instants fall into buckets of \<open>size\<close> seconds, the last one holds \<open>NOW()\<close>.\<close>

definition bucket_index :: "throughput_window \<Rightarrow> int \<Rightarrow> int" where
  "bucket_index tw t = t div (tw_bucketSeconds tw * 1000000)"

definition window_start :: "throughput_window \<Rightarrow> int \<Rightarrow> int" where
  "window_start tw n = (bucket_index tw n - int (tw_bucketCount tw) + 1) * (tw_bucketSeconds tw * 1000000)"

definition series :: "throughput_window \<Rightarrow> int \<Rightarrow> int list" where
  "series tw n = map (\<lambda>k. bucket_index tw n - (int (tw_bucketCount tw) - 1 - int k)) [0..<tw_bucketCount tw]"

text \<open>How many of the instants in the window fall into a bucket.\<close>

definition in_bucket :: "throughput_window \<Rightarrow> int \<Rightarrow> int list \<Rightarrow> int \<Rightarrow> int" where
  "in_bucket tw n ts idx = count_where (\<lambda>t. window_start tw n \<le> t \<and> bucket_index tw t = idx) ts"

record bucket =
  bk_start :: int
  bk_counts :: "int list"

definition buckets :: "throughput_window \<Rightarrow> int \<Rightarrow> int list list \<Rightarrow> bucket list" where
  "buckets tw n columns = map (\<lambda>idx. \<lparr>bk_start = idx * (tw_bucketSeconds tw * 1000000),
     bk_counts = map (\<lambda>ts. in_bucket tw n ts idx) columns\<rparr>) (series tw n)"

definition done_instants :: "job list \<Rightarrow> int list" where
  "done_instants js = List.map_filter (\<lambda>j. if Status j = StatusDone then DoneAt j else None) js"

definition failed_instants :: "job list \<Rightarrow> int list" where
  "failed_instants js = map UpdatedAt (filter (\<lambda>j. Status j = StatusFailed) js)"

definition throughput_json :: "string list \<Rightarrow> throughput_window \<Rightarrow> bucket list \<Rightarrow> json" where
  "throughput_json names tw bs = JObj [(''bucket_seconds'', JNum (tw_bucketSeconds tw)),
     (''buckets'', JArr (map (\<lambda>b. JObj ((''start'', JStr (formatTime (bk_start b))) # zip names (map JNum (bk_counts b)))) bs))]"

definition queryQueueThroughput :: "throughput_window \<Rightarrow> bucket list result io" where
  "queryQueueThroughput tw = attempt (query (\<lambda>w. (buckets tw (now w) [done_instants (jobs (db w)), failed_instants (jobs (db w))], w)))
     (\<lambda>e. Inl (wrap ''adminui: queue throughput: '' e)) (\<lambda>bs. State_Monad.return (Inr bs))"

section \<open>Overview of the queue\<close>

definition preview_rows :: "string \<Rightarrow> nat \<Rightarrow> job list \<Rightarrow> job_row list" where
  "preview_rows status limit js = map (select_job_row previewFetchBytes)
     (take limit (rev (sort_key (\<lambda>j. (UpdatedAt j, ID j)) (filter (\<lambda>j. status = [] \<or> status_text (Status j) = status) js))))"

definition queryQueueJobPreviews :: "string \<Rightarrow> nat \<Rightarrow> json list result io" where
  "queryQueueJobPreviews status limit = attempt (query (\<lambda>w. (preview_rows status limit (jobs (db w)), w)))
     (\<lambda>e. Inl (wrap ''adminui: queue job previews: '' e))
     (\<lambda>rows. State_Monad.return (Inr (map (\<lambda>row. JObj (row_summary row)) rows)))"

definition queryQueueOverview :: "throughput_window \<Rightarrow> json result io" where
  "queryQueueOverview tw =
     attempt queryQueueCounts Inl (\<lambda>counts.
     attempt (queryQueueThroughput tw) Inl (\<lambda>bs.
     attempt (queryQueueJobPreviews (status_text StatusFailed) 5) Inl (\<lambda>failed.
     attempt (queryQueueJobPreviews [] 8) Inl (\<lambda>recent.
       State_Monad.return (Inr (JObj [(''summary'', queue_summary counts), (''due_jobs'', JNum (qc_due counts)),
         (''oldest_due_at'', json_text (formatNullTime (qc_oldest_due counts))),
         (''throughput'', throughput_json [''done'', ''failed''] tw bs),
         (''failed_jobs'', JArr failed), (''recent_jobs'', JArr recent)]))))))"

section \<open>One line per queue\<close>

record queue_breakdown =
  qb_queue :: string
  qb_counts :: queue_counts
  qb_last_activity :: int

definition breakdown :: "int \<Rightarrow> job list \<Rightarrow> queue_breakdown list" where
  "breakdown n js = map (\<lambda>q. let mine = filter (\<lambda>j. QueueName j = q) js in
     \<lparr>qb_queue = q, qb_counts = count_jobs n mine, qb_last_activity = (case map UpdatedAt mine of [] \<Rightarrow> 0 | t # ts \<Rightarrow> foldl max t ts)\<rparr>)
     (sort (remdups (map QueueName js)))"

definition breakdown_json :: "queue_breakdown \<Rightarrow> json" where
  "breakdown_json b = (let c = qb_counts b in JObj [(''queue_name'', JStr (qb_queue b)), (''total'', JNum (qc_total c)),
     (''pending'', JNum (qc_pending c)), (''due'', JNum (qc_due c)), (''processing'', JNum (qc_processing c)),
     (''done'', JNum (qc_done c)), (''failed'', JNum (qc_failed c)),
     (''oldest_due_at'', json_text (formatNullTime (qc_oldest_due c))), (''last_activity_at'', JStr (formatTime (qb_last_activity b)))])"

definition queryQueueBreakdown :: "queue_breakdown list result io" where
  "queryQueueBreakdown = attempt (query (\<lambda>w. (breakdown (now w) (jobs (db w)), w)))
     (\<lambda>e. Inl (wrap ''adminui: queue breakdown: '' e)) (\<lambda>bs. State_Monad.return (Inr bs))"

section \<open>Locks\<close>

text \<open>The key of a lock on one 64-bit number, as a signed number.\<close>

definition lock_key :: "advisory_lock \<Rightarrow> string option" where
  "lock_key l = (if al_ObjectSubID l = 1 then Some (dec_int (wrap64 (al_ClassID l * 2 ^ 32 + al_ObjectID l)))
     else if al_ObjectSubID l = 2 then Some (dec_int (al_ClassID l) @ '','' @ dec_int (al_ObjectID l))
     else None)"

definition lock_session :: "admin_env \<Rightarrow> advisory_lock \<Rightarrow> json" where
  "lock_session v l = (let a = ae_activity v (al_PID l) in
     JObj [(''pid'', JNum (al_PID l)), (''mode'', JStr (al_Mode l)), (''granted'', JBool (al_Granted l)),
       (''key'', json_text (nullableText (lock_key l))), (''classid'', JNum (al_ClassID l)), (''objid'', JNum (al_ObjectID l)),
       (''objsubid'', JNum (al_ObjectSubID l)),
       (''application_name'', JStr (case a of None \<Rightarrow> [] | Some s \<Rightarrow> si_application_name s)),
       (''state'', json_text (nullableText (Option.bind a si_state))),
       (''xact_start'', json_text (formatNullTime (Option.bind a si_xact_start))),
       (''state_change'', json_text (formatNullTime (Option.bind a si_state_change))),
       (''wait_event_type'', json_text (nullableText (Option.bind a si_wait_event_type))),
       (''wait_event'', json_text (nullableText (Option.bind a si_wait_event)))])"

definition lock_order :: "advisory_lock \<Rightarrow> bool \<times> int \<times> int \<times> int \<times> int" where
  "lock_order l = (\<not> al_Granted l, al_PID l, al_ClassID l, al_ObjectID l, al_ObjectSubID l)"

definition queryAdvisoryLockSessions :: "admin_env \<Rightarrow> json list result io" where
  "queryAdvisoryLockSessions v = attempt (query (\<lambda>w. (sort_key lock_order (map (lock_row (ae_pid v)) (advisory w)), w)))
     (\<lambda>e. Inl (wrap ''adminui: advisory locks: '' e)) (\<lambda>ls. State_Monad.return (Inr (map (lock_session v) ls)))"

end
