(* ===== verification/Admin_Workflow.thy ===== *)
theory Admin_Workflow
  imports Admin_Queries
begin

text \<open>
  The admin interface's view of workflows, \<open>adminui/workflow_queries.go\<close>: lists of runs with their
  current step, one line per workflow, the detail of a run with its ancestors, children and signals, the
  tree below a run and the overview. Rows that the \<open>ORDER BY\<close> of a query leaves tied keep the order of
  the table.
\<close>

section \<open>Runs in a list\<close>

fun step_status_text :: "step_status \<Rightarrow> string" where
  "step_status_text StepRunning = ''running''"
| "step_status_text StepWaiting = ''waiting''"
| "step_status_text StepRetrying = ''retrying''"
| "step_status_text StepSucceeded = ''succeeded''"
| "step_status_text StepFailed = ''failed''"
| "step_status_text StepTimedOut = ''timed_out''"

record run_summary =
  rm_run :: run
  rm_child_count :: int
  rm_step_count :: int
  rm_current :: "step option"

definition is_child_of :: "string \<Rightarrow> run \<Rightarrow> bool" where
  "is_child_of i r \<longleftrightarrow> r_parent_run_id r = Some i"

text \<open>The step a run is at: the last one reached of those that have not succeeded.\<close>

definition current_step :: "step list \<Rightarrow> run \<Rightarrow> step option" where
  "current_step ss r = (case rev (sort_key (\<lambda>s. (s_created_at s, s_name s))
       (filter (\<lambda>s. s_run_id s = r_id r \<and> s_status s \<noteq> StepSucceeded) ss)) of [] \<Rightarrow> None | s # _ \<Rightarrow> Some s)"

definition summarize :: "database \<Rightarrow> run \<Rightarrow> run_summary" where
  "summarize d r = \<lparr>rm_run = r, rm_child_count = count_where (is_child_of (r_id r)) (runs d),
     rm_step_count = count_where (\<lambda>s. s_run_id s = r_id r) (steps d), rm_current = current_step (steps d) r\<rparr>"

record run_selection =
  sel_where :: "run \<Rightarrow> bool"
  sel_order :: "run list \<Rightarrow> run list"
  sel_limit :: int
  sel_offset :: int

definition select_summaries :: "run_selection \<Rightarrow> database \<Rightarrow> run_summary list" where
  "select_summaries sel d = map (summarize d) (page (sel_limit sel) (sel_offset sel) (sel_order sel (filter (sel_where sel) (runs d))))"

definition queryRunSummaries :: "run_selection \<Rightarrow> run_summary list result io" where
  "queryRunSummaries sel = attempt (query (\<lambda>w. (select_summaries sel (db w), w)))
     (\<lambda>e. Inl (wrap ''adminui: run summaries: '' e)) (\<lambda>rs. State_Monad.return (Inr rs))"

definition created_asc :: "run list \<Rightarrow> run list" where
  "created_asc rs = sort_key (\<lambda>r. (r_created_at r, r_id r)) rs"

definition step_ref :: "step \<Rightarrow> json" where
  "step_ref s = JObj [(''name'', JStr (s_name s)), (''kind'', JStr (step_kind_text (s_kind s))),
     (''status'', JStr (step_status_text (s_status s))), (''attempts'', JNum (s_attempts s)),
     (''signal'', json_text (nullableText (s_signal s))), (''wake_at'', json_text (formatNullTime (s_wake_at s))),
     (''child_run_id'', json_text (nullableText (s_child_run_id s))), (''error'', json_text (nullableText (s_error s)))]"

definition scanRunSummary :: "run_summary \<Rightarrow> json" where
  "scanRunSummary m = (let r = rm_run m in JObj [(''id'', JStr (r_id r)), (''workflow'', JStr (r_workflow r)),
     (''version'', JNum (r_version r)), (''key'', json_text (nullableText (r_key r))),
     (''status'', JStr (run_status_text (r_status r))), (''error'', json_text (nullableText (r_error r))),
     (''timed_out'', JBool (r_timed_out r)), (''parent_run_id'', json_text (nullableText (r_parent_run_id r))),
     (''wake_at'', json_text (formatNullTime (r_wake_at r))), (''deadline_at'', json_text (formatNullTime (r_deadline_at r))),
     (''created_at'', JStr (formatTime (r_created_at r))), (''started_at'', json_text (formatNullTime (r_started_at r))),
     (''completed_at'', json_text (formatNullTime (r_completed_at r))), (''updated_at'', JStr (formatTime (r_updated_at r))),
     (''child_count'', JNum (rm_child_count m)), (''step_count'', JNum (rm_step_count m)),
     (''current_step'', case rm_current m of None \<Rightarrow> JNull | Some s \<Rightarrow> step_ref s)])"

record run_filter =
  rf_workflow :: string
  rf_status :: string
  rf_parentRunID :: string
  rf_search :: string
  rf_topLevel :: bool

definition filter_clause :: "run_filter \<Rightarrow> run \<Rightarrow> bool" where
  "filter_clause f r \<longleftrightarrow> (rf_workflow f = [] \<or> r_workflow r = rf_workflow f)
     \<and> (rf_status f = [] \<or> run_status_text (r_status r) = rf_status f)
     \<and> (rf_parentRunID f = [] \<or> r_parent_run_id r = Some (rf_parentRunID f))
     \<and> (rf_topLevel f \<longrightarrow> r_parent_run_id r = None)
     \<and> (rf_search f = [] \<or> (let pattern = likePattern (rf_search f) in
          ilike (r_id r) pattern \<or> (case r_key r of None \<Rightarrow> False | Some k \<Rightarrow> ilike k pattern) \<or> ilike (r_workflow r) pattern))"

definition list_response :: "json list \<Rightarrow> int \<Rightarrow> int \<Rightarrow> int \<Rightarrow> json" where
  "list_response items count limit offset =
     JObj [(''items'', JArr items), (''total'', JNum count), (''limit'', JNum limit), (''offset'', JNum offset)]"

definition queryRunList :: "run_filter \<Rightarrow> page_request \<Rightarrow> json result io" where
  "queryRunList f p = attempt (query (\<lambda>w. (count_where (filter_clause f) (runs (db w)), w)))
     (\<lambda>e. Inl (wrap ''adminui: count runs: '' e)) (\<lambda>count.
     attempt (queryRunSummaries \<lparr>sel_where = filter_clause f, sel_order = rev \<circ> created_asc, sel_limit = pr_limit p, sel_offset = pr_offset p\<rparr>)
       Inl (\<lambda>rs. State_Monad.return (Inr (list_response (map scanRunSummary rs) count (pr_limit p) (pr_offset p)))))"

section \<open>One line per workflow\<close>

definition with_status :: "run_status \<Rightarrow> run list \<Rightarrow> int" where
  "with_status s rs = count_where (\<lambda>r. r_status r = s) rs"

definition workflow_line :: "string \<Rightarrow> run list \<Rightarrow> json" where
  "workflow_line name rs = (let mine = filter (\<lambda>r. r_workflow r = name) rs in
     JObj [(''workflow'', JStr name), (''versions'', JArr (map JNum (sort (remdups (map r_version mine))))),
       (''total'', JNum (int (length mine))), (''pending'', JNum (with_status RunPending mine)),
       (''running'', JNum (with_status RunRunning mine)), (''waiting'', JNum (with_status RunWaiting mine)),
       (''succeeded'', JNum (with_status RunSucceeded mine)), (''failed'', JNum (with_status RunFailed mine)),
       (''cancelled'', JNum (with_status RunCancelled mine)),
       (''last_run_at'', JStr (formatTime (case map r_created_at mine of [] \<Rightarrow> 0 | t # ts \<Rightarrow> foldl max t ts)))])"

definition queryWorkflowSummaries :: "json list result io" where
  "queryWorkflowSummaries = attempt (query (\<lambda>w. (map (\<lambda>name. workflow_line name (runs (db w)))
       (sort (remdups (map r_workflow (runs (db w))))), w)))
     (\<lambda>e. Inl (wrap ''adminui: workflow summaries: '' e)) (\<lambda>items. State_Monad.return (Inr items))"

section \<open>One run\<close>

definition toWorkflowRun :: "run \<Rightarrow> json" where
  "toWorkflowRun r = JObj [(''id'', JStr (r_id r)), (''workflow'', JStr (r_workflow r)), (''version'', JNum (r_version r)),
     (''key'', json_text (optionalString (text_or_empty (r_key r)))), (''status'', JStr (run_status_text (r_status r))),
     (''error'', json_text (optionalString (text_or_empty (r_error r)))), (''timed_out'', JBool (r_timed_out r)),
     (''parent_run_id'', json_text (optionalString (text_or_empty (r_parent_run_id r)))), (''input'', JStr (r_input r)),
     (''output'', json_text (optionalString (text_or_empty (r_output r)))), (''wake_at'', json_text (formatNullTime (r_wake_at r))),
     (''deadline_at'', json_text (formatNullTime (r_deadline_at r))), (''created_at'', JStr (formatTime (r_created_at r))),
     (''started_at'', json_text (formatNullTime (r_started_at r))), (''completed_at'', json_text (formatNullTime (r_completed_at r))),
     (''updated_at'', JStr (formatTime (r_updated_at r)))]"

definition toWorkflowStep :: "step \<Rightarrow> json" where
  "toWorkflowStep s = JObj [(''name'', JStr (s_name s)), (''kind'', JStr (step_kind_text (s_kind s))),
     (''status'', JStr (step_status_text (s_status s))), (''attempts'', JNum (s_attempts s)),
     (''output'', json_text (optionalString (text_or_empty (s_output s)))), (''error'', json_text (optionalString (text_or_empty (s_error s)))),
     (''wake_at'', json_text (formatNullTime (s_wake_at s))), (''child_run_id'', json_text (optionalString (text_or_empty (s_child_run_id s)))),
     (''signal'', json_text (optionalString (text_or_empty (s_signal s)))), (''created_at'', JStr (formatTime (s_created_at s))),
     (''completed_at'', json_text (formatNullTime (s_completed_at s))), (''updated_at'', JStr (formatTime (s_updated_at s)))]"

definition queryRunJobID :: "string \<Rightarrow> int option result io" where
  "queryRunJobID runID = attempt (query_row (select_run (\<lambda>r. r_id r = runID) r_job_id))
     (\<lambda>e. Inl (if errors_is e SqlErrNoRows then Wrapf [] (Sentinel ErrRunNotFound) ('': '' @ runID)
        else wrap ''adminui: run job id: '' e)) (\<lambda>j. State_Monad.return (Inr j))"

definition queryChildTotal :: "string \<Rightarrow> int result io" where
  "queryChildTotal runID = attempt (query (\<lambda>w. (count_where (is_child_of runID) (runs (db w)), w)))
     (\<lambda>e. Inl (wrap ''adminui: child total: '' e)) (\<lambda>k. State_Monad.return (Inr k))"

text \<open>The recursive chain of parent ids, the nearest first.\<close>

fun parent_chain :: "nat \<Rightarrow> run list \<Rightarrow> string \<Rightarrow> string list" where
  "parent_chain 0 rs i = []"
| "parent_chain (Suc k) rs i = (case find (\<lambda>r. r_id r = i) rs of None \<Rightarrow> []
     | Some r \<Rightarrow> (case r_parent_run_id r of None \<Rightarrow> [] | Some p \<Rightarrow> p # parent_chain k rs p))"

definition maxDetailAncestors :: nat where "maxDetailAncestors = 32"

definition run_ancestors :: "run list \<Rightarrow> string \<Rightarrow> run list" where
  "run_ancestors rs i = rev (List.map_filter (\<lambda>p. find (\<lambda>r. r_id r = p) rs) (parent_chain maxDetailAncestors rs i))"

definition queryRunAncestors :: "string \<Rightarrow> run list result io" where
  "queryRunAncestors runID = attempt (query (\<lambda>w. (run_ancestors (runs (db w)) runID, w)))
     (\<lambda>e. Inl (wrap ''adminui: run ancestors: '' e)) (\<lambda>rs. State_Monad.return (Inr rs))"

definition run_ancestor :: "run \<Rightarrow> json" where
  "run_ancestor r = JObj [(''id'', JStr (r_id r)), (''workflow'', JStr (r_workflow r)),
     (''status'', JStr (run_status_text (r_status r))), (''key'', json_text (nullableText (r_key r)))]"

definition run_signal :: "signal_row \<Rightarrow> json" where
  "run_signal g = JObj [(''id'', JNum (g_id g)), (''name'', JStr (g_name g)), (''received'', JBool (g_received_by g \<noteq> None)),
     (''payload_preview'', JStr (truncateText (pg_left 201 (g_payload g)) 200)), (''created_at'', JStr (formatTime (g_created_at g)))]"

definition queryRunSignals :: "string \<Rightarrow> json list result io" where
  "queryRunSignals runID = attempt (query (\<lambda>w. (take 50 (rev (sort_key g_id (filter (\<lambda>g. g_run_id g = runID) (signals (db w))))), w)))
     (\<lambda>e. Inl (wrap ''adminui: run signals: '' e)) (\<lambda>gs. State_Monad.return (Inr (map run_signal gs)))"

definition children_selection :: "string \<Rightarrow> run_selection" where
  "children_selection runID = \<lparr>sel_where = is_child_of runID, sel_order = created_asc, sel_limit = 100, sel_offset = 0\<rparr>"

definition fillRunDetail :: "string \<Rightarrow> (string \<times> json) list result io" where
  "fillRunDetail runID =
     attempt queryNow Inl (\<lambda>n.
     attempt (queryRunJobID runID) Inl (\<lambda>job.
     attempt (queryChildTotal runID) Inl (\<lambda>children.
     attempt (queryRunSummaries (children_selection runID)) Inl (\<lambda>rs.
     attempt (queryRunAncestors runID) Inl (\<lambda>ancestors.
     attempt (queryRunSignals runID) Inl (\<lambda>gs.
       State_Monad.return (Inr [(''now'', JStr n), (''job_id'', case job of None \<Rightarrow> JNull | Some i \<Rightarrow> JNum i),
         (''children'', JArr (map scanRunSummary rs)), (''child_total'', JNum children),
         (''ancestors'', JArr (map run_ancestor ancestors)), (''signals'', JArr gs)])))))))"

definition buildWorkflowRunDetail :: "string \<Rightarrow> json result io" where
  "buildWorkflowRunDetail runID =
     attempt (GetRun runID) Inl (\<lambda>r.
     attempt (ListSteps runID) Inl (\<lambda>ss.
     attempt (withSnapshot (fillRunDetail runID)) Inl (\<lambda>fields.
       State_Monad.return (Inr (JObj (take 1 fields @ (''run'', toWorkflowRun r) # take 1 (drop 1 fields)
         @ (''steps'', JArr (map toWorkflowStep ss)) # drop 2 fields))))))"

section \<open>The tree below a run\<close>

text \<open>
  The recursive query: each row with its depth and its path, whose elements order by creation time and
  then by id. Ordering by path is depth first, siblings by creation.
\<close>

record tree_node =
  tn_run :: run
  tn_depth :: nat
  tn_path :: "(int \<times> string) list"

definition maxTreeDepth :: nat where "maxTreeDepth = 8"
definition maxTreeNodes :: nat where "maxTreeNodes = 300"

fun tree_below :: "nat \<Rightarrow> nat \<Rightarrow> run list \<Rightarrow> (int \<times> string) list \<Rightarrow> run \<Rightarrow> tree_node list" where
  "tree_below fuel depth rs path r = (let here = path @ [(r_created_at r, r_id r)] in
     \<lparr>tn_run = r, tn_depth = depth, tn_path = here\<rparr>
     # (case fuel of 0 \<Rightarrow> [] | Suc k \<Rightarrow> concat (map (tree_below k (Suc depth) rs here) (filter (is_child_of (r_id r)) rs))))"

definition tree_page :: "run list \<Rightarrow> string \<Rightarrow> tree_node list" where
  "tree_page rs runID = take (maxTreeNodes + 1) (sort_key tn_path
     (concat (map (tree_below maxTreeDepth 0 rs []) (filter (\<lambda>r. r_id r = runID) rs))))"

record run_tree_answer =
  rt_root :: string
  rt_nodes :: "(tree_node \<times> int) list"
  rt_truncated :: bool

definition cut_tree :: "(tree_node \<times> int) list \<Rightarrow> string \<Rightarrow> run_tree_answer result" where
  "cut_tree nodes runID =
     (if nodes = [] then Inl (Wrapf [] (Sentinel ErrRunNotFound) ('': '' @ runID))
      else let shown = take maxTreeNodes nodes in
        Inr \<lparr>rt_root = r_id (tn_run (fst (hd shown))), rt_nodes = shown,
          rt_truncated = (maxTreeNodes < length nodes \<or> list_ex (\<lambda>(n, k). tn_depth n = maxTreeDepth \<and> 0 < k) shown)\<rparr>)"

definition queryRunTree :: "string \<Rightarrow> run_tree_answer result io" where
  "queryRunTree runID = attempt (query (\<lambda>w. (map (\<lambda>n. (n, count_where (is_child_of (r_id (tn_run n))) (runs (db w))))
       (tree_page (runs (db w)) runID), w)))
     (\<lambda>e. Inl (wrap ''adminui: run tree: '' e)) (\<lambda>nodes. State_Monad.return (cut_tree nodes runID))"

definition tree_node_json :: "tree_node \<times> int \<Rightarrow> json" where
  "tree_node_json x = (case x of (n, k) \<Rightarrow> let r = tn_run n in
     JObj [(''id'', JStr (r_id r)), (''parent_run_id'', json_text (nullableText (r_parent_run_id r))),
       (''workflow'', JStr (r_workflow r)), (''version'', JNum (r_version r)), (''key'', json_text (nullableText (r_key r))),
       (''status'', JStr (run_status_text (r_status r))), (''depth'', JNum (int (tn_depth n))),
       (''created_at'', JStr (formatTime (r_created_at r))), (''completed_at'', json_text (formatNullTime (r_completed_at r))),
       (''child_count'', JNum k)])"

definition run_tree_json :: "run_tree_answer \<Rightarrow> json" where
  "run_tree_json t = JObj [(''root_id'', JStr (rt_root t)), (''nodes'', JArr (map tree_node_json (rt_nodes t))),
     (''truncated'', JBool (rt_truncated t))]"

section \<open>Overview of the workflows\<close>

definition workflow_counts :: "run list \<Rightarrow> json" where
  "workflow_counts rs = JObj [(''pending'', JNum (with_status RunPending rs)), (''running'', JNum (with_status RunRunning rs)),
     (''waiting'', JNum (with_status RunWaiting rs)), (''succeeded'', JNum (with_status RunSucceeded rs)),
     (''failed'', JNum (with_status RunFailed rs)), (''cancelled'', JNum (with_status RunCancelled rs)),
     (''total'', JNum (int (length rs)))]"

definition queryWorkflowCounts :: "json result io" where
  "queryWorkflowCounts = attempt (query (\<lambda>w. (workflow_counts (runs (db w)), w)))
     (\<lambda>e. Inl (wrap ''adminui: workflow counts: '' e)) (\<lambda>c. State_Monad.return (Inr c))"

definition completed_instants :: "run_status \<Rightarrow> run list \<Rightarrow> int list" where
  "completed_instants s rs = List.map_filter (\<lambda>r. if r_status r = s then r_completed_at r else None) rs"

definition queryWorkflowThroughput :: "throughput_window \<Rightarrow> bucket list result io" where
  "queryWorkflowThroughput tw = attempt (query (\<lambda>w. (buckets tw (now w)
       (map (\<lambda>s. completed_instants s (runs (db w))) [RunSucceeded, RunFailed, RunCancelled]), w)))
     (\<lambda>e. Inl (wrap ''adminui: workflow throughput: '' e)) (\<lambda>bs. State_Monad.return (Inr bs))"

text \<open>\<open>NULLS LAST\<close> ascending, and descending.\<close>

definition waking_order :: "run list \<Rightarrow> run list" where
  "waking_order rs = sort_key (\<lambda>r. (r_wake_at r = None, case r_wake_at r of None \<Rightarrow> 0 | Some t \<Rightarrow> t, r_created_at r)) rs"

definition completed_desc :: "run list \<Rightarrow> run list" where
  "completed_desc rs = rev (sort_key (\<lambda>r. (r_completed_at r \<noteq> None, case r_completed_at r of None \<Rightarrow> 0 | Some t \<Rightarrow> t, r_id r)) rs)"

definition updated_desc :: "run list \<Rightarrow> run list" where
  "updated_desc rs = rev (sort_key (\<lambda>r. (r_updated_at r, r_id r)) rs)"

definition queryWorkflowOverview :: "throughput_window \<Rightarrow> json result io" where
  "queryWorkflowOverview tw =
     attempt queryWorkflowCounts Inl (\<lambda>counts.
     attempt (queryWorkflowThroughput tw) Inl (\<lambda>bs.
     attempt (queryRunSummaries \<lparr>sel_where = \<lambda>r. r_status r = RunWaiting, sel_order = waking_order, sel_limit = 8, sel_offset = 0\<rparr>) Inl (\<lambda>waiting.
     attempt (queryRunSummaries \<lparr>sel_where = \<lambda>r. r_status r = RunFailed, sel_order = completed_desc, sel_limit = 5, sel_offset = 0\<rparr>) Inl (\<lambda>failed.
     attempt (queryRunSummaries \<lparr>sel_where = \<lambda>_. True, sel_order = updated_desc, sel_limit = 8, sel_offset = 0\<rparr>) Inl (\<lambda>recent.
       State_Monad.return (Inr (JObj [(''counts'', counts),
         (''throughput'', throughput_json [''succeeded'', ''failed'', ''cancelled''] tw bs),
         (''waiting'', JArr (map scanRunSummary waiting)), (''failed'', JArr (map scanRunSummary failed)),
         (''recent'', JArr (map scanRunSummary recent))])))))))"

end
