(* ===== verification/Admin_Ui.thy ===== *)
theory Admin_Ui
  imports Admin_Workflow
begin

text \<open>
  The admin interface itself, \<open>adminui/adminui.go\<close>, \<open>adminui/assets.go\<close> and the handlers of the other
  files: construction, the guards of its routes, every handler, and what errors say to a client.
\<close>

section \<open>Construction\<close>

definition defaultListLimit :: int where "defaultListLimit = 20"
definition maxListLimit :: int where "maxListLimit = 100"

record admin_ui =
  ui_queue :: "client option"
  ui_workflow :: "wf_client option"
  ui_token :: string
  ui_enableMutations :: bool
  ui_listLimit :: int

record admin_options =
  ao_Token :: string
  ao_TokenEnv :: string
  ao_EnableMutations :: "bool option"
  ao_EnableAPIEnv :: string
  ao_Limit :: int
  ao_Workflow :: "wf_client option"

text \<open>The assets are part of the environment; the embedded directory \<open>dist\<close>, the default, always exists.\<close>

definition admin_New :: "(string \<Rightarrow> string) \<Rightarrow> client option \<Rightarrow> admin_options \<Rightarrow> admin_ui result" where
  "admin_New env q opts =
     (if q = None then Inl (Sentinel ErrNilDB)
      else
        let given = trim_space (ao_Token opts);
            token = (if given = [] then trim_space (env (if ao_TokenEnv opts = [] then ''PGKIT_DASHBOARD_TOKEN'' else ao_TokenEnv opts))
                     else given) in
        if token = [] then Inl (Errorf ''pgkit adminui: missing dashboard token'')
        else
          let enable = (case ao_EnableMutations opts of Some b \<Rightarrow> b
                | None \<Rightarrow> let raw = trim_space (env (if ao_EnableAPIEnv opts = [] then ''PGKIT_DASHBOARD_ENABLE_API''
                                                else ao_EnableAPIEnv opts))
                    in if raw \<noteq> [] then parseBoolDefault raw True else True);
              limit = (if ao_Limit opts \<le> 0 then defaultListLimit else ao_Limit opts) in
          Inr \<lparr>ui_queue = q, ui_workflow = ao_Workflow opts, ui_token = token, ui_enableMutations = enable,
            ui_listLimit = (if maxListLimit < limit then maxListLimit else limit)\<rparr>)"

definition admin_NewFromEnv :: "(string \<Rightarrow> string) \<Rightarrow> client option \<Rightarrow> wf_client option \<Rightarrow> admin_ui result" where
  "admin_NewFromEnv env q workflows = admin_New env q
     \<lparr>ao_Token = [], ao_TokenEnv = [], ao_EnableMutations = None, ao_EnableAPIEnv = [], ao_Limit = 0, ao_Workflow = workflows\<rparr>"

section \<open>Answers\<close>

definition writeJSON :: "int \<Rightarrow> json \<Rightarrow> response" where
  "writeJSON status v = \<lparr>rs_status = status, rs_headers = [(''Content-Type'', ''application/json'')], rs_body = Json v\<rparr>"

text \<open>The only server error the handlers answer is 500.\<close>

definition writeError :: "int \<Rightarrow> err \<Rightarrow> response" where
  "writeError status e = writeJSON status (JObj [(''error'', JStr (if 500 \<le> status then ''Internal Server Error'' else err_text e))])"

definition writeJobMutationError :: "err \<Rightarrow> string \<Rightarrow> response" where
  "writeJobMutationError e notFound =
     (if errors_is e ErrJobNotFound then writeError 404 (Errorf notFound)
      else if errors_is e ErrJobBusy then writeError 409 (Errorf ''job is currently processing'')
      else writeError 500 e)"

definition writeWorkflowError :: "err \<Rightarrow> response" where
  "writeWorkflowError e =
     (if errors_is e ErrRunNotFound then writeError 404 (Errorf ''run not found'')
      else if errors_is e ErrRunNotRetryable then writeError 409 (Sentinel ErrRunNotRetryable)
      else if errors_is e ErrRunFinished then writeError 409 (Sentinel ErrRunFinished)
      else writeError 500 e)"

text \<open>A read that answers with JSON or with 500.\<close>

definition answer_json :: "json result io \<Rightarrow> response io" where
  "answer_json m = attempt m (writeError 500) (\<lambda>v. State_Monad.return (writeJSON 200 v))"

section \<open>Guards\<close>

definition admin_requireToken :: "admin_ui \<Rightarrow> handler \<Rightarrow> handler" where
  "admin_requireToken u next v r = (case rq_basic r of
       Some (user, pass) \<Rightarrow> if user \<noteq> [] \<and> pass = ui_token u then next v r
         else State_Monad.return (with_header (''Www-Authenticate'', ''Basic realm=\"pgkit-admin\"'') (http_Error ''unauthorized'' 401))
     | None \<Rightarrow> State_Monad.return (with_header (''Www-Authenticate'', ''Basic realm=\"pgkit-admin\"'') (http_Error ''unauthorized'' 401)))"

definition sameOrigin :: "admin_env \<Rightarrow> request \<Rightarrow> bool" where
  "sameOrigin v r \<longleftrightarrow> (let origin = get_value (rq_headers r) ''Origin'' in
     origin \<noteq> [] \<and> (case ae_url_host v origin of None \<Rightarrow> False
       | Some host \<Rightarrow> host \<noteq> [] \<and> to_lower host = to_lower (rq_host r)))"

definition admin_requireCSRF :: "admin_env \<Rightarrow> handler \<Rightarrow> handler" where
  "admin_requireCSRF v next i r =
     (if get_value (rq_headers r) ''X-Requested-With'' = ''pgkit-admin-ui'' \<or> sameOrigin v r then next i r
      else State_Monad.return (writeError 403 (Errorf ''forbidden: missing CSRF token'')))"

definition withNoSniff :: "response io \<Rightarrow> response io" where
  "withNoSniff m = do { rs \<leftarrow> m; State_Monad.return (with_header (''X-Content-Type-Options'', ''nosniff'') rs) }"

section \<open>The queue's handlers\<close>

definition handleConfig :: "admin_ui \<Rightarrow> handler" where
  "handleConfig u _ r = State_Monad.return (writeJSON 200 (JObj [(''mutations_enabled'', JBool (ui_enableMutations u)),
     (''workflows_enabled'', JBool (ui_workflow u \<noteq> None)), (''page_size'', JNum (ui_listLimit u))]))"

definition buildOverview :: "admin_ui \<Rightarrow> throughput_window \<Rightarrow> json result io" where
  "buildOverview u tw =
     attempt queryNow Inl (\<lambda>n.
     attempt (queryQueueOverview tw) Inl (\<lambda>queue.
       if ui_workflow u = None
       then State_Monad.return (Inr (JObj [(''now'', JStr n), (''queue'', queue), (''workflow'', JNull)]))
       else attempt (queryWorkflowOverview tw) Inl (\<lambda>wf.
         State_Monad.return (Inr (JObj [(''now'', JStr n), (''queue'', queue), (''workflow'', wf)])))))"

definition handleOverview :: "admin_ui \<Rightarrow> handler" where
  "handleOverview u _ r = (case throughputWindows (queryText r ''range'') of
       None \<Rightarrow> State_Monad.return (writeError 400 (Errorf ''range must be 1h or 24h''))
     | Some tw \<Rightarrow> answer_json (withSnapshot (buildOverview u tw)))"

definition buildQueueJobs :: "admin_ui \<Rightarrow> list_jobs_params \<Rightarrow> json result io" where
  "buildQueueJobs u p =
     attempt (ListJobs (ui_queue u) p) Inl (\<lambda>js.
     attempt (CountJobs (ui_queue u) p) Inl (\<lambda>count.
       State_Monad.return (Inr (list_response (map toQueueJob js) count (lj_Limit p) (lj_Offset p)))))"

definition buildWorkflowRuns :: "list_runs_params \<Rightarrow> json result io" where
  "buildWorkflowRuns p =
     attempt (ListRuns p) Inl (\<lambda>rs.
     attempt (CountRuns p) Inl (\<lambda>count.
       State_Monad.return (Inr (list_response (map toWorkflowRun rs) count (lr_Limit p) (lr_Offset p)))))"

definition lock_json :: "advisory_lock \<Rightarrow> json" where
  "lock_json l = JObj [(''pid'', JNum (al_PID l)), (''mode'', JStr (al_Mode l)), (''granted'', JBool (al_Granted l)),
     (''classid'', JNum (al_ClassID l)), (''objid'', JNum (al_ObjectID l)), (''objsubid'', JNum (al_ObjectSubID l))]"

definition ListAdvisoryLocks :: "(lock_owner \<Rightarrow> int) \<Rightarrow> client option \<Rightarrow> advisory_lock list result io" where
  "ListAdvisoryLocks pid c = (if nil_db c then State_Monad.return (Inl (Sentinel ErrNilDB)) else listAdvisoryLocks pid)"

definition CountDistinctQueues :: "client option \<Rightarrow> int result io" where
  "CountDistinctQueues c = (if nil_db c then State_Monad.return (Inl (Sentinel ErrNilDB))
     else attempt (query (\<lambda>w. (int (length (remdups (map QueueName (jobs (db w))))), w)))
       (\<lambda>e. Inl (wrap ''queue: count distinct queues: '' e)) (\<lambda>k. State_Monad.return (Inr k)))"

definition handleSnapshot :: "admin_env \<Rightarrow> admin_ui \<Rightarrow> handler" where
  "handleSnapshot v u _ r = answer_json (
     attempt buildQueueSummary Inl (\<lambda>summary.
     attempt (buildQueueJobs u \<lparr>lj_Limit = 8, lj_QueueName = [], lj_Status = [], lj_Offset = 0, lj_Search = []\<rparr>) Inl (\<lambda>js.
     attempt (ListAdvisoryLocks (ae_pid v) (ui_queue u)) Inl (\<lambda>locks.
       let answer = (\<lambda>rs. JObj [(''queue'', JObj [(''summary'', summary), (''jobs'', js), (''locks'', JArr (map lock_json locks))]),
             (''workflow'', JObj [(''runs'', rs)])]) in
       if ui_workflow u = None then State_Monad.return (Inr (answer (list_response [] 0 8 0)))
       else attempt (buildWorkflowRuns \<lparr>lr_Workflow = [], lr_Status = [], lr_ParentRunID = [], lr_Search = [], lr_Limit = 8, lr_Offset = 0\<rparr>)
         Inl (\<lambda>rs. State_Monad.return (Inr (answer rs)))))))"

definition handleQueueSummary :: "admin_ui \<Rightarrow> handler" where
  "handleQueueSummary u _ r = answer_json buildQueueSummary"

definition handleQueueQueues :: "admin_ui \<Rightarrow> handler" where
  "handleQueueQueues u _ r = answer_json (withSnapshot (
     attempt queryNow Inl (\<lambda>n. attempt queryQueueBreakdown Inl (\<lambda>items.
       State_Monad.return (Inr (JObj [(''now'', JStr n), (''items'', JArr (map breakdown_json items))]))))))"

definition handleQueueJobs :: "admin_ui \<Rightarrow> handler" where
  "handleQueueJobs u _ r = (case pageRequest (ui_listLimit u) r of
       Inl e \<Rightarrow> State_Monad.return (writeError 400 e)
     | Inr p \<Rightarrow> (case searchTerm r of
         Inl e \<Rightarrow> State_Monad.return (writeError 400 e)
       | Inr search \<Rightarrow> answer_json (buildQueueJobs u \<lparr>lj_Limit = pr_limit p, lj_QueueName = queryText r ''queue'',
           lj_Status = queryText r ''status'', lj_Offset = pr_offset p, lj_Search = search\<rparr>)))"

definition handleQueueJob :: "admin_env \<Rightarrow> admin_ui \<Rightarrow> handler" where
  "handleQueueJob v u raw r = (case parsePathID raw of
       None \<Rightarrow> State_Monad.return (writeError 400 (Errorf ''invalid job id''))
     | Some i \<Rightarrow> attempt (queryQueueJob i)
         (\<lambda>e. if errors_is e ErrJobNotFound then writeError 404 (Errorf ''job not found'') else writeError 500 e)
         (\<lambda>row. State_Monad.return (writeJSON 200 (row_detail v row))))"

definition handleQueueLocks :: "admin_env \<Rightarrow> admin_ui \<Rightarrow> handler" where
  "handleQueueLocks v u _ r = answer_json (attempt (ListAdvisoryLocks (ae_pid v) (ui_queue u)) Inl
     (\<lambda>locks. State_Monad.return (Inr (JArr (map lock_json locks)))))"

definition handleLocks :: "admin_env \<Rightarrow> admin_ui \<Rightarrow> handler" where
  "handleLocks v u _ r = answer_json (withSnapshot (
     attempt queryNow Inl (\<lambda>n. attempt (queryAdvisoryLockSessions v) Inl (\<lambda>items.
       State_Monad.return (Inr (JObj [(''now'', JStr n), (''items'', JArr items)]))))))"

definition hasPayload :: "enqueue_request \<Rightarrow> bool" where
  "hasPayload b \<longleftrightarrow> (let payload = trim_space (er_Payload b) in payload \<noteq> [] \<and> payload \<noteq> ''null'' \<and> payload \<noteq> [CHR 34, CHR 34])"

definition handleEnqueueJob :: "admin_env \<Rightarrow> admin_ui \<Rightarrow> handler" where
  "handleEnqueueJob v u _ r = (case ae_decode v (rq_body r) of
       None \<Rightarrow> State_Monad.return (writeError 400 (Errorf ''invalid json body''))
     | Some b \<Rightarrow>
         if trim_space (er_QueueName b) = [] then State_Monad.return (writeError 400 (Errorf ''queue name is required''))
         else if \<not> hasPayload b then State_Monad.return (writeError 400 (Errorf ''payload is required''))
         else do {
           w \<leftarrow> State_Monad.get;
           attempt (Enqueue (ui_queue u) (rq_ctx r) \<lparr>ep_QueueName = trim_space (er_QueueName b), ep_Payload = er_Payload b,
               ep_AvailableAt = delayed_until (er_DelaySeconds b) w, ep_MaxAttempts = er_MaxAttempts b\<rparr>)
             (\<lambda>e. if errors_is e ErrInvalidQueue then writeError 400 (Errorf ''queue name is required'') else writeError 500 e)
             (\<lambda>i. State_Monad.return (writeJSON 201 (JObj [(''id'', JNum i)]))) })"

definition admin_handleReplayJob :: "admin_ui \<Rightarrow> handler" where
  "admin_handleReplayJob u raw r = (case parsePathID raw of
       None \<Rightarrow> State_Monad.return (writeError 400 (Errorf ''invalid job id''))
     | Some i \<Rightarrow>
         attempt (ReplayJob (ui_queue u) i) (\<lambda>e. writeJobMutationError e ''job not found or not replayable'') (\<lambda>_.
         attempt (GetJob (ui_queue u) i) (\<lambda>e. writeJobMutationError e ''job not found'') (\<lambda>j.
           State_Monad.return (writeJSON 200 (toQueueJob j)))))"

definition admin_handleDeleteJob :: "admin_ui \<Rightarrow> handler" where
  "admin_handleDeleteJob u raw r = (case parsePathID raw of
       None \<Rightarrow> State_Monad.return (writeError 400 (Errorf ''invalid job id''))
     | Some i \<Rightarrow> attempt (DeleteJob (ui_queue u) i) (\<lambda>e. writeJobMutationError e ''job not found'') (\<lambda>_.
         State_Monad.return \<lparr>rs_status = 204, rs_headers = [], rs_body = Text []\<rparr>))"

section \<open>The workflows' handlers\<close>

definition handleWorkflowWorkflows :: "admin_ui \<Rightarrow> handler" where
  "handleWorkflowWorkflows u _ r =
     (if ui_workflow u = None then State_Monad.return (writeJSON 200 (JObj [(''items'', JArr [])]))
      else answer_json (attempt queryWorkflowSummaries Inl (\<lambda>items. State_Monad.return (Inr (JObj [(''items'', JArr items)])))))"

definition handleWorkflowRuns :: "admin_ui \<Rightarrow> handler" where
  "handleWorkflowRuns u _ r = (case pageRequest (ui_listLimit u) r of
       Inl e \<Rightarrow> State_Monad.return (writeError 400 e)
     | Inr p \<Rightarrow> (case searchTerm r of
         Inl e \<Rightarrow> State_Monad.return (writeError 400 e)
       | Inr search \<Rightarrow>
           if ui_workflow u = None then State_Monad.return (writeJSON 200 (list_response [] 0 (pr_limit p) (pr_offset p)))
           else answer_json (queryRunList \<lparr>rf_workflow = queryText r ''workflow'', rf_status = queryText r ''status'',
             rf_parentRunID = queryText r ''parent_run_id'', rf_search = search,
             rf_topLevel = parseBoolDefault (queryText r ''top_level'') False\<rparr> p)))"

definition handleWorkflowRun :: "admin_ui \<Rightarrow> handler" where
  "handleWorkflowRun u raw r =
     (if ui_workflow u = None then State_Monad.return (writeError 404 (Errorf ''workflows are not enabled''))
      else attempt (buildWorkflowRunDetail (trim_space raw)) writeWorkflowError (\<lambda>v. State_Monad.return (writeJSON 200 v)))"

definition handleWorkflowRunTree :: "admin_ui \<Rightarrow> handler" where
  "handleWorkflowRunTree u raw r =
     (if ui_workflow u = None then State_Monad.return (writeError 404 (Errorf ''workflows are not enabled''))
      else attempt (queryRunTree (trim_space raw)) writeWorkflowError (\<lambda>t. State_Monad.return (writeJSON 200 (run_tree_json t))))"

text \<open>
  \<open>None\<close> from the mutation is a loop of \<open>Retry\<close> or \<open>Cancel\<close> that has not ended with the given fuel; the
  status 0 stands for a request that is not answered yet.
\<close>

definition no_answer :: response where
  "no_answer = \<lparr>rs_status = 0, rs_headers = [], rs_body = Text []\<rparr>"

definition mutateWorkflowRun :: "admin_ui \<Rightarrow> (wf_client \<Rightarrow> string \<Rightarrow> unit result option io) \<Rightarrow> handler" where
  "mutateWorkflowRun u mutate raw r = (case ui_workflow u of
       None \<Rightarrow> State_Monad.return http_NotFound
     | Some c \<Rightarrow> let runID = trim_space raw in do {
         a \<leftarrow> mutate c runID;
         (case a of
            None \<Rightarrow> State_Monad.return no_answer
          | Some (Inl e) \<Rightarrow> State_Monad.return (writeWorkflowError e)
          | Some (Inr _) \<Rightarrow> attempt (GetRun runID) writeWorkflowError (\<lambda>x. State_Monad.return (writeJSON 200 (toWorkflowRun x)))) })"

definition handleRetryWorkflowRun :: "nat \<Rightarrow> admin_ui \<Rightarrow> handler" where
  "handleRetryWorkflowRun fuel u raw r = mutateWorkflowRun u (\<lambda>c i. wf_Retry fuel c (rq_ctx r) i) raw r"

definition handleCancelWorkflowRun :: "nat \<Rightarrow> admin_ui \<Rightarrow> handler" where
  "handleCancelWorkflowRun fuel u raw r = mutateWorkflowRun u (\<lambda>c i. Cancel fuel c i) raw r"

section \<open>Files\<close>

fun split_on :: "char \<Rightarrow> string \<Rightarrow> string list" where
  "split_on c [] = [[]]"
| "split_on c (x # xs) = (if x = c then [] # split_on c xs else (case split_on c xs of p # ps \<Rightarrow> (x # p) # ps | [] \<Rightarrow> [[x]]))"

definition cut_at :: "char \<Rightarrow> string \<Rightarrow> string \<times> string" where
  "cut_at c s = (takeWhile (\<lambda>x. x \<noteq> c) s, drop 1 (dropWhile (\<lambda>x. x \<noteq> c) s))"

fun accepts_parts :: "string list \<Rightarrow> bool" where
  "accepts_parts [] = False"
| "accepts_parts (part # parts) = (case cut_at CHR '';'' (trim_space part) of (coding, params) \<Rightarrow>
     if to_lower (trim_space coding) \<noteq> ''gzip'' then accepts_parts parts
     else filter (\<lambda>c. c \<noteq> CHR '' '') (trim_space params) \<notin> set [''q=0'', ''q=0.0'', ''q=0.00'', ''q=0.000''])"

definition acceptsGzip :: "request \<Rightarrow> bool" where
  "acceptsGzip r = accepts_parts (split_on CHR '','' (get_value (rq_headers r) ''Accept-Encoding''))"

definition path_ext :: "string \<Rightarrow> string" where
  "path_ext name = (let base = rev (takeWhile (\<lambda>c. c \<noteq> CHR ''/'') (rev name)) in
     if CHR ''.'' \<in> set base then CHR ''.'' # rev (takeWhile (\<lambda>c. c \<noteq> CHR ''.'') (rev base)) else [])"

definition minGzipSize :: nat where "minGzipSize = 1024"

definition compressible :: "string \<Rightarrow> string \<Rightarrow> bool" where
  "compressible name content \<longleftrightarrow> path_ext name \<in> set [''.css'', ''.html'', ''.js'', ''.json'', ''.svg'', ''.txt'']
     \<and> minGzipSize \<le> length content"

text \<open>
  \<open>mime\<close> is the content type of an extension, \<open>gz\<close> the compression, \<open>None\<close> when it fails. The files do not
  change, so the cached compression of a file is the one computed now.
\<close>

definition serve_file ::
  "admin_env \<Rightarrow> (string \<Rightarrow> string) \<Rightarrow> (string \<Rightarrow> string option) \<Rightarrow> string \<Rightarrow> string \<Rightarrow> request \<Rightarrow> response" where
  "serve_file v mime gz name cacheControl r = (case ae_file v name of None \<Rightarrow> http_NotFound
     | Some content \<Rightarrow>
         let squeezed = (if compressible name content \<and> acceptsGzip r then gz content else None);
             sent_bytes = (case squeezed of None \<Rightarrow> content | Some z \<Rightarrow> z) in
         \<lparr>rs_status = 200,
          rs_headers = (if mime (path_ext name) \<noteq> [] then [(''Content-Type'', mime (path_ext name))] else [])
            @ (if cacheControl \<noteq> [] then [(''Cache-Control'', cacheControl)] else [])
            @ (if compressible name content then [(''Vary'', ''Accept-Encoding'')] else [])
            @ (if squeezed \<noteq> None then [(''Content-Encoding'', ''gzip'')] else [])
            @ [(''Content-Length'', dec_int (int (length sent_bytes)))],
          rs_body = Text (if rq_method r = ''HEAD'' then [] else sent_bytes)\<rparr>)"

fun join_path :: "string list \<Rightarrow> string" where
  "join_path [] = []"
| "join_path [s] = s"
| "join_path (s # t # ts) = s @ ''/'' @ join_path (t # ts)"

definition clean_name :: "request \<Rightarrow> string" where
  "clean_name r = join_path (filter (\<lambda>s. s \<noteq> []) (rq_path r))"

definition handleSPA :: "admin_env \<Rightarrow> (string \<Rightarrow> string) \<Rightarrow> (string \<Rightarrow> string option) \<Rightarrow> handler" where
  "handleSPA v mime gz _ r = State_Monad.return (serve_file v mime gz ''index.html'' ''no-cache'' r)"

definition handleAsset :: "admin_env \<Rightarrow> (string \<Rightarrow> string) \<Rightarrow> (string \<Rightarrow> string option) \<Rightarrow> string \<Rightarrow> handler" where
  "handleAsset v mime gz cacheControl _ r = State_Monad.return (serve_file v mime gz (clean_name r) cacheControl r)"

section \<open>Routes\<close>

definition api :: "seg list \<Rightarrow> seg list" where
  "api ps = Lit ''api'' # Lit ''dashboard'' # ps"

definition admin_reads :: "admin_env \<Rightarrow> admin_ui \<Rightarrow> (seg list \<times> handler) list" where
  "admin_reads v u =
     [(api [Lit ''config''], handleConfig u),
      (api [Lit ''overview''], handleOverview u),
      (api [Lit ''snapshot''], handleSnapshot v u),
      (api [Lit ''queue'', Lit ''summary''], handleQueueSummary u),
      (api [Lit ''queue'', Lit ''queues''], handleQueueQueues u),
      (api [Lit ''queue'', Lit ''jobs''], handleQueueJobs u),
      (api [Lit ''queue'', Lit ''jobs'', Wild], handleQueueJob v u),
      (api [Lit ''queue'', Lit ''locks''], handleQueueLocks v u),
      (api [Lit ''locks''], handleLocks v u),
      (api [Lit ''workflow'', Lit ''workflows''], handleWorkflowWorkflows u),
      (api [Lit ''workflow'', Lit ''runs''], handleWorkflowRuns u),
      (api [Lit ''workflow'', Lit ''runs'', Wild], handleWorkflowRun u),
      (api [Lit ''workflow'', Lit ''runs'', Wild, Lit ''tree''], handleWorkflowRunTree u)]"

definition admin_writes :: "nat \<Rightarrow> admin_env \<Rightarrow> admin_ui \<Rightarrow> (string \<times> seg list \<times> handler) list" where
  "admin_writes fuel v u =
     [(''POST'', api [Lit ''queue'', Lit ''jobs''], handleEnqueueJob v u),
      (''POST'', api [Lit ''queue'', Lit ''jobs'', Wild, Lit ''replay''], admin_handleReplayJob u),
      (''DELETE'', api [Lit ''queue'', Lit ''jobs'', Wild], admin_handleDeleteJob u),
      (''POST'', api [Lit ''workflow'', Lit ''runs'', Wild, Lit ''retry''], handleRetryWorkflowRun fuel u),
      (''POST'', api [Lit ''workflow'', Lit ''runs'', Wild, Lit ''cancel''], handleCancelWorkflowRun fuel u)]"

definition admin_files :: "admin_env \<Rightarrow> (string \<Rightarrow> string) \<Rightarrow> (string \<Rightarrow> string option) \<Rightarrow> (seg list \<times> handler) list" where
  "admin_files v mime gz =
     [([Lit ''_app'', Rest], handleAsset v mime gz ''public, max-age=31536000, immutable''),
      ([Rest], handleSPA v mime gz), ([Lit ''queues''], handleSPA v mime gz), ([Lit ''locks''], handleSPA v mime gz),
      ([Lit ''workflows''], handleSPA v mime gz), ([Lit ''workflows'', Wild], handleSPA v mime gz),
      ([Lit ''favicon.ico''], handleAsset v mime gz [])]"

definition admin_routes :: "nat \<Rightarrow> admin_env \<Rightarrow> (string \<Rightarrow> string) \<Rightarrow> (string \<Rightarrow> string option) \<Rightarrow> admin_ui \<Rightarrow> route list" where
  "admin_routes fuel v mime gz u =
     map (\<lambda>(ps, h). (''GET'', ps, admin_requireToken u h)) (admin_reads v u)
     @ (if ui_enableMutations u then map (\<lambda>(m, ps, h). (m, ps, admin_requireToken u (admin_requireCSRF v h))) (admin_writes fuel v u) else [])
     @ map (\<lambda>(ps, h). (''GET'', ps, admin_requireToken u h)) (admin_files v mime gz)"

definition admin_Handler ::
  "nat \<Rightarrow> admin_env \<Rightarrow> (string \<Rightarrow> string) \<Rightarrow> (string \<Rightarrow> string option) \<Rightarrow> admin_ui \<Rightarrow> request \<Rightarrow> response io" where
  "admin_Handler fuel v mime gz u r = withNoSniff (ServeHTTP (admin_routes fuel v mime gz u) r)"

end
