(* ===== verification/Dashboard_Properties.thy ===== *)
theory Dashboard_Properties
  imports Dashboard Transactions
begin

text \<open>
  What guards a dashboard. The locale \<open>guarded_site\<close> is the contract of a table of routes: without the
  token a handler answers at once, a handler that is not \<open>GET\<close> also asks for a trusted request, and a
  \<open>GET\<close> handler only reads. Then no request changes the tables unless it is authorised, trusted and
  neither \<open>GET\<close> nor \<open>HEAD\<close>. The queue's dashboard is an instance; so is the admin interface.
\<close>

section \<open>The contract\<close>

definition refuses :: "response io \<Rightarrow> bool" where
  "refuses m \<longleftrightarrow> (\<exists>rs. m = State_Monad.return rs \<and> 300 \<le> rs_status rs)"

lemma http_Error_status [simp]: "rs_status (http_Error message code) = code"
  by (simp add: http_Error_def)

lemma refuses_return [intro]: "300 \<le> rs_status rs \<Longrightarrow> refuses (State_Monad.return rs)"
  by (auto simp: refuses_def)

text \<open>The tables but for pending notifications.\<close>

definition tables_are :: "database \<Rightarrow> int \<Rightarrow> int \<Rightarrow> database \<Rightarrow> bool" where
  "tables_are d0 js gs d \<longleftrightarrow> sent d = d0"

interpretation ta: db_invariant "tables_are d0" for d0
  by unfold_locales (simp_all add: tables_are_def sent_def)

lemma refuses_keeps: "refuses m \<Longrightarrow> keeps J m"
  by (auto simp: refuses_def intro: hoare_return)

locale guarded_site =
  fixes routes :: "route list" and authorised :: "request \<Rightarrow> bool" and trusted :: "request \<Rightarrow> bool"
  assumes shut: "(m, ps, h) \<in> set routes \<Longrightarrow> \<not> authorised r \<Longrightarrow> refuses (h v r)"
    and distrusted: "(m, ps, h) \<in> set routes \<Longrightarrow> m \<noteq> ''GET'' \<Longrightarrow> \<not> trusted r \<Longrightarrow> refuses (h v r)"
    and reads: "(''GET'', ps, h) \<in> set routes \<Longrightarrow> db_invariant I \<Longrightarrow> keeps (holds I) (h v r)"
begin

lemma shut_site:
  assumes "\<not> authorised r"
  shows "refuses (ServeHTTP routes r)"
proof (cases "find_route routes (rq_method r) (rq_path r)")
  case None
  then show ?thesis by (auto simp: ServeHTTP_def http_NotFound_def)
next
  case (Some x)
  obtain m ps h where x: "x = (m, ps, h)" by (cases x)
  have "refuses (h i r)" for i using find_route_in [OF Some [unfolded x]] shut [OF _ assms] by blast
  with Some x show ?thesis by (auto simp: ServeHTTP_def)
qed

lemma site_reads:
  assumes "rq_method r = ''GET'' \<or> rq_method r = ''HEAD'' \<or> \<not> trusted r" "''HEAD'' \<notin> fst ` set routes" "db_invariant I"
  shows "keeps (holds I) (ServeHTTP routes r)"
proof (rule ServeHTTP_rule)
  fix m ps h v
  assume route: "(m, ps, h) \<in> set routes" and m: "m = rq_method r \<or> rq_method r = ''HEAD'' \<and> m = ''GET''"
  show "keeps (holds I) (h v r)"
  proof (cases "m = ''GET''")
    case True
    with route show ?thesis using reads assms(3) by blast
  next
    case False
    moreover have "m \<noteq> ''HEAD''" using assms(2) route by force
    ultimately have "\<not> trusted r" using m assms(1) by auto
    with route False show ?thesis using distrusted refuses_keeps by blast
  qed
qed

lemma change_needs:
  assumes "run_state (ServeHTTP routes r) w = (rs, w')" "snapshot w = None" "''HEAD'' \<notin> fst ` set routes"
    and "sent (db w') \<noteq> sent (db w)"
  shows "authorised r \<and> trusted r \<and> rq_method r \<noteq> ''GET'' \<and> rq_method r \<noteq> ''HEAD''"
proof -
  have w: "holds (tables_are (sent (db w))) w" using assms(2) by (simp add: holds_def tables_are_def)
  have "\<not> keeps (holds (tables_are (sent (db w)))) (ServeHTTP routes r)"
    using assms(1,4) w by (fastforce simp: holds_def tables_are_def hoare_def)
  then show ?thesis using site_reads assms(3) ta.db_invariant_axioms shut_site refuses_keeps by blast
qed

end

section \<open>Reading handlers\<close>

context db_invariant
begin

lemma stable_reading: "stable (\<lambda>w. (g w, w))"
  by (simp add: stable_def)

lemma stable_select_job: "stable (select_job i)"
  by (auto simp: stable_def select_job_def Let_def)

lemma keeps_listing: "keeps (holds I) (ListJobs c p)" "keeps (holds I) (CountJobs c p)" "keeps (holds I) (GetJob c i)"
  "keeps (holds I) (listAdvisoryLocks pid)"
  unfolding ListJobs_def CountJobs_def GetJob_def listAdvisoryLocks_def
  by (intro hoare_rules stable_reading stable_select_job; assumption?)+

lemma keeps_log_option: "keeps (holds I) (case m of None \<Rightarrow> State_Monad.return () | Some x \<Rightarrow> log_msg l x)"
  by (cases m) (auto intro: hoare_rules)

lemma keeps_template: "keeps (holds I) (ExecuteTemplate v view logged)"
  unfolding ExecuteTemplate_def by (auto split: prod.split option.split intro!: hoare_rules)

lemma keeps_internal_error: "keeps (holds I) (internal_error m)"
  unfolding internal_error_def by (intro hoare_rules)

lemma keeps_dash_reads:
  "keeps (holds I) (handleIndex v d i r)" "keeps (holds I) (handleJobsFragment v d i r)"
  "keeps (holds I) (handleJobRowFragment v d i r)" "keeps (holds I) (handleLocksFragment v d i r)"
  unfolding handleIndex_def handleJobsFragment_def handleJobRowFragment_def handleLocksFragment_def
  by (intro hoare_rules keeps_template keeps_listing keeps_internal_error; assumption?)+

end

section \<open>The queue's dashboard\<close>

definition has_token :: "string \<Rightarrow> request \<Rightarrow> bool" where
  "has_token token r \<longleftrightarrow> (\<exists>user. rq_basic r = Some (user, token) \<and> user \<noteq> [])"

definition dash_trusted :: "request \<Rightarrow> bool" where
  "dash_trusted r \<longleftrightarrow> get_value (rq_headers r) ''Hx-Request'' = ''true'' \<or> dash_same_origin r"

lemma token_refuses: "\<not> has_token (dd_token d) r \<Longrightarrow> refuses (dash_requireToken d h v r)"
  by (auto simp: dash_requireToken_def has_token_def unauthorized_def with_header_def split: option.splits)

lemma csrf_refuses: "\<not> dash_trusted r \<Longrightarrow> refuses (dash_requireToken d (dash_requireCSRF h) v r)"
  by (auto simp: dash_requireToken_def dash_requireCSRF_def dash_trusted_def unauthorized_def with_header_def
      split: option.splits)

lemma token_keeps: "keeps J (h v r) \<Longrightarrow> keeps J (dash_requireToken d h v r)"
  by (auto simp: dash_requireToken_def split: option.splits intro: hoare_return)

lemma csrf_keeps: "keeps J (h v r) \<Longrightarrow> keeps J (dash_requireCSRF h v r)"
  by (auto simp: dash_requireCSRF_def intro: hoare_return)

interpretation ds: guarded_site "dash_Handler v d" "has_token (dd_token d)" dash_trusted for v d
proof unfold_locales
  fix m ps h r i
  assume route: "(m, ps, h) \<in> set (dash_Handler v d)"
  show "refuses (h i r)" if "\<not> has_token (dd_token d) r"
    using route token_refuses [OF that] by (auto simp: dash_Handler_def split: if_splits)
  show "refuses (h i r)" if "m \<noteq> ''GET''" "\<not> dash_trusted r"
    using route csrf_refuses [OF that(2)] that(1) by (auto simp: dash_Handler_def split: if_splits)
next
  fix ps h I i r
  assume route: "(''GET'', ps, h) \<in> set (dash_Handler v d)" and I: "db_invariant I"
  then show "keeps (holds I) (h i r)"
    by (auto simp: dash_Handler_def split: if_splits intro!: token_keeps db_invariant.keeps_dash_reads)
qed

section \<open>Changing handlers\<close>

context jobs_invariant
begin

lemma keeps_dash_writes:
  "keeps (holds I) (handleEnqueue d i r)" "keeps (holds I) (handleEnqueueAPI v d i r)"
  "keeps (holds I) (handleReplayJob v d i r)" "keeps (holds I) (handleDeleteJob d i r)"
  unfolding handleEnqueue_def handleEnqueueAPI_def handleReplayJob_def handleDeleteJob_def
  by (intro hoare_rules keeps_get keeps_template keeps_listing keeps_internal_error operations_keep; assumption?)+

lemma dashboard_keeps: "keeps (holds I) (ServeHTTP (dash_Handler v d) r)"
  by (rule ServeHTTP_rule)
    (auto simp: dash_Handler_def split: if_splits intro!: token_keeps csrf_keeps keeps_dash_writes keeps_dash_reads)

end

text \<open>Without the enqueue routes the set of job ids only shrinks.\<close>

definition ids_within :: "int set \<Rightarrow> int \<Rightarrow> int \<Rightarrow> database \<Rightarrow> bool" where
  "ids_within ids js gs d \<longleftrightarrow> ID ` set (jobs d) \<subseteq> ids"

interpretation iw: db_invariant "ids_within ids" for ids
  by unfold_locales (simp_all add: ids_within_def)

lemma replay_ids: "iw.stable ids (on_db (\<lambda>n. update_jobs_notify P (replay_row n)))"
  by (rule iw.stable_on_db) (auto simp: ids_within_def update_jobs_notify_def set_upd_where replay_row_def Let_def)

lemma delete_ids: "iw.stable ids (on_db (\<lambda>n. delete_jobs (P n)))"
  by (rule iw.stable_on_db) (auto simp: ids_within_def delete_jobs_def)

lemma keeps_ids:
  "keeps (holds (ids_within ids)) (handleReplayJob v d i r)" "keeps (holds (ids_within ids)) (handleDeleteJob d i r)"
  unfolding handleReplayJob_def handleDeleteJob_def ReplayJob_def ReplayJobTx_def DeleteJob_def
  by (intro hoare_rules iw.keeps_query iw.keeps_query_row iw.keeps_emit replay_ids delete_ids iw.stable_select_job
      iw.keeps_template iw.keeps_listing iw.keeps_internal_error; assumption?)+

lemma disabled_keeps_ids:
  "\<not> dd_enableEnqueue d \<Longrightarrow> keeps (holds (ids_within ids)) (ServeHTTP (dash_Handler v d) r)"
  by (rule ServeHTTP_rule)
    (auto simp: dash_Handler_def intro!: token_keeps csrf_keeps keeps_ids iw.keeps_dash_reads)

text \<open>
  The dashboard is guarded. A request without the token, with any user name, is answered with a
  status of at least 300 and does nothing at all. A request that changes the tables carried the token,
  passed the check against cross-site requests and was neither \<open>GET\<close> nor \<open>HEAD\<close>. With the enqueue
  API disabled no request adds a job. Every request keeps the jobs table sound, whatever calls fail.
\<close>

theorem dashboard_guarded:
  assumes "snapshot w = None" "run_state (ServeHTTP (dash_Handler v d) r) w = (rs, w')"
  shows "(\<not> has_token (dd_token d) r \<longrightarrow> w' = w \<and> 300 \<le> rs_status rs)
     \<and> (sent (db w') \<noteq> sent (db w) \<longrightarrow> has_token (dd_token d) r \<and> dash_trusted r \<and> rq_method r \<noteq> ''GET'' \<and> rq_method r \<noteq> ''HEAD'')
     \<and> (\<not> dd_enableEnqueue d \<longrightarrow> ID ` set (jobs (db w')) \<subseteq> ID ` set (jobs (db w)))
     \<and> (queue_inv (job_seq w) (signal_seq w) (db w) \<longrightarrow> queue_inv (job_seq w') (signal_seq w') (db w'))"
proof (intro conjI impI)
  show "w' = w" "300 \<le> rs_status rs" if "\<not> has_token (dd_token d) r"
    using ds.shut_site [OF that, of v] assms(2) by (auto simp: refuses_def)
  have "''HEAD'' \<notin> fst ` set (dash_Handler v d)" by (auto simp: dash_Handler_def)
  note needs = ds.change_needs [OF assms(2,1) this]
  show "has_token (dd_token d) r" "dash_trusted r" "rq_method r \<noteq> ''GET''" "rq_method r \<noteq> ''HEAD''" if "sent (db w') \<noteq> sent (db w)"
    using needs [OF that] by simp_all
  show "ID ` set (jobs (db w')) \<subseteq> ID ` set (jobs (db w))" if "\<not> dd_enableEnqueue d"
    using hoareD [OF disabled_keeps_ids [OF that] _ assms(2), of "ID ` set (jobs (db w))"] assms(1)
    by (simp add: holds_def ids_within_def)
  show "queue_inv (job_seq w') (signal_seq w') (db w')" if "queue_inv (job_seq w) (signal_seq w) (db w)"
    using hoareD [OF qj.dashboard_keeps _ assms(2)] assms(1) that by (simp add: holds_def)
qed

section \<open>Paging\<close>

lemma run_reading:
  assumes "script w = []" "\<not> tx_aborted w"
  shows "run_state (attempt (query (\<lambda>w. (g w, w))) h (\<lambda>x. State_Monad.return (k x))) w = (k (g w), end_statement w)"
  using assms by (simp add: run_attempt run_query round_trip_def)

lemma ListJobs_run:
  assumes "script w = []" "\<not> tx_aborted w" "\<not> nil_db c" "0 < lj_Limit p" "0 \<le> lj_Offset p"
    and "length (trim_space (lj_Search p)) \<le> maxSearchLength"
  shows "run_state (ListJobs c p) w = (Inr (page (lj_Limit p) (lj_Offset p) (matching_jobs p (db w))), end_statement w)"
  using assms(3-) by (simp add: ListJobs_def Let_def run_reading [OF assms(1,2)] matching_jobs_def page_map not_less)

lemma CountJobs_run:
  assumes "script w = []" "\<not> tx_aborted w" "\<not> nil_db c" "0 \<le> lj_Offset p"
    and "length (trim_space (lj_Search p)) \<le> maxSearchLength"
  shows "run_state (CountJobs c p) w = (Inr (int (length (matching_jobs p (db w)))), end_statement w)"
  using assms(3-)
  by (simp add: CountJobs_def Let_def run_reading [OF assms(1,2)] matching_jobs_def length_newest_first not_less)

lemma length_trim_left: "length (trim_left s) \<le> length s"
  by (simp add: trim_left_def length_dropWhile_le)

lemma length_trim_space: "length (trim_space s) \<le> length s"
  unfolding trim_space_def length_rev by (rule order_trans [OF length_trim_left]) (simp add: length_trim_left)

lemma NewDashboard_limits:
  "NewDashboardFromEnvWithOptions env parsed c opts = Inr d \<Longrightarrow>
   1 \<le> dd_listLimit d \<and> dd_listLimit d \<le> 100 \<and> \<not> nil_db (dd_client d) \<and> dd_token d \<noteq> []"
  by (auto simp: NewDashboardFromEnvWithOptions_def Let_def defaultDashboardListLimit_def maxDashboardListLimit_def
      split: if_splits option.splits)

lemma readJobsQuery_bounds:
  assumes "1 \<le> dd_listLimit d" "dd_listLimit d \<le> 100"
  shows "1 \<le> jq_Limit (readJobsQuery d r) \<and> jq_Limit (readJobsQuery d r) \<le> 100 \<and> 0 \<le> jq_Offset (readJobsQuery d r)
     \<and> length (jq_Search (readJobsQuery d r)) \<le> maxSearchLength"
  using assms by (auto simp: readJobsQuery_def Let_def maxDashboardListLimit_def split: option.splits)

lemma end_statement_jobs [simp]: "jobs (db (end_statement w)) = jobs (db w)"
  by (simp add: end_statement_def publish_def)

lemma matching_jobs_cong: "jobs d = jobs d' \<Longrightarrow> matching_jobs p d = matching_jobs p d'"
  by (simp add: matching_jobs_def)

lemma template_response: "fst (run_state (ExecuteTemplate v view m) w) = fst (run_state (ExecuteTemplate v view m) w')"
  by (auto simp: ExecuteTemplate_def run_simps split: prod.splits option.splits)

text \<open>
  Browsing jobs. However the query string of \<open>/fragment/jobs\<close> is spelled, a dashboard that was
  constructed asks for a page of 1 to 100 jobs at an offset that is not negative, with at most 256 bytes
  of search text, so the listing's own limits never refuse it. When no call fails the page shows the
  matching jobs from that offset, their number, and a link to the next page exactly when jobs follow.
\<close>

theorem dashboard_pages:
  assumes "NewDashboardFromEnvWithOptions env parsed c opts = Inr d" "script w = []" "\<not> tx_aborted w"
  shows "let q = readJobsQuery d r; matching = matching_jobs (jobs_params q) (db w);
       jv = jobs_fragment v q (page (jq_Limit q) (jq_Offset q) matching) (int (length matching)) in
     1 \<le> jq_Limit q \<and> jq_Limit q \<le> 100 \<and> 0 \<le> jq_Offset q \<and> length (jq_Search q) \<le> maxSearchLength
     \<and> fst (run_state (handleJobsFragment v d i r) w)
         = fst (run_state (ExecuteTemplate v (JobsView jv) (Some ''render jobs fragment failed'')) w)
     \<and> map dr_ID (jv_rows jv) = map ID (page (jq_Limit q) (jq_Offset q) matching)
     \<and> (jq_Offset q + jq_Limit q < 2 ^ 63 \<longrightarrow> jv_next_offset jv = jq_Offset q + jq_Limit q
         \<and> (jv_has_next jv \<longleftrightarrow> page (jq_Limit q) (jv_next_offset jv) matching \<noteq> []))"
proof -
  define q where "q = readJobsQuery d r"
  define matching where "matching = matching_jobs (jobs_params q) (db w)"
  define jv where "jv = jobs_fragment v q (page (jq_Limit q) (jq_Offset q) matching) (int (length matching))"
  note lim = NewDashboard_limits [OF assms(1)]
  have b: "1 \<le> jq_Limit q \<and> jq_Limit q \<le> 100 \<and> 0 \<le> jq_Offset q \<and> length (jq_Search q) \<le> maxSearchLength"
    unfolding q_def using readJobsQuery_bounds lim by blast
  have p: "\<not> nil_db (dd_client d)" "0 < lj_Limit (jobs_params q)" "0 \<le> lj_Offset (jobs_params q)"
    "length (trim_space (lj_Search (jobs_params q))) \<le> maxSearchLength"
    using b lim length_trim_space [of "jq_Search q"] by (auto simp: jobs_params_def)
  let ?w1 = "end_statement w"
  have w1: "script ?w1 = []" "\<not> tx_aborted ?w1" using assms(2,3) by (simp_all add: end_statement_def publish_def)
  have "matching_jobs (jobs_params q) (db ?w1) = matching" unfolding matching_def by (rule matching_jobs_cong) simp
  then have "fst (run_state (handleJobsFragment v d i r) w)
      = fst (run_state (ExecuteTemplate v (JobsView jv) (Some ''render jobs fragment failed'')) (end_statement ?w1))"
    by (simp add: handleJobsFragment_def Let_def run_simps q_def [symmetric] ListJobs_run [OF assms(2,3) p]
        CountJobs_run [OF w1 p(1,3,4)] matching_def [symmetric] jv_def) (simp add: jobs_params_def)
  moreover have "map dr_ID (jv_rows jv) = map ID (page (jq_Limit q) (jq_Offset q) matching)"
    by (simp add: jv_def jobs_fragment_def Let_def buildDashboardRow_def)
  moreover have "jv_next_offset jv = jq_Offset q + jq_Limit q
      \<and> (jv_has_next jv \<longleftrightarrow> page (jq_Limit q) (jv_next_offset jv) matching \<noteq> [])" if "jq_Offset q + jq_Limit q < 2 ^ 63"
    using that b by (auto simp: jv_def jobs_fragment_def Let_def wrap64_id page_def)
  moreover note b template_response [of v "JobsView jv" "Some ''render jobs fragment failed''" "end_statement ?w1" w]
  ultimately show ?thesis unfolding Let_def q_def [symmetric] matching_def [symmetric] jv_def [symmetric] by simp
qed

section \<open>Delays\<close>

lemma wrap64_above: "2 ^ 63 \<le> i \<Longrightarrow> i < 2 ^ 64 \<Longrightarrow> wrap64 i = i - 2 ^ 64"
proof -
  assume "2 ^ 63 \<le> i" "i < 2 ^ 64"
  then have "(i + 2 ^ 63 - 2 ^ 64) mod 2 ^ 64 = i + 2 ^ 63 - 2 ^ 64" by (intro mod_pos_pos_trivial) auto
  then show ?thesis unfolding wrap64_def minus_mod_self2 by simp
qed

text \<open>
  Delays in seconds. Up to 9223372036 seconds the job becomes due that much later. Above, the
  multiplication wraps around: a delay of 9223372037 to 18446744073 seconds, some 292 to 584 years, makes
  it due before it was enqueued.
\<close>

theorem delay_wraps:
  "(0 < s \<and> s \<le> 9223372036 \<longrightarrow> delayed_until s w = Some (clock w + s * 1000000))
   \<and> (9223372037 \<le> s \<and> s \<le> 18446744073 \<longrightarrow> (\<exists>t. delayed_until s w = Some t \<and> t < clock w))"
proof (intro conjI impI)
  assume "0 < s \<and> s \<le> 9223372036"
  then show "delayed_until s w = Some (clock w + s * 1000000)" by (simp add: delayed_until_def wrap64_id)
next
  assume s: "9223372037 \<le> s \<and> s \<le> 18446744073"
  have "wrap64 (s * 1000000000) = s * 1000000000 - 2 ^ 64" by (rule wrap64_above) (use s in auto)
  with s show "\<exists>t. delayed_until s w = Some t \<and> t < clock w"
    by (auto simp: delayed_until_def)
qed

theorem delay_wraps_witness:
  "delayed_until 60 initial_world = Some 60000000 \<and> (\<exists>t. delayed_until 10000000000 initial_world = Some t \<and> t < 0)"
  using delay_wraps [of 60 initial_world] delay_wraps [of 10000000000 initial_world] by (simp add: initial_world_def)

section \<open>Cross-site requests\<close>

text \<open>
  The check against cross-site requests compares by substring: any page whose origin contains the
  dashboard's host, like one served from the host's name with a suffix, passes it, and the request
  reaches the handler.
\<close>

theorem foreign_origin_passes:
  assumes "rq_host r \<noteq> []" "get_value (rq_headers r) ''Origin'' = pre @ rq_host r @ post"
  shows "dash_requireCSRF h v r = h v r"
  using assms by (simp add: dash_requireCSRF_def dash_same_origin_def Let_def contains_iff) blast

section \<open>Samples\<close>

definition sample_env :: dashboard_env where
  "sample_env = \<lparr>de_tmpl = \<lambda>_. (''page'', None), de_time = dec_int, de_decode = \<lambda>_. None, de_pid = \<lambda>_. 0\<rparr>"

definition sample_options :: dashboard_options where
  "sample_options = \<lparr>do_Token = ''secret'', do_Limit = 2, do_TokenEnv = [], do_EnableEnqueueAPI = Some False, do_EnableAPIEnv = []\<rparr>"

definition sample_dash :: dashboard where
  "sample_dash = \<lparr>dd_client = Some sample_client, dd_token = ''secret'', dd_enableEnqueue = False, dd_listLimit = 2\<rparr>"

definition sample_request :: "string \<Rightarrow> string list \<Rightarrow> request" where
  "sample_request m path = \<lparr>rq_method = m, rq_path = path, rq_host = ''admin:80'', rq_headers = [(''Origin'', ''http://admin:80.evil'')],
     rq_query = [(''search'', ''a'')], rq_form = None, rq_body = [], rq_basic = Some (''me'', ''secret''), rq_ctx = background\<rparr>"

lemma sample_dash_new: "NewDashboardFromEnvWithOptions (\<lambda>_. []) None (Some sample_client) sample_options = Inr sample_dash"
  by code_simp

definition sample_delete :: "response io" where
  "sample_delete = ServeHTTP (dash_Handler sample_env sample_dash) (sample_request ''DELETE'' [''jobs'', ''2''])"

lemma sample_delete_run:
  "rs_status (fst (run_state sample_delete listed_world)) = 200"
  "map ID (jobs (sent (db (snd (run_state sample_delete listed_world))))) = [1, 3, 4, 5]"
  by code_simp+

theorem dashboard_guarded_witness:
  "\<exists>rs w'. run_state sample_delete listed_world = (rs, w') \<and> sent (db w') \<noteq> sent (db listed_world)
     \<and> dash_trusted (sample_request ''DELETE'' [''jobs'', ''2'']) \<and> ID ` set (jobs (db w')) \<subseteq> ID ` set (jobs (db listed_world))"
proof -
  obtain rs w' where run: "run_state sample_delete listed_world = (rs, w')" by (cases "run_state sample_delete listed_world")
  have "map ID (jobs (sent (db w'))) \<noteq> map ID (jobs (sent (db listed_world)))"
    using sample_delete_run(2) run by (simp add: listed_world_def new_job_def)
  then have changed: "sent (db w') \<noteq> sent (db listed_world)" by metis
  have "snapshot listed_world = None" by (simp add: listed_world_def initial_world_def)
  from dashboard_guarded [OF this run [unfolded sample_delete_def]] changed run show ?thesis by (auto simp: sample_dash_def)
qed

theorem foreign_origin_passes_witness:
  "dash_requireCSRF (handleDeleteJob sample_dash) ''2'' (sample_request ''DELETE'' [''jobs'', ''2''])
     = handleDeleteJob sample_dash ''2'' (sample_request ''DELETE'' [''jobs'', ''2''])"
  by (rule foreign_origin_passes [of _ "''http://''" "''.evil''"]) (simp_all add: sample_request_def get_value_def)

definition sample_browse :: request where
  "sample_browse = sample_request ''GET'' [''fragment'', ''jobs'']"

definition sample_query :: jobs_query where
  "sample_query = readJobsQuery sample_dash sample_browse"

definition sample_matching :: "job list" where
  "sample_matching = matching_jobs (jobs_params sample_query) (db listed_world)"

definition sample_view :: jobs_view where
  "sample_view = jobs_fragment sample_env sample_query (page (jq_Limit sample_query) (jq_Offset sample_query) sample_matching)
     (int (length sample_matching))"

lemma sample_view_facts:
  "map ID (page (jq_Limit sample_query) (jq_Offset sample_query) sample_matching) = [5, 4]"
  "page (jq_Limit sample_query) (jv_next_offset sample_view) sample_matching \<noteq> []"
  "jq_Offset sample_query + jq_Limit sample_query < 2 ^ 63"
  by code_simp+

theorem dashboard_pages_witness:
  "fst (run_state (handleJobsFragment sample_env sample_dash [] sample_browse) listed_world)
     = fst (run_state (ExecuteTemplate sample_env (JobsView sample_view) (Some ''render jobs fragment failed'')) listed_world)
   \<and> map dr_ID (jv_rows sample_view) = [5, 4] \<and> jv_has_next sample_view"
proof -
  have w: "script listed_world = []" "\<not> tx_aborted listed_world" by code_simp+
  note all = dashboard_pages [OF sample_dash_new w, of sample_browse sample_env "[]", unfolded Let_def,
      folded sample_query_def, folded sample_matching_def, folded sample_view_def, unfolded sample_view_facts(1)]
  from all sample_view_facts(2,3) show ?thesis by blast
qed

end
