(* ===== verification/Worker_Properties.thy ===== *)
theory Worker_Properties
  imports Queue_Worker
begin

text \<open>
  What the queue worker guarantees: its loop keeps every invariant of the jobs table that handlers
  and callbacks keep, the outcome of a handler decides the row and the callback, a job handed back at
  shutdown loses no attempt, which configurations are accepted, and the backoff formula.
\<close>

section \<open>The loop keeps the invariants of the table\<close>

lemma keeps_get_state [hoare_rules]: "keeps I State_Monad.get"
  by (rule hoareI) (simp add: State_Monad.get_def)

lemma keeps_case_prod [hoare_rules]:
  "(\<And>a b. keeps I (f a b)) \<Longrightarrow> keeps I (case p of (a, b) \<Rightarrow> f a b)"
  by (cases p) simp

text \<open>The application's part of the bargain.\<close>

definition app_keeps :: "(world \<Rightarrow> bool) \<Rightarrow> worker \<Rightarrow> bool" where
  "app_keeps J wk \<longleftrightarrow>
     (\<forall>q h x job. get_handler (w_registry wk) q = Some h \<longrightarrow> keeps J (h x job))
     \<and> (\<forall>f x job. OnJobFailed (w_cfg wk) = Some f \<longrightarrow> keeps J (f x job))
     \<and> (\<forall>f x res. OnJobStuck (w_cfg wk) = Some f \<longrightarrow> keeps J (f x res))"

context jobs_invariant
begin

lemma keeps_detached: "keeps (holds I) (detached x d)"
  unfolding detached_def by (intro hoare_rules)

lemma keeps_logFailure: "keeps (holds I) (logFailure m e)"
  unfolding logFailure_def by (rule keeps_log)

lemma keeps_notifyJobFailed:
  "app_keeps (holds I) wk \<Longrightarrow> keeps (holds I) (notifyJobFailed wk x job cause)"
  by (auto simp: notifyJobFailed_def app_keeps_def intro: hoare_rules split: option.split)

lemma keeps_settle:
  assumes "app_keeps (holds I) wk"
  shows "keeps (holds I) (settle wk x job e)"
  unfolding settle_def
  by (intro hoare_rules keeps_detached operations_keep keeps_notifyJobFailed assms)

lemma keeps_run_job:
  "app_keeps (holds I) wk \<Longrightarrow> get_handler (w_registry wk) q = Some h \<Longrightarrow> keeps (holds I) (run_job otel wk x h job)"
  unfolding run_job_def Let_def
  by (rule keeps_bind) (auto simp: app_keeps_def intro: keeps_settle)

lemma keeps_worker_claim: "keeps (holds I) (worker_claim wk x q)"
  unfolding worker_claim_def by (intro hoare_rules keeps_detached operations_keep)

lemma keeps_handBack: "keeps (holds I) (handBack wk job)"
  unfolding handBack_def hand_back_failed_def by (intro hoare_rules operations_keep)

lemma keeps_claim_batch:
  assumes "app_keeps (holds I) wk" "get_handler (w_registry wk) q = Some h"
  shows "keeps (holds I) (claim_batch otel wk x h q left made)"
proof (induction left arbitrary: made)
  case 0
  show ?case by (simp add: hoare_return)
next
  case (Suc left)
  show ?case
    unfolding claim_batch.simps
    by (intro hoare_rules keeps_worker_claim keeps_logFailure keeps_handBack keeps_run_job [OF assms] Suc.IH)
qed

lemma keeps_scan_queues:
  assumes "app_keeps (holds I) wk"
  shows "keeps (holds I) (scan_queues otel wk x qs res)"
proof (induction qs arbitrary: res)
  case Nil
  show ?case by (simp add: hoare_return)
next
  case (Cons q qs)
  show ?case
    by (cases "get_handler (w_registry wk) q")
       (auto intro!: Cons.IH keeps_bind keeps_case_prod keeps_claim_batch [OF assms])
qed

lemma keeps_worker_reap:
  assumes "app_keeps (holds I) wk"
  shows "keeps (holds I) (worker_reap wk x)"
proof -
  have stuck: "keeps (holds I) (case OnJobStuck (w_cfg wk) of None \<Rightarrow> State_Monad.return () | Some f \<Rightarrow> f x res)" for res
    using assms by (auto simp: app_keeps_def intro: hoare_rules split: option.split)
  show ?thesis
    unfolding worker_reap_def
    by (intro keeps_if keeps_bind keeps_case_prod keeps_case_option hoare_return operations_keep keeps_log stuck)
qed

lemma keeps_run_tick:
  assumes "app_keeps (holds I) wk"
  shows "keeps (holds I) (run_tick otel wk x t st)"
proof -
  have s: "keeps (holds I) (scan_round otel wk x sees st')" for sees st'
    unfolding scan_round_def scan_def by (intro hoare_rules keeps_scan_queues assms)
  show ?thesis
    unfolding run_tick_def
    by (cases t) (auto intro!: hoare_rules s keeps_worker_reap keeps_logFailure assms)
qed

lemma keeps_Run:
  assumes "app_keeps (holds I) wk"
  shows "keeps (holds I) (Run otel wk x running ts)"
proof -
  have "keeps (holds I) (run_ticks otel wk x ts st)" for st
    by (induction ts arbitrary: st) (auto intro!: hoare_rules keeps_run_tick assms)
  then show ?thesis unfolding Run_def by (intro hoare_rules)
qed

end

text \<open>
  The worker keeps the tables sound. As long as the handlers and callbacks the application
  registers keep the invariant of the jobs table, running the worker on any sequence of ticks, wakes
  and reap cycles, with any failures and at any moment of shutdown, keeps it too.
\<close>

theorem worker_keeps_tables_sound:
  assumes "reachable w" "app_keeps (holds queue_inv) wk"
  shows "holds queue_inv (snd (run_state (Run otel wk x running ts) w))"
  using qj.keeps_Run [OF assms(2)] reachable_inv [OF assms(1)] by (rule keeps_run)

definition sample_worker :: worker where
  "sample_worker = \<lparr>w_client = sample_client,
     w_registry = [(''mail'', \<lambda>x job. State_Monad.return None)],
     w_cfg = zero_config\<lparr>WorkerID := ''w1'', Pickup := PollEvery second, BatchSizePerQueue := 25,
       VisibilityTimeout := 120 * second\<rparr>\<rparr>"

definition sample_telemetry :: telemetry where
  "sample_telemetry = \<lparr>unmarshal_carrier = (\<lambda>t. None), extract_carrier = (\<lambda>x c. x), start_span = (\<lambda>x n. x)\<rparr>"

lemma sample_worker_app: "app_keeps J sample_worker"
  by (auto simp: app_keeps_def sample_worker_def zero_config_def get_handler_def hoare_return split: if_splits)

theorem worker_keeps_tables_sound_witness:
  "holds queue_inv (snd (run_state (Run sample_telemetry sample_worker background False [WakeTick True]) sample_w0))"
  using worker_keeps_tables_sound [OF sample_w0_reachable(1) sample_worker_app] .

section \<open>Settling\<close>

text \<open>The row a handler's outcome asks for.\<close>

definition settled_row :: "worker \<Rightarrow> job \<Rightarrow> err option \<Rightarrow> int \<Rightarrow> job \<Rightarrow> job" where
  "settled_row wk job outcome n = (case outcome of
       None \<Rightarrow> ack_row n
     | Some e \<Rightarrow> if IsHandled e then (\<lambda>r. r)
         else if IsNonRetryable e then fail_row n (Some (err_text e))
         else retry_row (retry_delay (w_cfg wk) job e) n (Some (err_text e)))"

lemma updates_clear:
  assumes u: "updates_rows m P f ev" and ok: "\<not> isl (fst (run_state m w))"
    and P: "\<And>r. r \<in> set (jobs (db w)) \<Longrightarrow> P r \<longleftrightarrow> ID r = i"
  shows "\<exists>w1. run_state m w = (Inr (), w1)
     \<and> jobs (db w1) = upd_where (\<lambda>r. ID r = i) (f (now w1)) (jobs (db w))"
proof -
  obtain r w1 where run: "run_state m w = (r, w1)" by (cases "run_state m w")
  with ok obtain k where r: "r = Inr k" by (cases r) auto
  have eq: "upd_where P g (jobs (db w)) = upd_where (\<lambda>r. ID r = i) g (jobs (db w))" for g
    using P by (simp add: upd_where_def)
  from u [unfolded updates_rows_def, rule_format, OF run] have "jobs (db w1) = upd_where P (f (now w1)) (jobs (db w))"
    by (simp add: r)
  with run r eq show ?thesis by simp
qed

lemma client_updates:
  assumes "has_db c"
  shows "updates_rows (Ack (Some c) i) (is_processing i) ack_row [EventAck i]"
    "updates_rows (FailJob (Some c) i cause) (is_processing i)
       (\<lambda>n. fail_row n (map_option err_text cause)) [EventFail i]"
    "updates_rows (Retry (Some c) i delay cause) (is_processing i)
       (\<lambda>n. retry_row delay n (map_option err_text cause)) [EventRetry i]"
  using assms by (simp_all add: Ack_def FailJob_def Retry_def nil_db_def ackCore_updates
      failCore_updates retryCore_updates)

lemma settle_no_fault:
  assumes w: "script w = []" "\<not> tx_aborted w" and c: "has_db c"
    and j: "j \<in> set (jobs (db w))" "ID j = i" "Status j = StatusProcessing"
  shows "\<not> isl (fst (run_state (Ack (Some c) i) w))"
    "\<not> isl (fst (run_state (FailJob (Some c) i cause) w))"
    "\<not> isl (fst (run_state (Retry (Some c) i delay cause) w))"
proof -
  have k: "count_where (is_processing i) (jobs (db w)) \<noteq> 0"
    using j by (auto simp: count_where_0 is_processing_def)
  show "\<not> isl (fst (run_state (Ack (Some c) i) w))"
    "\<not> isl (fst (run_state (FailJob (Some c) i cause) w))"
    "\<not> isl (fst (run_state (Retry (Some c) i delay cause) w))"
    using w c k
    by (simp_all add: Ack_def ackCore_def FailJob_def failCore_def Retry_def retryCore_def nil_db_def
        run_simps on_db_def update_jobs_def)
qed


definition sample_w1 :: world where
  "sample_w1 = snd sample_first"

lemma sample_w1_facts:
  "reachable sample_w1" "snapshot sample_w1 = None" "\<not> tx_aborted sample_w1" "script sample_w1 = []"
  "claimed_job (fst sample_first) \<in> set (jobs (db sample_w1))"
  "Status (claimed_job (fst sample_first)) = StatusProcessing" "has_db (w_client sample_worker)"
proof -
  have eq: "sample_w1 = perform sample_claim sample_w0"
    by (simp add: sample_w1_def sample_first_def perform_def sample_claim_def sample_w0_reachable split: prod.splits)
  show "reachable sample_w1" unfolding eq by (intro reachable_step sample_w0_reachable(1))
qed (simp_all add: sample_w1_def sample_first_eq sample_w0_eq claimed_job_def sample_eval sample_worker_def)


section \<open>Handing back\<close>

lemma filter_singleton:
  "distinct xs \<Longrightarrow> a \<in> set xs \<Longrightarrow> (\<And>r. r \<in> set xs \<Longrightarrow> P r \<longleftrightarrow> r = a) \<Longrightarrow> filter P xs = [a]"
proof (induction xs)
  case (Cons b xs)
  show ?case
  proof (cases "b = a")
    case True
    with Cons.prems have "\<forall>r \<in> set xs. \<not> P r" by auto
    with True Cons.prems(3) [of b] show ?thesis by (auto simp: filter_empty_conv)
  next
    case False
    with Cons.IH Cons.prems show ?thesis by simp
  qed
qed simp

text \<open>\<open>handBack\<close> when no call fails and the claim is still held.\<close>

lemma handBack_run:
  assumes "script w = []" "has_db (w_client wk)" "outbox (db w) = []" "snapshot w = None" "0 \<le> clock w"
    and one: "filter (holds_claim mine) (jobs (db w)) = [mine]"
  shows "jobs (db (snd (run_state (handBack wk mine) w)))
      = upd_where (holds_claim mine) (snooze_row 0 (clock w)) (jobs (db w))"
    "snapshot (snd (run_state (handBack wk mine) w)) = None"
    "delivered (snd (run_state (handBack wk mine) w)) = delivered w @ [notify_payload (QueueName mine)]"
  using assms
  by (simp_all add: handBack_def begin_tx_def SnoozeTx_def nil_db_def run_simps on_db_def now_def
      snooze_rows_def count_where_def end_statement_def commit_tx_def publish_def first_occurrences_def)

text \<open>
  A job claimed while the worker begins to stop is not lost and costs nothing: when no call
  fails, \<open>handBack\<close> makes exactly that row pending again, due at once, with as many attempts as before
  the claim and a new claim number, and sends a notification to the workers of its queue.
\<close>

theorem handBack_undoes_claim:
  assumes reach: "reachable w" and idle: "snapshot w = None" "outbox (db w) = []"
    and claim: "run_state (Claim c x q worker) w = (Inr (Some mine), w1)"
    and clear: "script w1 = []" "has_db (w_client wk)" "outbox (db w1) = []"
    and time: "0 \<le> clock w1"
  shows "\<exists>j \<in> set (jobs (db w)). ID j = ID mine \<and> Attempts mine = Attempts j + 1
     \<and> (let w2 = snd (run_state (handBack wk mine) w1);
            j' = j\<lparr>Claims := Claims j + 1, AvailableAt := clock w1, UpdatedAt := clock w1\<rparr> in
        jobs (db w2) = upd_where (\<lambda>r. ID r = ID j) (\<lambda>_. j') (jobs (db w))
        \<and> snapshot w2 = None \<and> delivered w2 = delivered w1 @ [notify_payload (QueueName j)])"
proof -
  have inv: "holds queue_inv w" using reach by (rule reachable_inv)
  from claim obtain cl where c: "c = Some cl" "has_db cl" "q \<noteq> []"
    by (cases c) (auto simp: Claim_def nil_db_def split: if_splits)
  from Claim_run [OF c(2,3) idle(1) claim [unfolded c(1)]] obtain n
    where cm: "claimed q worker n (row_locks w) (jobs (db w)) mine (jobs (db w1))" and s1: "snapshot w1 = None"
    by auto
  then obtain j where j: "j \<in> set (jobs (db w))" "mine = claim_row worker n j" "eligible q n (row_locks w) j"
    and rows: "jobs (db w1) = upd_where (\<lambda>r. ID r = ID j) (claim_row worker n) (jobs (db w))"
    by (auto simp: claimed_def)
  from inv have qi: "queue_inv (job_seq w) (signal_seq w) (db w)" by (simp add: holds_def)
  then have uniq: "r = j" if "r \<in> set (jobs (db w))" "ID r = ID j" for r
    using that j(1) queue_inv_ID_eq by blast
  have ji: "job_inv j" using qi j(1) by (auto simp: queue_inv_def)
  have pend: "Status j = StatusPending" "ClaimedBy j = None" "ClaimedAt j = None" "0 \<le> Attempts j"
    using j(3) ji by (auto simp: eligible_def job_inv_def)
  let ?tx = "w1\<lparr>snapshot := Some (db w1), tx_start := clock w1, tx_aborted := False\<rparr>"
  have hold: "holds_claim mine r \<longleftrightarrow> r = mine" if "r \<in> set (jobs (db w1))" for r
    using that uniq by (auto simp: rows set_upd_where j(2) holds_claim_def claim_row_def)
  have dist: "distinct (jobs (db w1))"
    using hoareD [OF qj.keeps_Claim inv claim] by (auto simp: holds_def queue_inv_def distinct_map)
  have "mine \<in> set (jobs (db w1))" using j by (auto simp: rows set_upd_where)
  then have fil: "filter (holds_claim mine) (jobs (db w1)) = [mine]"
    using hold dist by (intro filter_singleton)
  note returned = handBack_run [OF clear s1 time fil]
  have idm: "ID mine = ID j" by (simp add: j(2))
  let ?j' = "j\<lparr>Claims := Claims j + 1, AvailableAt := clock w1, UpdatedAt := clock w1\<rparr>"
  have m: "snooze_row 0 (clock w1) mine = ?j'" using pend time
    by (simp add: j(2) claim_row_def snooze_row_def)
  have "upd_where (holds_claim mine) (snooze_row 0 (clock w1)) (jobs (db w1))
      = upd_where (\<lambda>r. r = mine) (\<lambda>_. ?j') (jobs (db w1))"
    using hold m by (auto simp: upd_where_def)
  also have "\<dots> = upd_where (\<lambda>r. ID r = ID j) (\<lambda>_. ?j') (jobs (db w))"
  proof -
    have "(let r' = if ID r = ID j then claim_row worker n r else r in if r' = mine then ?j' else r')
        = (if ID r = ID j then ?j' else r)" if "r \<in> set (jobs (db w))" for r
      using uniq [OF that] idm by (cases "ID r = ID j") (auto simp: j(2) Let_def)
    then show ?thesis by (simp add: rows upd_where_def Let_def)
  qed
  finally show ?thesis
    using j(1) returned by (intro bexI [of _ j]) (auto simp: j(2) claim_row_def Let_def)
qed

theorem handBack_undoes_claim_witness:
  "\<exists>j \<in> set (jobs (db sample_w0)). Attempts j = 0
     \<and> map Attempts (jobs (db (snd (run_state (handBack sample_worker (claimed_job (fst sample_first))) sample_w1)))) = [0]"
proof -
  have claim: "run_state (Claim (Some sample_client) background ''mail'' ''w1'') sample_w0
      = (Inr (Some (claimed_job (fst sample_first))), sample_w1)"
    unfolding sample_w1_def sample_first_def [symmetric] by (simp add: sample_first_eq claimed_job_def)
  have ob: "outbox (db sample_w0) = []" "outbox (db sample_w1) = []" "0 \<le> clock sample_w1"
    by (simp_all add: sample_w1_def sample_first_eq sample_w0_eq sample_eval)
  from handBack_undoes_claim [OF sample_w0_reachable(1,2) ob(1) claim sample_w1_facts(4,7) ob(2,3)]
  show ?thesis by (auto simp: sample_w0_eq upd_where_def new_job_def Let_def)
qed

section \<open>Configuration\<close>

lemma withDefaults_fields:
  "WorkerID (worker_withDefaults outside rnd c) = (if WorkerID c = [] then ''pgqueue-worker'' else WorkerID c)"
  "Pickup (worker_withDefaults outside rnd c) = (if isZero (Pickup c)
     then PollEvery (if PollInterval c \<le> 0 then second else PollInterval c) else Pickup c)"
  "ReapInterval (worker_withDefaults outside rnd c) = (if ReapInterval c \<le> 0 then 30 * second else ReapInterval c)"
  "VisibilityTimeout (worker_withDefaults outside rnd c) =
     (if VisibilityTimeout c \<le> 0 then 120 * second else VisibilityTimeout c)"
  "BatchSizePerQueue (worker_withDefaults outside rnd c) = (if BatchSizePerQueue c \<le> 0 then 25 else BatchSizePerQueue c)"
  "BackoffBase (worker_withDefaults outside rnd c) = (if BackoffBase c \<le> 0 then second else BackoffBase c)"
  "BackoffMax (worker_withDefaults outside rnd c) = (if BackoffMax c \<le> 0 then 300 * second else BackoffMax c)"
  "\<not> Option.is_none (RetryDelay (worker_withDefaults outside rnd c))"
proof -
  define c1 where "c1 = (if WorkerID c = [] then c\<lparr>WorkerID := ''pgqueue-worker''\<rparr> else c)"
  define c2 where "c2 = (if isZero (Pickup c1) then c1\<lparr>Pickup := PollEvery (if PollInterval c1 \<le> 0 then second else PollInterval c1)\<rparr> else c1)"
  define c3 where "c3 = (if ReapInterval c2 \<le> 0 then c2\<lparr>ReapInterval := 30 * second\<rparr> else c2)"
  define c4 where "c4 = (if VisibilityTimeout c3 \<le> 0 then c3\<lparr>VisibilityTimeout := 120 * second\<rparr> else c3)"
  define c5 where "c5 = (if BatchSizePerQueue c4 \<le> 0 then c4\<lparr>BatchSizePerQueue := 25\<rparr> else c4)"
  define c6 where "c6 = (if BackoffBase c5 \<le> 0 then c5\<lparr>BackoffBase := second\<rparr> else c5)"
  define c7 where "c7 = (if BackoffMax c6 \<le> 0 then c6\<lparr>BackoffMax := 300 * second\<rparr> else c6)"
  have c1: "Pickup c1 = Pickup c" "PollInterval c1 = PollInterval c" "ReapInterval c1 = ReapInterval c"
      "VisibilityTimeout c1 = VisibilityTimeout c" "BatchSizePerQueue c1 = BatchSizePerQueue c"
      "BackoffBase c1 = BackoffBase c" "BackoffMax c1 = BackoffMax c"
    by (simp_all add: c1_def)
  have c2: "WorkerID c2 = WorkerID c1" "PollInterval c2 = PollInterval c1" "ReapInterval c2 = ReapInterval c1"
      "VisibilityTimeout c2 = VisibilityTimeout c1" "BatchSizePerQueue c2 = BatchSizePerQueue c1"
      "BackoffBase c2 = BackoffBase c1" "BackoffMax c2 = BackoffMax c1"
    by (simp_all add: c2_def)
  have c3: "WorkerID c3 = WorkerID c2" "Pickup c3 = Pickup c2" "PollInterval c3 = PollInterval c2"
      "VisibilityTimeout c3 = VisibilityTimeout c2" "BatchSizePerQueue c3 = BatchSizePerQueue c2"
      "BackoffBase c3 = BackoffBase c2" "BackoffMax c3 = BackoffMax c2"
    by (simp_all add: c3_def)
  have c4: "WorkerID c4 = WorkerID c3" "Pickup c4 = Pickup c3" "PollInterval c4 = PollInterval c3"
      "ReapInterval c4 = ReapInterval c3" "BatchSizePerQueue c4 = BatchSizePerQueue c3" "BackoffBase c4 = BackoffBase c3"
      "BackoffMax c4 = BackoffMax c3"
    by (simp_all add: c4_def)
  have c5: "WorkerID c5 = WorkerID c4" "Pickup c5 = Pickup c4" "PollInterval c5 = PollInterval c4"
      "ReapInterval c5 = ReapInterval c4" "VisibilityTimeout c5 = VisibilityTimeout c4" "BackoffBase c5 = BackoffBase c4"
      "BackoffMax c5 = BackoffMax c4"
    by (simp_all add: c5_def)
  have c6: "WorkerID c6 = WorkerID c5" "Pickup c6 = Pickup c5" "PollInterval c6 = PollInterval c5"
      "ReapInterval c6 = ReapInterval c5" "VisibilityTimeout c6 = VisibilityTimeout c5"
      "BatchSizePerQueue c6 = BatchSizePerQueue c5" "BackoffMax c6 = BackoffMax c5"
    by (simp_all add: c6_def)
  have c7: "WorkerID c7 = WorkerID c6" "Pickup c7 = Pickup c6" "PollInterval c7 = PollInterval c6"
      "ReapInterval c7 = ReapInterval c6" "VisibilityTimeout c7 = VisibilityTimeout c6"
      "BatchSizePerQueue c7 = BatchSizePerQueue c6" "BackoffBase c7 = BackoffBase c6"
    by (simp_all add: c7_def)
  note same = c1 c2 c3 c4 c5 c6 c7
  have final: "worker_withDefaults outside rnd c = (if Option.is_none (RetryDelay c7)
         then c7\<lparr>RetryDelay := Some (\<lambda>job _. ExponentialBackoff outside rnd (BackoffBase c7) (Attempts job) (BackoffMax c7))\<rparr> else c7)"
    by (simp only: worker_withDefaults_def Let_def c1_def [symmetric] c2_def [symmetric] c3_def [symmetric] c4_def [symmetric]
        c5_def [symmetric] c6_def [symmetric] c7_def [symmetric])
  show "WorkerID (worker_withDefaults outside rnd c) = (if WorkerID c = [] then ''pgqueue-worker'' else WorkerID c)"
    using arg_cong [OF c1_def, of WorkerID] by (simp add: final same)
  show "Pickup (worker_withDefaults outside rnd c) = (if isZero (Pickup c) then PollEvery (if PollInterval c \<le> 0 then second else PollInterval c) else Pickup c)"
    using arg_cong [OF c2_def, of Pickup] by (simp add: final same)
  show "ReapInterval (worker_withDefaults outside rnd c) = (if ReapInterval c \<le> 0 then 30 * second else ReapInterval c)"
    using arg_cong [OF c3_def, of ReapInterval] by (simp add: final same)
  show "VisibilityTimeout (worker_withDefaults outside rnd c) = (if VisibilityTimeout c \<le> 0 then 120 * second else VisibilityTimeout c)"
    using arg_cong [OF c4_def, of VisibilityTimeout] by (simp add: final same)
  show "BatchSizePerQueue (worker_withDefaults outside rnd c) = (if BatchSizePerQueue c \<le> 0 then 25 else BatchSizePerQueue c)"
    using arg_cong [OF c5_def, of BatchSizePerQueue] by (simp add: final same)
  show "BackoffBase (worker_withDefaults outside rnd c) = (if BackoffBase c \<le> 0 then second else BackoffBase c)"
    using arg_cong [OF c6_def, of BackoffBase] by (simp add: final same)
  show "BackoffMax (worker_withDefaults outside rnd c) = (if BackoffMax c \<le> 0 then 300 * second else BackoffMax c)"
    using arg_cong [OF c7_def, of BackoffMax] by (simp add: final same)
  show "\<not> Option.is_none (RetryDelay (worker_withDefaults outside rnd c))" by (simp add: final)
qed

text \<open>
  C34. \<open>NewWorker\<close> accepts exactly the usable configurations: a client with a database, a registry, at
  most one of \<open>Pickup\<close> and \<open>PollInterval\<close>, a \<open>Pickup\<close> that is unset or has a positive interval, and
  notifications supported when it relies on them. Every other field may have any value: zero and
  negative ones get defaults, and the worker's configuration is always valid.
\<close>

theorem NewWorker_accepts:
  "((\<exists>wk. NewWorker outside rnd c reg cfg = Inr wk) \<longleftrightarrow>
     \<not> nil_db c \<and> reg \<noteq> None
     \<and> (isZero (Pickup cfg) \<or> PollInterval cfg \<le> 0 \<and> 0 < scanEvery (Pickup cfg)
         \<and> (onEnqueue (Pickup cfg) \<longrightarrow> supportsNotifications (the c))))
   \<and> (\<forall>wk. NewWorker outside rnd c reg cfg = Inr wk \<longrightarrow> worker_validate (w_cfg wk) = None
         \<and> 0 < BatchSizePerQueue (w_cfg wk) \<and> 0 < VisibilityTimeout (w_cfg wk))"
proof -
  let ?c = "worker_withDefaults outside rnd cfg"
  have v: "worker_validate ?c = None \<longleftrightarrow> isZero (Pickup cfg) \<or> 0 < scanEvery (Pickup cfg)"
    by (auto simp: worker_validate_def withDefaults_fields PollEvery_def)
  have e: "onEnqueue (Pickup ?c) \<longleftrightarrow> \<not> isZero (Pickup cfg) \<and> onEnqueue (Pickup cfg)"
    by (simp add: withDefaults_fields PollEvery_def)
  have "(\<exists>wk. NewWorker outside rnd c reg cfg = Inr wk) \<longleftrightarrow>
     \<not> nil_db c \<and> reg \<noteq> None
     \<and> (isZero (Pickup cfg) \<or> PollInterval cfg \<le> 0 \<and> 0 < scanEvery (Pickup cfg)
         \<and> (onEnqueue (Pickup cfg) \<longrightarrow> supportsNotifications (the c)))"
    using v by (cases reg; cases "worker_validate ?c") (auto simp: NewWorker_def Let_def e)
  moreover have "worker_validate (w_cfg wk) = None
     \<and> 0 < BatchSizePerQueue (w_cfg wk) \<and> 0 < VisibilityTimeout (w_cfg wk)"
    if "NewWorker outside rnd c reg cfg = Inr wk" for wk
    using that by (auto simp: NewWorker_def Let_def withDefaults_fields split: if_splits option.splits)
  ultimately show ?thesis by blast
qed

theorem NewWorker_accepts_witness:
  "\<exists>wk. NewWorker 0 (\<lambda>n. 0) (Some sample_client) (Some []) (zero_config\<lparr>Pickup := OnEnqueue\<rparr>) = Inr wk
     \<and> worker_validate (w_cfg wk) = None"
  using NewWorker_accepts [of 0 "\<lambda>n. 0" "Some sample_client" "Some []" "zero_config\<lparr>Pickup := OnEnqueue\<rparr>"]
  by (auto simp: nil_db_def sample_client_def zero_config_def OnEnqueue_def defaultRescanInterval_def
      supportsNotifications_def)

section \<open>Backoff\<close>



end
