(* ===== verification/Workflow_Invariants.thy ===== *)
theory Workflow_Invariants
  imports Workflow_Signals Workflow_Inspect Worker_Properties
begin

text \<open>
  What every workflow operation keeps true of the tables. The locale \<open>workflow_invariant\<close> states the
  contract of a table invariant with the statements of the workflow package; every client call,
  activation operation and reconciliation then keeps it under any failures. It is interpreted on
  \<open>wf_inv\<close>: the queue's invariant, unique run ids, keys, step names and signal ids, and rows whose
  columns agree with their status.
\<close>

section \<open>The contract\<close>

text \<open>The updates of a row of \<open>pgworkflow_runs\<close>.\<close>

inductive run_update :: "(run \<Rightarrow> bool) \<Rightarrow> (int \<Rightarrow> run \<Rightarrow> run) \<Rightarrow> bool" where
  update_link: "run_update P (\<lambda>_ r. r\<lparr>r_job_id := j\<rparr>)"
| update_cancel: "run_update P cancel_row"
| update_reset: "run_update P reset_run"
| update_park: "run_update P (park_row t)"
| update_succeed: "run_update P (succeed_row out)"
| update_failed: "run_update P (failed_row message timedOut)"
| update_orphan: "run_update P (orphan_fail_row message)"
| update_activate: "run_update P activate_row"

text \<open>The updates of a row of \<open>pgworkflow_steps\<close>, with what their \<open>WHERE\<close> guarantees.\<close>

inductive step_update :: "(step \<Rightarrow> bool) \<Rightarrow> (int \<Rightarrow> step \<Rightarrow> step) \<Rightarrow> bool" where
  update_touch: "step_update P touch_step"
| update_complete: "st \<in> {StepSucceeded, StepFailed, StepTimedOut} \<Longrightarrow> step_update P (complete_row st out)"
| update_succeed_step: "step_update P (succeed_step_row t)"
| update_fail_step: "step_update P (fail_step_row message)"
| update_outcome: "st \<in> {StepSucceeded, StepFailed, StepTimedOut} \<Longrightarrow> step_update P (child_outcome_row st out e)"
| update_reset_child: "step_update P reset_child_step"
| update_retry: "(\<And>s. P s \<Longrightarrow> s_status s = StepRunning) \<Longrightarrow> step_update P (retry_step_row message delay)"
| update_hand_back: "(\<And>s. P s \<Longrightarrow> s_status s = StepRunning) \<Longrightarrow> step_update P hand_back_row"

text \<open>The rows inserted into \<open>pgworkflow_steps\<close>.\<close>

inductive new_row :: "step \<Rightarrow> bool" where
  "new_row (sleep_step runID key duration wakeAt w)"
| "new_row (receive_step runID key sig timeout w)"
| "new_row (child_step runID key childRunID w)"
| "new_row ((new_step runID key KindStep StepRunning w)\<lparr>s_attempts := 1\<rparr>)"

lemma keeps_case_bool: "keeps J m \<Longrightarrow> keeps J n \<Longrightarrow> keeps J (case b of True \<Rightarrow> m | False \<Rightarrow> n)"
  by (cases b) simp_all

locale workflow_invariant = jobs_invariant I for I :: "int \<Rightarrow> int \<Rightarrow> database \<Rightarrow> bool" +
  assumes insert_run_ok: "stable (insert_run_row (new_run i df input config p ps))"
    and runs_ok: "run_update P f \<Longrightarrow> I js gs d \<Longrightarrow> I js gs (d\<lparr>runs := upd_where P (f n) (runs d)\<rparr>)"
    and steps_ok: "step_update R g \<Longrightarrow> I js gs d \<Longrightarrow> I js gs (d\<lparr>steps := upd_where R (g n) (steps d)\<rparr>)"
    and delete_steps_ok: "I js gs d \<Longrightarrow> I js gs (d\<lparr>steps := del_where R (steps d)\<rparr>)"
    and insert_step_ok: "new_row s \<Longrightarrow> \<not> (\<exists>t \<in> set (steps d). at_step (s_run_id s) (s_name s) t) \<Longrightarrow> I js gs d \<Longrightarrow>
      I js gs (d\<lparr>steps := steps d @ [s]\<rparr>)"
    and attempt_ok: "stable (upsert_step (\<lambda>w. (new_step i key KindStep StepRunning w)\<lparr>s_attempts := 1\<rparr>)
      (\<lambda>s. s_status s = StepRunning \<or> s_status s = StepRetrying) start_attempt_row (\<lambda>_. s_attempts))"
    and delete_runs_ok: "I js gs d \<Longrightarrow> I js gs (delete_runs dead d)"
    and insert_signal_ok: "stable (insert_signal i name payload)"
    and mark_ok: "I js gs d \<Longrightarrow> I js gs (d\<lparr>signals := upd_where G (\<lambda>h. h\<lparr>g_received_by := k\<rparr>) (signals d)\<rparr>)"
begin

lemma stable_update_runs: "run_update P f \<Longrightarrow> stable (update_runs P f)"
  unfolding update_runs_def by (rule stable_on_db) (simp add: runs_ok)

lemma stable_link: "stable (link_run_job i j)"
  unfolding link_run_job_def by (intro stable_update_runs run_update.intros)

lemma stable_update_steps: "step_update P f \<Longrightarrow> stable (update_steps P f)"
  unfolding update_steps_def by (rule stable_on_db) (simp add: steps_ok)

lemma stable_delete_steps: "stable (delete_steps P)"
  unfolding delete_steps_def by (rule stable_on_db) (simp add: delete_steps_ok)

lemma stable_delete_trees: "stable (delete_trees p roots)"
  unfolding delete_trees_def Let_def by (rule stable_on_db) (simp add: delete_runs_ok)

lemma stable_activate: "stable (activate_run i j)"
  by (auto simp: stable_def activate_run_def Let_def intro: runs_ok run_update.intros)

lemma stable_retrying: "step_update P f \<Longrightarrow> stable (update_step_returning P f)"
  by (auto simp: stable_def update_step_returning_def Let_def intro: steps_ok)

lemma stable_upsert: "(\<And>w. new_row (mk w)) \<Longrightarrow> stable (upsert_step mk (\<lambda>_. True) touch_step out)"
  by (auto simp: stable_def upsert_step_def Let_def find_None_iff split: option.splits
      intro!: insert_step_ok steps_ok step_update.intros)

lemma stable_take: "stable (take_signal i key cp)"
proof -
  have "I js gs (d\<lparr>signals := upd_where P (\<lambda>h. h\<lparr>g_received_by := k\<rparr>) (signals d),
      steps := upd_where R (complete_row StepSucceeded out n) (steps d)\<rparr>)" if "I js gs d" for js gs d P k R out n
    using steps_ok [OF update_complete mark_ok [OF that]] by simp
  then show ?thesis by (auto simp: stable_def take_signal_def Let_def split: list.splits)
qed

lemma stable_notify: "stable (on_db (\<lambda>_ d. ((), d\<lparr>outbox := outbox d @ [k]\<rparr>)))"
  by (rule stable_on_db) (simp add: outbox_irrelevant)

lemma stable_reads:
  "stable (select_run R h)" "stable (select_awaited i name)" "stable (select_unfinished_tree i root)"
  "stable (select_checkpoints i)" "stable (\<lambda>w. (g w, w))"
  by (auto intro!: stable_read simp: select_run_def select_awaited_def select_unfinished_tree_def select_checkpoints_def Let_def)

lemmas stable_statements = insert_run_ok attempt_ok insert_signal_ok stable_update_runs stable_link stable_update_steps
  stable_delete_steps stable_activate stable_retrying stable_upsert stable_take stable_notify stable_reads
  run_update.intros step_update.intros new_row.intros

section \<open>Client calls\<close>

lemma keeps_query_checked: "stable st \<Longrightarrow> keeps (holds I) (query_checked st)"
  unfolding query_checked_def by (intro hoare_rules keeps_update) auto

lemma keeps_exec: "stable st \<Longrightarrow> keeps (holds I) k \<Longrightarrow> keeps (holds I) (exec st h k)"
  unfolding exec_def by (intro hoare_rules)

lemma keeps_in_transaction: "keeps (holds I) m \<Longrightarrow> keeps (holds I) (in_transaction what m)"
  unfolding in_transaction_def by (intro hoare_rules)

lemma keeps_Notify: "keeps (holds I) (NotifyTx c tx k)"
  unfolding NotifyTx_def by (intro hoare_rules stable_notify)

lemma keeps_insertRun: "keeps (holds I) (insertRun c x newID df input config p ps)"
  unfolding insertRun_def enqueueRunJobTx_def
  by (intro hoare_rules keeps_query_checked keeps_exec operations_keep stable_statements)

lemma keeps_Start: "keeps (holds I) (StartTx c x newID df ci input options)" "keeps (holds I) (Start c x newID df ci input options)"
  unfolding Start_def StartTx_def by (intro hoare_rules keeps_in_transaction keeps_insertRun; assumption)+

lemma keeps_lockRun: "keeps (holds I) (lockRun i)"
  unfolding lockRun_def by (intro hoare_rules stable_statements)

lemma keeps_Signal: "keeps (holds I) (SignalTx c i name cv v)" "keeps (holds I) (Signal c i name cv v)"
  unfolding Signal_def SignalTx_def lockRunToNotifyTx_def
  by (intro hoare_rules keeps_case_prod keeps_in_transaction keeps_lockRun keeps_exec operations_keep stable_statements; assumption)+

lemma keeps_wakeParent: "keeps (holds I) (wakeParentTx c p)"
  unfolding wakeParentTx_def lockRunToNotifyTx_def
  by (intro hoare_rules keeps_case_prod keeps_lockRun operations_keep)

lemma keeps_cancel_runs: "keeps (holds I) (cancel_runs c rs)"
proof (induction rs)
  case (Cons r rs)
  then show ?case unfolding cancel_runs.simps cancel_run_def
    by (intro hoare_rules keeps_case_prod keeps_exec operations_keep keeps_Notify stable_statements)
qed (simp add: hoare_return)

lemma keeps_cancelTree: "keeps (holds I) (cancelTreeTx fuel c i root)"
proof (induction fuel)
  case (Suc fuel)
  then show ?case unfolding cancelTreeTx.simps unfinishedTreeTx_def
    by (intro hoare_rules keeps_cancel_runs stable_statements)
qed (simp add: hoare_return)

lemma keeps_Cancel: "keeps (holds I) (Cancel fuel c i)"
  unfolding Cancel_def lockRunTx_def
  by (intro hoare_rules keeps_case_prod keeps_wakeParent keeps_lockRun keeps_cancelTree stable_statements)

lemma keeps_retry:
  "keeps (holds I) (retryTx fuel c x i)" "keeps (holds I) (retry_children fuel c x is)"
proof (induction fuel c x i and fuel c x "is" rule: retryTx_retry_children.induct)
  case (2 fuel c x i)
  then show ?case unfolding retryTx.simps lockRunTx_def childrenToRetryTx_def enqueueRunJobTx_def
    by (intro hoare_rules keeps_case_prod keeps_lockRun keeps_exec operations_keep stable_statements)
next
  case (4 fuel c x i "is")
  then show ?case unfolding retry_children.simps by (intro hoare_rules)
qed (auto intro: hoare_return)

lemma keeps_Retry_run: "keeps (holds I) (wf_Retry fuel c x i)"
  unfolding wf_Retry_def by (intro hoare_rules keeps_retry)

lemma keeps_GetRun: "keeps (holds I) (GetRun i)" "keeps (holds I) (RunByKey c df k)"
  unfolding GetRun_def RunByKey_def by (intro hoare_rules stable_statements; assumption)+

lemma keeps_lockTrees: "keeps (holds I) (lockTreesTx fuel roots locked)"
proof (induction fuel arbitrary: locked)
  case (Suc fuel)
  then show ?case unfolding lockTreesTx.simps by (intro hoare_rules stable_statements)
qed (simp add: hoare_return)

lemma keeps_Purge_runs: "keeps (holds I) (wf_Purge visit fuel p)"
  unfolding wf_Purge_def Let_def
  by (intro hoare_rules keeps_lockTrees stable_statements stable_delete_trees)

section \<open>Activations\<close>

lemma keeps_act_basic:
  "keeps (\<lambda>s. holds I (snd s)) get_act" "keeps (\<lambda>s. holds I (snd s)) get_world"
  "keeps (\<lambda>s. holds I (snd s)) (upd_act f)"
  by (rule hoareI; auto simp: run_act)+

lemma keeps_in_world: "keeps (holds I) m \<Longrightarrow> keeps (\<lambda>s. holds I (snd s)) (in_world m)"
  by (rule hoareI) (auto simp: run_act split: prod.splits dest: hoareD)

lemma keeps_act_deferring: "keeps (\<lambda>s. holds I (snd s)) m \<Longrightarrow> keeps (\<lambda>s. holds I (snd s)) (act_deferring_rollback m)"
  unfolding act_deferring_rollback_def by (intro hoare_rules keeps_in_world keeps_rollback)

lemma keeps_stop:
  "keeps (\<lambda>s. holds I (snd s)) (recordStop reason e)" "keeps (\<lambda>s. holds I (snd s)) (stopWith reason e)"
  "keeps (\<lambda>s. holds I (snd s)) stopState" "keeps (\<lambda>s. holds I (snd s)) interruption" "keeps (\<lambda>s. holds I (snd s)) stopped"
  "keeps (\<lambda>s. holds I (snd s)) (suspendOn wk)" "keeps (\<lambda>s. holds I (snd s)) (stepKey name)"
  "keeps (\<lambda>s. holds I (snd s)) (recorded key kind)" "keeps (\<lambda>s. holds I (snd s)) (remember key cp)"
  "keeps (\<lambda>s. holds I (snd s)) rollback_now" "keeps (\<lambda>s. holds I (snd s)) (infrastructureFailure e)"
  "keeps (\<lambda>s. holds I (snd s)) (nonDeterminism e)" "keeps (\<lambda>s. holds I (snd s)) (decodeRecorded cv key raw)"
  unfolding recordStop_def stopWith_def stopState_def interruption_def stopped_def suspendOn_def stepKey_def recorded_def
    remember_def rollback_now_def infrastructureFailure_def nonDeterminism_def decodeRecorded_def record_interruption_def
  by (intro hoare_rules keeps_case_prod keeps_act_basic keeps_in_world keeps_rollback; assumption?)+

lemmas keeps_act = keeps_act_basic keeps_stop keeps_act_deferring keeps_case_prod keeps_case_bool

lemma keeps_fencedTx: "keeps (\<lambda>s. holds I (snd s)) fencedTx"
  unfolding fencedTx_def by (intro hoare_rules keeps_act keeps_in_world stable_statements)

lemma keeps_checkpointWrite: "keeps (\<lambda>s. holds I (snd s)) m \<Longrightarrow> keeps (\<lambda>s. holds I (snd s)) (checkpointWrite m)"
  unfolding checkpointWrite_def by (intro hoare_rules keeps_act keeps_fencedTx keeps_in_world)

lemma keeps_insertCheckpoint: "(\<And>w. new_row (mk w)) \<Longrightarrow> keeps (\<lambda>s. holds I (snd s)) (insertCheckpoint key mk)"
  unfolding insertCheckpoint_def
  by (intro hoare_rules keeps_act keeps_checkpointWrite keeps_in_world stable_statements)

lemma keeps_completeCheckpoint:
  "st \<in> {StepSucceeded, StepFailed, StepTimedOut} \<Longrightarrow> keeps (\<lambda>s. holds I (snd s)) (completeCheckpoint key cp st out)"
  unfolding completeCheckpoint_def
  by (intro hoare_rules keeps_act keeps_checkpointWrite keeps_in_world keeps_exec stable_statements)

lemma keeps_attempts:
  "keeps (\<lambda>s. holds I (snd s)) (markAttemptStarted key)" "keeps (\<lambda>s. holds I (snd s)) (recordSucceededStepTx key out)"
  "keeps (\<lambda>s. holds I (snd s)) (recordFailedAttempt outside key number failure retry)"
  "keeps (\<lambda>s. holds I (snd s)) (interruptAttempt key)"
  unfolding markAttemptStarted_def recordSucceededStepTx_def recordFailedAttempt_def interruptAttempt_def
  by (intro hoare_rules keeps_act keeps_checkpointWrite keeps_in_world keeps_exec stable_statements;
      (assumption | simp add: running_attempt_def)?)+

lemma keeps_waiting: "keeps (\<lambda>s. holds I (snd s)) (waitUntil t)" "keeps (\<lambda>s. holds I (snd s)) (waitForRetry dl)"
  unfolding waitForRetry_def waitUntil_def
  by (intro hoare_rules keeps_act keeps_in_world keeps_update; (assumption | simp)?)+

lemma keeps_recorded_or_insert:
  "(\<And>a w. new_row (mk a w)) \<Longrightarrow> keeps (\<lambda>s. holds I (snd s)) (recorded_or_insert key kind mk)"
  unfolding recorded_or_insert_def by (intro hoare_rules keeps_act keeps_insertCheckpoint)

lemma keeps_sleep: "keeps (\<lambda>s. holds I (snd s)) (sleep name duration wakeAt)"
  unfolding sleep_def
  by (intro hoare_rules keeps_act keeps_recorded_or_insert keeps_completeCheckpoint new_row.intros) simp_all

lemma keeps_Receive: "keeps (\<lambda>s. holds I (snd s)) (Receive cv sig timeout)"
  unfolding Receive_def receiveSignal_def
  by (intro hoare_rules keeps_act keeps_recorded_or_insert keeps_completeCheckpoint keeps_checkpointWrite
      keeps_in_world stable_statements) simp_all

lemma keeps_startChild: "keeps (\<lambda>s. holds I (snd s)) (startChild x newID key child ci input config)"
  unfolding startChild_def
  by (intro hoare_rules keeps_act keeps_checkpointWrite keeps_in_world keeps_insertRun stable_statements)

lemma keeps_recordChild: "keeps (\<lambda>s. holds I (snd s)) (recordChildOutcome co key cp child)"
  unfolding recordChildOutcome_def Let_def
  by (cases "r_status child = RunSucceeded"; simp only: simp_thms if_True if_False prod.case;
      intro hoare_rules keeps_act keeps_checkpointWrite keeps_in_world keeps_exec stable_statements; simp)

lemma keeps_child:
  "keeps (\<lambda>s. holds I (snd s)) (Context_Start x newID name child ci input options)"
  "keeps (\<lambda>s. holds I (snd s)) (awaitChild co cv key)"
  unfolding Context_Start_def awaitChild_def
  by (intro hoare_rules keeps_act keeps_startChild keeps_recordChild keeps_in_world keeps_GetRun; assumption?)+

section \<open>The end of an activation\<close>

lemma keeps_acknowledge:
  "keeps (\<lambda>s. holds I (snd s)) acknowledgeCancellationTx" "keeps (\<lambda>s. holds I (snd s)) acknowledgeCancellation"
  unfolding acknowledgeCancellationTx_def acknowledgeCancellation_def
  by (intro hoare_rules keeps_act keeps_in_world operations_keep; assumption?)+

lemma keeps_park: "keeps (\<lambda>s. holds I (snd s)) (park replay)"
  unfolding park_def park_locked_def park_now_def anyConditionMet_def
  by (intro hoare_rules keeps_act keeps_in_world keeps_acknowledge keeps_waiting operations_keep stable_statements)

lemma keeps_release: "keeps (\<lambda>s. holds I (snd s)) release"
  unfolding release_def by (intro hoare_rules keeps_act keeps_in_world operations_keep stable_statements)

lemma keeps_finish:
  "keeps (holds I) upd \<Longrightarrow> keeps (holds I) after \<Longrightarrow> keeps (\<lambda>s. holds I (snd s)) (finish upd after)"
  unfolding finish_def finish_owned_def
  by (intro hoare_rules keeps_act keeps_in_world keeps_acknowledge keeps_wakeParent keeps_Notify operations_keep
      stable_statements)

lemma keeps_finishSucceeded: "keeps (\<lambda>s. holds I (snd s)) (finishSucceeded out)"
  unfolding finishSucceeded_def by (intro hoare_rules keeps_act keeps_finish keeps_exec stable_statements)

lemma keeps_cancel_descendants: "keeps (holds I) (cancel_descendants c i)"
  unfolding cancel_descendants_def cancelDescendantsTx_def by (intro hoare_rules keeps_cancelTree)

lemma keeps_report_failed:
  "(\<And>f info. OnRunFailed config = Some f \<Longrightarrow> keeps (holds I) (f info)) \<Longrightarrow> keeps (holds I) (report_failed config i)"
  unfolding report_failed_def by (cases "OnRunFailed config") (auto intro!: hoare_rules keeps_GetRun)

lemma keeps_finishFailed:
  assumes "\<And>f info. OnRunFailed (a_config a) = Some f \<Longrightarrow> keeps (holds I) (f info)" "holds I w"
  shows "holds I (snd (snd (run_state (finishFailed message timedOut) (a, w))))"
proof -
  have "keeps (\<lambda>s. holds I (snd s)) (finish (exec (update_runs (\<lambda>r. r_id r = a_runID a) (failed_row message timedOut)) (\<lambda>e. e)
         (cancel_descendants (a_client a) (a_runID a))) (report_failed (a_config a) (a_runID a)))"
    by (intro keeps_finish keeps_exec keeps_cancel_descendants keeps_report_failed assms(1) stable_statements)
  from keeps_run [OF this, of "(a, w)"] assms(2) show ?thesis by (simp add: finishFailed_def run_act)
qed

lemma keeps_beginActivation: "keeps (holds I) (beginActivation c df config job i)"
  unfolding beginActivation_def loadCheckpoints_def
  by (intro hoare_rules keeps_case_prod operations_keep stable_statements)

lemma keeps_failOrphanedRun: "keeps (holds I) (failOrphanedRun c i message)"
  unfolding failOrphanedRun_def
  by (intro hoare_rules keeps_wakeParent keeps_cancel_descendants keeps_Notify stable_statements)

lemma keeps_fail_orphans:
  assumes "\<And>f info. OnRunFailed config = Some f \<Longrightarrow> keeps (holds I) (f info)"
  shows "keeps (holds I) (failOrphanedRuns visit c config)"
proof -
  have report: "keeps (holds I) (report_failed config i)" for i by (rule keeps_report_failed) (rule assms)
  have "keeps (holds I) (fail_orphans c config os)" for os
  proof (induction os)
    case (Cons found os)
    then show ?case
      by (cases found) (auto intro!: hoare_rules keeps_failOrphanedRun report)
  qed (simp add: hoare_return)
  then show ?thesis unfolding failOrphanedRuns_def by (intro hoare_rules stable_statements)
qed

lemma keeps_watch_beat: "keeps (holds I) (watch_beat a tick)"
  unfolding watch_beat_def checkOwnership_def by (intro hoare_rules operations_keep stable_statements)

end

section \<open>The invariant of the workflow tables\<close>

definition run_inv :: "run \<Rightarrow> bool" where
  "run_inv r \<longleftrightarrow> 0 \<le> r_lease r \<and> (Finished (r_status r) \<longrightarrow> r_completed_at r \<noteq> None)
     \<and> (r_status r = RunSucceeded \<longrightarrow> r_output r \<noteq> None)
     \<and> (r_status r = RunFailed \<or> r_status r = RunCancelled \<longrightarrow> r_error r \<noteq> None)
     \<and> (r_wake_at r \<noteq> None \<longrightarrow> r_status r = RunWaiting)
     \<and> (r_status r = RunRunning \<longrightarrow> r_started_at r \<noteq> None \<and> 0 < r_lease r)"

definition step_inv :: "step \<Rightarrow> bool" where
  "step_inv s \<longleftrightarrow> 0 \<le> s_attempts s
     \<and> (s_status s = StepRunning \<longrightarrow> 0 < s_attempts s \<and> s_kind s = KindStep)
     \<and> (s_status s = StepRetrying \<longrightarrow> s_kind s = KindStep)
     \<and> (s_status s \<in> {StepSucceeded, StepFailed, StepTimedOut} \<longrightarrow> s_completed_at s \<noteq> None)
     \<and> (s_kind s = KindChild \<longrightarrow> s_child_run_id s \<noteq> None) \<and> (s_kind s = KindSignal \<longrightarrow> s_signal s \<noteq> None)"

definition step_id :: "step \<Rightarrow> string \<times> string" where
  "step_id s = (s_run_id s, s_name s)"

definition tables_sound :: "int \<Rightarrow> database \<Rightarrow> bool" where
  "tables_sound gs d \<longleftrightarrow> distinct (map r_id (runs d)) \<and> keys_unique (runs d) \<and> (\<forall>r \<in> set (runs d). run_inv r)
     \<and> distinct (map step_id (steps d)) \<and> (\<forall>s \<in> set (steps d). step_inv s)
     \<and> distinct (map g_id (signals d)) \<and> (\<forall>g \<in> set (signals d). g_id g < gs)"

definition wf_inv :: "int \<Rightarrow> int \<Rightarrow> database \<Rightarrow> bool" where
  "wf_inv js gs d \<longleftrightarrow> queue_inv js gs d \<and> tables_sound gs d"

lemma tables_sound_mono: "tables_sound gs d \<Longrightarrow> gs \<le> gs' \<Longrightarrow> tables_sound gs' d"
  by (force simp: tables_sound_def)

interpretation wi: db_invariant wf_inv
  by unfold_locales (auto simp: wf_inv_def intro: qi.seq_mono tables_sound_mono simp: queue_inv_def tables_sound_def)

text \<open>A statement of the queue leaves the workflow tables alone, so it keeps \<open>wf_inv\<close>.\<close>

definition queue_only :: "'a statement \<Rightarrow> bool" where
  "queue_only st \<longleftrightarrow> (\<forall>w. runs (db (snd (st w))) = runs (db w) \<and> steps (db (snd (st w))) = steps (db w)
     \<and> signals (db (snd (st w))) = signals (db w) \<and> signal_seq (snd (st w)) = signal_seq w)"

lemma queue_only_stable: "qi.stable st \<Longrightarrow> queue_only st \<Longrightarrow> wi.stable st"
  by (auto simp: qi.stable_def wi.stable_def wf_inv_def queue_only_def tables_sound_def Let_def)

lemma queue_only_on_db:
  "(\<And>n d. runs (snd (f n d)) = runs d \<and> steps (snd (f n d)) = steps d \<and> signals (snd (f n d)) = signals d) \<Longrightarrow>
   queue_only (on_db f)"
  by (simp add: queue_only_def on_db_def split_beta)

lemma queue_only_statements:
  "queue_only (insert_job q p m avail tr)" "queue_only (claim_next q worker)"
  "queue_only (on_db (\<lambda>n. update_jobs P (f n)))" "queue_only (on_db (\<lambda>n. update_jobs_notify R (h n)))"
  "queue_only (on_db (reap_requeue rp))" "queue_only (on_db (reap_fail rp))" "queue_only (on_db (snooze_rows mine until))"
  "queue_only (on_db (wake_rows i))" "queue_only (on_db (\<lambda>n. delete_jobs (D n)))" "queue_only (on_db (purge_rows pp))"
  by ((rule queue_only_on_db)?, simp add: queue_only_def insert_job_def claim_next_def update_jobs_def update_jobs_notify_def
      reap_requeue_def reap_fail_def snooze_rows_def wake_rows_def delete_jobs_def purge_rows_def Let_def split: option.splits)+

interpretation wj: jobs_invariant wf_inv
  by unfold_locales
    (rule queue_only_stable, (rule qj.statement_ok; assumption), rule queue_only_statements)+

text \<open>The workflow's own statements, row by row.\<close>

lemma run_update_inv: "run_update P f \<Longrightarrow> run_inv r \<Longrightarrow> run_inv (f n r)"
  by (erule run_update.cases) (auto simp: run_inv_def cancel_row_def reset_run_def park_row_def succeed_row_def failed_row_def
      orphan_fail_row_def activate_row_def Finished_def split: option.splits)

lemma run_update_identity:
  "run_update P f \<Longrightarrow> r_id (f n r) = r_id r \<and> r_workflow (f n r) = r_workflow r \<and> r_key (f n r) = r_key r"
  by (erule run_update.cases) (auto simp: cancel_row_def reset_run_def park_row_def succeed_row_def failed_row_def
      orphan_fail_row_def activate_row_def)

lemma step_update_inv: "step_update P f \<Longrightarrow> P s \<Longrightarrow> step_inv s \<Longrightarrow> step_inv (f n s)"
  by (erule step_update.cases) (auto simp: step_inv_def touch_step_def complete_row_def succeed_step_row_def fail_step_row_def
      child_outcome_row_def reset_child_step_def retry_step_row_def hand_back_row_def)

lemma step_update_identity: "step_update P f \<Longrightarrow> step_id (f n s) = step_id s"
  by (erule step_update.cases) (auto simp: step_id_def touch_step_def complete_row_def succeed_step_row_def fail_step_row_def
      child_outcome_row_def reset_child_step_def retry_step_row_def hand_back_row_def)

lemma new_row_inv: "new_row s \<Longrightarrow> step_inv s"
  by (erule new_row.cases) (auto simp: step_inv_def sleep_step_def receive_step_def child_step_def new_step_def)

lemma keys_unique_upd:
  assumes "\<And>r. r_id (f r) = r_id r \<and> r_workflow (f r) = r_workflow r \<and> r_key (f r) = r_key r" "keys_unique rows"
  shows "keys_unique (upd_where P f rows)"
proof -
  define g where "g r = (if P r then f r else r)" for r
  have "with_key nm k (g r) = with_key nm k r" "r_id (g r) = r_id r" for nm k r
    using assms(1) by (simp_all add: g_def with_key_def)
  moreover have "upd_where P f rows = map g rows" by (simp add: upd_where_def g_def)
  ultimately show ?thesis using assms(2) by (simp add: keys_unique_def)
qed

lemma keys_unique_snoc:
  assumes "keys_unique rows" "\<And>nm k q. with_key nm k r \<Longrightarrow> q \<in> set rows \<Longrightarrow> \<not> with_key nm k q"
  shows "keys_unique (rows @ [r])"
  unfolding keys_unique_def
proof (intro allI ballI impI)
  fix nm k p q
  assume "p \<in> set (rows @ [r])" "q \<in> set (rows @ [r])" "with_key nm k p \<and> with_key nm k q"
  then show "r_id p = r_id q" using assms(2) keys_uniqueD [OF assms(1), of p q nm k] by auto
qed

lemma runs_sound:
  assumes "run_update P f" "tables_sound gs d"
  shows "tables_sound gs (d\<lparr>runs := upd_where P (f n) (runs d)\<rparr>)"
  using assms(2) run_update_inv [OF assms(1)] keys_unique_upd [of "f n" "runs d" P] run_update_identity [OF assms(1)]
  by (auto simp: tables_sound_def map_upd_where set_upd_where)

lemma steps_sound:
  assumes "step_update P f" "tables_sound gs d"
  shows "tables_sound gs (d\<lparr>steps := upd_where P (f n) (steps d)\<rparr>)"
  using assms(2) step_update_inv [OF assms(1)] step_update_identity [OF assms(1)]
  by (auto simp: tables_sound_def map_upd_where set_upd_where)

lemma insert_run_sound: "wi.stable (insert_run_row (new_run i df input config p ps))"
proof -
  have "tables_sound gs (d\<lparr>runs := runs d @ [r]\<rparr>)"
    if "tables_sound gs d" "r = new_run i df input config p ps n" "\<not> list_ex (same_key r) (runs d)" "r_id r \<notin> r_id ` set (runs d)"
    for gs d r n
  proof -
    have "run_inv r" by (simp add: that(2) run_inv_def new_run_def Finished_def)
    moreover have "keys_unique (runs d @ [r])"
      by (rule keys_unique_snoc) (use that(1,3) in \<open>auto simp: tables_sound_def list_ex_iff same_key_def with_key_def\<close>)
    ultimately show ?thesis using that(1,4) by (simp add: tables_sound_def)
  qed
  then show ?thesis
    by (auto simp: wi.stable_def insert_run_row_def Let_def wf_inv_def queue_inv_def)
qed

lemma insert_step_sound:
  assumes "new_row s" "\<not> (\<exists>t \<in> set (steps d). at_step (s_run_id s) (s_name s) t)" "tables_sound gs d"
  shows "tables_sound gs (d\<lparr>steps := steps d @ [s]\<rparr>)"
  using assms(2,3) new_row_inv [OF assms(1)] by (auto simp: tables_sound_def step_id_def at_step_def)

text \<open>The step to try again is the only one with its name, and it is running or waiting to be retried.\<close>

lemma attempt_sound:
  "wi.stable (upsert_step (\<lambda>w. (new_step i key KindStep StepRunning w)\<lparr>s_attempts := 1\<rparr>)
     (\<lambda>s. s_status s = StepRunning \<or> s_status s = StepRetrying) start_attempt_row (\<lambda>_. s_attempts))"
proof -
  have again: "tables_sound gs (d\<lparr>steps := upd_where (at_step i key) (start_attempt_row n) (steps d)\<rparr>)"
    if "tables_sound gs d" "find (at_step i key) (steps d) = Some t" "s_status t = StepRunning \<or> s_status t = StepRetrying" for gs d n t
  proof -
    have t: "t \<in> set (steps d)" "at_step i key t" using that(2) by (auto dest: find_SomeD)
    have "s = t" if "s \<in> set (steps d)" "at_step i key s" for s
      using that t \<open>tables_sound gs d\<close> by (auto simp: tables_sound_def distinct_map inj_on_def step_id_def at_step_def)
    moreover have "step_inv (start_attempt_row n t)"
      using t(1) that(1,3) by (auto simp: tables_sound_def step_inv_def start_attempt_row_def)
    moreover have "step_id (start_attempt_row n s) = step_id s" for s by (simp add: step_id_def start_attempt_row_def)
    ultimately show ?thesis using that(1) by (auto simp: tables_sound_def map_upd_where set_upd_where)
  qed
  have new: "tables_sound gs (d\<lparr>steps := steps d @ [s]\<rparr>)"
    if "tables_sound gs d" "find (at_step i key) (steps d) = None" "s = (new_step i key KindStep StepRunning w)\<lparr>s_attempts := 1\<rparr>" for gs d s w
  proof (rule insert_step_sound)
    show "new_row s" unfolding that(3) by (rule new_row.intros)
  qed (use that in \<open>auto simp: find_None_iff new_step_def\<close>)
  show ?thesis
    by (auto simp: wi.stable_def upsert_step_def Let_def wf_inv_def queue_inv_def new_step_def split: option.splits
        intro: again new [unfolded new_step_def])
qed

lemma insert_signal_sound: "wi.stable (insert_signal i name payload)"
  by (auto simp: wi.stable_def insert_signal_def Let_def wf_inv_def queue_inv_def tables_sound_def)

interpretation wf: workflow_invariant wf_inv
proof unfold_locales
  show "wf_inv js gs (d\<lparr>signals := upd_where G (\<lambda>h. h\<lparr>g_received_by := k\<rparr>) (signals d)\<rparr>)" if "wf_inv js gs d" for js gs d G k
    using that by (auto simp: wf_inv_def queue_inv_def tables_sound_def map_upd_where set_upd_where)
  show "wf_inv js gs (delete_runs dead d)" if "wf_inv js gs d" for js gs d dead
    using that by (auto simp: wf_inv_def queue_inv_def tables_sound_def delete_runs_def distinct_map_del_where keys_unique_def)
  show "wf_inv js gs (d\<lparr>steps := del_where R (steps d)\<rparr>)" if "wf_inv js gs d" for js gs d R
    using that by (auto simp: wf_inv_def queue_inv_def tables_sound_def distinct_map_del_where)
qed (auto simp: wf_inv_def queue_inv_def intro: runs_sound steps_sound insert_step_sound
    insert_run_sound attempt_sound insert_signal_sound)

section \<open>Reachable states of the workflow package\<close>

text \<open>
  What a client or a worker does to the tables, one operation at a time: queue calls (with begin, commit
  and rollback), client calls, taking a run over, the durable operations of a run's function and the ways
  an activation ends, reconciliation. An activation is any record, also one that is long superseded; the
  parts of a step's attempt are operations of their own, so that other calls come in between.
\<close>

datatype workflow_call =
    CallStart wf_client ctx "string result" wf_definition "string codec" string "start_option list"
  | CallStartTx wf_client ctx "string result" wf_definition "string codec" string "start_option list"
  | CallSignal wf_client string string "string codec" string
  | CallSignalTx wf_client string string "string codec" string
  | CallCancel nat wf_client string
  | CallRetry nat wf_client ctx string
  | CallPurge "run list \<Rightarrow> run list" nat wf_purge_params
  | CallBegin wf_client wf_definition wf_worker_config job string
  | CallReconcile "run list \<Rightarrow> run list" wf_client wf_worker_config
  | CallWatch activation bool

fun workflow_io :: "workflow_call \<Rightarrow> unit io" where
  "workflow_io (CallStart c x newID df ci input options) = do { Start c x newID df ci input options; State_Monad.return () }"
| "workflow_io (CallStartTx c x newID df ci input options) = do { StartTx c x newID df ci input options; State_Monad.return () }"
| "workflow_io (CallSignal c i name cv v) = do { Signal c i name cv v; State_Monad.return () }"
| "workflow_io (CallSignalTx c i name cv v) = do { SignalTx c i name cv v; State_Monad.return () }"
| "workflow_io (CallCancel fuel c i) = do { Cancel fuel c i; State_Monad.return () }"
| "workflow_io (CallRetry fuel c x i) = do { wf_Retry fuel c x i; State_Monad.return () }"
| "workflow_io (CallPurge visit fuel p) = do { wf_Purge visit fuel p; State_Monad.return () }"
| "workflow_io (CallBegin c df config job i) = do { beginActivation c df config job i; State_Monad.return () }"
| "workflow_io (CallReconcile visit c config) = do { failOrphanedRuns visit c config; State_Monad.return () }"
| "workflow_io (CallWatch a tick) = do { watch_beat a tick; State_Monad.return () }"

datatype durable_call =
    ActAttempt string | ActSucceeded string string | ActSucceededTx string string
  | ActFailed int string int err retry_policy | ActInterrupted string | ActFence
  | ActSleep string int "int option" | ActReceive "string codec" string int
  | ActStartChild ctx "string result" string wf_definition "string codec" string "start_option list"
  | ActAwaitChild "child_outcome codec" "string codec" string
  | ActPark nat | ActRelease | ActAcknowledge | ActFinish string | ActFinishFailed string bool

fun durable_io :: "durable_call \<Rightarrow> unit act" where
  "durable_io (ActAttempt key) = do { markAttemptStarted key; State_Monad.return () }"
| "durable_io (ActSucceeded key out) = do { checkpointWrite (recordSucceededStepTx key out); State_Monad.return () }"
| "durable_io (ActSucceededTx key out) = do { recordSucceededStepTx key out; State_Monad.return () }"
| "durable_io (ActFailed outside key number failure retry) =
     do { recordFailedAttempt outside key number failure retry; State_Monad.return () }"
| "durable_io (ActInterrupted key) = do { interruptAttempt key; State_Monad.return () }"
| "durable_io ActFence = do { fencedTx; State_Monad.return () }"
| "durable_io (ActSleep name duration wakeAt) = do { sleep name duration wakeAt; State_Monad.return () }"
| "durable_io (ActReceive cv sig timeout) = do { Receive cv sig timeout; State_Monad.return () }"
| "durable_io (ActStartChild x newID name child ci input options) =
     do { Context_Start x newID name child ci input options; State_Monad.return () }"
| "durable_io (ActAwaitChild co cv key) = do { awaitChild co cv key; State_Monad.return () }"
| "durable_io (ActPark replay) = do { park replay; State_Monad.return () }"
| "durable_io ActRelease = do { release; State_Monad.return () }"
| "durable_io ActAcknowledge = do { acknowledgeCancellation; State_Monad.return () }"
| "durable_io (ActFinish out) = do { finishSucceeded out; State_Monad.return () }"
| "durable_io (ActFinishFailed message timedOut) = do { finishFailed message timedOut; State_Monad.return () }"

text \<open>The application's callback \<open>OnRunFailed\<close> may do what it likes as long as it keeps the tables sound.\<close>

definition polite :: "wf_worker_config \<Rightarrow> bool" where
  "polite config \<longleftrightarrow> (\<forall>f info. OnRunFailed config = Some f \<longrightarrow> keeps (holds wf_inv) (f info))"

fun callback_polite :: "workflow_call \<Rightarrow> bool" where
  "callback_polite (CallReconcile visit c config) = polite config"
| "callback_polite _ = True"

inductive wf_reachable :: "world \<Rightarrow> bool" where
  wf_initial: "wf_reachable initial_world"
| wf_queue: "wf_reachable w \<Longrightarrow> wf_reachable (perform k w)"
| wf_call: "wf_reachable w \<Longrightarrow> callback_polite c \<Longrightarrow> wf_reachable (snd (run_state (workflow_io c) w))"
| wf_durable: "wf_reachable w \<Longrightarrow> polite (a_config a) \<Longrightarrow> wf_reachable (snd (snd (run_state (durable_io k) (a, w))))"

lemma workflow_io_keeps: "callback_polite k \<Longrightarrow> keeps (holds wf_inv) (workflow_io k)"
  by (cases k) (auto intro!: keeps_bind hoare_return wf.keeps_Start wf.keeps_Signal wf.keeps_Cancel wf.keeps_Retry_run wf.keeps_Purge_runs
      wf.keeps_beginActivation wf.keeps_fail_orphans wf.keeps_watch_beat simp: polite_def)

lemma durable_io_keeps:
  assumes "polite (a_config a)" "holds wf_inv w"
  shows "holds wf_inv (snd (snd (run_state (durable_io k) (a, w))))"
proof (cases "\<exists>message timedOut. k = ActFinishFailed message timedOut")
  case True
  then obtain message timedOut where k: "k = ActFinishFailed message timedOut" by blast
  from wf.keeps_finishFailed [of a w message timedOut] assms show ?thesis
    by (auto simp: k polite_def run_simps split: prod.splits)
next
  case False
  then have "keeps (\<lambda>s. holds wf_inv (snd s)) (durable_io k)"
    by (cases k) (auto intro!: keeps_bind hoare_return wf.keeps_attempts wf.keeps_checkpointWrite wf.keeps_fencedTx wf.keeps_sleep
        wf.keeps_Receive wf.keeps_child wf.keeps_park wf.keeps_release wf.keeps_acknowledge wf.keeps_finishSucceeded)
  from keeps_run [OF this, of "(a, w)"] assms(2) show ?thesis by simp
qed

text \<open>
  C3. The workflow tables stay sound. In every state that any sequence of queue calls, client calls,
  operations of any activations (current or superseded), reconciliations, failures and rollbacks reaches,
  run ids, the keys of a workflow, the step names of a run and signal ids are unique; a finished run has a
  completion time, a succeeded one an output, a failed or cancelled one an error, a running one a start
  and a positive lease, and only a waiting run a wake time; a running step has counted an attempt, only
  steps are retried, a settled step has a completion time, and a child or signal step names its child or
  signal. The jobs table is sound as well.
\<close>

theorem workflow_tables_sound:
  assumes "wf_reachable w"
  shows "tables_sound (signal_seq w) (db w) \<and> queue_inv (job_seq w) (signal_seq w) (db w)"
proof -
  from assms have "holds wf_inv w"
  proof induction
    case wf_initial
    show ?case by (simp add: holds_def wf_inv_def queue_inv_def tables_sound_def keys_unique_def initial_world_def empty_database_def)
  next
    case (wf_queue w k)
    then show ?case by (blast intro: wj.perform_keeps)
  next
    case (wf_call w c)
    then show ?case by (blast intro: keeps_run workflow_io_keeps)
  next
    case (wf_durable w a k)
    then show ?case by (blast intro: durable_io_keeps)
  qed
  then show ?thesis by (simp add: holds_def wf_inv_def)
qed

definition sample_call :: workflow_call where
  "sample_call = CallStart sample_wf_client background (Inr ''r7'') sample_def text_codec ''1'' [StartKey ''k'']"

theorem workflow_tables_sound_witness:
  "wf_reachable (snd (run_state (workflow_io sample_call) initial_world))
   \<and> list_all run_inv (runs (db (snd (run_state (workflow_io sample_call) initial_world))))"
proof -
  have reach: "wf_reachable (snd (run_state (workflow_io sample_call) initial_world))"
    by (intro wf_reachable.wf_call wf_reachable.wf_initial) (simp add: sample_call_def)
  from workflow_tables_sound [OF this] reach show ?thesis by (simp add: tables_sound_def list_all_iff)
qed

end
