(* ===== verification/Admin_Properties.thy ===== *)
theory Admin_Properties
  imports Admin_Ui Dashboard_Properties Workflow_Invariants
begin

text \<open>
  What guards the admin interface: it is an instance of \<open>guarded_site\<close>, its requests keep every table
  invariant that the queue's and the workflows' operations keep, and its error answers tell nothing of
  the server's errors.
\<close>

section \<open>Reading handlers\<close>

context db_invariant
begin

lemma stable_select_run: "stable (select_run P f)"
  by (auto simp: stable_def select_run_def Let_def)

lemma keeps_answer_json: "keeps (holds I) m \<Longrightarrow> keeps (holds I) (answer_json m)"
  unfolding answer_json_def by (intro hoare_rules)

lemma keeps_withSnapshot: "keeps (holds I) m \<Longrightarrow> keeps (holds I) (withSnapshot m)"
  unfolding withSnapshot_def by (intro hoare_rules)

lemma keeps_admin_queries:
  "keeps (holds I) queryNow" "keeps (holds I) (queryQueueJob i)" "keeps (holds I) queryQueueCounts"
  "keeps (holds I) (queryQueueThroughput tw)" "keeps (holds I) (queryQueueJobPreviews status limit)"
  "keeps (holds I) queryQueueBreakdown" "keeps (holds I) (queryAdvisoryLockSessions v)"
  "keeps (holds I) (queryRunSummaries sel)" "keeps (holds I) queryWorkflowSummaries" "keeps (holds I) (queryRunJobID runID)"
  "keeps (holds I) (queryChildTotal runID)" "keeps (holds I) (queryRunAncestors runID)" "keeps (holds I) (queryRunSignals runID)"
  "keeps (holds I) (queryRunTree runID)" "keeps (holds I) queryWorkflowCounts" "keeps (holds I) (queryWorkflowThroughput tw)"
  "keeps (holds I) (GetRun runID)" "keeps (holds I) (ListSteps runID)" "keeps (holds I) (ListRuns lp)" "keeps (holds I) (CountRuns lp)"
  unfolding queryNow_def queryQueueJob_def queryQueueCounts_def queryAdvisoryLockCount_def queryQueueThroughput_def
    queryQueueJobPreviews_def queryQueueBreakdown_def queryAdvisoryLockSessions_def queryRunSummaries_def queryWorkflowSummaries_def
    queryRunJobID_def queryChildTotal_def queryRunAncestors_def queryRunSignals_def queryRunTree_def queryWorkflowCounts_def
    queryWorkflowThroughput_def GetRun_def ListSteps_def ListRuns_def CountRuns_def
  by (intro hoare_rules stable_reading stable_select_run; assumption?)+

lemma keeps_admin_builds:
  "keeps (holds I) buildQueueSummary" "keeps (holds I) (queryQueueOverview tw)" "keeps (holds I) (queryWorkflowOverview tw)"
  "keeps (holds I) (buildOverview u tw)" "keeps (holds I) (buildQueueJobs u p)" "keeps (holds I) (buildWorkflowRuns lp)"
  "keeps (holds I) (ListAdvisoryLocks pid c)" "keeps (holds I) (queryRunList f pg)" "keeps (holds I) (fillRunDetail runID)"
  unfolding buildQueueSummary_def queryQueueOverview_def queryWorkflowOverview_def buildOverview_def buildQueueJobs_def
    buildWorkflowRuns_def ListAdvisoryLocks_def queryRunList_def fillRunDetail_def
  by (intro hoare_rules keeps_admin_queries keeps_listing stable_reading; assumption?)+

lemma keeps_admin_reads: "(ps, h) \<in> set (admin_reads v u) \<Longrightarrow> keeps (holds I) (h i r)"
  unfolding admin_reads_def
  by (auto simp: handleConfig_def handleOverview_def handleSnapshot_def handleQueueSummary_def handleQueueQueues_def
      handleQueueJobs_def handleQueueJob_def handleQueueLocks_def handleLocks_def handleWorkflowWorkflows_def
      handleWorkflowRuns_def handleWorkflowRun_def handleWorkflowRunTree_def buildWorkflowRunDetail_def
      split: option.split sum.split
      intro!: hoare_rules keeps_answer_json keeps_withSnapshot keeps_admin_queries keeps_admin_builds)

lemma keeps_admin_files: "(ps, h) \<in> set (admin_files v mime gz) \<Longrightarrow> keeps (holds I) (h i r)"
  unfolding admin_files_def by (auto simp: handleSPA_def handleAsset_def intro!: hoare_return)

end

section \<open>The guards\<close>

definition admin_trusted :: "admin_env \<Rightarrow> request \<Rightarrow> bool" where
  "admin_trusted v r \<longleftrightarrow> get_value (rq_headers r) ''X-Requested-With'' = ''pgkit-admin-ui''
     \<or> (\<exists>host. ae_url_host v (get_value (rq_headers r) ''Origin'') = Some host \<and> host \<noteq> [] \<and> to_lower host = to_lower (rq_host r))"

lemma admin_token_refuses: "\<not> has_token (ui_token u) r \<Longrightarrow> refuses (admin_requireToken u h i r)"
  by (auto simp: admin_requireToken_def has_token_def with_header_def split: option.splits)

lemma admin_csrf_refuses: "\<not> admin_trusted v r \<Longrightarrow> refuses (admin_requireToken u (admin_requireCSRF v h) i r)"
  by (auto simp: admin_requireToken_def admin_requireCSRF_def admin_trusted_def sameOrigin_def with_header_def writeError_def
      writeJSON_def Let_def split: option.splits)

lemma admin_token_keeps: "keeps J (h i r) \<Longrightarrow> keeps J (admin_requireToken u h i r)"
  by (auto simp: admin_requireToken_def split: option.splits intro: hoare_return)

lemma admin_csrf_keeps: "keeps J (h i r) \<Longrightarrow> keeps J (admin_requireCSRF v h i r)"
  by (auto simp: admin_requireCSRF_def intro: hoare_return)

lemma admin_writes_methods: "(m, ps, h) \<in> set (admin_writes fuel v u) \<Longrightarrow> m = ''POST'' \<or> m = ''DELETE''"
  by (auto simp: admin_writes_def)

interpretation au: guarded_site "admin_routes fuel v mime gz u" "has_token (ui_token u)" "admin_trusted v" for fuel v mime gz u
proof unfold_locales
  fix m ps h r i
  assume route: "(m, ps, h) \<in> set (admin_routes fuel v mime gz u)"
  show "refuses (h i r)" if "\<not> has_token (ui_token u) r"
    using route admin_token_refuses [OF that] by (auto simp: admin_routes_def split: if_splits)
  show "refuses (h i r)" if "m \<noteq> ''GET''" "\<not> admin_trusted v r"
    using route admin_csrf_refuses [OF that(2)] that(1) by (auto simp: admin_routes_def split: if_splits)
next
  fix ps h I i r
  assume route: "(''GET'', ps, h) \<in> set (admin_routes fuel v mime gz u)" and I: "db_invariant I"
  then show "keeps (holds I) (h i r)"
    by (auto simp: admin_routes_def split: if_splits dest: admin_writes_methods
        intro!: admin_token_keeps intro: db_invariant.keeps_admin_reads db_invariant.keeps_admin_files)
qed

context workflow_invariant
begin

lemma keeps_admin_writes: "(m, ps, h) \<in> set (admin_writes fuel v u) \<Longrightarrow> keeps (holds I) (h i r)"
  unfolding admin_writes_def
  by (auto simp: handleEnqueueJob_def admin_handleReplayJob_def admin_handleDeleteJob_def handleRetryWorkflowRun_def
      handleCancelWorkflowRun_def mutateWorkflowRun_def Let_def split: option.split sum.split
      intro!: hoare_rules keeps_get operations_keep keeps_Retry_run keeps_Cancel keeps_admin_queries)

lemma admin_keeps: "keeps (holds I) (ServeHTTP (admin_routes fuel v mime gz u) r)"
  by (rule ServeHTTP_rule)
    (auto simp: admin_routes_def split: if_splits
      intro!: admin_token_keeps admin_csrf_keeps intro: keeps_admin_writes keeps_admin_reads keeps_admin_files)

end

lemma run_withNoSniff:
  "run_state (withNoSniff m) w = (rs, w') \<Longrightarrow> \<exists>rs0. run_state m w = (rs0, w') \<and> rs = with_header (''X-Content-Type-Options'', ''nosniff'') rs0"
  by (auto simp: withNoSniff_def run_simps split: prod.splits)

lemma admin_disabled_reads:
  assumes "\<not> ui_enableMutations u" "db_invariant I"
  shows "keeps (holds I) (ServeHTTP (admin_routes fuel v mime gz u) r)"
  by (rule ServeHTTP_rule)
    (use assms in \<open>auto simp: admin_routes_def intro!: admin_token_keeps
      intro: db_invariant.keeps_admin_reads db_invariant.keeps_admin_files\<close>)

text \<open>
  C30. The admin interface is guarded. A request without the token does nothing at all and is answered
  with a status of at least 300. A request that changes the tables carried the token, was neither \<open>GET\<close>
  nor \<open>HEAD\<close>, and carried the interface's own header or came from an origin whose parsed host is this
  host up to case; and mutations are enabled. Every request keeps the tables of the queue and the
  workflows sound, whatever calls fail.
\<close>

theorem admin_guarded:
  assumes "snapshot w = None" "run_state (admin_Handler fuel v mime gz u r) w = (rs, w')"
  shows "(\<not> has_token (ui_token u) r \<longrightarrow> w' = w \<and> 300 \<le> rs_status rs)
     \<and> (sent (db w') \<noteq> sent (db w) \<longrightarrow> has_token (ui_token u) r \<and> admin_trusted v r \<and> ui_enableMutations u
         \<and> rq_method r \<noteq> ''GET'' \<and> rq_method r \<noteq> ''HEAD'')
     \<and> (wf_inv (job_seq w) (signal_seq w) (db w) \<longrightarrow> wf_inv (job_seq w') (signal_seq w') (db w'))"
proof -
  obtain rs0 where run: "run_state (ServeHTTP (admin_routes fuel v mime gz u) r) w = (rs0, w')"
    and rs: "rs_status rs = rs_status rs0"
    using run_withNoSniff [OF assms(2) [unfolded admin_Handler_def]] by (auto simp: with_header_def)
  have "w' = w \<and> 300 \<le> rs_status rs" if "\<not> has_token (ui_token u) r"
    using au.shut_site [OF that, of fuel v mime gz] run rs by (auto simp: refuses_def)
  moreover have head: "''HEAD'' \<notin> fst ` set (admin_routes fuel v mime gz u)"
    by (auto simp: admin_routes_def dest: admin_writes_methods)
  have "has_token (ui_token u) r \<and> admin_trusted v r \<and> ui_enableMutations u \<and> rq_method r \<noteq> ''GET'' \<and> rq_method r \<noteq> ''HEAD''"
    if changed: "sent (db w') \<noteq> sent (db w)"
  proof -
    have "holds (tables_are (sent (db w))) w" using assms(1) by (simp add: holds_def tables_are_def)
    then have "ui_enableMutations u"
      using hoareD [OF admin_disabled_reads [OF _ ta.db_invariant_axioms] _ run] changed
      by (auto simp: holds_def tables_are_def)
    with au.change_needs [OF run assms(1) head changed] show ?thesis by blast
  qed
  moreover have "wf_inv (job_seq w') (signal_seq w') (db w')" if "wf_inv (job_seq w) (signal_seq w) (db w)"
    using hoareD [OF wf.admin_keeps _ run] assms(1) that by (simp add: holds_def)
  ultimately show ?thesis by blast
qed

section \<open>What errors tell\<close>

text \<open>A response tells nothing of a server error beyond that there was one.\<close>

definition opaque :: "response \<Rightarrow> bool" where
  "opaque rs \<longleftrightarrow> (500 \<le> rs_status rs \<longrightarrow> rs_status rs = 500 \<and> rs_body rs = Json (JObj [(''error'', JStr ''Internal Server Error'')]))"

lemma opaque_answers [simp]:
  "opaque (writeError 500 e)" "status < 500 \<Longrightarrow> opaque (writeError status e)" "status < 500 \<Longrightarrow> opaque (writeJSON status v)"
  "code < 500 \<Longrightarrow> opaque (http_Error message code)" "opaque (writeWorkflowError e)" "opaque (writeJobMutationError e m)"
  "opaque (with_header f rs) = opaque rs" "opaque no_answer" "opaque http_NotFound"
  "opaque \<lparr>rs_status = 204, rs_headers = hs, rs_body = b\<rparr>"
  by (simp_all add: opaque_def writeError_def writeJSON_def http_Error_def writeWorkflowError_def writeJobMutationError_def
      with_header_def no_answer_def http_NotFound_def)

lemma opaque_file: "opaque (serve_file v mime gz name cc r)"
  by (simp add: serve_file_def Let_def opaque_def http_NotFound_def split: option.split)

lemma yields_answer_json: "yields (answer_json m) opaque"
  unfolding answer_json_def by (intro hoare_rules) simp_all

lemma admin_reads_opaque: "(ps, h) \<in> set (admin_reads v u) \<Longrightarrow> yields (h i r) opaque"
  unfolding admin_reads_def
  by (auto simp: handleConfig_def handleOverview_def handleSnapshot_def handleQueueSummary_def handleQueueQueues_def
      handleQueueJobs_def handleQueueJob_def handleQueueLocks_def handleLocks_def handleWorkflowWorkflows_def
      handleWorkflowRuns_def handleWorkflowRun_def handleWorkflowRunTree_def
      split: option.split sum.split intro!: yields_return yields_attempt yields_answer_json)

lemma admin_writes_opaque: "(m, ps, h) \<in> set (admin_writes fuel v u) \<Longrightarrow> yields (h i r) opaque"
  unfolding admin_writes_def
  by (auto simp: handleEnqueueJob_def admin_handleReplayJob_def admin_handleDeleteJob_def handleRetryWorkflowRun_def
      handleCancelWorkflowRun_def mutateWorkflowRun_def Let_def split: option.split sum.split
      intro!: yields_return yields_bind yields_attempt)

lemma admin_token_opaque: "yields (h i r) opaque \<Longrightarrow> yields (admin_requireToken u h i r) opaque"
  by (auto simp: admin_requireToken_def split: option.split intro!: yields_return)

lemma admin_csrf_opaque: "yields (h i r) opaque \<Longrightarrow> yields (admin_requireCSRF v h i r) opaque"
  by (auto simp: admin_requireCSRF_def intro!: yields_return)

lemma ServeHTTP_opaque: "yields (ServeHTTP (admin_routes fuel v mime gz u) r) opaque"
  by (rule ServeHTTP_rule)
    (auto simp: admin_routes_def admin_files_def handleSPA_def handleAsset_def opaque_file split: if_splits
      intro!: admin_token_opaque admin_csrf_opaque yields_return intro: admin_reads_opaque admin_writes_opaque)

text \<open>
  The admin interface keeps server errors to itself. Whatever a request asks for and whatever the
  database answers, the only server error in a response is 500 with the fixed text of that status: no
  database error, query or value reaches the client.
\<close>

theorem admin_errors_opaque:
  assumes "run_state (admin_Handler fuel v mime gz u r) w = (rs, w')" "500 \<le> rs_status rs"
  shows "rs_status rs = 500 \<and> rs_body rs = Json (JObj [(''error'', JStr ''Internal Server Error'')])"
proof -
  obtain rs0 where "run_state (ServeHTTP (admin_routes fuel v mime gz u) r) w = (rs0, w')"
    and rs: "rs = with_header (''X-Content-Type-Options'', ''nosniff'') rs0"
    using run_withNoSniff [OF assms(1) [unfolded admin_Handler_def]] by blast
  then have "opaque rs" using yields_run [OF ServeHTTP_opaque] by simp
  with assms(2) show ?thesis by (simp add: opaque_def)
qed

section \<open>Samples\<close>

definition sample_admin_env :: admin_env where
  "sample_admin_env = \<lparr>ae_url_host = \<lambda>s. Some (drop 7 s), ae_json_valid = \<lambda>_. False, ae_decode = \<lambda>_. None,
     ae_run_id = \<lambda>_. None, ae_pid = \<lambda>_. 0, ae_activity = \<lambda>_. None, ae_file = \<lambda>_. None\<rparr>"

definition sample_ui :: admin_ui where
  "sample_ui = \<lparr>ui_queue = Some sample_client, ui_workflow = Some sample_wf_client, ui_token = ''secret'', ui_enableMutations = True, ui_listLimit = 20\<rparr>"

definition sample_admin :: "request \<Rightarrow> response io" where
  "sample_admin = admin_Handler 2 sample_admin_env (\<lambda>_. []) (\<lambda>_. None) sample_ui"

definition admin_delete :: request where
  "admin_delete = (sample_request ''DELETE'' [''api'', ''dashboard'', ''queue'', ''jobs'', ''2''])\<lparr>rq_headers := [(''Origin'', ''http://ADMIN:80'')]\<rparr>"

lemma admin_delete_run:
  "rs_status (fst (run_state (sample_admin admin_delete) listed_world)) = 204"
  "map ID (jobs (sent (db (snd (run_state (sample_admin admin_delete) listed_world))))) = [1, 3, 4, 5]"
  by code_simp+

theorem admin_guarded_witness:
  "\<exists>rs w'. run_state (sample_admin admin_delete) listed_world = (rs, w') \<and> sent (db w') \<noteq> sent (db listed_world)
     \<and> has_token ''secret'' admin_delete \<and> admin_trusted sample_admin_env admin_delete"
proof -
  obtain rs w' where run: "run_state (sample_admin admin_delete) listed_world = (rs, w')"
    by (cases "run_state (sample_admin admin_delete) listed_world")
  have "map ID (jobs (sent (db w'))) \<noteq> map ID (jobs (sent (db listed_world)))"
    using admin_delete_run(2) run by (simp add: listed_world_def new_job_def)
  then have changed: "sent (db w') \<noteq> sent (db listed_world)" by metis
  have "snapshot listed_world = None" by (simp add: listed_world_def initial_world_def)
  from admin_guarded [OF this run [unfolded sample_admin_def]] changed run show ?thesis by (auto simp: sample_ui_def)
qed

text \<open>A listing whose query fails with a server error.\<close>

definition failing_world :: world where
  "failing_world = initial_world\<lparr>script := [(0, FailsBefore (ServerError ''42P01'' ''relation does not exist''))]\<rparr>"

definition admin_list :: request where
  "admin_list = sample_request ''GET'' [''api'', ''dashboard'', ''queue'', ''summary'']"

lemma admin_list_run: "rs_status (fst (run_state (sample_admin admin_list) failing_world)) = 500"
  by code_simp

theorem admin_errors_opaque_witness:
  "rs_body (fst (run_state (sample_admin admin_list) failing_world)) = Json (JObj [(''error'', JStr ''Internal Server Error'')])"
proof -
  obtain rs w' where run: "run_state (sample_admin admin_list) failing_world = (rs, w')"
    by (cases "run_state (sample_admin admin_list) failing_world")
  with admin_list_run have "500 \<le> rs_status rs" by simp
  from admin_errors_opaque [OF run [unfolded sample_admin_def] this] run show ?thesis by simp
qed

end
