(* ===== verification/Admin_Views.thy ===== *)
theory Admin_Views
  imports Admin_Ui Dashboard_Properties Workflow_Cancel
begin

text \<open>
  What the admin interface shows is true of the tables: the throughput of a window counts every instant
  in it once, and the tree of a run is its tree, whole unless it says that it was cut.
\<close>

section \<open>Throughput\<close>

lemma count_where_Cons [simp]: "count_where P (x # xs) = (if P x then 1 else 0) + count_where P xs"
  by (simp add: count_where_def)

lemma count_where_Nil [simp]: "count_where P [] = 0"
  by (simp add: count_where_def)

text \<open>Counting by bucket and summing counts every instant of the buckets once.\<close>

lemma sum_by_bucket:
  assumes "distinct idxs"
  shows "sum_list (map (\<lambda>idx. count_where (\<lambda>t. P t \<and> f t = idx) ts) idxs) = count_where (\<lambda>t. P t \<and> f t \<in> set idxs) ts"
proof (induction ts)
  case (Cons t ts)
  have "sum_list (map (\<lambda>idx. if P t \<and> f t = idx then 1 else 0 :: int) idxs) = (if P t \<and> f t \<in> set idxs then 1 else 0)"
    using assms by (induction idxs) auto
  with Cons show ?case by (simp add: sum_list_addf)
qed simp

lemma set_series: "set (series tw n) = {bucket_index tw n - int (tw_bucketCount tw) + 1 .. bucket_index tw n}"
proof -
  have "i \<in> set (series tw n)" if "bucket_index tw n - int (tw_bucketCount tw) + 1 \<le> i" "i \<le> bucket_index tw n" for i
    using that unfolding series_def
    by (auto intro!: image_eqI [of _ _ "nat (i - (bucket_index tw n - int (tw_bucketCount tw) + 1))"])
  then show ?thesis by (auto simp: series_def)
qed

lemma distinct_series: "distinct (series tw n)"
  by (auto simp: series_def distinct_map inj_on_def)

lemma in_window:
  assumes "0 < tw_bucketSeconds tw"
  shows "window_start tw n \<le> t \<and> bucket_index tw t \<in> set (series tw n)
     \<longleftrightarrow> window_start tw n \<le> t \<and> t < window_start tw n + int (tw_bucketCount tw) * (tw_bucketSeconds tw * 1000000)"
proof -
  let ?s = "tw_bucketSeconds tw * 1000000"
  have s: "0 < ?s" using assms by simp
  have ge: "b \<le> bucket_index tw t \<longleftrightarrow> b * ?s \<le> t" for b
  proof
    assume "b \<le> bucket_index tw t"
    then have "b * ?s \<le> t div ?s * ?s" unfolding bucket_index_def using s by (intro mult_right_mono) simp_all
    then show "b * ?s \<le> t" using div_mult_mod_eq [of t ?s] pos_mod_sign [OF s, of t] by linarith
  next
    assume "b * ?s \<le> t"
    from zdiv_mono1 [OF this s] show "b \<le> bucket_index tw t" unfolding bucket_index_def using assms by simp
  qed
  have le: "bucket_index tw t \<le> b \<longleftrightarrow> t < (b + 1) * ?s" for b
    using ge [of "b + 1"] by linarith
  have "window_start tw n + int (tw_bucketCount tw) * ?s = (bucket_index tw n + 1) * ?s"
    by (simp add: window_start_def algebra_simps)
  then show ?thesis using le ge unfolding set_series window_start_def by auto
qed

text \<open>
  Throughput. The answer has one bucket for every interval of the window, the last one contains the
  present. When no call fails, the counts of a column add up to the number of jobs that were done (failed)
  within the window: no job is counted twice and none is left out.
\<close>

theorem throughput_counts_once:
  assumes "0 < tw_bucketSeconds tw" "0 < tw_bucketCount tw" "script w = []" "\<not> tx_aborted w"
  shows "\<exists>bs. fst (run_state (queryQueueThroughput tw) w) = Inr bs \<and> length bs = tw_bucketCount tw
     \<and> bk_start (last bs) \<le> now w \<and> now w < bk_start (last bs) + tw_bucketSeconds tw * 1000000
     \<and> (let within = (\<lambda>t. bk_start (hd bs) \<le> t \<and> t < bk_start (last bs) + tw_bucketSeconds tw * 1000000) in
        sum_list (map (\<lambda>b. bk_counts b ! 0) bs) = count_where (\<lambda>j. Status j = StatusDone \<and> (case DoneAt j of None \<Rightarrow> False | Some t \<Rightarrow> within t)) (jobs (db w))
        \<and> sum_list (map (\<lambda>b. bk_counts b ! 1) bs) = count_where (\<lambda>j. Status j = StatusFailed \<and> within (UpdatedAt j)) (jobs (db w)))"
proof -
  let ?n = "now w" and ?s = "tw_bucketSeconds tw * 1000000"
  let ?cols = "[done_instants (jobs (db w)), failed_instants (jobs (db w))]"
  let ?bs = "buckets tw ?n ?cols"
  have run: "fst (run_state (queryQueueThroughput tw) w) = Inr ?bs"
    unfolding queryQueueThroughput_def by (rule run_attempt_read [OF assms(3,4)])
  have len: "length ?bs = tw_bucketCount tw" by (simp add: buckets_def series_def)
  have start: "bk_start (?bs ! k) = (bucket_index tw ?n - (int (tw_bucketCount tw) - 1 - int k)) * ?s" if "k < tw_bucketCount tw" for k
    using that by (simp add: buckets_def series_def)
  have ne: "?bs \<noteq> []" using len assms(2) by (metis length_0_conv less_numeral_extra(3))
  have first: "bk_start (hd ?bs) = window_start tw ?n"
    using start [of 0] assms(2) ne by (simp add: hd_conv_nth window_start_def algebra_simps)
  have final: "bk_start (last ?bs) = bucket_index tw ?n * ?s"
    using start [of "tw_bucketCount tw - 1"] assms(2) ne len by (simp add: last_conv_nth)
  have present: "bk_start (last ?bs) \<le> ?n" "?n < bk_start (last ?bs) + ?s"
    unfolding final bucket_index_def
    using div_mult_mod_eq [of ?n ?s] pos_mod_bound [of ?s ?n] pos_mod_sign [of ?s ?n] assms(1) by linarith+
  have stop: "window_start tw ?n + int (tw_bucketCount tw) * ?s = bk_start (last ?bs) + ?s"
    by (simp add: final window_start_def algebra_simps)
  have col: "sum_list (map (\<lambda>b. bk_counts b ! c) ?bs)
      = count_where (\<lambda>t. bk_start (hd ?bs) \<le> t \<and> t < bk_start (last ?bs) + ?s) (?cols ! c)" if "c < 2" for c
  proof -
    have "map (\<lambda>b. bk_counts b ! c) ?bs = map (\<lambda>idx. count_where (\<lambda>t. window_start tw ?n \<le> t \<and> bucket_index tw t = idx) (?cols ! c)) (series tw ?n)"
      using that by (auto simp: buckets_def in_bucket_def less_2_cases_iff)
    then show ?thesis
      by (simp only: sum_by_bucket [OF distinct_series] in_window [OF assms(1)] first stop)
  qed
  have done_col: "count_where P (done_instants js) = count_where (\<lambda>j. Status j = StatusDone \<and> (case DoneAt j of None \<Rightarrow> False | Some t \<Rightarrow> P t)) js" for P js
    by (induction js) (auto simp: done_instants_def map_filter_simps split: option.splits)
  have failed_col: "count_where P (failed_instants js) = count_where (\<lambda>j. Status j = StatusFailed \<and> P (UpdatedAt j)) js" for P js
    by (induction js) (auto simp: failed_instants_def)
  show ?thesis
    using run len present col [of 0] col [of 1] by (intro exI [of _ ?bs]) (simp add: Let_def done_col failed_col)
qed

text \<open>Two jobs done within the window and one before it.\<close>

definition busy_world :: world where
  "busy_world = initial_world\<lparr>clock := 150000000, db := empty_database\<lparr>jobs :=
     [(new_job 1 0 ''q'' ''a'' 5 None None)\<lparr>Status := StatusDone, DoneAt := Some 10000000\<rparr>,
      (new_job 2 0 ''q'' ''b'' 5 None None)\<lparr>Status := StatusDone, DoneAt := Some 70000000\<rparr>,
      (new_job 3 0 ''q'' ''c'' 5 None None)\<lparr>Status := StatusDone, DoneAt := Some 140000000\<rparr>,
      new_job 4 0 ''q'' ''d'' 5 None None]\<rparr>\<rparr>"

definition two_minutes :: throughput_window where
  "two_minutes = \<lparr>tw_bucketSeconds = 60, tw_bucketCount = 2\<rparr>"

definition busy_buckets :: "bucket list" where
  "busy_buckets = buckets two_minutes 150000000 [done_instants (jobs (db busy_world)), failed_instants (jobs (db busy_world))]"

lemma busy_buckets_run: "fst (run_state (queryQueueThroughput two_minutes) busy_world) = Inr busy_buckets"
  by code_simp

theorem throughput_counts_once_witness:
  "length busy_buckets = 2 \<and> sum_list (map (\<lambda>b. bk_counts b ! 0) busy_buckets) = 2"
proof -
  have "script busy_world = []" "\<not> tx_aborted busy_world" by code_simp+
  from throughput_counts_once [OF _ _ this, of two_minutes] busy_buckets_run
  have all: "length busy_buckets = 2 \<and> sum_list (map (\<lambda>b. bk_counts b ! 0) busy_buckets)
      = count_where (\<lambda>j. Status j = StatusDone \<and> (case DoneAt j of None \<Rightarrow> False
          | Some t \<Rightarrow> bk_start (hd busy_buckets) \<le> t \<and> t < bk_start (last busy_buckets) + 60000000)) (jobs (db busy_world))"
    by (auto simp: two_minutes_def Let_def)
  have "count_where (\<lambda>j. Status j = StatusDone \<and> (case DoneAt j of None \<Rightarrow> False
          | Some t \<Rightarrow> bk_start (hd busy_buckets) \<le> t \<and> t < bk_start (last busy_buckets) + 60000000)) (jobs (db busy_world)) = 2"
    by code_simp
  with all show ?thesis by simp
qed

section \<open>The tree of a run\<close>

text \<open>What the recursive query collects below a run: the run itself first, then the rows below its children.\<close>

declare tree_below.simps [simp del]

lemma tree_below_members:
  "set (tree_below k d rs path r) = insert \<lparr>tn_run = r, tn_depth = d, tn_path = path @ [(r_created_at r, r_id r)]\<rparr>
     (case k of 0 \<Rightarrow> {} | Suc j \<Rightarrow> (\<Union>c \<in> {c \<in> set rs. is_child_of (r_id r) c}.
        set (tree_below j (Suc d) rs (path @ [(r_created_at r, r_id r)]) c)))"
  by (subst tree_below.simps) (auto simp: Let_def split: nat.split)

lemma tree_below_within:
  "n \<in> set (tree_below k d rs path r) \<Longrightarrow>
     (r_id r, r_id (tn_run n)) \<in> (parent_of rs)\<^sup>* \<and> tn_depth n \<le> d + k"
proof (induction k arbitrary: d path r)
  case 0
  then show ?case by (simp add: tree_below_members)
next
  case (Suc k)
  from Suc.prems consider "tn_run n = r" "tn_depth n = d"
    | c path' where "c \<in> set rs" "is_child_of (r_id r) c" "n \<in> set (tree_below k (Suc d) rs path' c)"
    by (subst (asm) tree_below_members) auto
  then show ?case
  proof cases
    case (2 c path')
    then have "(r_id r, r_id c) \<in> parent_of rs" by (auto simp: parent_of_def is_child_of_def)
    with Suc.IH [OF 2(3)] show ?thesis by (auto intro: converse_rtrancl_into_rtrancl)
  qed simp
qed

lemma tree_below_children:
  "n \<in> set (tree_below k d rs path r) \<Longrightarrow> tn_depth n < d + k \<Longrightarrow> c \<in> set rs \<Longrightarrow> is_child_of (r_id (tn_run n)) c
     \<Longrightarrow> \<exists>m \<in> set (tree_below k d rs path r). tn_run m = c"
proof (induction k arbitrary: d path r)
  case 0
  then show ?case by (simp add: tree_below_members)
next
  case (Suc k)
  let ?path = "path @ [(r_created_at r, r_id r)]"
  have sub: "set (tree_below k (Suc d) rs ?path b) \<subseteq> set (tree_below (Suc k) d rs path r)"
    if "b \<in> set rs" "is_child_of (r_id r) b" for b
    using that by (subst (2) tree_below_members) auto
  from Suc.prems(1) consider "tn_run n = r"
    | b where "b \<in> set rs" "is_child_of (r_id r) b" "n \<in> set (tree_below k (Suc d) rs ?path b)"
    by (subst (asm) tree_below_members) auto
  then show ?case
  proof cases
    case 1
    have "\<exists>m \<in> set (tree_below k (Suc d) rs ?path c). tn_run m = c" by (subst tree_below_members) auto
    with sub [OF Suc.prems(3)] Suc.prems(4) 1 show ?thesis by blast
  next
    case (2 b)
    with Suc.IH [OF 2(3)] Suc.prems sub [OF 2(1,2)] show ?thesis by fastforce
  qed
qed

lemma tree_below_path:
  "n \<in> set (tree_below k d rs path r) \<Longrightarrow>
     \<exists>post. tn_path n = path @ (r_created_at r, r_id r) # post \<and> (post = [] \<longrightarrow> tn_run n = r)"
proof (induction k arbitrary: d path r)
  case 0
  then show ?case by (simp add: tree_below_members)
next
  case (Suc k)
  from Suc.prems consider "tn_run n = r" "tn_path n = path @ [(r_created_at r, r_id r)]"
    | c where "n \<in> set (tree_below k (Suc d) rs (path @ [(r_created_at r, r_id r)]) c)"
    by (subst (asm) tree_below_members) auto
  then show ?case
    by cases (auto dest!: Suc.IH)
qed

definition tree_rows :: "run list \<Rightarrow> string \<Rightarrow> tree_node list" where
  "tree_rows rs runID = concat (map (tree_below maxTreeDepth 0 rs []) (filter (\<lambda>r. r_id r = runID) rs))"

lemma tree_rows_iff: "n \<in> set (tree_rows rs runID) \<longleftrightarrow> (\<exists>r \<in> set rs. r_id r = runID \<and> n \<in> set (tree_below maxTreeDepth 0 rs [] r))"
  by (auto simp: tree_rows_def)

lemma tree_rows_start:
  assumes "r \<in> set rs" "r_id r = runID"
  shows "\<exists>n \<in> set (tree_rows rs runID). tn_run n = r \<and> tn_path n = [(r_created_at r, r_id r)]"
proof -
  have "\<exists>n \<in> set (tree_below maxTreeDepth 0 rs [] r). tn_run n = r \<and> tn_path n = [(r_created_at r, r_id r)]"
    by (subst tree_below_members) auto
  with assms show ?thesis by (meson tree_rows_iff)
qed

lemma tree_rows_in_tree:
  "n \<in> set (tree_rows rs runID) \<Longrightarrow> in_tree rs runID (r_id (tn_run n)) \<and> tn_depth n \<le> maxTreeDepth"
  by (force simp: tree_rows_iff in_tree_def dest: tree_below_within)

text \<open>When no row at the greatest depth has children, the rows are the whole tree.\<close>

lemma tree_rows_complete:
  assumes whole: "\<And>n c. n \<in> set (tree_rows rs runID) \<Longrightarrow> tn_depth n = maxTreeDepth \<Longrightarrow> c \<in> set rs \<Longrightarrow> \<not> is_child_of (r_id (tn_run n)) c"
    and "in_tree rs runID i"
  shows "\<exists>n \<in> set (tree_rows rs runID). r_id (tn_run n) = i"
proof -
  have "(runID, i) \<in> (parent_of rs)\<^sup>*" and root: "runID \<in> set (map r_id rs)" using assms(2) by (simp_all add: in_tree_def)
  then show ?thesis
  proof (induction rule: rtrancl_induct)
    case base
    then obtain r where "r \<in> set rs" "r_id r = runID" by auto
    with tree_rows_start show ?case by fastforce
  next
    case (step p i)
    then obtain n c where n: "n \<in> set (tree_rows rs runID)" "r_id (tn_run n) = p"
      and c: "c \<in> set rs" "is_child_of p c" "r_id c = i" by (auto simp: parent_of_def is_child_of_def)
    from n(1) obtain r where r: "r \<in> set rs" "r_id r = runID" "n \<in> set (tree_below maxTreeDepth 0 rs [] r)" by (auto simp: tree_rows_iff)
    have "tn_depth n < maxTreeDepth" using whole [OF n(1) _ c(1)] n(2) c(2) tree_rows_in_tree [OF n(1)] by fastforce
    then show ?case using tree_below_children [OF r(3) _ c(1)] n(2) c r(1,2) by (fastforce simp: tree_rows_iff)
  qed
qed

text \<open>In the order of the paths the run itself comes first.\<close>

lemma tree_rows_root:
  assumes "sort_key tn_path (tree_rows rs runID) = m # ms"
  shows "r_id (tn_run m) = runID"
proof -
  have m: "m \<in> set (tree_rows rs runID)" by (metis assms list.set_intros(1) set_sort)
  then obtain r where r: "r \<in> set rs" "r_id r = runID" "m \<in> set (tree_below maxTreeDepth 0 rs [] r)" by (auto simp: tree_rows_iff)
  from tree_below_path [OF r(3)] obtain post where post: "tn_path m = (r_created_at r, r_id r) # post" "post = [] \<longrightarrow> tn_run m = r" by auto
  have "post = []"
  proof (rule ccontr)
    assume "post \<noteq> []"
    from tree_rows_start [OF r(1,2)] obtain n where n: "n \<in> set (tree_rows rs runID)" "tn_path n = [(r_created_at r, r_id r)]" by blast
    have "sorted (map tn_path (m # ms))" by (metis assms sorted_sort_key)
    moreover have "n \<in> set (m # ms)" by (metis assms n(1) set_sort)
    ultimately have "tn_path m \<le> tn_path n" by auto
    with n(2) post(1) \<open>post \<noteq> []\<close> show False by (cases post) auto
  qed
  with post(2) r(2) show ?thesis by simp
qed

lemma count_where_pos: "0 < count_where P xs \<longleftrightarrow> (\<exists>x \<in> set xs. P x)"
  by (induction xs) (auto simp: count_where_def)

text \<open>
  C31. The tree of a run. When no call fails, the answer is refused exactly when there is no such run.
  Otherwise its first row is the run, it has at most 300 rows at a depth of at most 8, each of them of the
  run's tree and with the number of its children, and unless the answer says that it is truncated, it has
  every run of the tree.
\<close>

theorem run_tree_truthful:
  assumes "script w = []" "\<not> tx_aborted w"
  shows "case fst (run_state (queryRunTree runID) w) of
      Inl e \<Rightarrow> runID \<notin> r_id ` set (runs (db w)) \<and> errors_is e ErrRunNotFound
    | Inr t \<Rightarrow> rt_root t = runID \<and> length (rt_nodes t) \<le> 300
        \<and> (\<forall>(n, k) \<in> set (rt_nodes t). in_tree (runs (db w)) runID (r_id (tn_run n)) \<and> tn_depth n \<le> 8
             \<and> k = count_where (is_child_of (r_id (tn_run n))) (runs (db w)))
        \<and> (\<not> rt_truncated t \<longrightarrow> (\<lambda>(n, k). r_id (tn_run n)) ` set (rt_nodes t) = {i. in_tree (runs (db w)) runID i})"
proof -
  let ?rs = "runs (db w)"
  let ?k = "\<lambda>n. count_where (is_child_of (r_id (tn_run n))) ?rs"
  define page where "page = tree_page ?rs runID"
  have run: "fst (run_state (queryRunTree runID) w) = cut_tree (map (\<lambda>n. (n, ?k n)) page) runID"
    unfolding queryRunTree_def page_def by (rule run_attempt_read [OF assms])
  have page: "page = take 301 (sort_key tn_path (tree_rows ?rs runID))"
    by (simp add: page_def tree_page_def tree_rows_def maxTreeNodes_def)
  then have sub: "set page \<subseteq> set (tree_rows ?rs runID)" by (metis set_sort set_take_subset)
  show ?thesis
  proof (cases "page = []")
    case True
    then have "tree_rows ?rs runID = []" using page by (metis list.size(3) sort_key_simps(1) length_sort take_eq_Nil zero_neq_numeral length_0_conv)
    then have "runID \<notin> r_id ` set ?rs" using tree_rows_start [of _ ?rs runID] by auto
    with True show ?thesis by (simp add: run cut_tree_def)
  next
    case False
    then obtain m ms where ms: "sort_key tn_path (tree_rows ?rs runID) = m # ms" by (cases "sort_key tn_path (tree_rows ?rs runID)") (auto simp: page)
    then have root: "r_id (tn_run (hd page)) = runID" using tree_rows_root by (simp add: page)
    have shown: "set (take 300 page) \<subseteq> set (tree_rows ?rs runID)" using sub by (meson order_trans set_take_subset)
    define cut where "cut \<longleftrightarrow> 300 < length page \<or> (\<exists>n \<in> set (take 300 page). tn_depth n = 8 \<and> 0 < ?k n)"
    have answer: "fst (run_state (queryRunTree runID) w)
        = Inr \<lparr>rt_root = runID, rt_nodes = map (\<lambda>n. (n, ?k n)) (take 300 page), rt_truncated = cut\<rparr>"
      using False root by (simp add: run cut_tree_def Let_def maxTreeNodes_def maxTreeDepth_def take_map list_ex_iff hd_map cut_def)
    have "(\<lambda>n. r_id (tn_run n)) ` set (take 300 page) = {i. in_tree ?rs runID i}" if "\<not> cut"
    proof -
      have all: "set (take 300 page) = set (tree_rows ?rs runID)"
        using that by (simp add: page cut_def min_def split: if_splits)
      have "\<not> is_child_of (r_id (tn_run n)) c" if "n \<in> set (tree_rows ?rs runID)" "tn_depth n = maxTreeDepth" "c \<in> set ?rs" for n c
        using \<open>\<not> cut\<close> that unfolding cut_def all by (auto simp: maxTreeDepth_def count_where_pos)
      from tree_rows_complete [OF this] tree_rows_in_tree show ?thesis unfolding all by fastforce
    qed
    with shown tree_rows_in_tree [of _ ?rs runID] show ?thesis
      by (simp add: answer image_image maxTreeDepth_def) blast
  qed
qed

text \<open>A run with a child and a grandchild, beside an unrelated run.\<close>

definition family_world :: world where
  "family_world = (let member = (\<lambda>i p n. new_run i sample_def ''{}'' \<lparr>st_key = [], st_timeout = 0\<rparr> p ''s'' n) in
     initial_world\<lparr>db := empty_database\<lparr>runs := [member ''r3'' ''r2'' 3, member ''r1'' [] 1, member ''r9'' [] 1, member ''r2'' ''r1'' 2]\<rparr>\<rparr>)"

definition family_tree :: run_tree_answer where
  "family_tree = projr (fst (run_state (queryRunTree ''r1'') family_world))"

lemma family_tree_facts:
  "fst (run_state (queryRunTree ''r1'') family_world) = Inr family_tree" "\<not> rt_truncated family_tree"
  "map (\<lambda>(n, k). r_id (tn_run n)) (rt_nodes family_tree) = [''r1'', ''r2'', ''r3'']"
  by code_simp+

theorem run_tree_truthful_witness:
  "rt_root family_tree = ''r1'' \<and> {i. in_tree (runs (db family_world)) ''r1'' i} = {''r1'', ''r2'', ''r3''}"
proof -
  have "script family_world = []" "\<not> tx_aborted family_world" by code_simp+
  from run_tree_truthful [OF this, of "''r1''"]
  have "rt_root family_tree = ''r1''"
    and "(\<lambda>(n, k). r_id (tn_run n)) ` set (rt_nodes family_tree) = {i. in_tree (runs (db family_world)) ''r1'' i}"
    by (simp_all add: family_tree_facts)
  moreover have "(\<lambda>(n, k). r_id (tn_run n)) ` set (rt_nodes family_tree) = {''r1'', ''r2'', ''r3''}"
    using arg_cong [OF family_tree_facts(3), of set] by simp
  ultimately show ?thesis by simp
qed

end
