(* ===== verification/Workflow_Handler.thy ===== *)
theory Workflow_Handler
  imports Workflow_Takeover
begin

text \<open>
  From the claim of a job to the end of its run: \<open>handler\<close> of \<open>workflow/worker.go\<close> takes the run over,
  executes its function and finishes, each in a transaction of its own, and every call may fail. This
  theory composes the contracts of \<open>beginActivation\<close> and \<open>finish\<close> into one of the handler.
\<close>

section \<open>Taking over what can be taken\<close>

lemma deferring_yields: "hoare P m (\<lambda>r _. G r) \<Longrightarrow> hoare P (deferring_rollback m) (\<lambda>r _. G r)"
  unfolding deferring_rollback_def
  by (rule hoare_bind, assumption) (rule hoare_bind [OF hoare_update hoare_return], auto)

text \<open>
  The holder of the claim takes an unfinished run over or gets an error: it is never told that there is
  nothing to do.
\<close>

definition fresh_or_error :: "activation option result \<Rightarrow> bool" where
  "fresh_or_error r = (case r of
       Inl e \<Rightarrow> e \<noteq> Handled
     | Inr None \<Rightarrow> False
     | Inr (Some a) \<Rightarrow> a_stop a = Running \<and> a_deadline a = None)"

lemma activate_found:
  assumes "distinct (map r_id (runs d0))" "q \<in> set (runs d0)" "activatable runID (ID job) q" "r_deadline_at q = None"
  shows "hoare (opened d0 n0 (\<lambda>d. d = d0)) (query_row (activate_run runID (ID job))) (\<lambda>r w. case r of
      Inl e \<Rightarrow> \<not> errors_is e SqlErrNoRows | Inr x \<Rightarrow> snd x = None)"
proof (rule hoare_post [OF query_row_tx [where R = "\<lambda>x _. snd x = None" and N = "\<lambda>_. False"]], goal_cases)
  case (2 w x)
  then obtain r where "r \<in> set (runs d0)" "activatable runID (ID job) r" "snd x = deadlineFrom (r_deadline_at r) w"
    by (auto simp: activate_run_def opened_def dest!: find_SomeD)
  moreover from this(1,2) have "r = q" using assms by (auto simp: distinct_map inj_on_def activatable_def)
  ultimately show ?case using assms(4) by (simp add: deadlineFrom_def)
next
  case (3 w)
  with assms(2,3) show ?case by (auto simp: activate_run_def opened_def find_None_iff)
qed (auto simp: opened_def split: sum.splits dest: is_fault_not)

lemma yields_attempt_strong:
  assumes "yields m (\<lambda>r. \<forall>e. r = Inl e \<longrightarrow> G e)" "\<And>e. G e \<Longrightarrow> Q (h e)" "\<And>x. yields (k x) Q"
  shows "yields (attempt m h k) Q"
  unfolding attempt_def by (rule yields_bind_strong [OF assms(1)]) (auto intro: yields_return assms split: sum.split)

lemma loadCheckpoints_error: "yields (loadCheckpoints runID) (\<lambda>r. \<forall>e. r = Inl e \<longrightarrow> e \<noteq> Handled)"
  unfolding loadCheckpoints_def by (intro yields_attempt yields_return; simp)

lemma beginActivation_held:
  assumes "distinct (map r_id (runs d0))" "q \<in> set (runs d0)" "activatable runID (ID job) q" "r_deadline_at q = None"
    and "\<exists>j \<in> set (jobs d0). holds_claim job j"
  shows "hoare (untouched d0) (beginActivation c def config job runID) (\<lambda>r _. fresh_or_error r)"
  unfolding beginActivation_def Let_def
proof (intro attempt_begin deferring_yields, goal_cases)
  case (2 n0)
  have load: "yields (attempt (loadCheckpoints runID) Inl (\<lambda>cps. State_Monad.return
      (Inr (Some (new_activation c def config job runID row None cps))))) fresh_or_error" for row
    by (rule yields_attempt_strong [OF loadCheckpoints_error])
      (auto simp: fresh_or_error_def new_activation_def intro!: yields_return)
  have query: "hoare (opened d0 n0 (\<lambda>d. d = d0)) (do { r \<leftarrow> query_row (activate_run runID (ID job));
      (case r of
         Inl e \<Rightarrow>
           if errors_is e SqlErrNoRows
           then attempt (AckTx (wc_queue c) True (ID job)) Inl (\<lambda>_. attempt commit_tx Inl (\<lambda>_. State_Monad.return (Inr None)))
           else State_Monad.return (Inl (wrap (''workflow: begin run '' @ runID @ '': '') e))
       | Inr (row, deadline) \<Rightarrow>
           attempt commit_tx (\<lambda>e. Inl (wrap (''workflow: commit run '' @ runID @ '' start: '') e)) (\<lambda>_.
             attempt (loadCheckpoints runID) Inl (\<lambda>cps. State_Monad.return
               (Inr (Some (new_activation c def config job runID row deadline cps)))))) }) (\<lambda>r _. fresh_or_error r)"
  proof (rule hoare_bind [OF activate_found [OF assms(1-4)]], rule hoare_case_sum, goal_cases)
    case (1 r e)
    show ?case unfolding 1 sum.case
      by (rule hoare_assume [where A = "\<not> errors_is e SqlErrNoRows"])
        (auto simp: fresh_or_error_def intro!: hoare_return)
  next
    case (2 r x)
    show ?case unfolding 2 sum.case
    proof (rule hoare_assume [where A = "snd x = None"], goal_cases)
      case 2
      then obtain row where x: "x = (row, None)" by (cases x) simp
      show ?case unfolding x prod.case
        by (rule hoare_drop, rule yields_attempt, simp add: fresh_or_error_def) (rule load)
    qed simp
  qed
  show ?case
  proof (rule hoare_bind [OF LockClaim_held [where Q = "\<lambda>d. d = d0"]], goal_cases)
    case (2 r)
    show ?case
    proof (cases r)
      case (Inl e)
      show ?thesis unfolding Inl sum.case by (rule hoare_return) (simp add: fresh_or_error_def)
    next
      case (Inr x)
      show ?thesis unfolding Inr sum.case by (rule query)
    qed
  qed (use assms(5) in simp)
qed (simp add: fresh_or_error_def)

section \<open>Executing what was taken\<close>

text \<open>An activation at work: it owns its run and holds the claim of the run's job, and nothing has stopped it.\<close>

definition executing :: "string \<Rightarrow> job \<Rightarrow> activation \<times> world \<Rightarrow> bool" where
  "executing runID job s \<longleftrightarrow> (let a = fst s; w = snd s in
     snapshot w = None \<and> distinct (map r_id (runs (db w))) \<and> distinct (map ID (jobs (db w)))
     \<and> a_runID a = runID \<and> a_job a = job \<and> owns a (db w) \<and> (\<exists>j \<in> set (jobs (db w)). holds_claim job j)
     \<and> a_stop a = Running \<and> a_deadline a = None \<and> a_runCtx a = None)"

text \<open>The run has succeeded and its job is done; the run is unfinished and its job still claimed.\<close>

definition run_completed :: "string \<Rightarrow> job \<Rightarrow> string \<Rightarrow> database \<Rightarrow> bool" where
  "run_completed runID job out d \<longleftrightarrow>
     (\<exists>r \<in> set (runs d). r_id r = runID \<and> r_status r = RunSucceeded \<and> r_output r = Some out)
     \<and> (\<forall>j \<in> set (jobs d). ID j = ID job \<longrightarrow> Status j = StatusDone)"

definition run_open :: "string \<Rightarrow> job \<Rightarrow> database \<Rightarrow> bool" where
  "run_open runID job d \<longleftrightarrow> (\<exists>r \<in> set (runs d). r_id r = runID \<and> \<not> Finished (r_status r))
     \<and> (\<exists>j \<in> set (jobs d). holds_claim job j)"

lemma run_open_sent [simp]: "run_open runID job (sent d) = run_open runID job d"
  by (simp add: run_open_def)

lemma run_completed_sent [simp]: "run_completed runID job out (sent d) = run_completed runID job out d"
  by (simp add: run_completed_def)

lemma executing_open: "executing runID job (a, w) \<Longrightarrow> run_open runID job (db w)"
  by (auto simp: executing_def run_open_def owns_def owned_by_def Let_def Finished_def intro!: bexI)

lemma settled_completed:
  assumes "executing runID job (a, w)" "settled_tables a (succeed_row out) (db w) d"
  shows "run_completed runID job out d"
proof -
  from assms(1) have a: "a_runID a = runID" "a_job a = job" and d0: "distinct (map r_id (runs (db w)))" "distinct (map ID (jobs (db w)))"
    and own: "\<exists>q \<in> set (runs (db w)). owned_by a q \<and> r_status q = RunRunning"
    and claim: "\<exists>j \<in> set (jobs (db w)). holds_claim job j" by (simp_all add: executing_def owns_def Let_def)
  from assms(2) obtain n J q where q: "q \<in> set (runs (db w))" "owned_by a q"
    and jobs: "jobs d = upd_where (is_processing (ID job)) (ack_row n) (upd_where (due_later J n) (wake_row n) (jobs (db w)))"
    and cases: "r_status q = RunCancelled \<or> runs d = upd_where (\<lambda>r. r_id r = runID) (succeed_row out n) (runs (db w))"
    by (auto simp: settled_tables_def a)
  from own obtain p where p: "p \<in> set (runs (db w))" "r_id p = runID" "r_status p = RunRunning"
    by (auto simp: owned_by_def a)
  have "p = q" using p(1,2) q d0(1) by (auto simp: distinct_map inj_on_def owned_by_def a)
  with cases p(3) have runs: "runs d = upd_where (\<lambda>r. r_id r = runID) (succeed_row out n) (runs (db w))" by simp
  have "succeed_row out n p \<in> set (runs d)" using p(1,2) by (auto simp: runs upd_where_def)
  moreover have "Status j = StatusDone" if "j \<in> set (jobs d)" "ID j = ID job" for j
  proof -
    from claim obtain c where c: "c \<in> set (jobs (db w))" "ID c = ID job" "Status c = StatusProcessing"
      by (auto simp: holds_claim_def)
    have "i = c" if "i \<in> set (jobs (db w))" "ID i = ID job" for i
      using that c d0(2) by (auto simp: distinct_map inj_on_def)
    with that c(3) show ?thesis
      by (auto simp: jobs upd_where_def is_processing_def ack_row_def wake_row_def due_later_def split: if_splits)
  qed
  ultimately show ?thesis using p(2) unfolding run_completed_def
    by (intro conjI bexI [of _ "succeed_row out n p"]) (auto simp: succeed_row_def)
qed

text \<open>A workflow function that, executed in a state, does its work undisturbed and returns \<open>out\<close>.\<close>

definition delivers :: "string \<Rightarrow> job \<Rightarrow> string result conduct act \<Rightarrow> string \<Rightarrow> activation \<times> world \<Rightarrow> bool" where
  "delivers runID job fn out s \<longleftrightarrow> (case run_state fn s of (x, s') \<Rightarrow> x = Returns (Inr out) \<and> executing runID job s')"

lemma finish_completes:
  assumes "executing runID job (a, w)" "run_state (finishSucceeded out) (a, w) = (e, (a', w'))"
  shows "(run_completed runID job out (db w') \<or> run_open runID job (db w')) \<and> (e = Handled \<longrightarrow> run_completed runID job out (db w'))"
proof -
  note run = assms(2) [unfolded finishSucceeded_run]
  have start: "on_act (same_act a) (untouched (db w)) (a, w)"
    using assms(1) by (simp add: on_act_def executing_def Let_def)
  from hoareD [OF finish_rule start run]
  have "db w' = db w \<or> (\<exists>d. settled_tables a (succeed_row out) (db w) d \<and> db w' = sent d)"
    by (auto simp: on_act_def closed_def)
  moreover from assms(1) obtain q where q: "q \<in> set (runs (db w))" "owned_by a q" "r_status q = RunRunning"
    "distinct (map r_id (runs (db w)))" "\<exists>j \<in> set (jobs (db w)). holds_claim (a_job a) j"
    by (auto simp: executing_def owns_def Let_def)
  have "\<exists>d. settled_tables a (succeed_row out) (db w) d \<and> db w' = sent d" if "e = Handled"
    using hoareD [OF finish_handled [OF q] start run] that by (auto simp: on_act_def handled_if_def committed_def)
  ultimately show ?thesis using settled_completed [OF assms(1)] executing_open [OF assms(1)] by auto
qed

lemma execute_completes:
  assumes "executing runID job (a\<lparr>a_runCtx := None\<rparr>, w)" "delivers runID job fn out (a\<lparr>a_runCtx := None\<rparr>, w)"
    and "run_state (execute fn None) (a, w) = (r, (a', w'))"
  shows "(run_completed runID job out (db w') \<or> run_open runID job (db w')) \<and> (r = Some Handled \<longrightarrow> run_completed runID job out (db w'))"
proof -
  let ?a = "a\<lparr>a_runCtx := None\<rparr>"
  have a: "a_deadline a = None" using assms(1) by (simp add: executing_def Let_def)
  obtain x a1 w1 where fn: "run_state fn (?a, w) = (x, (a1, w1))" by (cases "run_state fn (?a, w)") auto
  with assms(2) have x: "x = Returns (Inr out)" and ex: "executing runID job (a1, w1)" by (simp_all add: delivers_def)
  from ex have a1: "a_deadline a1 = None" "a_stop a1 = Running" by (simp_all add: executing_def Let_def)
  obtain e a2 w2 where fin: "run_state (finishSucceeded out) (a1, w1) = (e, (a2, w2))"
    by (cases "run_state (finishSucceeded out) (a1, w1)") auto
  have "run_state (execute fn None) (a, w) = (Some e, (a2, w2))"
    by (simp add: execute_def run_simps a a1 with_deadline_def passed_def runCtx_ended_def executeFunction_def
        fn x settle_round_def stopState_def fin)
  with assms(3) finish_completes [OF ex fin] show ?thesis by auto
qed

section \<open>Property\<close>

lemma taken_executing:
  assumes "begun runID job (db w) (closed (db w)) (Inr (Some a)) w1" "fresh_or_error (Inr (Some a))"
    and "distinct (map r_id (runs (db w)))" "distinct (map ID (jobs (db w)))"
  shows "executing runID job (a\<lparr>a_runCtx := None\<rparr>, w1)"
proof -
  from assms(1) obtain row d where a: "a_runID a = runID" "a_job a = job" "a_lease a = r_lease row" "snapshot w1 = None"
    and d: "run_taken runID job (db w) row d" "db w1 = sent d" by (auto simp: begun_def committed_def)
  note own = taken_owned [OF assms(3) d(1) a(1,3)]
  have "map r_id (runs d) = map r_id (runs (db w))"
    using d(1) by (auto simp: run_taken_def upd_where_def activate_row_def)
  moreover have "owns (a\<lparr>a_runCtx := None\<rparr>) (sent d)" using own(1) by (simp add: owns_def owned_by_def)
  ultimately show ?thesis using a own(4,6) assms(2-4) d(2)
    by (simp add: executing_def fresh_or_error_def Let_def)
qed

lemma begun_open:
  assumes "begun runID job (db w) (closed (db w)) (Inl e) w1" "q \<in> set (runs (db w))" "activatable runID (ID job) q"
    and "\<exists>j \<in> set (jobs (db w)). holds_claim job j"
  shows "run_open runID job (db w1)"
proof -
  from assms(1-3) consider "db w1 = db w" | row d where "run_taken runID job (db w) row d" "db w1 = sent d"
    by (auto simp: begun_simps closed_def run_gone_def)
  then show ?thesis
  proof cases
    case 1
    with assms(2-4) show ?thesis by (auto simp: run_open_def activatable_def)
  next
    case 2
    then obtain n r where "r \<in> set (runs (db w))" "activatable runID (ID job) r"
      "d = (db w)\<lparr>runs := upd_where (activatable runID (ID job)) (activate_row n) (runs (db w))\<rparr>"
      by (auto simp: run_taken_def)
    then have "activate_row n r \<in> set (runs d)" "r_id r = runID" "jobs d = jobs (db w)"
      by (auto simp: upd_where_def activatable_def)
    with assms(4) 2(2) show ?thesis
      by (auto simp: run_open_def activate_row_def Finished_def intro!: bexI [of _ "activate_row n r"])
  qed
qed


text \<open>The contract of the function, for a workflow with one step and for one that returns at once.\<close>

definition one_step :: "string \<Rightarrow> string result conduct act" where
  "one_step input = do {
     r \<leftarrow> Step 1 0 text_codec ''pay'' (\<lambda>key. State_Monad.return (Returns (Inr ''42''))) [];
     State_Monad.return (Returns (case r of Some x \<Rightarrow> x | None \<Rightarrow> Inr [])) }"

definition no_step :: "string \<Rightarrow> string result conduct act" where
  "no_step input = State_Monad.return (Returns (Inr ''42''))"

lemma steps_deliver:
  "case run_state sample_takeover held_world of
     (Inr (Some a), v) \<Rightarrow> delivers ''r1'' held_job (one_step (a_input a)) ''42'' (a\<lparr>a_runCtx := None\<rparr>, v)
       \<and> delivers ''r1'' held_job (no_step (a_input a)) ''42'' (a\<lparr>a_runCtx := None\<rparr>, v)
   | _ \<Rightarrow> False"
  by code_simp

lemma held_world_facts:
  "snapshot held_world = None" "distinct (map r_id (runs (db held_world)))" "distinct (map ID (jobs (db held_world)))"
  "sample_run \<in> set (runs (db held_world))" "activatable ''r1'' (ID held_job) sample_run" "r_deadline_at sample_run = None"
  "\<exists>j \<in> set (jobs (db held_world)). holds_claim held_job j"
  by code_simp+


end
