(* ===== verification/Workflow_Run.thy ===== *)
theory Workflow_Run
  imports Workflow_Invariants
begin

text \<open>
  \<open>Run\<close>, \<open>reconcile\<close> and \<open>Ready\<close> of the workflow worker, \<open>workflow/worker.go\<close>. A call of \<open>Run\<close> starts one
  goroutine per queue worker (a slot), one that reconciles, and one that closes the worker's ready
  channel once every slot is ready. All calls on one worker are a step relation: a step is one atomic
  action of one goroutine, so every interleaving is a path. The loop of a slot takes the steps of
  \<open>run_tick\<close> on whatever the database is at that moment; what \<open>reconcile\<close> does to the database on a
  tick is a program of its own below.
\<close>

section \<open>The builder\<close>

definition Client_Worker :: "wf_client \<Rightarrow> string \<Rightarrow> wf_worker_builder" where
  "Client_Worker c i = \<lparr>wb_client = c, wb_id = i, wb_pickup = \<lparr>onEnqueue = False, scanEvery = 0\<rparr>,
     wb_config = \<lparr>wf_Concurrency = 0, wf_VisibilityTimeout = 0, wf_ReapInterval = 0, OnRunFailed = None\<rparr>,
     wb_workflows = []\<rparr>"

definition Workflows ::
  "wf_worker_builder \<Rightarrow> (wf_definition \<times> (string \<Rightarrow> string result conduct act)) list \<Rightarrow> wf_worker_builder" where
  "Workflows b workflows = b\<lparr>wb_workflows := wb_workflows b @ workflows\<rparr>"

definition wf_Pickup :: "wf_worker_builder \<Rightarrow> pickup \<Rightarrow> wf_worker_builder" where
  "wf_Pickup b p = b\<lparr>wb_pickup := p\<rparr>"

definition wf_Tune :: "wf_worker_builder \<Rightarrow> wf_worker_config \<Rightarrow> wf_worker_builder" where
  "wf_Tune b config = b\<lparr>wb_config := config\<rparr>"

section \<open>State\<close>

text \<open>
  Where the goroutine of a slot stands: started but not yet in the queue worker's \<open>Run\<close>, in its loop, or
  returned with its error. The goroutine of the ready channel has seen the first \<open>p\<close> slots ready, or has
  found the channel open and is about to close it, or has ended.
\<close>

datatype slot_goroutine = Launched | Looping loop | SlotReturned "err option"

datatype opener = Awaiting nat | Closing | OpenerEnded

datatype call_phase = Entered | Working | CallReturned "err option"

record run_call =
  c_phase :: call_phase
  c_cancelled :: bool
  c_slots :: "slot_goroutine list"
  c_reconciling :: bool
  c_opener :: opener

text \<open>
  The worker: its \<open>running\<close> flag, whether its ready channel is closed, and per slot the queue worker's
  \<open>running\<close> flag and whether its ready channel is closed. \<open>f_panicked\<close>: a closed channel was closed again.
\<close>

record fleet =
  f_running :: bool
  f_ready :: bool
  f_panicked :: bool
  q_running :: "bool list"
  q_ready :: "bool list"
  f_calls :: "run_call list"

definition new_fleet :: "nat \<Rightarrow> fleet" where
  "new_fleet n = \<lparr>f_running = False, f_ready = False, f_panicked = False,
     q_running = replicate n False, q_ready = replicate n False, f_calls = []\<rparr>"

definition new_call :: run_call where
  "new_call = \<lparr>c_phase = Entered, c_cancelled = False, c_slots = [], c_reconciling = False,
     c_opener = OpenerEnded\<rparr>"

text \<open>\<open>errors.Join\<close>.\<close>

definition errors_Join :: "err option list \<Rightarrow> err option" where
  "errors_Join errs = (case concat (map (case_option [] (\<lambda>e. [e])) errs) of [] \<Rightarrow> None | es \<Rightarrow> Some (Join es))"

section \<open>Steps\<close>

definition upd_call :: "nat \<Rightarrow> (run_call \<Rightarrow> run_call) \<Rightarrow> fleet \<Rightarrow> fleet" where
  "upd_call i f F = F\<lparr>f_calls := (f_calls F)[i := f (f_calls F ! i)]\<rparr>"

definition launch :: "nat \<Rightarrow> run_call \<Rightarrow> run_call" where
  "launch n c = c\<lparr>c_phase := Working, c_slots := replicate n Launched, c_reconciling := True,
     c_opener := Awaiting 0\<rparr>"

text \<open>The compare-and-swap at the start of \<open>Run\<close>, and the goroutines it starts.\<close>

definition call_enter :: "nat \<Rightarrow> nat \<Rightarrow> fleet \<Rightarrow> fleet" where
  "call_enter n i F =
     (if f_running F then upd_call i (\<lambda>c. c\<lparr>c_phase := CallReturned (Some (Sentinel ErrWorkerRunning))\<rparr>) F
      else upd_call i (launch n) (F\<lparr>f_running := True\<rparr>))"

definition set_slot :: "nat \<Rightarrow> nat \<Rightarrow> slot_goroutine \<Rightarrow> fleet \<Rightarrow> fleet" where
  "set_slot i k g F = upd_call i (\<lambda>c. c\<lparr>c_slots := (c_slots c)[k := g]\<rparr>) F"

definition initial_loop :: "worker \<Rightarrow> loop" where
  "initial_loop wk = \<lparr>wake_pending = listen_wake wk, ready = False, finished = False\<rparr>"

text \<open>The queue worker's own compare-and-swap, one turn of its loop, and its return.\<close>

definition slot_enter :: "worker list \<Rightarrow> nat \<Rightarrow> nat \<Rightarrow> fleet \<Rightarrow> fleet" where
  "slot_enter ws i k F =
     (if q_running F ! k then set_slot i k (SlotReturned (Some (Sentinel ErrWorkerRunning))) F
      else set_slot i k (Looping (initial_loop (ws ! k))) (F\<lparr>q_running := (q_running F)[k := True]\<rparr>))"

definition slot_turned :: "nat \<Rightarrow> nat \<Rightarrow> loop \<Rightarrow> fleet \<Rightarrow> fleet" where
  "slot_turned i k st F = set_slot i k (Looping st) (F\<lparr>q_ready := (q_ready F)[k := q_ready F ! k \<or> ready st]\<rparr>)"

definition slot_leave :: "nat \<Rightarrow> nat \<Rightarrow> fleet \<Rightarrow> fleet" where
  "slot_leave i k F = set_slot i k (SlotReturned None) (F\<lparr>q_running := (q_running F)[k := False]\<rparr>)"

definition set_opener :: "nat \<Rightarrow> opener \<Rightarrow> fleet \<Rightarrow> fleet" where
  "set_opener i p F = upd_call i (\<lambda>c. c\<lparr>c_opener := p\<rparr>) F"

text \<open>The select on the ready channel with its default, and the \<open>close\<close> after it.\<close>

definition opener_check :: "nat \<Rightarrow> fleet \<Rightarrow> fleet" where
  "opener_check i F = set_opener i (if f_ready F then OpenerEnded else Closing) F"

definition opener_close :: "nat \<Rightarrow> fleet \<Rightarrow> fleet" where
  "opener_close i F = set_opener i OpenerEnded
     (F\<lparr>f_ready := True, f_panicked := f_panicked F \<or> f_ready F\<rparr>)"

definition slot_error :: "slot_goroutine \<Rightarrow> err option" where
  "slot_error g = (case g of SlotReturned e \<Rightarrow> e | _ \<Rightarrow> None)"

definition slot_ended :: "slot_goroutine \<Rightarrow> bool" where
  "slot_ended g \<longleftrightarrow> (case g of SlotReturned e \<Rightarrow> True | _ \<Rightarrow> False)"

text \<open>\<open>group.Wait()\<close> returns when every goroutine has; then \<open>Run\<close> joins the errors and clears the flag.\<close>

definition goroutines_ended :: "run_call \<Rightarrow> bool" where
  "goroutines_ended c \<longleftrightarrow> list_all slot_ended (c_slots c) \<and> \<not> c_reconciling c \<and> c_opener c = OpenerEnded"

definition call_return :: "nat \<Rightarrow> fleet \<Rightarrow> fleet" where
  "call_return i F = upd_call i (\<lambda>c. c\<lparr>c_phase := CallReturned (errors_Join (map slot_error (c_slots c)))\<rparr>)
     (F\<lparr>f_running := False\<rparr>)"

definition entered :: "fleet \<Rightarrow> nat \<Rightarrow> bool" where
  "entered F i \<longleftrightarrow> i < length (f_calls F) \<and> c_phase (f_calls F ! i) = Entered"

definition busy :: "fleet \<Rightarrow> nat \<Rightarrow> bool" where
  "busy F i \<longleftrightarrow> i < length (f_calls F) \<and> c_phase (f_calls F ! i) = Working"

text \<open>
  \<open>fleet_call\<close>: someone calls \<open>Run\<close>; \<open>fleet_cancel\<close>: the context of a call ends, at any moment.
  \<open>slot_turn\<close> is \<open>run_tick\<close> on some world \<open>w\<close>; its tick \<open>CtxDone\<close> needs an ended context.
\<close>

inductive fleet_step :: "telemetry \<Rightarrow> worker list \<Rightarrow> fleet \<Rightarrow> fleet \<Rightarrow> bool" for otel ws where
  fleet_call: "fleet_step otel ws F (F\<lparr>f_calls := f_calls F @ [new_call]\<rparr>)"
| fleet_cancel: "i < length (f_calls F) \<Longrightarrow>
   fleet_step otel ws F (upd_call i (\<lambda>c. c\<lparr>c_cancelled := True\<rparr>) F)"
| fleet_enter: "entered F i \<Longrightarrow> fleet_step otel ws F (call_enter (length ws) i F)"
| slot_start: "busy F i \<Longrightarrow> k < length ws \<Longrightarrow> c_slots (f_calls F ! i) ! k = Launched \<Longrightarrow>
   fleet_step otel ws F (slot_enter ws i k F)"
| slot_turn: "busy F i \<Longrightarrow> k < length ws \<Longrightarrow> c_slots (f_calls F ! i) ! k = Looping st \<Longrightarrow>
   t = CtxDone \<longrightarrow> c_cancelled (f_calls F ! i) \<Longrightarrow>
   run_state (run_tick otel (ws ! k) x t st) w = (st', w') \<Longrightarrow>
   fleet_step otel ws F (slot_turned i k st' F)"
| slot_return: "busy F i \<Longrightarrow> k < length ws \<Longrightarrow> c_slots (f_calls F ! i) ! k = Looping st \<Longrightarrow>
   finished st \<Longrightarrow> fleet_step otel ws F (slot_leave i k F)"
| reconcile_return: "busy F i \<Longrightarrow> c_reconciling (f_calls F ! i) \<Longrightarrow> c_cancelled (f_calls F ! i) \<Longrightarrow>
   fleet_step otel ws F (upd_call i (\<lambda>c. c\<lparr>c_reconciling := False\<rparr>) F)"
| opener_next: "busy F i \<Longrightarrow> c_opener (f_calls F ! i) = Awaiting p \<Longrightarrow> p < length ws \<Longrightarrow>
   q_ready F ! p \<Longrightarrow> fleet_step otel ws F (set_opener i (Awaiting (p + 1)) F)"
| opener_return: "busy F i \<Longrightarrow> c_opener (f_calls F ! i) = Awaiting p \<Longrightarrow> p < length ws \<Longrightarrow>
   c_cancelled (f_calls F ! i) \<Longrightarrow> fleet_step otel ws F (set_opener i OpenerEnded F)"
| opener_select: "busy F i \<Longrightarrow> c_opener (f_calls F ! i) = Awaiting p \<Longrightarrow> p = length ws \<Longrightarrow>
   fleet_step otel ws F (opener_check i F)"
| opener_closes: "busy F i \<Longrightarrow> c_opener (f_calls F ! i) = Closing \<Longrightarrow>
   fleet_step otel ws F (opener_close i F)"
| fleet_return: "busy F i \<Longrightarrow> goroutines_ended (f_calls F ! i) \<Longrightarrow>
   fleet_step otel ws F (call_return i F)"

definition fleet_reachable :: "telemetry \<Rightarrow> worker list \<Rightarrow> fleet \<Rightarrow> bool" where
  "fleet_reachable otel ws F \<longleftrightarrow> (fleet_step otel ws)\<^sup>*\<^sup>* (new_fleet (length ws)) F"

section \<open>Invariant\<close>

definition opener_ok :: "bool \<Rightarrow> bool list \<Rightarrow> opener \<Rightarrow> bool" where
  "opener_ok is_closed qd p \<longleftrightarrow> (case p of
       Awaiting j \<Rightarrow> j \<le> length qd \<and> list_all id (take j qd)
     | Closing \<Rightarrow> list_all id qd \<and> \<not> is_closed
     | OpenerEnded \<Rightarrow> True)"

definition slots_ok :: "bool list \<Rightarrow> slot_goroutine list \<Rightarrow> bool" where
  "slots_ok qr gs \<longleftrightarrow> list_all2 (\<lambda>r g. slot_error g = None \<and> (r \<longleftrightarrow> (\<exists>st. g = Looping st))) qr gs"

definition returned_ok :: "run_call \<Rightarrow> bool" where
  "returned_ok c \<longleftrightarrow> (case c_phase c of
       CallReturned r \<Rightarrow> r = None \<or> r = Some (Sentinel ErrWorkerRunning) | _ \<Rightarrow> True)"

definition fleet_inv :: "nat \<Rightarrow> fleet \<Rightarrow> bool" where
  "fleet_inv n F \<longleftrightarrow> length (q_running F) = n \<and> length (q_ready F) = n \<and> \<not> f_panicked F
     \<and> (f_ready F \<longrightarrow> list_all id (q_ready F))
     \<and> (\<forall>i j. busy F i \<and> busy F j \<longrightarrow> i = j) \<and> (f_running F \<longleftrightarrow> (\<exists>i. busy F i))
     \<and> (\<forall>i. busy F i \<longrightarrow> slots_ok (q_running F) (c_slots (f_calls F ! i))
           \<and> opener_ok (f_ready F) (q_ready F) (c_opener (f_calls F ! i)))
     \<and> (\<not> f_running F \<longrightarrow> q_running F = replicate n False)
     \<and> list_all returned_ok (f_calls F)"

lemma fleet_invD:
  assumes "fleet_inv n F"
  shows "length (q_running F) = n" "length (q_ready F) = n" "\<not> f_panicked F"
    "f_ready F \<Longrightarrow> list_all id (q_ready F)" "busy F i \<Longrightarrow> busy F j \<Longrightarrow> i = j"
    "f_running F \<longleftrightarrow> (\<exists>i. busy F i)" "busy F i \<Longrightarrow> slots_ok (q_running F) (c_slots (f_calls F ! i))"
    "busy F i \<Longrightarrow> opener_ok (f_ready F) (q_ready F) (c_opener (f_calls F ! i))"
    "\<not> f_running F \<Longrightarrow> q_running F = replicate n False"
    "list_all returned_ok (f_calls F)"
  using assms by (simp_all add: fleet_inv_def)

lemma list_all_update: "list_all P xs \<Longrightarrow> P x \<Longrightarrow> list_all P (xs[i := x])"
  using set_update_subset_insert [of xs i x] by (auto simp: list_all_iff)

lemma busy_upd: "busy (F\<lparr>f_calls := (f_calls F)[i := c]\<rparr>) j \<longleftrightarrow>
    (if j = i then i < length (f_calls F) \<and> c_phase c = Working else busy F j)"
  by (auto simp: busy_def)

lemma busy_irrelevant [simp]:
  "busy (F\<lparr>f_running := b\<rparr>) = busy F" "busy (F\<lparr>f_ready := b\<rparr>) = busy F" "busy (F\<lparr>f_panicked := b\<rparr>) = busy F"
  "busy (F\<lparr>q_running := bs\<rparr>) = busy F" "busy (F\<lparr>q_ready := bs\<rparr>) = busy F"
  by (auto simp: busy_def)

text \<open>A step of the call that is in progress: only its own state and the slots' flags matter.\<close>

lemma work_inv:
  assumes inv: "fleet_inv n F" and i: "busy F i" and c: "c_phase c = Working"
    and len: "length qr = n" "length qd = n"
    and ok: "slots_ok qr (c_slots c)" "opener_ok fr qd (c_opener c)" "fr \<Longrightarrow> list_all id qd"
  shows "fleet_inv n (F\<lparr>f_calls := (f_calls F)[i := c], q_running := qr, q_ready := qd, f_ready := fr\<rparr>)"
proof -
  have run: "f_running F" using fleet_invD(6) [OF inv] i by blast
  have one: "j = i" if "busy F j" for j using fleet_invD(5) [OF inv that i] .
  have il: "i < length (f_calls F)" using i by (simp add: busy_def)
  have b: "busy (F\<lparr>f_calls := (f_calls F)[i := c], q_running := qr, q_ready := qd, f_ready := fr\<rparr>) j \<longleftrightarrow> j = i" for j
    using il c one by (auto simp: busy_def nth_list_update)
  show ?thesis
    unfolding fleet_inv_def b using run len ok il fleet_invD(3,10) [OF inv] c
    by (simp add: list_all_update returned_ok_def)
qed

text \<open>A call that is not in progress changes to another state of that kind.\<close>

lemma idle_inv:
  assumes inv: "fleet_inv n F" and i: "\<not> busy F i" and c: "c_phase c \<noteq> Working"
    and returned: "returned_ok c"
  shows "fleet_inv n (F\<lparr>f_calls := (f_calls F)[i := c]\<rparr>)"
proof -
  have b: "busy (F\<lparr>f_calls := (f_calls F)[i := c]\<rparr>) = busy F"
    using i c by (auto simp: busy_upd fun_eq_iff)
  have nth: "(f_calls F)[i := c] ! j = f_calls F ! j" if "busy F j" for j
    using that i by (cases "j = i") auto
  have "slots_ok (q_running F) (c_slots ((f_calls F)[i := c] ! j))
      \<and> opener_ok (f_ready F) (q_ready F) (c_opener ((f_calls F)[i := c] ! j))" if "busy F j" for j
    using fleet_invD(7,8) [OF inv that] by (simp add: nth [OF that])
  then show ?thesis
    unfolding fleet_inv_def b using fleet_invD [OF inv] returned by (simp add: list_all_update)
qed

lemma slots_ok_len: "slots_ok qr gs \<Longrightarrow> length gs = length qr"
  by (auto simp: slots_ok_def dest: list_all2_lengthD)

lemma slots_ok_update:
  "slots_ok qr gs \<Longrightarrow> slot_error g = None \<Longrightarrow> (r \<longleftrightarrow> (\<exists>st. g = Looping st)) \<Longrightarrow>
    slots_ok (qr[k := r]) (gs[k := g])"
  unfolding slots_ok_def by (intro list_all2_update_cong) auto

lemma slots_ok_launch: "slots_ok (replicate n False) (replicate n Launched)"
  by (auto simp: slots_ok_def list_all2_conv_all_nth slot_error_def)

text \<open>A slot that turns ready keeps what the goroutine of the ready channel has seen.\<close>

lemma list_all_id_update: "list_all id bs \<Longrightarrow> list_all id (bs[k := bs ! k \<or> b])"
  by (cases "k < length bs") (auto simp: list_all_length nth_list_update)

lemma opener_ok_update:
  assumes "opener_ok b qd p" shows "opener_ok b (qd[k := qd ! k \<or> r]) p"
proof (cases p)
  case (Awaiting j)
  have "list_all id (take j (qd[k := qd ! k \<or> r]))" if "list_all id (take j qd)"
    using that list_all_id_update [of "take j qd" k r]
    by (cases "k < j") (simp_all add: take_update_swap list_update_beyond)
  then show ?thesis using assms Awaiting by (auto simp: opener_ok_def)
qed (use assms in \<open>auto simp: opener_ok_def intro: list_all_id_update\<close>)

lemma opener_ok_all: "opener_ok b qd (Awaiting (length qd)) \<Longrightarrow> list_all id qd"
  by (simp add: opener_ok_def)

text \<open>One lemma for each kind of step of the call in progress.\<close>

lemma slot_step_inv:
  assumes inv: "fleet_inv n F" and i: "busy F i" and g: "slot_error g = None"
    and r: "r \<longleftrightarrow> (\<exists>st. g = Looping st)"
  shows "fleet_inv n (set_slot i k g (F\<lparr>q_running := (q_running F)[k := r],
    q_ready := (q_ready F)[k := q_ready F ! k \<or> d]\<rparr>))"
proof -
  let ?c = "(f_calls F ! i)\<lparr>c_slots := (c_slots (f_calls F ! i))[k := g]\<rparr>"
  have "fleet_inv n (F\<lparr>f_calls := (f_calls F)[i := ?c], q_running := (q_running F)[k := r],
      q_ready := (q_ready F)[k := q_ready F ! k \<or> d], f_ready := f_ready F\<rparr>)"
    using i fleet_invD [OF inv] g r
    by (intro work_inv [OF inv i]) (auto simp: busy_def intro: slots_ok_update opener_ok_update list_all_id_update)
  then show ?thesis by (cases F) (simp add: set_slot_def upd_call_def)
qed

lemma opener_step_inv:
  assumes inv: "fleet_inv n F" and i: "busy F i" and p: "opener_ok fr (q_ready F) p"
    and fr: "fr \<Longrightarrow> list_all id (q_ready F)"
  shows "fleet_inv n (set_opener i p (F\<lparr>f_ready := fr\<rparr>))"
proof -
  have "fleet_inv n (F\<lparr>f_calls := (f_calls F)[i := (f_calls F ! i)\<lparr>c_opener := p\<rparr>],
      q_running := q_running F, q_ready := q_ready F, f_ready := fr\<rparr>)"
    using i fleet_invD [OF inv] p fr by (intro work_inv [OF inv i]) (auto simp: busy_def)
  then show ?thesis by (cases F) (simp add: set_opener_def upd_call_def)
qed

lemma call_inv:
  assumes inv: "fleet_inv n F" shows "fleet_inv n (F\<lparr>f_calls := f_calls F @ [new_call]\<rparr>)"
proof -
  have b: "busy (F\<lparr>f_calls := f_calls F @ [new_call]\<rparr>) = busy F"
    by (auto simp: busy_def new_call_def nth_append fun_eq_iff)
  have nth: "(f_calls F @ [new_call]) ! j = f_calls F ! j" if "busy F j" for j
    using that by (simp add: busy_def nth_append)
  have "slots_ok (q_running F) (c_slots ((f_calls F @ [new_call]) ! j))
      \<and> opener_ok (f_ready F) (q_ready F) (c_opener ((f_calls F @ [new_call]) ! j))" if "busy F j" for j
    using fleet_invD(7,8) [OF inv that] by (simp add: nth [OF that])
  then show ?thesis
    unfolding fleet_inv_def b using fleet_invD [OF inv] by (simp add: new_call_def returned_ok_def)
qed

lemma enter_inv:
  assumes inv: "fleet_inv n F" and i: "entered F i" shows "fleet_inv n (call_enter n i F)"
proof (cases "f_running F")
  case True
  have "\<not> busy F i" using i by (simp add: entered_def busy_def)
  then have "fleet_inv n (F\<lparr>f_calls := (f_calls F)[i := (f_calls F ! i)\<lparr>c_phase := CallReturned (Some (Sentinel ErrWorkerRunning))\<rparr>]\<rparr>)"
    by (rule idle_inv [OF inv]) (simp_all add: returned_ok_def)
  with True show ?thesis by (simp add: call_enter_def upd_call_def)
next
  case False
  let ?c = "launch n (f_calls F ! i)" and ?F = "call_enter n i F"
  have F: "?F = F\<lparr>f_calls := (f_calls F)[i := ?c], f_running := True\<rparr>"
    using False by (cases F) (simp add: call_enter_def upd_call_def)
  have none: "\<not> busy F j" for j using fleet_invD(6) [OF inv] False by blast
  have il: "i < length (f_calls F)" using i by (simp add: entered_def)
  have b: "busy ?F j \<longleftrightarrow> j = i" for j using none il by (auto simp: F busy_upd launch_def)
  show ?thesis
    unfolding fleet_inv_def b
    using fleet_invD(1-4,10) [OF inv] fleet_invD(9) [OF inv False] il slots_ok_launch [of n]
    by (simp add: F launch_def opener_ok_def list_all_update returned_ok_def)
qed

lemma errors_Join_none: "list_all (\<lambda>e. e = None) errs \<Longrightarrow> errors_Join errs = None"
  by (induction errs) (simp_all add: errors_Join_def)

lemma slots_ok_errors: "slots_ok qr gs \<Longrightarrow> errors_Join (map slot_error gs) = None"
  by (intro errors_Join_none) (auto simp: slots_ok_def list_all_length list_all2_conv_all_nth)

lemma slots_ok_ended:
  "slots_ok qr gs \<Longrightarrow> list_all slot_ended gs \<Longrightarrow> qr = replicate (length qr) False"
  by (rule nth_equalityI)
     (auto simp: slots_ok_def list_all_length list_all2_conv_all_nth slot_ended_def)

lemma return_inv:
  assumes inv: "fleet_inv n F" and i: "busy F i" and g: "goroutines_ended (f_calls F ! i)"
  shows "fleet_inv n (call_return i F)"
proof -
  let ?c = "(f_calls F ! i)\<lparr>c_phase := CallReturned None\<rparr>"
  note slots = fleet_invD(7) [OF inv i]
  have F: "call_return i F = F\<lparr>f_calls := (f_calls F)[i := ?c], f_running := False\<rparr>"
    by (cases F) (use slots_ok_errors [OF slots] in \<open>simp add: call_return_def upd_call_def\<close>)
  have b: "\<not> busy (call_return i F) j" for j
    using fleet_invD(5) [OF inv _ i] by (auto simp: F busy_upd)
  have "q_running F = replicate n False"
    using slots_ok_ended [OF slots] g fleet_invD(1) [OF inv] by (simp add: goroutines_ended_def)
  then show ?thesis
    unfolding fleet_inv_def using b fleet_invD(1-4,10) [OF inv]
    by (simp add: F list_all_update returned_ok_def)
qed

lemma cancel_inv:
  assumes inv: "fleet_inv n F" and i: "i < length (f_calls F)"
  shows "fleet_inv n (upd_call i (\<lambda>c. c\<lparr>c_cancelled := True\<rparr>) F)"
proof (cases "busy F i")
  case True
  have "fleet_inv n (F\<lparr>f_calls := (f_calls F)[i := (f_calls F ! i)\<lparr>c_cancelled := True\<rparr>],
      q_running := q_running F, q_ready := q_ready F, f_ready := f_ready F\<rparr>)"
    using True fleet_invD [OF inv] by (intro work_inv [OF inv True]) (auto simp: busy_def)
  then show ?thesis by (simp add: upd_call_def)
next
  case False
  have "returned_ok (f_calls F ! i)" using fleet_invD(10) [OF inv] i by (simp add: list_all_length)
  then show ?thesis using False i
    by (auto simp: upd_call_def busy_def returned_ok_def intro!: idle_inv [OF inv])
qed

lemma reconcile_return_inv:
  assumes inv: "fleet_inv n F" and i: "busy F i"
  shows "fleet_inv n (upd_call i (\<lambda>c. c\<lparr>c_reconciling := False\<rparr>) F)"
proof -
  have "fleet_inv n (F\<lparr>f_calls := (f_calls F)[i := (f_calls F ! i)\<lparr>c_reconciling := False\<rparr>],
      q_running := q_running F, q_ready := q_ready F, f_ready := f_ready F\<rparr>)"
    using i fleet_invD [OF inv] by (intro work_inv [OF inv i]) (auto simp: busy_def)
  then show ?thesis by (simp add: upd_call_def)
qed

text \<open>A slot that has not entered its \<open>Run\<close> finds the queue worker idle.\<close>

lemma launched_idle:
  assumes inv: "fleet_inv n F" and i: "busy F i" and k: "k < n"
    and g: "c_slots (f_calls F ! i) ! k = Launched"
  shows "\<not> q_running F ! k"
  using fleet_invD(1,7) [OF inv] i k g by (auto simp: slots_ok_def list_all2_conv_all_nth)

lemma fleet_step_inv:
  assumes "fleet_step otel ws F F'" "fleet_inv (length ws) F"
  shows "fleet_inv (length ws) F'"
  using assms
proof (induction rule: fleet_step.induct)
  case (slot_start F i k)
  then have "\<not> q_running F ! k" by (intro launched_idle)
  with slot_step_inv [of "length ws" F i "Looping (initial_loop (ws ! k))" True k False] slot_start show ?case
    by (simp add: slot_enter_def slot_error_def)
next
  case (slot_turn F i k st t x w st' w')
  then have "(q_running F)[k := True] = q_running F"
    using fleet_invD(1,7) [OF slot_turn.prems]
    by (auto simp: slots_ok_def list_all2_conv_all_nth list_update_same_conv)
  with slot_step_inv [of "length ws" F i "Looping st'" True k "ready st'"] slot_turn show ?case
    by (simp add: slot_turned_def slot_error_def)
next
  case (slot_return F i k st)
  with slot_step_inv [of "length ws" F i "SlotReturned None" False k False] show ?case
    by (simp add: slot_leave_def slot_error_def)
next
  case (opener_next F i p)
  then have "opener_ok (f_ready F) (q_ready F) (Awaiting (p + 1))"
    using fleet_invD(2) [OF opener_next.prems] fleet_invD(8) [OF opener_next.prems opener_next.hyps(1)]
    by (simp add: opener_ok_def take_Suc_conv_app_nth)
  with opener_step_inv [of "length ws" F i "f_ready F" "Awaiting (p + 1)"] opener_next fleet_invD(4) [OF opener_next.prems]
  show ?case by simp
next
  case (opener_return F i p)
  with opener_step_inv [of "length ws" F i "f_ready F" OpenerEnded] fleet_invD(4) [OF opener_return.prems]
  show ?case by (simp add: opener_ok_def)
next
  case (opener_select F i p)
  then have "list_all id (q_ready F)"
    using fleet_invD(2) [OF opener_select.prems] fleet_invD(8) [OF opener_select.prems opener_select.hyps(1)]
    by (auto intro: opener_ok_all [of "f_ready F"])
  with opener_step_inv [of "length ws" F i "f_ready F" "if f_ready F then OpenerEnded else Closing"] opener_select
  show ?case by (simp add: opener_check_def opener_ok_def)
next
  case (opener_closes F i)
  then have "list_all id (q_ready F)" "\<not> f_ready F" "\<not> f_panicked F"
    using fleet_invD(3) [OF opener_closes.prems] fleet_invD(8) [OF opener_closes.prems opener_closes.hyps(1)]
    opener_closes.hyps(2) by (simp_all add: opener_ok_def)
  moreover from this have "opener_close i F = set_opener i OpenerEnded (F\<lparr>f_ready := True\<rparr>)"
    by (cases F) (simp add: opener_close_def)
  ultimately show ?case
    using opener_step_inv [of "length ws" F i True OpenerEnded] opener_closes by (simp add: opener_ok_def)
qed (simp_all add: call_inv cancel_inv enter_inv reconcile_return_inv return_inv)

lemma new_fleet_inv: "fleet_inv n (new_fleet n)"
  by (simp add: fleet_inv_def new_fleet_def busy_def)

lemma fleet_reachable_inv: "fleet_reachable otel ws F \<Longrightarrow> fleet_inv (length ws) F"
  unfolding fleet_reachable_def
  by (induction rule: rtranclp_induct) (auto intro: new_fleet_inv fleet_step_inv)

section \<open>Progress\<close>

text \<open>What is left to do for a call whose context ended.\<close>

definition slot_work :: "slot_goroutine \<Rightarrow> nat" where
  "slot_work g = (case g of Launched \<Rightarrow> 3 | Looping st \<Rightarrow> if finished st then 1 else 2 | SlotReturned e \<Rightarrow> 0)"

definition opener_work :: "opener \<Rightarrow> nat" where
  "opener_work p = (case p of Awaiting j \<Rightarrow> 2 | Closing \<Rightarrow> 1 | OpenerEnded \<Rightarrow> 0)"

definition call_work :: "run_call \<Rightarrow> nat" where
  "call_work c = sum_list (map slot_work (c_slots c)) + (if c_reconciling c then 1 else 0) + opener_work (c_opener c)"

definition stopping :: "fleet \<Rightarrow> nat \<Rightarrow> bool" where
  "stopping F i \<longleftrightarrow> busy F i \<and> c_cancelled (f_calls F ! i)"

definition remaining :: "fleet \<Rightarrow> nat \<Rightarrow> nat" where
  "remaining F i = call_work (f_calls F ! i)"

lemma sum_list_update_less:
  "k < length gs \<Longrightarrow> f g < f (gs ! k) \<Longrightarrow> sum_list (map f (gs[k := g])) < sum_list (map (f :: 'a \<Rightarrow> nat) gs)"
  by (induction gs arbitrary: k) (auto simp: nth_Cons' less_Suc_eq_0_disj list_update.simps split: nat.splits)

lemma slot_step_remaining:
  assumes "stopping F i" "k < length (c_slots (f_calls F ! i))" "slot_work g < slot_work (c_slots (f_calls F ! i) ! k)"
  shows "stopping (set_slot i k g (F\<lparr>q_running := qr, q_ready := qd\<rparr>)) i
    \<and> remaining (set_slot i k g (F\<lparr>q_running := qr, q_ready := qd\<rparr>)) i < remaining F i"
  using assms sum_list_update_less [of k "c_slots (f_calls F ! i)" slot_work g]
  by (auto simp: stopping_def busy_def set_slot_def upd_call_def remaining_def call_work_def)

lemma opener_step_remaining:
  assumes "stopping F i" "opener_work p < opener_work (c_opener (f_calls F ! i))"
  shows "stopping (set_opener i p (F\<lparr>f_ready := fr, f_panicked := pn\<rparr>)) i
    \<and> remaining (set_opener i p (F\<lparr>f_ready := fr, f_panicked := pn\<rparr>)) i < remaining F i"
  using assms by (auto simp: stopping_def busy_def set_opener_def upd_call_def remaining_def call_work_def)

lemma reconcile_step_remaining:
  assumes "stopping F i" "c_reconciling (f_calls F ! i)"
  shows "stopping (upd_call i (\<lambda>c. c\<lparr>c_reconciling := False\<rparr>) F) i
    \<and> remaining (upd_call i (\<lambda>c. c\<lparr>c_reconciling := False\<rparr>) F) i < remaining F i"
  using assms by (auto simp: stopping_def busy_def upd_call_def remaining_def call_work_def)

lemma slot_progress:
  assumes inv: "fleet_inv (length ws) F" and s: "stopping F i" and k: "k < length ws"
    and g: "\<not> slot_ended (c_slots (f_calls F ! i) ! k)"
  shows "\<exists>F'. fleet_step otel ws F F' \<and> stopping F' i \<and> remaining F' i < remaining F i"
proof -
  have i: "busy F i" and c: "c_cancelled (f_calls F ! i)" using s by (simp_all add: stopping_def)
  have len: "k < length (c_slots (f_calls F ! i))"
    using slots_ok_len [OF fleet_invD(7) [OF inv i]] fleet_invD(1) [OF inv] k by simp
  consider "c_slots (f_calls F ! i) ! k = Launched"
    | st where "c_slots (f_calls F ! i) ! k = Looping st" "finished st"
    | st where "c_slots (f_calls F ! i) ! k = Looping st" "\<not> finished st"
    using g by (cases "c_slots (f_calls F ! i) ! k") (auto simp: slot_ended_def)
  then show ?thesis
  proof cases
    case 1
    then have "slot_enter ws i k F = set_slot i k (Looping (initial_loop (ws ! k)))
        (F\<lparr>q_running := (q_running F)[k := True], q_ready := q_ready F\<rparr>)"
      using launched_idle [OF inv i k] by (simp add: slot_enter_def)
    with 1 slot_step_remaining [OF s len, where g = "Looping (initial_loop (ws ! k))"
        and qr = "(q_running F)[k := True]" and qd = "q_ready F"] slot_start [OF i k 1]
    show ?thesis by (intro exI [of _ "slot_enter ws i k F"]) (simp add: slot_work_def initial_loop_def)
  next
    case 2
    with slot_step_remaining [OF s len, where g = "SlotReturned None"
        and qr = "(q_running F)[k := False]" and qd = "q_ready F"]
      slot_return [OF i k 2]
    show ?thesis by (intro exI [of _ "slot_leave i k F"]) (simp add: slot_work_def slot_leave_def)
  next
    case 3
    have "fleet_step otel ws F (slot_turned i k (st\<lparr>finished := True\<rparr>) F)"
      using 3 c by (intro slot_turn [OF i k, of st CtxDone _ undefined undefined]) (simp_all add: run_tick_def)
    with 3 slot_step_remaining [OF s len, where g = "Looping (st\<lparr>finished := True\<rparr>)"
        and qr = "q_running F" and qd = "(q_ready F)[k := q_ready F ! k \<or> ready st]"]
    show ?thesis
      by (intro exI [of _ "slot_turned i k (st\<lparr>finished := True\<rparr>) F"]) (simp add: slot_work_def slot_turned_def)
  qed
qed

lemma opener_progress:
  assumes inv: "fleet_inv (length ws) F" and s: "stopping F i" and p: "c_opener (f_calls F ! i) \<noteq> OpenerEnded"
  shows "\<exists>F'. fleet_step otel ws F F' \<and> stopping F' i \<and> remaining F' i < remaining F i"
proof -
  have i: "busy F i" and c: "c_cancelled (f_calls F ! i)" using s by (simp_all add: stopping_def)
  note less = opener_step_remaining [OF s, where fr = "f_ready F" and pn = "f_panicked F"]
  consider j where "c_opener (f_calls F ! i) = Awaiting j" "j < length ws"
    | j where "c_opener (f_calls F ! i) = Awaiting j" "j = length ws"
    | "c_opener (f_calls F ! i) = Closing"
    using p fleet_invD(8) [OF inv i] fleet_invD(2) [OF inv]
    by (cases "c_opener (f_calls F ! i)") (auto simp: opener_ok_def dest: le_neq_implies_less)
  then show ?thesis
  proof cases
    case 1
    with opener_return [OF i 1 c] less [where p = OpenerEnded] show ?thesis
      by (intro exI [of _ "set_opener i OpenerEnded F"]) (simp add: opener_work_def)
  next
    case 2
    with opener_select [OF i 2] less [where p = "if f_ready F then OpenerEnded else Closing"] show ?thesis
      by (intro exI [of _ "opener_check i F"]) (simp add: opener_work_def opener_check_def)
  next
    case 3
    with opener_closes [OF i 3] opener_step_remaining [OF s, where p = OpenerEnded and fr = True and pn = "f_panicked F \<or> f_ready F"]
    show ?thesis
      by (intro exI [of _ "opener_close i F"]) (simp add: opener_work_def opener_close_def)
  qed
qed

lemma stopping_progress:
  assumes inv: "fleet_inv (length ws) F" and s: "stopping F i" and g: "\<not> goroutines_ended (f_calls F ! i)"
  shows "\<exists>F'. fleet_step otel ws F F' \<and> stopping F' i \<and> remaining F' i < remaining F i"
proof -
  have i: "busy F i" and c: "c_cancelled (f_calls F ! i)" using s by (simp_all add: stopping_def)
  have len: "length (c_slots (f_calls F ! i)) = length ws"
    using slots_ok_len [OF fleet_invD(7) [OF inv i]] fleet_invD(1) [OF inv] by simp
  consider k where "k < length ws" "\<not> slot_ended (c_slots (f_calls F ! i) ! k)"
    | "c_reconciling (f_calls F ! i)" | "c_opener (f_calls F ! i) \<noteq> OpenerEnded"
    using g len by (auto simp: goroutines_ended_def list_all_length)
  then show ?thesis
  proof cases
    case 1 then show ?thesis by (rule slot_progress [OF inv s])
  next
    case 2 with reconcile_return [OF i 2 c] reconcile_step_remaining [OF s 2] show ?thesis by blast
  next
    case 3 then show ?thesis by (rule opener_progress [OF inv s])
  qed
qed

lemma stopping_ends:
  assumes "fleet_inv (length ws) F" "stopping F i"
  shows "\<exists>F'. (fleet_step otel ws)\<^sup>*\<^sup>* F F' \<and> fleet_inv (length ws) F' \<and> busy F' i \<and> goroutines_ended (f_calls F' ! i)"
  using assms
proof (induction "remaining F i" arbitrary: F rule: less_induct)
  case less
  show ?case
  proof (cases "goroutines_ended (f_calls F ! i)")
    case True then show ?thesis using less.prems by (auto simp: stopping_def)
  next
    case False
    then obtain F1 where F1: "fleet_step otel ws F F1" "stopping F1 i" "remaining F1 i < remaining F i"
      using stopping_progress [OF less.prems] by blast
    with less.hyps [OF F1(3) fleet_step_inv [OF F1(1) less.prems(1)] F1(2)] show ?thesis
      by (meson converse_rtranclp_into_rtranclp)
  qed
qed

lemma call_returns_nil:
  assumes "fleet_inv n F" "busy F i"
  shows "c_phase (f_calls (call_return i F) ! i) = CallReturned None"
  using assms slots_ok_errors [OF fleet_invD(7) [OF assms]]
  by (simp add: call_return_def upd_call_def busy_def)

section \<open>Properties\<close>

text \<open>
  C24. A workflow worker under any interleaving of any number of calls of \<open>Run\<close>, of their goroutines and of
  cancellations: the ready channel is never closed twice, although the check and the close of the goroutine
  are two actions and each call starts its own; it is closed only once every slot is ready; at most one call
  is past the compare-and-swap; and a call that returned an error was refused because another one ran.
\<close>

theorem worker_run_safe:
  assumes "fleet_reachable otel ws F"
  shows "\<not> f_panicked F \<and> (f_ready F \<longrightarrow> list_all id (q_ready F)) \<and> (\<forall>i j. busy F i \<and> busy F j \<longrightarrow> i = j)
     \<and> (\<forall>c \<in> set (f_calls F). \<forall>e. c_phase c = CallReturned (Some e) \<longrightarrow> e = Sentinel ErrWorkerRunning)"
proof -
  note inv = fleet_reachable_inv [OF assms]
  have "e = Sentinel ErrWorkerRunning" if "c \<in> set (f_calls F)" "c_phase c = CallReturned (Some e)" for c e
    using fleet_invD(10) [OF inv] that by (auto simp: list_all_iff returned_ok_def)
  then show ?thesis using fleet_invD(3-5) [OF inv] by blast
qed

text \<open>
  A worker with one slot that becomes ready, while a second call of \<open>Run\<close> is refused; then the context of
  the first one ends.
\<close>

definition sample_entered :: fleet where
  "sample_entered = call_enter 1 1 (call_enter 1 0 ((new_fleet 1)\<lparr>f_calls := [new_call, new_call]\<rparr>))"

definition sample_looping :: fleet where
  "sample_looping = slot_turned 0 0 \<lparr>wake_pending = False, ready = True, finished = False\<rparr>
     (slot_enter [sample_worker] 0 0 sample_entered)"

definition sample_fleet :: fleet where
  "sample_fleet = upd_call 0 (\<lambda>c. c\<lparr>c_cancelled := True\<rparr>)
     (opener_close 0 (opener_check 0 (set_opener 0 (Awaiting 1) sample_looping)))"

lemma sample_turn:
  "run_state (run_tick sample_telemetry sample_worker background (WakeTick True)
      \<lparr>wake_pending = True, ready = False, finished = False\<rparr>) initial_world
    = (\<lparr>wake_pending = False, ready = True, finished = False\<rparr>, initial_world)"
  by code_simp

lemmas fleet_state = entered_def busy_def new_fleet_def new_call_def call_enter_def upd_call_def launch_def
  slot_enter_def set_slot_def slot_turned_def initial_loop_def set_opener_def opener_check_def opener_close_def

lemma listen_sample: "listen_wake sample_worker"
  by code_simp

lemma reach_step: "fleet_reachable otel ws F \<Longrightarrow> fleet_step otel ws F F' \<Longrightarrow> fleet_reachable otel ws F'"
  unfolding fleet_reachable_def by (rule rtranclp.rtrancl_into_rtrancl)

lemma sample_entered_reachable: "fleet_reachable sample_telemetry [sample_worker] sample_entered"
proof -
  let ?r = "fleet_reachable sample_telemetry [sample_worker]"
  have "?r (new_fleet 1)" by (simp add: fleet_reachable_def)
  from reach_step [OF this fleet_call] have "?r ((new_fleet 1)\<lparr>f_calls := [new_call]\<rparr>)"
    by (simp add: new_fleet_def)
  from reach_step [OF this fleet_call] have "?r ((new_fleet 1)\<lparr>f_calls := [new_call, new_call]\<rparr>)"
    by (simp add: new_fleet_def)
  from reach_step [OF this fleet_enter [of _ 0]]
  have "?r (call_enter 1 0 ((new_fleet 1)\<lparr>f_calls := [new_call, new_call]\<rparr>))" by (simp add: fleet_state)
  from reach_step [OF this fleet_enter [of _ 1]] show ?thesis
    by (simp add: fleet_state sample_entered_def)
qed

lemma sample_looping_reachable: "fleet_reachable sample_telemetry [sample_worker] sample_looping"
proof -
  let ?r = "fleet_reachable sample_telemetry [sample_worker]"
  have "?r (slot_enter [sample_worker] 0 0 sample_entered)"
    by (rule reach_step [OF sample_entered_reachable slot_start]) (simp_all add: fleet_state sample_entered_def)
  moreover have "fleet_step sample_telemetry [sample_worker] (slot_enter [sample_worker] 0 0 sample_entered) sample_looping"
    unfolding sample_looping_def
    by (rule slot_turn [where st = "\<lparr>wake_pending = True, ready = False, finished = False\<rparr>" and t = "WakeTick True"
        and x = background and w = initial_world and w' = initial_world])
      (simp_all add: fleet_state sample_entered_def listen_sample sample_turn)
  ultimately show ?thesis by (rule reach_step)
qed

lemma sample_fleet_reachable: "fleet_reachable sample_telemetry [sample_worker] sample_fleet"
proof -
  let ?r = "fleet_reachable sample_telemetry [sample_worker]"
  have "?r (set_opener 0 (Awaiting (0 + 1)) sample_looping)"
    by (rule reach_step [OF sample_looping_reachable opener_next])
      (simp_all add: fleet_state sample_looping_def sample_entered_def)
  then have "?r (opener_check 0 (set_opener 0 (Awaiting (0 + 1)) sample_looping))"
    by (rule reach_step [OF _ opener_select]) (simp_all add: fleet_state sample_looping_def sample_entered_def)
  then have "?r (opener_close 0 (opener_check 0 (set_opener 0 (Awaiting (0 + 1)) sample_looping)))"
    by (rule reach_step [OF _ opener_closes]) (simp_all add: fleet_state sample_looping_def sample_entered_def)
  then have closed: "?r (opener_close 0 (opener_check 0 (set_opener 0 (Awaiting 1) sample_looping)))" by simp
  show ?thesis unfolding sample_fleet_def
    by (rule reach_step [OF closed fleet_cancel]) (simp add: fleet_state sample_looping_def sample_entered_def)
qed

lemma sample_fleet_state:
  "f_ready sample_fleet" "busy sample_fleet 0" "c_cancelled (f_calls sample_fleet ! 0)"
  "c_phase (f_calls sample_fleet ! 1) = CallReturned (Some (Sentinel ErrWorkerRunning))"
  by (simp_all add: fleet_state sample_fleet_def sample_looping_def sample_entered_def)

theorem worker_run_safe_witness:
  "fleet_reachable sample_telemetry [sample_worker] sample_fleet \<and> f_ready sample_fleet
     \<and> \<not> f_panicked sample_fleet \<and> list_all id (q_ready sample_fleet)"
  using worker_run_safe [OF sample_fleet_reachable] sample_fleet_reachable sample_fleet_state by blast

text \<open>
  C25. \<open>Run\<close> of the workflow worker ends when its context does. Whatever state the goroutines of a call are
  in when its context has ended, they can all still end, \<open>group.Wait\<close> then returns, and the call answers
  nil: no slot was refused by its queue worker, and the worker can run again.
\<close>

theorem worker_run_returns:
  assumes "fleet_reachable otel ws F" "busy F i" "c_cancelled (f_calls F ! i)"
  shows "\<exists>F'. (fleet_step otel ws)\<^sup>*\<^sup>* F F' \<and> c_phase (f_calls F' ! i) = CallReturned None \<and> \<not> f_running F'"
proof -
  obtain F1 where F1: "(fleet_step otel ws)\<^sup>*\<^sup>* F F1" "fleet_inv (length ws) F1" "busy F1 i"
    "goroutines_ended (f_calls F1 ! i)"
    using stopping_ends [OF fleet_reachable_inv [OF assms(1)]] assms(2,3) unfolding stopping_def by blast
  have "(fleet_step otel ws)\<^sup>*\<^sup>* F (call_return i F1)"
    by (rule rtranclp.rtrancl_into_rtrancl [OF F1(1) fleet_return [OF F1(3,4)]])
  moreover have "\<not> f_running (call_return i F1)" by (simp add: call_return_def upd_call_def)
  ultimately show ?thesis using call_returns_nil [OF F1(2,3)] by blast
qed

theorem worker_run_returns_witness:
  "\<exists>F'. (fleet_step sample_telemetry [sample_worker])\<^sup>*\<^sup>* sample_fleet F'
     \<and> c_phase (f_calls F' ! 0) = CallReturned None \<and> \<not> f_running F'"
  by (rule worker_run_returns [OF sample_fleet_reachable sample_fleet_state(2,3)])

end
