(* ===== verification/Workflow_Reconcile.thy ===== *)
theory Workflow_Reconcile
  imports Workflow_Run
begin

text \<open>
  The \<open>reconcile\<close> goroutine of the workflow worker, \<open>workflow/worker.go\<close>, as a loop over the events of its
  select, and what a pass of \<open>failOrphanedRuns\<close> achieves: a run is orphaned when it is unfinished and its
  job is gone, failed or settled, so no worker will ever finish it.
\<close>

section \<open>The loop\<close>

text \<open>
  A tick carries the order in which the server visits the runs and whether the context has ended when
  the pass returns; \<open>ReconcileDone\<close> is \<open>ctx.Done()\<close>.
\<close>

datatype reconcile_event = ReconcileTick "run list \<Rightarrow> run list" bool | ReconcileDone

definition reconcile_pass ::
  "(run list \<Rightarrow> run list) \<Rightarrow> bool \<Rightarrow> wf_client \<Rightarrow> wf_worker_config \<Rightarrow> unit io" where
  "reconcile_pass visit ended c config = do {
     r \<leftarrow> failOrphanedRuns visit c config;
     (case r of
        Inl e \<Rightarrow> if ended then State_Monad.return () else log_msg LevelWarn ''workflow reconcile failed''
      | Inr _ \<Rightarrow> State_Monad.return ()) }"

fun reconcile :: "wf_client \<Rightarrow> wf_worker_config \<Rightarrow> reconcile_event list \<Rightarrow> unit io" where
  "reconcile c config [] = State_Monad.return ()"
| "reconcile c config (ReconcileDone # es) = State_Monad.return ()"
| "reconcile c config (ReconcileTick visit ended # es) = do {
     reconcile_pass visit ended c config;
     reconcile c config es }"

section \<open>Orphans\<close>

definition orphans :: "database \<Rightarrow> string set" where
  "orphans d = r_id ` {r \<in> set (runs d). orphaned d r}"

text \<open>What of a job decides whether its run is orphaned.\<close>

lemma orphaned_cong:
  assumes "map (\<lambda>j. (ID j, Status j)) (jobs d') = map (\<lambda>j. (ID j, Status j)) (jobs d)"
  shows "orphaned d' r = orphaned d r"
proof -
  have find: "map_option Status (find (\<lambda>j. ID j = i) js) = map_of (map (\<lambda>j. (ID j, Status j)) js) i" for i js
    by (induction js) auto
  have "map_option Status (job_of d' r) = map_option Status (job_of d r)"
    by (cases "r_job_id r") (simp_all add: job_of_def find assms)
  then show ?thesis
    by (cases "job_of d' r"; cases "job_of d r") (simp_all add: orphaned_def)
qed

lemma orphaned_same_jobs [simp]:
  "orphaned (d\<lparr>outbox := out\<rparr>) = orphaned d" "orphaned (d\<lparr>runs := rs\<rparr>) = orphaned d"
  by (intro ext orphaned_cong; simp)+

lemma orphans_wake [simp]: "orphans (snd (wake_rows i n d)) = orphans d"
proof -
  have "map (\<lambda>j. (ID j, Status j)) (jobs (snd (wake_rows i n d))) = map (\<lambda>j. (ID j, Status j)) (jobs d)"
    by (simp add: wake_rows_def update_jobs_notify_def map_upd_where wake_row_def)
  from orphaned_cong [OF this] show ?thesis
    by (simp add: orphans_def wake_rows_def update_jobs_notify_def)
qed

lemma orphans_outbox [simp]: "orphans (d\<lparr>outbox := out\<rparr>) = orphans d" "orphans (sent d) = orphans d"
  by (simp_all add: orphans_def sent_def)

text \<open>A run that is finished is no orphan.\<close>

lemma orphans_finish:
  assumes "\<And>r. Finished (r_status (f r))" "\<And>r. r_id (f r) = r_id r"
  shows "orphans (d\<lparr>runs := upd_where (\<lambda>r. r_id r = i) f (runs d)\<rparr>) \<subseteq> orphans d - {i}"
proof
  fix x
  assume "x \<in> orphans (d\<lparr>runs := upd_where (\<lambda>r. r_id r = i) f (runs d)\<rparr>)"
  then obtain q where q: "q \<in> set (runs d)" "x = r_id (if r_id q = i then f q else q)"
    and o: "orphaned d (if r_id q = i then f q else q)"
    by (auto simp: orphans_def upd_where_def)
  have "r_id q \<noteq> i" using o assms(1) [of q] by (auto simp: orphaned_def split: if_splits)
  with q o show "x \<in> orphans d - {i}" by (simp add: orphans_def)
qed

lemma orphans_cancel: "orphans (d\<lparr>runs := upd_where (\<lambda>r. r_id r = i) (cancel_row n) (runs d)\<rparr>) \<subseteq> orphans d - {i}"
  by (rule orphans_finish) (simp_all add: cancel_row_def Finished_def)

lemma orphans_fail:
  "orphans (d\<lparr>runs := upd_where (\<lambda>r. r_id r = i) (orphan_fail_row m n) (runs d)\<rparr>) \<subseteq> orphans d - {i}"
  by (rule orphans_finish) (simp_all add: orphan_fail_row_def Finished_def)

section \<open>Cancelling keeps what is no orphan\<close>

abbreviation orphans_in :: "string set \<Rightarrow> database \<Rightarrow> bool" where
  "orphans_in T d \<equiv> orphans d \<subseteq> T"

lemma cancel_run_orphans:
  "hoare (opened d0 n0 (orphans_in T)) (cancel_run c u) (replies d0 n0 (\<lambda>_. orphans_in T))"
proof (cases u)
  case (Pair i job)
  have step: "orphans_in T (db (snd (update_runs (\<lambda>r. r_id r = i) cancel_row w)))"
    if "opened d0 n0 (orphans_in T) w" for w
    using that orphans_cancel [where d = "db w" and i = i and n = "now w"] by (auto simp: update_runs_def on_db_def opened_def)
  have wake: "hoare (opened d0 n0 (orphans_in T))
     (case job of None \<Rightarrow> State_Monad.return (Inr ()) | Some j \<Rightarrow> WakeTx (wc_queue c) True j)
     (replies d0 n0 (\<lambda>_. orphans_in T))"
    by (cases job) (auto intro!: hoare_return WakeTx_rule)
  show ?thesis unfolding Pair cancel_run_def prod.case
    by (rule exec_tx [where Q' = "orphans_in T"]) (auto simp: step intro!: attempt_tx [OF wake] NotifyTx_tx)
qed

lemma cancel_runs_orphans:
  "hoare (opened d0 n0 (orphans_in T)) (cancel_runs c us) (replies d0 n0 (\<lambda>_. orphans_in T))"
  by (induction us) (auto intro!: hoare_return attempt_tx [OF cancel_run_orphans])

lemma cancelTree_orphans:
  "hoare (opened d0 n0 (orphans_in T)) (cancelTreeTx k c root incl)
     (\<lambda>r w. case r of None \<Rightarrow> snapshot w = Some d0 | Some q \<Rightarrow> replies d0 n0 (\<lambda>_. orphans_in T) q w)"
proof (induction k)
  case 0
  show ?case by (auto intro!: hoare_return opened_snapshot)
next
  case (Suc k)
  have look: "hoare (opened d0 n0 (orphans_in T)) (unfinishedTreeTx root incl) (replies d0 n0 (\<lambda>_. orphans_in T))"
    unfolding unfinishedTreeTx_def
    by (rule attempt_query_tx [where R = "\<lambda>_. orphans_in T"])
      (auto simp: plain_def select_unfinished_tree_def Let_def opened_def intro: hoare_return)
  show ?case unfolding cancelTreeTx.simps
    by (intro attempt_tx [OF look] hoare_if hoare_return attempt_tx [OF cancel_runs_orphans Suc]) simp_all
qed

lemma cancel_descendants_orphans:
  "hoare (opened d0 n0 (orphans_in T)) (cancel_descendants c i) (replies d0 n0 (\<lambda>_. orphans_in T))"
  unfolding cancel_descendants_def cancelDescendantsTx_def
  by (rule hoare_bind [OF cancelTree_orphans], rule hoare_return) (simp split: option.splits)

section \<open>Failing one orphan\<close>

text \<open>Waking the parent leaves the orphans as they are.\<close>

lemma wakeParent_orphans:
  "hoare (opened d0 n0 (\<lambda>d. orphans d = T)) (wakeParentTx c p) (replies d0 n0 (\<lambda>_ d. orphans d = T))"
proof -
  have wake: "hoare (opened d0 n0 (\<lambda>d. orphans d = T \<and> R d)) (WakeTx (wc_queue c) True j) (replies d0 n0 (\<lambda>_ d. orphans d = T))" for R j
    by (rule WakeTx_rule) simp
  show ?thesis unfolding wakeParentTx_def lockRunToNotifyTx_def
    by (intro hoare_lockRun hoare_return)
      (auto simp: aborted_def split: option.split intro!: hoare_return wake elim: opened_mono)
qed

definition orphan_answer :: "database \<Rightarrow> string \<Rightarrow> bool result \<Rightarrow> world \<Rightarrow> bool" where
  "orphan_answer d0 i r w = (case r of
       Inl _ \<Rightarrow> closed d0 (orphans_in (orphans d0 - {i})) w
     | Inr _ \<Rightarrow> snapshot w = None \<and> orphans (db w) \<subseteq> orphans d0 - {i})"

text \<open>Before the deferred rollback: committed, or the look under the lock found no orphan.\<close>

definition orphan_ending :: "database \<Rightarrow> string \<Rightarrow> bool result \<Rightarrow> world \<Rightarrow> bool" where
  "orphan_ending d0 i r w = (case r of
       Inl _ \<Rightarrow> ending d0 (orphans_in (orphans d0 - {i})) w
     | Inr _ \<Rightarrow> committed (orphans_in (orphans d0 - {i})) w \<or> snapshot w = Some d0 \<and> i \<notin> orphans d0)"

lemma deferring_orphan:
  assumes "hoare P m (orphan_ending d0 i)"
  shows "hoare P (deferring_rollback m) (orphan_answer d0 i)"
  unfolding deferring_rollback_def
proof (rule hoare_bind [OF assms], rule hoare_bind [OF hoare_update hoare_return])
  fix r w
  assume e: "orphan_ending d0 i r w"
  show "orphan_answer d0 i r (restore w)"
  proof (cases r)
    case (Inl x) with e show ?thesis by (simp add: orphan_ending_def orphan_answer_def ending_restore)
  next
    case (Inr b)
    have "orphans (db (restore w)) \<subseteq> orphans d0 - {i} \<and> snapshot (restore w) = None"
      using e Inr restore_untouched [of w d0]
      by (auto simp: orphan_ending_def committed_def restore_def)
    with Inr show ?thesis by (simp add: orphan_answer_def)
  qed
qed simp

lemma fail_locked_orphan:
  "hoare (opened d0 n0 (\<lambda>d. orphans d = orphans d0))
     (attempt (query (update_runs (\<lambda>r. r_id r = i) (orphan_fail_row message))) Inl (\<lambda>_.
      attempt (cancel_descendants c i) Inl (\<lambda>_.
      attempt (NotifyTx (wc_queue c) True (runNotifyKey i)) Inl (\<lambda>_.
      attempt commit_tx Inl (\<lambda>_. State_Monad.return (Inr True)))))) (orphan_ending d0 i)"
proof -
  let ?T = "orphans d0 - {i}"
  have step: "orphans_in ?T (db (snd (update_runs (\<lambda>r. r_id r = i) (orphan_fail_row message) w)))"
    if "opened d0 n0 (\<lambda>d. orphans d = orphans d0) w" for w
    using that orphans_fail [where d = "db w" and i = i and m = message and n = "now w"]
    by (auto simp: update_runs_def on_db_def opened_def)
  have commit: "hoare (opened d0 n0 (orphans_in ?T)) (attempt commit_tx Inl (\<lambda>_. State_Monad.return (Inr True))) (orphan_ending d0 i)"
    by (rule attempt_commit) (auto simp: orphan_ending_def closed_ending)
  show ?thesis
    by (rule attempt_query_tx [where R = "\<lambda>_. orphans_in ?T"],
        simp add: update_runs_def, erule step,
        intro attempt_tx [OF cancel_descendants_orphans] attempt_tx [OF NotifyTx_tx] commit)
      (auto simp: orphan_ending_def ending_def)
qed

lemma failOrphanedRun_rule: "hoare (untouched d0) (failOrphanedRun c i message) (orphan_answer d0 i)"
  unfolding failOrphanedRun_def
proof (intro attempt_begin deferring_orphan, goal_cases)
  case (2 n0)
  let ?E = "\<lambda>d. orphans d = orphans d0"
  let ?look = "\<lambda>w. (map_option (\<lambda>_. ()) (find (\<lambda>r. r_id r = i \<and> orphaned (db w) r) (runs (db w))), w)"
  have none: "i \<notin> orphans d" if "find (\<lambda>r. r_id r = i \<and> orphaned d r) (runs d) = None" for d
    using that by (auto simp: orphans_def find_None_iff)
  have look: "hoare (opened d0 n0 ?E) (query_row ?look) (\<lambda>r w. case r of
      Inl e \<Rightarrow> is_fault e \<and> aborted d0 w \<or> e = Sentinel SqlErrNoRows \<and> opened d0 n0 (\<lambda>_. i \<notin> orphans d0) w
    | Inr a \<Rightarrow> opened d0 n0 ?E w)"
    by (rule query_row_tx [where R = "\<lambda>_. ?E"])
      (auto simp: plain_def opened_def dest!: none)
  have wake: "hoare (opened d0 n0 (\<lambda>d. d = d0))
      (case parent of None \<Rightarrow> State_Monad.return (Inr ()) | Some p \<Rightarrow> wakeParentTx c p)
      (replies d0 n0 (\<lambda>_. ?E))" for parent
    by (cases parent) (auto intro!: hoare_return hoare_pre [OF wakeParent_orphans] elim: opened_mono)
  have rest: "hoare (\<lambda>w. case r of
      Inl e \<Rightarrow> is_fault e \<and> aborted d0 w \<or> e = Sentinel SqlErrNoRows \<and> opened d0 n0 (\<lambda>_. i \<notin> orphans d0) w
    | Inr a \<Rightarrow> opened d0 n0 ?E w)
     (case r of
        Inl e \<Rightarrow> State_Monad.return (if errors_is e SqlErrNoRows then Inr False else Inl e)
      | Inr _ \<Rightarrow>
          attempt (query (update_runs (\<lambda>r. r_id r = i) (orphan_fail_row message))) Inl (\<lambda>_.
          attempt (cancel_descendants c i) Inl (\<lambda>_.
          attempt (NotifyTx (wc_queue c) True (runNotifyKey i)) Inl (\<lambda>_.
          attempt commit_tx Inl (\<lambda>_. State_Monad.return (Inr True)))))) (orphan_ending d0 i)" for r :: "unit result"
  proof (cases r)
    case (Inl e)
    then show ?thesis by (auto simp: orphan_ending_def ending_def aborted_def opened_def intro!: hoare_return)
  next
    case (Inr u)
    then show ?thesis using fail_locked_orphan by simp
  qed
  show ?case
    by (rule attempt_query_row_tx [where R = "\<lambda>_ d. d = d0"])
      (auto simp: select_run_def opened_def orphan_ending_def ending_def
        intro!: attempt_tx [OF wake] hoare_bind [OF look rest])
qed (auto simp: orphan_answer_def closed_def)

section \<open>A pass\<close>

definition quiet :: "string set \<Rightarrow> world \<Rightarrow> bool" where
  "quiet T w \<longleftrightarrow> snapshot w = None \<and> orphans (db w) \<subseteq> T"

text \<open>The application's callback neither leaves a transaction open nor orphans a run.\<close>

definition callback_quiet :: "wf_worker_config \<Rightarrow> bool" where
  "callback_quiet config \<longleftrightarrow> (\<forall>f info T. OnRunFailed config = Some f \<longrightarrow> keeps (quiet T) (f info))"

lemma quiet_query:
  assumes "\<And>w. snd (st w) = w" shows "keeps (quiet T) (query st)"
proof (rule hoareI)
  fix w r w'
  assume w: "quiet T w" and run: "run_state (query st) w = (r, w')"
  obtain oc w1 where rt: "round_trip w = (oc, w1)" by (cases "round_trip w")
  note f = round_trip_frame [OF rt]
  obtain a where st: "st w1 = (a, w1)" using assms [of w1] by (cases "st w1") simp
  have "quiet T w1" "quiet T (end_statement w1)" using w f by (auto simp: quiet_def end_statement_def publish_def)
  moreover have "w' = w1 \<or> w' = end_statement w1"
    using run rt st w f by (cases oc) (auto simp: run_query quiet_def split: if_splits)
  ultimately show "quiet T w'" by auto
qed

lemma quiet_GetRun: "keeps (quiet T) (GetRun i)"
  unfolding GetRun_def query_row_def
  by (intro hoare_rules quiet_query) (simp add: select_run_def)

lemma quiet_report: "callback_quiet config \<Longrightarrow> keeps (quiet T) (report_failed config i)"
  unfolding report_failed_def callback_quiet_def
  by (cases "OnRunFailed config") (auto intro!: hoare_rules quiet_GetRun)

lemma failOrphanedRun_quiet:
  "hoare (quiet T) (failOrphanedRun c i m) (\<lambda>r. quiet (case r of Inl _ \<Rightarrow> T | Inr _ \<Rightarrow> T - {i}))"
proof (rule hoareI)
  fix w r w'
  assume w: "quiet T w" and run: "run_state (failOrphanedRun c i m) w = (r, w')"
  have "orphan_answer (db w) i r w'"
    using hoareD [OF failOrphanedRun_rule _ run] w by (simp add: quiet_def)
  with w show "quiet (case r of Inl _ \<Rightarrow> T | Inr _ \<Rightarrow> T - {i}) w'"
    by (auto simp: orphan_answer_def quiet_def closed_def split: sum.splits)
qed

lemma fail_orphans_quiet:
  assumes "callback_quiet config"
  shows "hoare (quiet T) (fail_orphans c config os) (\<lambda>r. quiet (case r of Inl _ \<Rightarrow> T | Inr _ \<Rightarrow> T - fst ` set os))"
proof (induction os arbitrary: T)
  case Nil
  show ?case by (auto intro: hoare_return)
next
  case (Cons found os)
  obtain i st le where found: "found = (i, st, le)" by (cases found)
  have next_one: "hoare (quiet (T - {i})) (do { (if failed then report_failed config i else State_Monad.return ()); fail_orphans c config os })
      (\<lambda>r. quiet (case r of Inl _ \<Rightarrow> T | Inr _ \<Rightarrow> T - fst ` set (found # os)))" for failed
  proof (rule hoare_bind [where R = "\<lambda>_. quiet (T - {i})"])
    show "keeps (quiet (T - {i})) (if failed then report_failed config i else State_Monad.return ())"
      by (intro hoare_rules quiet_report assms)
    show "hoare (quiet (T - {i})) (fail_orphans c config os)
        (\<lambda>r. quiet (case r of Inl _ \<Rightarrow> T | Inr _ \<Rightarrow> T - fst ` set (found # os)))"
      by (rule hoare_post [OF Cons.IH]) (auto simp: found quiet_def split: sum.splits)
  qed
  show ?case unfolding found fail_orphans.simps
    by (rule hoare_attempt [OF hoare_post [OF failOrphanedRun_quiet] next_one [unfolded found]])
      (auto split: sum.splits)
qed

text \<open>The orphans a pass looks at, and what it leaves.\<close>

definition found_orphans :: "(run list \<Rightarrow> run list) \<Rightarrow> database \<Rightarrow> run list" where
  "found_orphans visit d = take 100 (filter (orphaned d) (visit (runs d)))"

lemma find_orphans:
  assumes "snapshot w = None"
  shows "hoare (\<lambda>v. v = w) (query (\<lambda>w. (map (orphan_row (db w)) (found_orphans visit (db w)), w)))
     (\<lambda>r v. quiet (orphans (db w)) v \<and> (\<forall>os. r = Inr os \<longrightarrow> os = map (orphan_row (db w)) (found_orphans visit (db w))))"
proof (rule hoareI)
  fix v q v'
  assume v: "v = w" and q: "run_state (query (\<lambda>w. (map (orphan_row (db w)) (found_orphans visit (db w)), w))) v = (q, v')"
  obtain oc w1 where rt: "round_trip w = (oc, w1)" by (cases "round_trip w")
  note f = round_trip_frame [OF rt]
  have "quiet (orphans (db w)) v'"
    by (rule hoareD [OF quiet_query _ q]) (use v assms in \<open>auto simp: quiet_def\<close>)
  moreover have "os = map (orphan_row (db w)) (found_orphans visit (db w))" if "q = Inr os" for os
    using q v rt f that by (cases oc) (auto simp: run_query split: if_splits)
  ultimately show "quiet (orphans (db w)) v' \<and> (\<forall>os. q = Inr os \<longrightarrow> os = map (orphan_row (db w)) (found_orphans visit (db w)))"
    by blast
qed

lemma fst_orphan_row: "fst ` set (map (orphan_row d) rs) = r_id ` set rs"
  by (simp add: orphan_row_def image_image)

lemma failOrphanedRuns_quiet:
  assumes "snapshot w = None" "callback_quiet config"
  shows "hoare (\<lambda>v. v = w) (failOrphanedRuns visit c config)
     (\<lambda>r. quiet (case r of Inl _ \<Rightarrow> orphans (db w)
        | Inr _ \<Rightarrow> orphans (db w) - r_id ` set (found_orphans visit (db w))))"
proof -
  let ?T = "orphans (db w)" and ?os = "map (orphan_row (db w)) (found_orphans visit (db w))"
  have rest: "hoare (\<lambda>v. quiet ?T v \<and> os = ?os) (fail_orphans c config os)
      (\<lambda>r. quiet (case r of Inl _ \<Rightarrow> ?T | Inr _ \<Rightarrow> ?T - fst ` set ?os))" for os
  proof (rule hoareI)
    fix v r v'
    assume v: "quiet ?T v \<and> os = ?os" and run: "run_state (fail_orphans c config os) v = (r, v')"
    from v have q: "quiet ?T v" and os: "os = ?os" by simp_all
    show "quiet (case r of Inl _ \<Rightarrow> ?T | Inr _ \<Rightarrow> ?T - fst ` set ?os) v'"
      by (rule hoareD [OF fail_orphans_quiet [OF assms(2)] q run [unfolded os]])
  qed
  show ?thesis
    unfolding failOrphanedRuns_def fst_orphan_row [symmetric, of _ "db w"] found_orphans_def [symmetric]
    by (rule hoare_attempt [OF hoare_post [OF find_orphans [OF assms(1)]] rest]) (auto split: sum.splits)
qed

lemma found_all:
  assumes "set (visit (runs d)) = set (runs d)" "length (filter (orphaned d) (visit (runs d))) \<le> 100"
  shows "r_id ` set (found_orphans visit d) = orphans d"
  using assms by (simp add: found_orphans_def orphans_def)


text \<open>A run whose job the queue deleted.\<close>

lemma sample_callback_quiet: "callback_quiet sample_wf_config"
  by (simp add: callback_quiet_def sample_wf_config_def)


section \<open>The goroutine over its ticks\<close>

text \<open>Any number of passes makes no run an orphan and keeps the tables sound.\<close>

lemma reconcile_pass_quiet: "callback_quiet config \<Longrightarrow> keeps (quiet T) (reconcile_pass visit ended c config)"
proof -
  assume config: "callback_quiet config"
  have pass: "keeps (quiet T) (failOrphanedRuns visit c config)"
  proof (rule hoareI)
    fix w r w'
    assume w: "quiet T w" and run: "run_state (failOrphanedRuns visit c config) w = (r, w')"
    then have "snapshot w = None" by (simp add: quiet_def)
    from hoareD [OF failOrphanedRuns_quiet [OF this config] refl run] w
    show "quiet T w'" by (auto simp: quiet_def split: sum.splits)
  qed
  have log: "keeps (quiet T) (log_msg l m)" for l m by (rule hoareI) (auto simp: run_log quiet_def)
  show ?thesis unfolding reconcile_pass_def by (intro hoare_rules pass log)
qed

lemma reconcile_quiet: "callback_quiet config \<Longrightarrow> keeps (quiet T) (reconcile c config es)"
  by (induction c config es rule: reconcile.induct) (auto intro!: hoare_rules reconcile_pass_quiet)

lemma reconcile_keeps_sound: "polite config \<Longrightarrow> keeps (holds wf_inv) (reconcile c config es)"
proof (induction c config es rule: reconcile.induct)
  case (3 c config visit ended es)
  then show ?case unfolding reconcile.simps reconcile_pass_def polite_def
    by (intro hoare_rules wf.keeps_fail_orphans wi.keeps_log) auto
qed (simp_all add: hoare_return)

end
