(* ===== verification/Workflow_Watch.thy ===== *)
theory Workflow_Watch
  imports Workflow_Reconcile
begin

text \<open>
  The watcher of an activation, \<open>watch\<close> of \<open>workflow/activation.go\<close>: a goroutine beside the workflow
  function that heartbeats the job, looks at the run on every beat and on every notification, and cancels
  the run context when the run is cancelled or another worker has it. The theory composes it with the rest:
  an owner is never disturbed, whatever fails; a takeover is noticed at the next beat or wake that gets an
  answer; and an activation whose context ended that way leaves without touching the database.
\<close>

section \<open>The goroutine\<close>

text \<open>The period of the heartbeat ticker: a third of the visibility timeout, at least ten milliseconds.\<close>

definition heartbeat_period :: "wf_worker_config \<Rightarrow> int" where
  "heartbeat_period config = max (wf_VisibilityTimeout config div 3) (10 * 1000000)"

text \<open>The subscription to the run's notifications; without one the watcher only beats.\<close>

definition watch_subscribe :: "activation \<Rightarrow> nat \<Rightarrow> notifier \<Rightarrow> nat option \<times> notifier" where
  "watch_subscribe a i n = (case Subscribe (wc_queue (a_client a)) i [runNotifyKey (a_runID a)] n of
       (Inl _, n') \<Rightarrow> (None, n') | (Inr s, n') \<Rightarrow> (Some s, n'))"

text \<open>The returned \<open>stop\<close>: the goroutine has ended, then the subscription is closed.\<close>

definition watch_unsubscribe :: "nat option \<Rightarrow> notifier \<Rightarrow> notifier" where
  "watch_unsubscribe s n = (case s of None \<Rightarrow> n | Some i \<Rightarrow> snd (Close i False n))"

datatype watch_event = Beat | Notice | StopWatching

text \<open>A \<open>CancelCauseFunc\<close>: the first cause stays.\<close>

definition cancel_cause :: "err option \<Rightarrow> err option \<Rightarrow> err option" where
  "cancel_cause cause new = (case cause of None \<Rightarrow> new | Some e \<Rightarrow> Some e)"

text \<open>
  The select loop. With every event comes what other sessions did to the world while the watcher waited.
  The result is the cause the run context was cancelled with, if any.
\<close>

fun watch_loop :: "activation \<Rightarrow> ((world \<Rightarrow> world) \<times> watch_event) list \<Rightarrow> err option \<Rightarrow> err option io" where
  "watch_loop a [] cause = State_Monad.return cause"
| "watch_loop a ((others, StopWatching) # es) cause = do {
     State_Monad.update others;
     State_Monad.return cause }"
| "watch_loop a ((others, Beat) # es) cause = do {
     State_Monad.update others;
     h \<leftarrow> Heartbeat (wc_queue (a_client a)) (a_job a);
     if (case h of Inl e \<Rightarrow> errors_is e ErrJobNotFound | Inr _ \<Rightarrow> False)
     then State_Monad.return (cancel_cause cause (Some (Sentinel ErrLeaseLost)))
     else do { e \<leftarrow> checkOwnership a; watch_loop a es (cancel_cause cause e) } }"
| "watch_loop a ((others, Notice) # es) cause = do {
     State_Monad.update others;
     e \<leftarrow> checkOwnership a;
     watch_loop a es (cancel_cause cause e) }"

section \<open>An owner is not disturbed\<close>

text \<open>The activation owns its run and its job's claim: every row of the run has its lease and is not cancelled.\<close>

definition owner :: "activation \<Rightarrow> world \<Rightarrow> bool" where
  "owner a w \<longleftrightarrow> snapshot w = None \<and> \<not> nil_db (wc_queue (a_client a))
     \<and> (\<forall>r \<in> set (runs (db w)). r_id r = a_runID a \<longrightarrow> r_lease r = a_lease a \<and> r_status r \<noteq> RunCancelled)
     \<and> (\<exists>j \<in> set (jobs (db w)). holds_claim (a_job a) j)"

lemma heartbeat_keeps_claim:
  assumes "j \<in> set js" "holds_claim mine j"
  shows "\<exists>k \<in> set (upd_where (holds_claim mine) (heartbeat_row n) js). holds_claim mine k"
proof (rule bexI [of _ "heartbeat_row n j"])
  show "holds_claim mine (heartbeat_row n j)" using assms(2) by (simp add: holds_claim_def heartbeat_row_def)
  show "heartbeat_row n j \<in> set (upd_where (holds_claim mine) (heartbeat_row n) js)"
    using assms by (simp add: set_upd_where)
qed

lemma owner_end_statement [simp]: "owner a (end_statement w) = owner a w"
  by (simp add: owner_def)

lemma owner_round_trip: "round_trip w = (oc, w1) \<Longrightarrow> owner a w1 = owner a w"
  using round_trip_frame [of w oc w1] by (simp add: owner_def)

lemma Heartbeat_owner:
  "hoare (owner a) (Heartbeat (wc_queue (a_client a)) (a_job a))
     (\<lambda>h w. owner a w \<and> \<not> (case h of Inl e \<Rightarrow> errors_is e ErrJobNotFound | Inr _ \<Rightarrow> False))"
proof (rule hoareI)
  fix w h w'
  assume w: "owner a w" and run: "run_state (Heartbeat (wc_queue (a_client a)) (a_job a)) w = (h, w')"
  let ?st = "on_db (\<lambda>n. update_jobs (holds_claim (a_job a)) (heartbeat_row n))"
  obtain oc w1 where rt: "round_trip w = (oc, w1)" by (cases "round_trip w")
  have w1: "owner a w1" using owner_round_trip [OF rt] w by simp
  have beaten: "owner a (snd (?st w1))"
    using w1 by (auto simp: owner_def on_db_def update_jobs_def intro: heartbeat_keeps_claim)
  have count: "fst (?st w1) \<noteq> 0"
    using w1 by (auto simp: owner_def on_db_def update_jobs_def count_where_0)
  have db: "\<not> nil_db (wc_queue (a_client a))" and s: "snapshot w1 = None" using w1 by (simp_all add: owner_def)
  obtain k w2 where st: "?st w1 = (k, w2)" by (cases "?st w1")
  from run rt db s w1 beaten count show "owner a w' \<and> \<not> (case h of Inl e \<Rightarrow> errors_is e ErrJobNotFound | Inr _ \<Rightarrow> False)"
    by (cases oc) (auto simp: Heartbeat_def run_simps st split: if_splits)
qed

lemma checkOwnership_owner: "hoare (owner a) (checkOwnership a) (\<lambda>e w. owner a w \<and> e = None)"
proof (rule hoareI)
  fix w e w'
  assume w: "owner a w" and run: "run_state (checkOwnership a) w = (e, w')"
  obtain oc w1 where rt: "round_trip w = (oc, w1)" by (cases "round_trip w")
  have w1: "owner a w1" using owner_round_trip [OF rt] w by simp
  have found: "r_lease r = a_lease a \<and> r_status r \<noteq> RunCancelled"
    if "find (\<lambda>r. r_id r = a_runID a) (runs (db w1)) = Some r" for r
    using find_SomeD [OF that] w1 by (simp add: owner_def)
  have "snapshot w1 = None" using w1 by (simp add: owner_def)
  then show "owner a w' \<and> e = None"
    using run rt w1 found
    by (cases oc; cases "find (\<lambda>r. r_id r = a_runID a) (runs (db w1))")
      (auto simp: checkOwnership_def query_row_def select_run_def run_simps split: if_splits)
qed

lemma cancel_cause_None [simp]: "cancel_cause cause None = cause"
  by (simp add: cancel_cause_def split: option.split)

text \<open>A turn of the watcher in the hands of an owner goes on with the cause it had.\<close>

lemma after_others: "(\<And>w. P w \<Longrightarrow> P (f w)) \<Longrightarrow> hoare P m Q \<Longrightarrow> hoare P (do { State_Monad.update f; m }) Q"
  by (rule hoare_bind [OF hoare_update [where Q = "\<lambda>_. P"]])

lemma look_owner: "hoare (owner a) (k None) Q \<Longrightarrow> hoare (owner a) (do { e \<leftarrow> checkOwnership a; k e }) Q"
  by (rule hoareI) (auto split: prod.splits dest: hoareD [OF checkOwnership_owner] hoareD)

lemma beat_owner:
  "hoare (owner a) m Q \<Longrightarrow> hoare (owner a) (do { h \<leftarrow> Heartbeat (wc_queue (a_client a)) (a_job a);
     if (case h of Inl e \<Rightarrow> errors_is e ErrJobNotFound | Inr _ \<Rightarrow> False) then m' else m }) Q"
  by (rule hoare_bind [OF Heartbeat_owner], rule hoare_if) (auto simp: hoare_def)

lemma watch_loop_owner:
  assumes "\<And>f e w. (f, e) \<in> set es \<Longrightarrow> owner a w \<Longrightarrow> owner a (f w)"
  shows "hoare (owner a) (watch_loop a es cause) (\<lambda>r w. owner a w \<and> r = cause)"
  using assms
proof (induction a es cause rule: watch_loop.induct)
  case (2 a others es cause)
  then show ?case unfolding watch_loop.simps by (intro after_others hoare_return) auto
next
  case (3 a others es cause)
  have "hoare (owner a) (watch_loop a es (cancel_cause cause None)) (\<lambda>r w. owner a w \<and> r = cause)"
    using 3(1) [of "Inr ()" None] 3(2) by auto
  then show ?case unfolding watch_loop.simps using 3(2) [of others Beat]
    by (intro after_others beat_owner look_owner) auto
next
  case (4 a others es cause)
  have "hoare (owner a) (watch_loop a es (cancel_cause cause None)) (\<lambda>r w. owner a w \<and> r = cause)"
    using 4(1) [of None] 4(2) by auto
  then show ?case unfolding watch_loop.simps using 4(2) [of others Notice]
    by (intro after_others look_owner) auto
qed (auto intro: hoare_return)

text \<open>
  C27. The watcher never disturbs an owner. As long as other sessions leave the run its lease and its
  status uncancelled and the job its claim, any number of beats and notifications, with any pattern of
  failing, lost and delayed calls, leaves the run context alone, and the activation is still the owner.
\<close>

theorem owner_undisturbed:
  assumes "owner a w" "\<forall>f \<in> fst ` set es. \<forall>v. owner a v \<longrightarrow> owner a (f v)"
  shows "\<exists>w'. run_state (watch_loop a es None) w = (None, w') \<and> owner a w'"
proof -
  have "hoare (owner a) (watch_loop a es None) (\<lambda>r w. owner a w \<and> r = None)"
    by (rule watch_loop_owner) (use assms(2) in force)
  from hoareD [OF this assms(1)] show ?thesis by (cases "run_state (watch_loop a es None) w") auto
qed

section \<open>A takeover is noticed\<close>

text \<open>Another worker has the run, and the calls to come get their answers.\<close>

definition taken_over :: "activation \<Rightarrow> world \<Rightarrow> bool" where
  "taken_over a w \<longleftrightarrow> snapshot w = None \<and> \<not> tx_aborted w \<and> script w = []
     \<and> (\<exists>r. find (\<lambda>r. r_id r = a_runID a) (runs (db w)) = Some r \<and> r_status r \<noteq> RunCancelled
          \<and> r_lease r \<noteq> a_lease a)"

lemma checkOwnership_taken:
  "taken_over a w \<Longrightarrow> fst (run_state (checkOwnership a) w) = Some (Sentinel ErrLeaseLost)"
  by (auto simp: taken_over_def checkOwnership_def query_row_def select_run_def run_simps round_trip_def)

lemma Heartbeat_taken:
  "hoare (taken_over a) (Heartbeat c job) (\<lambda>_. taken_over a)"
proof (rule hoareI)
  fix w h w'
  assume w: "taken_over a w" and run: "run_state (Heartbeat c job) w = (h, w')"
  have "w' = w \<or> w' = end_statement (snd (on_db (\<lambda>n. update_jobs (holds_claim job) (heartbeat_row n)) w))"
    using run w by (auto simp: Heartbeat_def run_simps taken_over_def round_trip_def split: if_splits prod.splits)
  with w show "taken_over a w'"
    by (auto simp: taken_over_def on_db_def update_jobs_def)
qed

lemma watch_loop_cause: "fst (run_state (watch_loop a es (Some e)) w) = Some e"
proof (induction es arbitrary: w)
  case (Cons x es)
  obtain f ev where x: "x = (f, ev)" by (cases x)
  have "cancel_cause (Some e) new = Some e" for new by (simp add: cancel_cause_def)
  with Cons show ?case by (cases ev) (auto simp: x run_simps split: prod.splits)
qed simp

lemma watch_loop_taken:
  assumes "taken_over a (f w)" "ev \<noteq> StopWatching"
  shows "fst (run_state (watch_loop a ((f, ev) # es) None) w) = Some (Sentinel ErrLeaseLost)"
proof -
  have look: "fst (run_state (do { e \<leftarrow> checkOwnership a; watch_loop a es (cancel_cause None e) }) v)
      = Some (Sentinel ErrLeaseLost)" if v: "taken_over a v" for v
  proof -
    obtain v1 where "run_state (checkOwnership a) v = (Some (Sentinel ErrLeaseLost), v1)"
      using checkOwnership_taken [OF v] by (cases "run_state (checkOwnership a) v") auto
    then show ?thesis using watch_loop_cause by (simp add: cancel_cause_def)
  qed
  show ?thesis
  proof (cases ev)
    case Beat
    obtain h v where h: "run_state (Heartbeat (wc_queue (a_client a)) (a_job a)) (f w) = (h, v)"
      by (cases "run_state (Heartbeat (wc_queue (a_client a)) (a_job a)) (f w)")
    from hoareD [OF Heartbeat_taken assms(1) h] look [of v] show ?thesis
      using h by (simp add: Beat run_simps State_Monad.update_def cancel_cause_def)
  next
    case Notice
    then show ?thesis using look [OF assms(1)] by (simp add: State_Monad.update_def)
  qed (use assms(2) in simp)
qed

text \<open>An activation whose run context ended because the lease was lost settles without a call.\<close>

lemma lease_lost_leaves:
  assumes "a_stop a = Running" "a_runCtx a = Some (t, Sentinel ErrLeaseLost)" "t \<le> clock w"
  shows "case run_state (execute_loop (Suc k) fn replay) (a, w) of (r, _, w') \<Rightarrow> r = Some Handled \<and> w' = w"
proof -
  have "interruptionReason a = (LeaseLost, Sentinel ErrSuspended)"
    using assms(2) by (simp add: interruptionReason_def errRunTimedOut_def)
  then show ?thesis
    using assms by (simp add: run_simps runCtx_ended_def record_interruption_def recordStop_def settle_round_def
        stopState_def less_stop_reason_def)
qed



text \<open>The activation that owns that run, with its job claimed, and a lost confirmation of a heartbeat.\<close>

definition owner_activation :: activation where
  "owner_activation = stale_activation\<lparr>a_lease := 2\<rparr>"

definition owner_world :: world where
  "owner_world = wf_world\<lparr>db := (db wf_world)\<lparr>jobs := [(a_job stale_activation)\<lparr>Status := StatusProcessing\<rparr>]\<rparr>,
     script := [(1, FailsAfter EOF), (2, FailsBefore Canceled)]\<rparr>"

theorem owner_undisturbed_witness:
  "\<exists>w'. run_state (watch_loop owner_activation [(id, Beat), (id, Notice), (id, Beat)] None) owner_world = (None, w')
     \<and> owner owner_activation w'"
proof -
  have "owner owner_activation owner_world"
    by (simp add: owner_def owner_activation_def owner_world_def stale_activation_def wf_world_def initial_world_def
        new_activation_def sample_run_def new_run_def holds_claim_def nil_db_def sample_wf_client_def sample_client_def)
  then show ?thesis using owner_undisturbed [where es = "[(id, Beat), (id, Notice), (id, Beat)]"] by simp
qed

section \<open>Beating often enough\<close>

text \<open>A timeout of at least thirty milliseconds leaves room for three beats.\<close>

lemma heartbeat_often:
  "30 * 1000000 \<le> wf_VisibilityTimeout config \<Longrightarrow> 3 * heartbeat_period config \<le> wf_VisibilityTimeout config"
  by (simp add: heartbeat_period_def)

lemma watch_unsubscribe_undoes:
  assumes "notifier_inv i n"
  shows "subs (watch_unsubscribe (fst (watch_subscribe a i n)) (snd (watch_subscribe a i n))) = subs n"
proof -
  have "filter (\<lambda>s. sub_id s \<noteq> i) (subs n) = subs n"
    using assms by (auto simp: notifier_inv_def filter_id_conv)
  then show ?thesis
    by (auto simp: watch_unsubscribe_def watch_subscribe_def Subscribe_def Close_def subscribe_def unsubscribe_def
        new_sub_def signal_def Let_def split: option.split)
qed

end
