(* ===== verification/Workflow_Async.thy ===== *)
theory Workflow_Async
  imports Workflow_Watch
begin

text \<open>
  Futures and asynchronous steps: \<open>workflow/future.go\<close>, and \<open>Async\<close>, \<open>Start\<close> and \<open>Call\<close> of
  \<open>workflow/context.go\<close>. The steps a function starts with \<open>Async\<close> are tasks of a pool beside the activation
  (the wait group \<open>async\<close> of the source); a schedule says which tasks run while the function goes on.
  A task runs as a whole: tasks share no checkpoint, and what they share of the activation is guarded by
  its mutex.
\<close>

section \<open>Futures\<close>

text \<open>\<open>once\<close> with \<open>value\<close> and \<open>err\<close> is the stored result.\<close>

record ('s, 'v) future =
  f_wait :: "('s, 'v result) state"
  f_result :: "'v result option"

definition newFuture :: "('s, 'v result) state \<Rightarrow> ('s, 'v) future" where
  "newFuture wait = \<lparr>f_wait = wait, f_result = None\<rparr>"

definition failedFuture :: "err \<Rightarrow> ('s, 'v) future" where
  "failedFuture e = newFuture (State_Monad.return (Inl e))"

definition Future_Wait :: "('s, 'v) future \<Rightarrow> ('s, 'v result \<times> ('s, 'v) future) state" where
  "Future_Wait f = (case f_result f of
       Some r \<Rightarrow> State_Monad.return (r, f)
     | None \<Rightarrow> do { r \<leftarrow> f_wait f; State_Monad.return (r, f\<lparr>f_result := Some r\<rparr>) })"

text \<open>\<open>Context.Start\<close> as the source returns it.\<close>

definition Start_future ::
  "ctx \<Rightarrow> child_outcome codec \<Rightarrow> 'v codec \<Rightarrow> string result \<Rightarrow> string \<Rightarrow> wf_definition \<Rightarrow> 'i codec \<Rightarrow> 'i
    \<Rightarrow> start_option list \<Rightarrow> (activation \<times> world, 'v) future act" where
  "Start_future x co cv newID name child ci input options = do {
     r \<leftarrow> Context_Start x newID name child ci input options;
     State_Monad.return (case r of Inl e \<Rightarrow> failedFuture e | Inr key \<Rightarrow> newFuture (awaitChild co cv key)) }"

section \<open>Tasks\<close>

record 'r task =
  t_key :: string
  t_body :: "'r act"
  t_result :: "'r option"

type_synonym ('r, 'a) pooled = "('r task list \<times> activation \<times> world, 'a) state"

definition in_act :: "'a act \<Rightarrow> ('r, 'a) pooled" where
  "in_act m = State (\<lambda>(ts, s). case run_state m s of (r, s') \<Rightarrow> (r, (ts, s')))"

text \<open>A task that has not run runs: its goroutine stores the result and closes \<open>done\<close>.\<close>

definition run_task :: "nat \<Rightarrow> ('r, unit) pooled" where
  "run_task i = State (\<lambda>(ts, s).
     if i < length ts \<and> t_result (ts ! i) = None
     then (case run_state (t_body (ts ! i)) s of (r, s') \<Rightarrow> ((), (ts[i := (ts ! i)\<lparr>t_result := Some r\<rparr>], s')))
     else ((), (ts, s)))"

fun run_tasks :: "nat list \<Rightarrow> ('r, unit) pooled" where
  "run_tasks [] = State_Monad.return ()"
| "run_tasks (i # is) = do { run_task i; run_tasks is }"

text \<open>The future of an asynchronous step: failed, or the task whose \<open>done\<close> it waits for.\<close>

datatype async_future = FailedAsync err | TaskFuture nat

definition Async ::
  "nat \<Rightarrow> int \<Rightarrow> 'v codec \<Rightarrow> string \<Rightarrow> (string \<Rightarrow> 'v result conduct io) \<Rightarrow> step_option list
    \<Rightarrow> ('v result option, async_future) pooled" where
  "Async fuel outside cv name fn options = do {
     k \<leftarrow> in_act (stepKey name);
     (case k of
        Inl e \<Rightarrow> State_Monad.return (FailedAsync e)
      | Inr key \<Rightarrow> State (\<lambda>(ts, s). (TaskFuture (length ts),
          (ts @ [\<lparr>t_key = key, t_body = runStep fuel outside cv key options False fn, t_result = None\<rparr>], s)))) }"

text \<open>Waiting: other tasks may run, then the one waited for has.\<close>

definition Async_Wait :: "nat list \<Rightarrow> async_future \<Rightarrow> ('v result option, 'v result option) pooled" where
  "Async_Wait sched f = do {
     run_tasks sched;
     (case f of
        FailedAsync e \<Rightarrow> State_Monad.return (Some (Inl e))
      | TaskFuture i \<Rightarrow> do {
          run_task i;
          State (\<lambda>(ts, s). (if i < length ts then (case t_result (ts ! i) of Some r \<Rightarrow> r | None \<Rightarrow> None) else None,
            (ts, s))) }) }"

text \<open>\<open>async.Wait()\<close>: the rest of the tasks run in some order, which every task is in at the end.\<close>

definition drain :: "nat list \<Rightarrow> ('r, unit) pooled" where
  "drain sched = do {
     run_tasks sched;
     n \<leftarrow> State (\<lambda>(ts, s). (length ts, (ts, s)));
     run_tasks [0..<n] }"

text \<open>\<open>executeFunction\<close>: the recover comes before the wait, being deferred after it.\<close>

definition executeFunction_async ::
  "nat list \<Rightarrow> ('r, string result conduct) pooled \<Rightarrow> string result act" where
  "executeFunction_async sched fn = State (\<lambda>s. case run_state (do {
       r \<leftarrow> fn;
       q \<leftarrow> (case r of
           Returns q \<Rightarrow> State_Monad.return q
         | Panics p \<Rightarrow> do {
             in_act (in_world (log_msg LevelError ''workflow function panicked''));
             State_Monad.return (Inl (Errorf (''workflow: panic: '' @ p))) });
       drain sched;
       State_Monad.return q }) ([], s) of (q, (_, s')) \<Rightarrow> (q, s'))"

section \<open>Waiting twice\<close>

lemma Future_Wait_again:
  assumes "run_state (Future_Wait f) s = ((r, f'), s')"
  shows "run_state (Future_Wait f') t = ((r, f'), t)"
  using assms by (auto simp: Future_Wait_def run_simps split: option.splits prod.splits)

text \<open>
  A future runs its wait function at most once and answers the same ever after: the first \<open>Wait\<close> answers
  what the function answers, and every later one answers that again without touching any state. \<open>Call\<close>
  is \<open>Start\<close> followed by \<open>Wait\<close>.
\<close>

theorem future_waits_once:
  "run_state (Future_Wait (newFuture m)) s = ((fst (run_state m s), \<lparr>f_wait = m, f_result = Some (fst (run_state m s))\<rparr>), snd (run_state m s))
   \<and> run_state (Future_Wait \<lparr>f_wait = m, f_result = Some r\<rparr>) t = ((r, \<lparr>f_wait = m, f_result = Some r\<rparr>), t)
   \<and> run_state (Call x co cv newID name child ci input options) (a, w)
     = run_state (do { f \<leftarrow> Start_future x co cv newID name child ci input options;
         (v, _) \<leftarrow> Future_Wait f; State_Monad.return v }) (a, w)"
  by (auto simp: Future_Wait_def newFuture_def failedFuture_def Call_def Start_future_def run_simps split: prod.splits sum.splits)

section \<open>Asynchronous steps\<close>

lemma run_in_act [run_simps]: "run_state (in_act m) (ts, s) = (case run_state m s of (r, s') \<Rightarrow> (r, (ts, s')))"
  by (simp add: in_act_def)

lemma run_run_task [run_simps]: "run_state (run_task i) (ts, s) =
    (if i < length ts \<and> t_result (ts ! i) = None
     then (case run_state (t_body (ts ! i)) s of (r, s') \<Rightarrow> ((), (ts[i := (ts ! i)\<lparr>t_result := Some r\<rparr>], s')))
     else ((), (ts, s)))"
  by (simp add: run_task_def)

text \<open>
  Waiting for an asynchronous step at once is running the step: \<open>Async\<close> followed by \<open>Wait\<close> answers what
  \<open>Step\<close> answers and leaves the activation and the world as \<open>Step\<close> does.
\<close>

theorem async_wait_is_step:
  "(case run_state (do { f \<leftarrow> Async fuel outside cv name fn options; Async_Wait [] f }) (ts, s) of
      (r, (_, s')) \<Rightarrow> (r, s')) = run_state (Step fuel outside cv name fn options) s"
proof -
  obtain k s1 where k: "run_state (stepKey name) s = (k, s1)" by (cases "run_state (stepKey name) s")
  show ?thesis
  proof (cases k)
    case (Inl e)
    with k show ?thesis by (simp add: Async_def Async_Wait_def Step_def run_simps)
  next
    case (Inr key)
    with k show ?thesis
      by (auto simp: Async_def Async_Wait_def Step_def run_simps split: prod.splits)
  qed
qed

text \<open>No part of a step draws a key, so tasks never change the keys of later calls.\<close>

definition occurrences_are :: "(string \<Rightarrow> nat) \<Rightarrow> activation \<times> world \<Rightarrow> bool" where
  "occurrences_are oc s \<longleftrightarrow> a_occurrences (fst s) = oc"

lemma occ_primitives [hoare_rules]:
  "keeps (occurrences_are oc) (in_world m)" "keeps (occurrences_are oc) get_act" "keeps (occurrences_are oc) get_world"
  by (auto simp: hoare_def occurrences_are_def run_simps split: prod.splits)

lemma occ_upd [hoare_rules]:
  "(\<And>a. a_occurrences (f a) = a_occurrences a) \<Longrightarrow> keeps (occurrences_are oc) (upd_act f)"
  by (auto simp: hoare_def occurrences_are_def run_simps split: prod.splits)

lemmas occ_small = recordStop_def stopState_def stopWith_def record_interruption_def interruption_def
  infrastructureFailure_def nonDeterminism_def suspendOn_def remember_def rollback_now_def act_deferring_rollback_def

lemma occ_case_prod [hoare_rules]: "(\<And>x y. keeps I (f x y)) \<Longrightarrow> keeps I (case p of (x, y) \<Rightarrow> f x y)"
  by (cases p) simp

lemma occ_stopping:
  "keeps (occurrences_are oc) (recordStop x e)" "keeps (occurrences_are oc) (stopWith x e)"
  "keeps (occurrences_are oc) interruption" "keeps (occurrences_are oc) (suspendOn c)"
  "keeps (occurrences_are oc) stopped" "keeps (occurrences_are oc) (remember key cp)"
  "keeps (occurrences_are oc) rollback_now" "keeps (occurrences_are oc) (recorded key kind)"
  "keeps (occurrences_are oc) (decodeRecorded cv key raw)" "keeps (occurrences_are oc) stopState"
  unfolding stopped_def recorded_def decodeRecorded_def occ_small by (intro hoare_rules; simp)+

lemma occ_fencedTx: "keeps (occurrences_are oc) fencedTx"
  unfolding fencedTx_def infrastructureFailure_def by (intro hoare_rules occ_stopping)

lemma occ_deferring: "keeps (occurrences_are oc) m \<Longrightarrow> keeps (occurrences_are oc) (act_deferring_rollback m)"
  unfolding act_deferring_rollback_def by (intro hoare_rules)

lemma occ_checkpointWrite: "keeps (occurrences_are oc) m \<Longrightarrow> keeps (occurrences_are oc) (checkpointWrite m)"
  unfolding checkpointWrite_def infrastructureFailure_def
  by (intro hoare_rules occ_fencedTx occ_deferring occ_stopping)

lemma occ_interruptAttempt: "keeps (occurrences_are oc) (interruptAttempt key)"
  unfolding interruptAttempt_def by (intro hoare_rules occ_stopping occ_checkpointWrite)

lemma occ_failedAttempt: "keeps (occurrences_are oc) (failedAttempt key e)"
  unfolding failedAttempt_def by (intro hoare_rules occ_interruptAttempt)

lemma occ_callStep: "keeps (occurrences_are oc) (callStep fn)"
proof -
  have "keeps (occurrences_are oc) (case r of Returns q \<Rightarrow> State_Monad.return q | Panics p \<Rightarrow> do {
      in_world (log_msg LevelError m); State_Monad.return (Inl (h p)) })" for r m h
    by (cases r) (auto intro!: hoare_rules)
  then show ?thesis unfolding callStep_def by (intro hoare_rules)
qed

lemma occ_recordSucceeded: "keeps (occurrences_are oc) (recordSucceededStepTx key out)"
  unfolding recordSucceededStepTx_def by (intro hoare_rules occ_stopping)

lemma occ_runAttempt: "keeps (occurrences_are oc) (runAttempt cv key transactional fn)"
  unfolding runAttempt_def runTransactionalAttempt_def infrastructureFailure_def
  by (intro hoare_rules occ_fencedTx occ_deferring occ_callStep occ_stopping occ_failedAttempt
      occ_recordSucceeded occ_checkpointWrite)

lemma occ_recordFailed: "keeps (occurrences_are oc) (recordFailedAttempt outside key number failure retry)"
  unfolding recordFailedAttempt_def
  by (intro hoare_rules occ_checkpointWrite occ_stopping)

lemma occ_markAttemptStarted: "keeps (occurrences_are oc) (markAttemptStarted key)"
  unfolding markAttemptStarted_def by (intro hoare_rules occ_checkpointWrite occ_stopping)

lemma occ_waitForRetry: "keeps (occurrences_are oc) (waitForRetry d)"
  unfolding waitForRetry_def waitUntil_def by (intro hoare_rules occ_stopping)

lemma occ_cases [hoare_rules]:
  "(\<And>v. keeps I (f v)) \<Longrightarrow> (\<And>e. keeps I (g e)) \<Longrightarrow> (\<And>e. keeps I (h e)) \<Longrightarrow>
    keeps I (case x of Value v \<Rightarrow> f v | Failure e \<Rightarrow> g e | Stop e \<Rightarrow> h e)"
  "(\<And>e. keeps I (f' e)) \<Longrightarrow> (\<And>d. keeps I (g' d)) \<Longrightarrow> keeps I (case p of Final e \<Rightarrow> f' e | RetryAt d \<Rightarrow> g' d)"
  by (cases x; simp) (cases p; simp)

lemma occ_step_loop: "keeps (occurrences_are oc) (step_loop fuel outside cv key retry transactional fn)"
  by (induction fuel)
    (auto intro!: hoare_rules occ_stopping occ_markAttemptStarted occ_runAttempt occ_recordFailed occ_waitForRetry)

lemma occ_case_status [hoare_rules]:
  "keeps I a \<Longrightarrow> keeps I b \<Longrightarrow> keeps I c \<Longrightarrow> keeps I d \<Longrightarrow> keeps I e \<Longrightarrow> keeps I f \<Longrightarrow>
    keeps I (case st of StepRunning \<Rightarrow> a | StepWaiting \<Rightarrow> b | StepRetrying \<Rightarrow> c | StepSucceeded \<Rightarrow> d
      | StepFailed \<Rightarrow> e | StepTimedOut \<Rightarrow> f)"
  by (cases st) simp_all

lemma occ_runStep: "keeps (occurrences_are oc) (runStep fuel outside cv key options transactional fn)"
  unfolding runStep_def Let_def
  by (intro hoare_rules occ_stopping occ_step_loop occ_waitForRetry occ_recordFailed)

section \<open>A function that starts asynchronous steps\<close>

text \<open>
  A call of \<open>Async\<close> with its arguments, and the tasks that run before the function reaches it.
\<close>

record 'v async_call =
  ac_before :: "nat list"
  ac_name :: string
  ac_fn :: "string \<Rightarrow> 'v result conduct io"
  ac_options :: "step_option list"

fun start_steps :: "nat \<Rightarrow> int \<Rightarrow> 'v codec \<Rightarrow> 'v async_call list \<Rightarrow> ('v result option, async_future list) pooled" where
  "start_steps fuel outside cv [] = State_Monad.return []"
| "start_steps fuel outside cv (c # cs) = do {
     run_tasks (ac_before c);
     f \<leftarrow> Async fuel outside cv (ac_name c) (ac_fn c) (ac_options c);
     fs \<leftarrow> start_steps fuel outside cv cs;
     State_Monad.return (f # fs) }"

definition step_tasks :: "'r task list \<Rightarrow> bool" where
  "step_tasks ts \<longleftrightarrow> (\<forall>t \<in> set ts. \<forall>oc. keeps (occurrences_are oc) (t_body t))"

definition pool_inv :: "string list \<Rightarrow> (string \<Rightarrow> nat) \<Rightarrow> 'r task list \<times> activation \<times> world \<Rightarrow> bool" where
  "pool_inv ks oc s \<longleftrightarrow> map t_key (fst s) = ks \<and> step_tasks (fst s) \<and> occurrences_are oc (snd s)"

lemma step_tasks_update: "step_tasks ts \<Longrightarrow> i < length ts \<Longrightarrow> step_tasks (ts[i := (ts ! i)\<lparr>t_result := r\<rparr>])"
  unfolding step_tasks_def by (auto dest!: set_update_subset_insert [THEN subsetD] nth_mem)

lemma run_task_keeps: "keeps (pool_inv ks oc) (run_task i)"
proof (rule hoareI)
  fix s r s'
  assume inv: "pool_inv ks oc s" and run: "run_state (run_task i) s = (r, s')"
  obtain ts aw where s: "s = (ts, aw)" by (cases s)
  show "pool_inv ks oc s'"
  proof (cases "i < length ts \<and> t_result (ts ! i) = None")
    case True
    obtain q aw' where q: "run_state (t_body (ts ! i)) aw = (q, aw')" by (cases "run_state (t_body (ts ! i)) aw")
    have s': "s' = (ts[i := (ts ! i)\<lparr>t_result := Some q\<rparr>], aw')" using run True q by (simp add: s run_simps)
    have "keeps (occurrences_are oc) (t_body (ts ! i))"
      using inv True by (simp add: s pool_inv_def step_tasks_def)
    from hoareD [OF this _ q] inv have "occurrences_are oc aw'" by (simp add: s pool_inv_def)
    moreover have "map t_key (ts[i := (ts ! i)\<lparr>t_result := Some q\<rparr>]) = map t_key ts"
      using True by (simp add: map_update list_update_same_conv)
    ultimately show ?thesis using inv True by (simp add: s s' pool_inv_def step_tasks_update)
  next
    case False
    then show ?thesis using run inv by (auto simp: s run_simps split: if_splits)
  qed
qed

lemma run_tasks_keeps: "keeps (pool_inv ks oc) (run_tasks is)"
  by (induction "is") (auto intro!: hoare_rules run_task_keeps)

lemma Async_keeps:
  assumes "validName name"
  shows "hoare (pool_inv ks oc) (Async fuel outside cv name fn options)
    (\<lambda>f. pool_inv (ks @ [key_of name (oc name + 1)]) (oc(name := oc name + 1)))"
proof (rule hoareI)
  fix s f s'
  assume inv: "pool_inv ks oc s" and run: "run_state (Async fuel outside cv name fn options) s = (f, s')"
  obtain ts a w where s: "s = (ts, a, w)" by (cases s)
  show "pool_inv (ks @ [key_of name (oc name + 1)]) (oc(name := oc name + 1)) s'"
    using run inv assms
    by (auto simp: s Async_def run_simps pool_inv_def occurrences_are_def step_tasks_def occ_runStep)
qed

lemma start_steps_keeps:
  assumes "list_all validName (map ac_name cs)"
  shows "hoare (pool_inv ks oc) (start_steps fuel outside cv cs)
    (\<lambda>_ s. \<exists>oc'. pool_inv (ks @ keys_from oc (map ac_name cs)) oc' s)"
  using assms
proof (induction cs arbitrary: ks oc)
  case Nil
  then show ?case by (auto intro: hoare_return)
next
  case (Cons c cs)
  then have name: "validName (ac_name c)" and rest: "list_all validName (map ac_name cs)" by simp_all
  let ?k = "key_of (ac_name c) (oc (ac_name c) + 1)" and ?oc = "oc(ac_name c := oc (ac_name c) + 1)"
  have ih: "hoare (pool_inv (ks @ [?k]) ?oc) (start_steps fuel outside cv cs)
      (\<lambda>_ s. \<exists>oc'. pool_inv (ks @ keys_from oc (map ac_name (c # cs))) oc' s)"
    using Cons.IH [OF rest, of "ks @ [?k]" ?oc] by (simp del: fun_upd_apply)
  show ?case unfolding start_steps.simps
    by (rule hoare_bind [OF run_tasks_keeps], rule hoare_bind [OF Async_keeps [OF name]],
        rule hoare_bind [OF ih], rule hoare_return)
qed

text \<open>A task that has a result keeps it, and once it ran it has one.\<close>

definition ran :: "nat set \<Rightarrow> 'r task list \<times> activation \<times> world \<Rightarrow> bool" where
  "ran S s \<longleftrightarrow> (\<forall>i \<in> S. i < length (fst s) \<longrightarrow> t_result (fst s ! i) \<noteq> None)"

lemma run_task_ran: "hoare (ran S) (run_task i) (\<lambda>_. ran (insert i S))"
proof (rule hoareI)
  fix s r s'
  assume inv: "ran S s" and run: "run_state (run_task i) s = (r, s')"
  obtain ts aw where s: "s = (ts, aw)" by (cases s)
  show "ran (insert i S) s'"
    using run inv by (auto simp: s run_simps ran_def nth_list_update split: if_splits prod.splits)
qed

lemma run_tasks_ran: "hoare (ran S) (run_tasks is) (\<lambda>_. ran (set is \<union> S))"
proof (induction "is" arbitrary: S)
  case (Cons i "is")
  show ?case unfolding run_tasks.simps
    by (rule hoare_bind [OF run_task_ran], rule hoare_post [OF Cons.IH]) simp
qed (auto intro: hoare_return)

lemma run_tasks_length: "length (fst (snd (run_state (run_tasks is) (ts, s)))) = length ts"
proof (induction "is" arbitrary: ts s)
  case (Cons i "is")
  have "length (fst (snd (run_state (run_task i) (ts, s)))) = length ts" by (auto simp: run_simps split: prod.splits)
  with Cons show ?case by (cases "run_state (run_task i) (ts, s)") (auto split: prod.splits)
qed simp

lemma drain_keeps: "keeps (pool_inv ks oc) (drain sched)"
proof -
  have "keeps (pool_inv ks oc) (State (\<lambda>(ts, s). (length ts, (ts, s))))" by (auto simp: hoare_def)
  then show ?thesis unfolding drain_def by (intro hoare_rules run_tasks_keeps)
qed

lemma drain_all:
  assumes "run_state (drain sched) (ts, s) = (r, (ts', s'))"
  shows "list_all (\<lambda>t. t_result t \<noteq> None) ts'"
proof -
  obtain ts1 s1 where 1: "run_state (run_tasks sched) (ts, s) = ((), (ts1, s1))"
    by (cases "run_state (run_tasks sched) (ts, s)") auto
  have 2: "run_state (run_tasks [0..<length ts1]) (ts1, s1) = (r, (ts', s'))"
    using assms 1 by (simp add: drain_def)
  have "ran ({..<length ts1} \<union> {}) (ts', s')"
    using hoareD [OF run_tasks_ran _ 2, of "{}"] by (simp add: ran_def atLeast0LessThan)
  moreover have "length ts' = length ts1" using run_tasks_length [of "[0..<length ts1]" ts1 s1] 2 by simp
  ultimately show ?thesis by (simp add: ran_def list_all_length)
qed


text \<open>Two steps of the same name; the first task runs before the second call.\<close>

definition sample_calls :: "string async_call list" where
  "sample_calls = [\<lparr>ac_before = [], ac_name = ''pay'', ac_fn = (\<lambda>_. State_Monad.return (Returns (Inr ''1''))), ac_options = []\<rparr>,
     \<lparr>ac_before = [0], ac_name = ''pay'', ac_fn = (\<lambda>_. State_Monad.return (Panics ''no'')), ac_options = []\<rparr>]"


lemma state_eqI: "(\<And>s. run_state m s = run_state n s) \<Longrightarrow> m = n"
  by (cases m; cases n) (simp add: fun_eq_iff)

text \<open>Without asynchronous steps this is \<open>executeFunction\<close> of the activation.\<close>

lemma executeFunction_async_plain: "executeFunction_async sched (in_act fn) = executeFunction fn"
proof -
  have none: "run_state (run_tasks is) ([], s) = ((), ([], s))" for "is" s
    by (induction "is") (simp_all add: run_simps)
  have "run_state (executeFunction_async sched (in_act fn)) s = run_state (executeFunction fn) s" for s
    by (cases "run_state fn s"; cases "fst (run_state fn s)")
      (auto simp: executeFunction_async_def executeFunction_def drain_def run_simps none split: prod.splits)
  then show ?thesis by (rule state_eqI)
qed

end
