(* ===== verification/Fx_Modules.thy ===== *)
theory Fx_Modules
  imports Workflow_Async Queue_Retention Schema Admin_Ui
begin

text \<open>
  The modules of \<open>src/fx\<close> and the server of \<open>adminui/adminui.go\<close>: what each module constructs, the
  lifecycle hooks it appends in order, and what a hook does when the application starts and stops. The
  container (\<open>go.uber.org/fx\<close>) calls the hooks; nothing is assumed of the order in which it does. The
  goroutines a hook starts run beside it, so the select of a stop hook is decided by an argument.
\<close>

section \<open>State and hooks\<close>

text \<open>A goroutine of a hook: not started, live with its context cancelled or not, or ended.\<close>

datatype background = Idle | Live bool | Ended

text \<open>
  The server of the admin interface: whether \<open>u.server\<close> is set, whether it listens, and whether
  \<open>Shutdown\<close> was called on it. \<open>net/http\<close> documents that \<open>ListenAndServe\<close> of a server that was shut
  down returns \<open>ErrServerClosed\<close> at once.
\<close>

record server =
  sv_set :: bool
  sv_listening :: bool
  sv_shut :: bool

record app =
  app_world :: world
  app_retention :: background
  app_worker :: background
  app_serving :: background
  app_server :: server

type_synonym 'a fx = "(app, 'a) state"

record hook =
  OnStart :: "err option fx"
  OnStop :: "bool \<Rightarrow> sentinel \<Rightarrow> err option fx"

definition in_app :: "'a io \<Rightarrow> 'a fx" where
  "in_app m = State (\<lambda>p. case run_state m (app_world p) of (r, w) \<Rightarrow> (r, p\<lparr>app_world := w\<rparr>))"

definition no_stop :: "bool \<Rightarrow> sentinel \<Rightarrow> err option fx" where
  "no_stop stopped_first cause = State_Monad.return None"

text \<open>The result of a call as the error a hook returns.\<close>

definition err_of :: "unit result \<Rightarrow> err option" where
  "err_of r = (case r of Inl e \<Rightarrow> Some e | Inr _ \<Rightarrow> None)"

definition cancel_background :: "background \<Rightarrow> background" where
  "cancel_background b = (case b of Live _ \<Rightarrow> Live True | _ \<Rightarrow> b)"

text \<open>
  The select of a stop hook: \<open>stopped_first\<close> says that the goroutine ended before the stop context, which
  a goroutine that never started cannot; otherwise the cause of that context is returned.
\<close>

definition await_end :: "background \<Rightarrow> bool \<Rightarrow> sentinel \<Rightarrow> err option \<times> background" where
  "await_end b stopped_first cause =
     (if stopped_first \<and> b \<noteq> Idle then (None, Ended) else (Some (Sentinel cause), b))"

section \<open>The queue's module\<close>

record fx_queue_options =
  fq_EnsureSchema :: bool
  fq_Retention :: "retention_policy option"

definition fx_queue_client :: "bool \<Rightarrow> bool \<Rightarrow> client option result" where
  "fx_queue_client db_set pgx = NewClient db_set pgx"

definition schema_hook :: "unit result io \<Rightarrow> hook" where
  "schema_hook m = \<lparr>OnStart = do { r \<leftarrow> in_app m; State_Monad.return (err_of r) }, OnStop = no_stop\<rparr>"

definition retention_hook :: "retention_policy \<Rightarrow> hook" where
  "retention_hook policy = \<lparr>
     OnStart = (case Validate policy of
         Some e \<Rightarrow> State_Monad.return (Some e)
       | None \<Rightarrow> State (\<lambda>p. (None, p\<lparr>app_retention := Live False\<rparr>))),
     OnStop = (\<lambda>stopped_first cause. State (\<lambda>p.
       case await_end (cancel_background (app_retention p)) stopped_first cause of
         (e, b) \<Rightarrow> (e, p\<lparr>app_retention := b\<rparr>)))\<rparr>"

definition fx_queue_hooks :: "fx_queue_options \<Rightarrow> client option \<Rightarrow> hook list" where
  "fx_queue_hooks opts c =
     (if fq_EnsureSchema opts then [schema_hook (EnsureSchema c)] else [])
     @ (case fq_Retention opts of None \<Rightarrow> [] | Some policy \<Rightarrow> [retention_hook policy])"

section \<open>The workflow module\<close>

type_synonym fx_workflow = "wf_definition \<times> (string \<Rightarrow> string result conduct act)"

record fx_workflow_options =
  fw_EnsureSchema :: bool
  fw_StartWorker :: bool
  fw_WorkerID :: string
  fw_Pickup :: pickup
  fw_WorkerConfig :: wf_worker_config
  fw_Workflows :: "fx_workflow list"

definition worker_hook :: hook where
  "worker_hook = \<lparr>
     OnStart = State (\<lambda>p. (None, p\<lparr>app_worker := Live False\<rparr>)),
     OnStop = (\<lambda>stopped_first cause. State (\<lambda>p.
       case await_end (cancel_background (app_worker p)) stopped_first cause of
         (e, b) \<Rightarrow> (e, p\<lparr>app_worker := b\<rparr>)))\<rparr>"

text \<open>\<open>appendWorker\<close>; \<open>build\<close> is \<open>wf_Build\<close> with its parameters.\<close>

definition appendWorker ::
  "(wf_worker_builder \<Rightarrow> worker list result) \<Rightarrow> wf_client \<Rightarrow> fx_workflow_options \<Rightarrow> fx_workflow list \<Rightarrow> hook result" where
  "appendWorker build c opts workflows =
     (let i = (if fw_WorkerID opts = [] then ''pgkit-workflow'' else fw_WorkerID opts) in
      case build (wf_Tune (wf_Pickup (Workflows (Client_Worker c i) workflows) (fw_Pickup opts)) (fw_WorkerConfig opts)) of
        Inl e \<Rightarrow> Inl (wrap ''build workflow worker: '' e)
      | Inr _ \<Rightarrow> Inr worker_hook)"

definition fx_workflow_hooks ::
  "(wf_worker_builder \<Rightarrow> worker list result) \<Rightarrow> fx_workflow_options \<Rightarrow> wf_client \<Rightarrow> fx_workflow list \<Rightarrow> hook list result" where
  "fx_workflow_hooks build opts c provided =
     (let schema = (if fw_EnsureSchema opts then [schema_hook wf_EnsureSchema] else []) in
      if \<not> fw_StartWorker opts then Inr schema
      else (case appendWorker build c opts (fw_Workflows opts @ provided) of
          Inl e \<Rightarrow> Inl e | Inr h \<Rightarrow> Inr (schema @ [h])))"

section \<open>The admin interface's module\<close>

text \<open>The two halves of \<open>ListenAndServe\<close>: the assignment of \<open>u.server\<close>, and the call on it.\<close>

definition serve_assign :: "server \<Rightarrow> server" where
  "serve_assign v = v\<lparr>sv_set := True, sv_listening := False, sv_shut := False\<rparr>"

definition serve_listen :: "server \<Rightarrow> server" where
  "serve_listen v = (if sv_shut v then v else v\<lparr>sv_listening := True\<rparr>)"

definition defaultAdminServerAddr :: string where
  "defaultAdminServerAddr = ''127.0.0.1:18081''"

definition listen_addr :: "string \<Rightarrow> string" where
  "listen_addr addr = (if addr = [] then defaultAdminServerAddr else addr)"

text \<open>What \<open>ListenAndServe\<close> returns, given the answer of the server: a closed server is no error.\<close>

definition listen_result :: "err option \<Rightarrow> bool \<Rightarrow> err option" where
  "listen_result e closed_server = (if closed_server then None else e)"

text \<open>
  \<open>Shutdown\<close>: without a server nothing happens; \<open>http.Server.Shutdown\<close> stops listening at once and
  answers the cause of its context when that ends before the connections are idle.
\<close>

definition Shutdown :: "bool \<Rightarrow> sentinel \<Rightarrow> server \<Rightarrow> err option \<times> server" where
  "Shutdown idle_first cause v = (if \<not> sv_set v then (None, v)
     else (if idle_first then None else Some (Sentinel cause), v\<lparr>sv_listening := False, sv_shut := True\<rparr>))"

definition server_hook :: hook where
  "server_hook = \<lparr>
     OnStart = State (\<lambda>p. (None, p\<lparr>app_serving := Live False\<rparr>)),
     OnStop = (\<lambda>idle_first cause. State (\<lambda>p.
       case Shutdown idle_first cause (app_server p) of (e, v) \<Rightarrow> (e, p\<lparr>app_server := v\<rparr>)))\<rparr>"

definition fx_admin_ui ::
  "(string \<Rightarrow> string) \<Rightarrow> client option \<Rightarrow> wf_client option \<Rightarrow> admin_options \<Rightarrow> admin_ui result" where
  "fx_admin_ui env q workflow opts =
     admin_New env q (if ao_Workflow opts = None then opts\<lparr>ao_Workflow := workflow\<rparr> else opts)"

definition fx_admin_hooks :: "bool \<Rightarrow> hook list" where
  "fx_admin_hooks start_server = (if start_server then [server_hook] else [])"

section \<open>All modules\<close>

definition fx_all_hooks ::
  "(wf_worker_builder \<Rightarrow> worker list result) \<Rightarrow> fx_queue_options \<Rightarrow> fx_workflow_options \<Rightarrow> bool \<Rightarrow> client option \<Rightarrow>
    wf_client \<Rightarrow> fx_workflow list \<Rightarrow> hook list result" where
  "fx_all_hooks build qo wo start_server q c provided = (case fx_workflow_hooks build wo c provided of
       Inl e \<Rightarrow> Inl e
     | Inr hs \<Rightarrow> Inr (fx_queue_hooks qo q @ hs @ fx_admin_hooks start_server))"

section \<open>Starting and stopping\<close>

text \<open>An invalid retention policy is refused at start, and no goroutine is left behind.\<close>

lemma retention_start_refuses:
  "Validate policy = Some e \<Longrightarrow> run_state (OnStart (retention_hook policy)) p = (Some e, p) \<and> errors_is e ErrInvalidRetentionPolicy"
  by (auto simp: retention_hook_def Validate_def policy_validate_def split: if_splits)

lemma retention_stop:
  assumes "run_state (OnStart (retention_hook policy)) p = (None, p1)"
    and "run_state (OnStop (retention_hook policy) stopped_first cause) p1 = (e, p2)"
  shows "app_retention p2 = (if e = None then Ended else Live True)"
  using assms by (auto simp: retention_hook_def await_end_def cancel_background_def split: option.splits if_splits)

text \<open>A worker that cannot be built keeps the application from starting.\<close>

lemma fx_all_refuses:
  "fw_StartWorker wo \<Longrightarrow> fw_Workflows wo @ provided = [] \<Longrightarrow>
    \<exists>e. fx_all_hooks (wf_Build outside rnd decode interrupt) qo wo start_server q c provided = Inl e \<and> errors_is e ErrNoWorkflows"
  by (auto simp: fx_all_hooks_def fx_workflow_hooks_def appendWorker_def wf_Build_def wf_Tune_def wf_Pickup_def
      Workflows_def Client_Worker_def Let_def)

section \<open>Stopping the server\<close>

text \<open>The goroutine that serves and the stop hook, in any order of their actions.\<close>

datatype serve_action = Assigns | Listens | Stops bool sentinel

fun serve_run :: "serve_action list \<Rightarrow> server \<Rightarrow> server" where
  "serve_run [] v = v"
| "serve_run (Assigns # xs) v = serve_run xs (serve_assign v)"
| "serve_run (Listens # xs) v = serve_run xs (serve_listen v)"
| "serve_run (Stops b s # xs) v = serve_run xs (snd (Shutdown b s v))"

definition no_server :: server where
  "no_server = \<lparr>sv_set = False, sv_listening = False, sv_shut = False\<rparr>"

text \<open>
  The stop hook ends the server unless it comes before the goroutine has stored it: then \<open>Shutdown\<close>
  answers nil, nothing is stopped, and the server listens from then on.
\<close>

lemma stop_after_assign:
  "\<not> sv_listening (serve_run [Assigns, Stops b s, Listens] no_server)"
  "\<not> sv_listening (serve_run [Assigns, Listens, Stops b s] no_server)"
  by (simp_all add: serve_assign_def serve_listen_def Shutdown_def)

theorem shutdown_misses_server:
  assumes "app_server p = no_server"
    and "run_state (OnStart server_hook) p = (e1, p1)"
    and "run_state (OnStop server_hook idle_first cause) p1 = (e2, p2)"
  shows "e1 = None \<and> e2 = None \<and> sv_listening (serve_run [Assigns, Listens] (app_server p2))"
  using assms by (auto simp: server_hook_def serve_assign_def serve_listen_def Shutdown_def no_server_def)

end
