(* ===== verification/Spec2Isabelle.thy ===== *)
theory Spec2Isabelle
  imports Queue_Retention Pgcron Workflow_Purge Workflow_Retry Schema_Properties Admin_Properties Admin_Views
    Workflow_Handler Fx_Modules
begin

text \<open>
  \<^bold>\<open>pgkit\<close> is a Go toolkit that keeps background work in PostgreSQL: a job queue (\<open>src/queue\<close>), advisory
  locks (\<open>src/pglock\<close>), recurring jobs (\<open>src/pgcron\<close>), durable workflows on top of the queue
  (\<open>src/workflow\<close>), two web interfaces over them (\<open>src/queue/dashboard.go\<close>, \<open>src/adminui\<close>), and modules
  that wire them into an application (\<open>src/fx\<close>). This
  development models those packages statement by statement and proves what makes them correct. This
  header says how the theories correspond to the code, what they show, and what is left out.

  \<^bold>\<open>How the parts interact.\<close> Every package works on one database through \<open>database/sql\<close>. Queue workers
  claim rows of \<open>pgqueue_jobs\<close>, call the application's handler and settle the row; \<open>NOTIFY\<close> wakes
  subscribers through one shared \<open>LISTEN\<close> connection. A workflow run is a row of \<open>pgworkflow_runs\<close> with
  one queue job; the worker's handler takes the run over, replays the workflow function against the
  checkpoints of \<open>pgworkflow_steps\<close> and parks, finishes or releases the run together with its job. The
  web interfaces read all tables and call the same clients.

  \<^bold>\<open>The world.\<close> \<open>Prelude\<close> has Go errors (\<open>err\<close>, \<open>errors_is\<close>, \<open>err_text\<close>), the result type \<open>err + 'a\<close>
  and the string functions in use; \<open>Utf8\<close> the decoding of runes. \<open>Database\<close> has the record \<open>world\<close>: the
  tables, those to roll back to while a transaction is open, the sequences, the clock, the row and
  advisory locks, what was notified and logged, and a script of failures to come. A call of \<open>database/sql\<close> is a program of the state monad; before it runs,
  the script may delay it, make it fail before its effect, or make it fail after its effect (a lost
  confirmation). Every theorem without a hypothesis on \<open>script\<close> holds for every pattern of failures.
  Time passes only between calls, instants are microseconds and durations nanoseconds as in the code.
  A transaction is atomic against other sessions: what others do happens between calls outside of
  transactions, which is what the row locks of the code (\<open>FOR UPDATE\<close>, \<open>SKIP LOCKED\<close>) buy. \<open>Transactions\<close>
  is the Hoare logic for transaction bodies, its assertion \<open>opened\<close> says what holds inside one.

  \<^bold>\<open>The queue.\<close> \<open>Job_Queue\<close> models \<open>queue/queue.go\<close> and \<open>queue/park.go\<close>; \<open>Queue_Listing\<close> the listings of
  \<open>queue/queue.go\<close>; \<open>Notifier\<close> the step relation \<open>hub_step\<close> of \<open>queue/notify.go\<close>, \<open>queue/subscribe.go\<close> and
  \<open>queue/pickup.go\<close>, one step per critical section; \<open>Queue_Worker\<close> the files \<open>queue/worker.go\<close>,
  \<open>queue/typed.go\<close>, \<open>queue/builder.go\<close> and \<open>queue/trace.go\<close>; \<open>Queue_Retention\<close> the file
  \<open>queue/retention.go\<close>. \<open>Queue_Invariants\<close>, \<open>Queue_Properties\<close> and \<open>Queue_Contracts\<close> show that every
  reachable jobs table is sound, that a claim that was superseded is refused everywhere, what each
  operation does to exactly which rows, and that rows follow an abstract life cycle. \<open>Worker_Properties\<close>
  shows what a handler's outcome does and that the worker keeps the tables sound.

  \<^bold>\<open>Locks and recurring jobs.\<close> \<open>Pglock\<close> models \<open>pglock/lock.go\<close> with the hash on 64-bit words, \<open>Pgcron\<close>
  the files \<open>pgcron/cron.go\<close> and \<open>pgcron/builder.go\<close>: locks exclude and are released, a pass of a
  recurring job is all or nothing and keeps its cadence.

  \<^bold>\<open>Workflows.\<close> \<open>Workflow_Core\<close> models the values (\<open>workflow/options.go\<close>, \<open>workflow/workflow.go\<close>,
  \<open>workflow/schema.go\<close>, \<open>workflow/signal.go\<close>, \<open>workflow/errors.go\<close>, \<open>workflow/records.go\<close>),
  \<open>Workflow_Client\<close> the file \<open>workflow/client.go\<close>, \<open>Workflow_Inspect\<close> the file \<open>workflow/inspect.go\<close>,
  \<open>Workflow_Activation\<close> the file \<open>workflow/activation.go\<close>, \<open>Workflow_Context\<close> the file
  \<open>workflow/context.go\<close>, \<open>Workflow_Worker\<close> the file \<open>workflow/worker.go\<close>. An operation of an activation
  is a program over the activation's fields and the world. \<open>Workflow_Fence\<close> shows that an activation with
  an old lease writes nothing and that executing one ends; \<open>Workflow_Replay\<close> and \<open>Workflow_Steps\<close> that
  steps replay their results and their retries end; \<open>Workflow_Start\<close>, \<open>Workflow_Cancel\<close>,
  \<open>Workflow_Takeover\<close>, \<open>Workflow_Signals\<close>, \<open>Workflow_Retry\<close> and \<open>Workflow_Purge\<close> what the operations on runs do;
  \<open>Workflow_Invariants\<close> that all of them, in any order and with any failures, keep the tables sound.
  \<open>Workflow_Handler\<close> composes taking over, executing and finishing: whatever fails, a run and its job are
  settled together or left together.

  \<^bold>\<open>Goroutines of the workflow package.\<close> \<open>Workflow_Run\<close> models \<open>Run\<close> and \<open>Ready\<close> of \<open>workflow/worker.go\<close> as the
  step relation \<open>fleet_step\<close>: any number of calls, each with a goroutine per slot whose turns are those of
  the queue worker, one for the reconciler and one that closes the ready channel, interleaved at will with
  cancellations. The channel is closed at most once and only when every slot is ready, one call works at a
  time, and a call whose context ended can always return. \<open>Workflow_Reconcile\<close> models \<open>reconcile\<close> and shows that
  a pass leaves no orphaned run. \<open>Workflow_Watch\<close> models \<open>watch\<close> of \<open>workflow/activation.go\<close> over any sequence of
  beats and notifications between which other sessions act: an owner is never cancelled, a takeover is
  noticed. \<open>Workflow_Async\<close> models \<open>workflow/future.go\<close> and the asynchronous steps of \<open>workflow/context.go\<close> as a
  pool of tasks that run, each as a whole, at any point of a schedule: keys do not depend on the schedule,
  and no step is left behind.

  \<^bold>\<open>Wiring.\<close> \<open>Fx_Modules\<close> models \<open>fx/all.go\<close>, \<open>fx/queue/module.go\<close>, \<open>fx/workflow/module.go\<close>,
  \<open>fx/adminui/module.go\<close> and the server of \<open>adminui/adminui.go\<close>: the hooks each module appends and what they
  do. A refused policy or worker leaves nothing running; a stop that comes before the goroutine of the server
  has stored it stops nothing.

  \<^bold>\<open>Schemas.\<close> \<open>Schema\<close> models \<open>EnsureSchema\<close> of \<open>queue/queue.go\<close> and \<open>workflow/schema.go\<close> over the catalog of the
  world: tables with columns, indexes and recorded versions. \<open>Schema_Properties\<close> shows that migrations can be
  interrupted anywhere and repeated. The other theories take the tables as created.

  \<^bold>\<open>Web interfaces.\<close> \<open>Http\<close> models what \<open>net/http\<close> and \<open>strconv\<close> do for a handler: requests, routing,
  error responses, numbers. \<open>Payload\<close> models \<open>adminui/payload.go\<close>, \<open>Dashboard\<close> the whole of
  \<open>queue/dashboard.go\<close>, \<open>Admin_Queries\<close> the files \<open>adminui/params.go\<close>, \<open>adminui/queue_queries.go\<close>,
  \<open>adminui/locks.go\<close> and the queue's part of \<open>adminui/overview.go\<close>, \<open>Admin_Workflow\<close> the queries of
  \<open>adminui/workflow_queries.go\<close>, \<open>Admin_Ui\<close> the handlers and \<open>adminui/assets.go\<close>. A handler is a program
  from a request to a response. The locale \<open>guarded_site\<close> of \<open>Dashboard_Properties\<close> is the contract of
  guarded routes; both interfaces are interpretations of it, so a request without the token does
  nothing and only trusted requests change tables. \<open>Admin_Properties\<close> shows that they keep all invariants
  and that server errors stay opaque, \<open>Admin_Views\<close> that the throughput counts every job once and that
  the tree of a run is complete unless marked as truncated.

  \<^bold>\<open>Interfaces.\<close> \<open>db_invariant\<close> and its extensions say what a predicate on the tables has to survive so
  that all operations keep it; they are interpreted on the jobs and the workflow invariants, on \<open>tables
  are unchanged\<close> and on \<open>no job is added\<close>.

  \<^bold>\<open>Loops and fuel.\<close> \<open>execute\<close> replays at most \<open>maxReplays\<close> times and answers within \<open>maxReplays + 1\<close>
  rounds; the loop of a step answers within the attempts of its policy; \<open>cancelTreeTx\<close> and \<open>lockTreesTx\<close>
  answer at their second look, since nothing changes between the looks of one transaction; \<open>retryTx\<close> needs
  one call more than there are runs when no run is below itself; the levels of
  a run tree are exhausted after one level more than there are runs; each delete loop of \<open>PurgeFinished\<close>
  ends within one batch more than there are rows. Each of these bounds is a theorem. The loops of workers,
  listeners and schedulers run until their context ends: they are modelled over any sequence of ticks and
  wakes.

  \<^bold>\<open>Parameters.\<close> The application's handlers, workflow functions, callbacks and codecs, random numbers,
  OpenTelemetry, HTML templates, JSON encoding and decoding, \<open>url.Parse\<close>, MIME types and gzip are
  arguments of the definitions that use them.

  \<^bold>\<open>Not modelled.\<close> The types, defaults and constraints of columns beyond what the records of \<open>Database\<close>
  have; the timeout of a step; interleavings inside one asynchronous step; the cache of compressed assets,
  which only saves time; the server of the queue's dashboard, which has the same three functions as that of
  \<open>adminui\<close>; the container of \<open>go.uber.org/fx\<close>; dialling the listening connection from the pool's
  configuration (\<open>pgx\<close>); the span attributes of \<open>queue/trace.go\<close>, which go to OpenTelemetry only; the example
  programs of \<open>src/cmd\<close>, which only call the packages above, the test helper \<open>src/internal/testdb\<close>, which starts
  a container, and the browser's TypeScript.
\<close>

end
